(* ===== verification/Fabric_Prelude.thy ===== *)
theory Fabric_Prelude
  imports Main "HOL-Library.AList" "HOL-Library.Multiset"
begin

text \<open>
  What the components share: the functions of the Go standard library that the modelled code
  calls (package \<open>strings\<close>, decimal printing and \<open>strconv.Atoi\<close>, 64-bit wrap-around, the
  calendar functions of \<open>time.Time\<close> in UTC), association-list objects standing for Go's
  \<open>map[string]any\<close>, and the interface locales the components interpret.

  Go strings are byte strings, modelled as \<^typ>\<open>string\<close>. The case mappings below act on the
  ASCII letters and leave every other byte alone.
\<close>

section \<open>Hint collections\<close>

named_theorems store_simps "what a lookup returns after a write"
named_theorems frame_simps "fields that an operation leaves alone"

section \<open>Package strings\<close>

definition has_prefix :: "string \<Rightarrow> string \<Rightarrow> bool" where
  "has_prefix s p \<longleftrightarrow> take (length p) s = p"

definition trim_prefix :: "string \<Rightarrow> string \<Rightarrow> string" where
  "trim_prefix s p = (if has_prefix s p then drop (length p) s else s)"

fun contains_str :: "string \<Rightarrow> string \<Rightarrow> bool" where
  "contains_str [] sub = (sub = [])"
| "contains_str (c # cs) sub = (has_prefix (c # cs) sub \<or> contains_str cs sub)"

fun split_on :: "char \<Rightarrow> string \<Rightarrow> string list" where
  "split_on sep [] = [[]]"
| "split_on sep (c # cs) =
     (if c = sep then [] # split_on sep cs
      else (case split_on sep cs of
              [] \<Rightarrow> [[c]]
            | w # ws \<Rightarrow> (c # w) # ws))"

text \<open>\<open>strings.Index(s, c)\<close> for a one-byte \<open>c\<close>; \<open>None\<close> stands for \<open>-1\<close>.\<close>

fun index_of :: "char \<Rightarrow> string \<Rightarrow> nat option" where
  "index_of c [] = None"
| "index_of c (x # xs) = (if x = c then Some 0 else map_option Suc (index_of c xs))"

text \<open>\<open>strings.LastIndex(s, c)\<close> for a one-byte \<open>c\<close>.\<close>

fun last_index_of :: "char \<Rightarrow> string \<Rightarrow> nat option" where
  "last_index_of c [] = None"
| "last_index_of c (x # xs) =
     (case last_index_of c xs of
        Some i \<Rightarrow> Some (Suc i)
      | None \<Rightarrow> if x = c then Some 0 else None)"

definition lower_char :: "char \<Rightarrow> char" where
  "lower_char c = (if 65 \<le> (of_char c :: nat) \<and> (of_char c :: nat) \<le> 90
                   then char_of (of_char c + 32 :: nat) else c)"

definition to_lower :: "string \<Rightarrow> string" where
  "to_lower s = map lower_char s"

definition equal_fold :: "string \<Rightarrow> string \<Rightarrow> bool" where
  "equal_fold s t \<longleftrightarrow> to_lower s = to_lower t"

definition is_space :: "char \<Rightarrow> bool" where
  "is_space c \<longleftrightarrow> c \<in> {CHR '' '', CHR 0x09, CHR 0x0A, CHR 0x0B, CHR 0x0C, CHR 0x0D}"

definition trim_space :: "string \<Rightarrow> string" where
  "trim_space s = rev (dropWhile is_space (rev (dropWhile is_space s)))"

text \<open>\<open>strings.Compare\<close>: the three-way lexicographic comparison of bytes.\<close>

fun str_compare :: "string \<Rightarrow> string \<Rightarrow> int" where
  "str_compare [] [] = 0"
| "str_compare [] (d # ds) = -1"
| "str_compare (c # cs) [] = 1"
| "str_compare (c # cs) (d # ds) =
     (if (of_char c :: nat) < of_char d then -1
      else if (of_char d :: nat) < of_char c then 1
      else str_compare cs ds)"

lemma has_prefix_append [simp]: "has_prefix (p @ s) p"
  by (simp add: has_prefix_def)

lemma has_prefixD: "has_prefix s p \<Longrightarrow> \<exists>t. s = p @ t"
  unfolding has_prefix_def by (metis append_take_drop_id)

lemma trim_prefix_append [simp]: "trim_prefix (p @ s) p = s"
  by (simp add: trim_prefix_def)

lemma split_on_nonempty [simp]: "split_on c s \<noteq> []"
  by (cases s) (auto split: list.splits)

lemma split_on_no_sep: "c \<notin> set s \<Longrightarrow> split_on c s = [s]"
  by (induction s) auto

lemma split_on_append: "c \<notin> set s \<Longrightarrow> split_on c (s @ c # t) = s # split_on c t"
  by (induction s) auto

lemma index_of_None_iff: "index_of c s = None \<longleftrightarrow> c \<notin> set s"
  by (induction s) auto

lemma index_of_append: "c \<notin> set s \<Longrightarrow> index_of c (s @ c # t) = Some (length s)"
  by (induction s) auto

lemma index_of_SomeD:
  "index_of c s = Some i \<Longrightarrow> i < length s \<and> s ! i = c \<and> c \<notin> set (take i s)"
  by (induction s arbitrary: i) (auto split: if_splits)

lemma last_index_of_None_iff: "last_index_of c s = None \<longleftrightarrow> c \<notin> set s"
  by (induction s) (auto split: option.splits)

lemma last_index_of_append: "c \<notin> set t \<Longrightarrow> last_index_of c (s @ c # t) = Some (length s)"
  by (induction s) (auto simp: last_index_of_None_iff split: option.splits)

lemma last_index_of_SomeD:
  "last_index_of c s = Some i \<Longrightarrow> i < length s \<and> s ! i = c \<and> c \<notin> set (drop (Suc i) s)"
  by (induction s arbitrary: i)
    (auto simp: last_index_of_None_iff split: option.splits if_splits)

lemma str_compare_refl [simp]: "str_compare s s = 0"
  by (induction s) auto

lemma str_compare_antisym: "str_compare t s = - str_compare s t"
  by (induction s t rule: str_compare.induct) auto

lemma str_compare_range: "str_compare s t \<in> {-1, 0, 1}"
  by (induction s t rule: str_compare.induct) auto

lemma str_compare_eq_0_iff: "str_compare s t = 0 \<longleftrightarrow> s = t"
proof (induction s t rule: str_compare.induct)
  case (4 c cs d ds)
  have "(of_char c :: nat) = of_char d \<longleftrightarrow> c = d"
    by (rule of_char_eq_iff)
  then show ?case using "4.IH" by auto
qed auto

lemma str_compare_trans:
  "str_compare s t \<le> 0 \<Longrightarrow> str_compare t u \<le> 0 \<Longrightarrow> str_compare s u \<le> 0"
proof (induction s t arbitrary: u rule: str_compare.induct)
  case (1 u)
  then show ?case by simp
next
  case (2 d ds u)
  then show ?case by (cases u) auto
next
  case (3 c cs u)
  then show ?case by simp
next
  case (4 c cs d ds u)
  show ?case
  proof (cases u)
    case Nil
    with "4.prems" show ?thesis by simp
  next
    case (Cons e es)
    define a b k :: nat where "a = of_char c" and "b = of_char d" and "k = of_char e"
    have le: "a < b \<or> a = b \<and> str_compare cs ds \<le> 0" "b < k \<or> b = k \<and> str_compare ds es \<le> 0"
      using "4.prems" Cons by (simp_all add: a_def b_def k_def split: if_splits)
    have "a < k \<or> a = k \<and> str_compare cs es \<le> 0"
    proof (cases "a = b \<and> b = k")
      case True
      then have "str_compare cs es \<le> 0"
        using le "4.IH" [of es] by (simp add: a_def b_def)
      with True show ?thesis by simp
    next
      case False
      with le show ?thesis by linarith
    qed
    then show ?thesis using Cons by (auto simp: a_def k_def)
  qed
qed

section \<open>Decimal numbers\<close>

definition digit_char :: "nat \<Rightarrow> char" where
  "digit_char d = char_of (48 + d)"

fun show_nat :: "nat \<Rightarrow> string" where
  "show_nat n = (if n < 10 then [digit_char n]
                 else show_nat (n div 10) @ [digit_char (n mod 10)])"

declare show_nat.simps [simp del]

text \<open>\<open>%d\<close> of package \<open>fmt\<close>.\<close>

definition show_int :: "int \<Rightarrow> string" where
  "show_int i = (if i < 0 then CHR ''-'' # show_nat (nat (- i)) else show_nat (nat i))"

definition is_digit :: "char \<Rightarrow> bool" where
  "is_digit c \<longleftrightarrow> 48 \<le> (of_char c :: nat) \<and> (of_char c :: nat) \<le> 57"

definition digits_value :: "string \<Rightarrow> nat" where
  "digits_value s = foldl (\<lambda>n c. 10 * n + (of_char c - 48)) 0 s"

text \<open>\<open>strconv.Atoi\<close> on a 64-bit platform: an optional sign, at least one digit, and the
  value in range; \<open>None\<close> stands for the error.\<close>

definition atoi :: "string \<Rightarrow> int option" where
  "atoi s =
     (let neg = (s \<noteq> [] \<and> hd s = CHR ''-'');
          body = (if s \<noteq> [] \<and> (hd s = CHR ''-'' \<or> hd s = CHR ''+'') then tl s else s);
          n = int (digits_value body);
          v = (if neg then - n else n)
      in if body = [] \<or> \<not> list_all is_digit body then None
         else if v < - (2 ^ 63) \<or> v \<ge> 2 ^ 63 then None
         else Some v)"

lemma of_char_digit: "d < 10 \<Longrightarrow> (of_char (digit_char d) :: nat) = 48 + d"
  by (simp add: digit_char_def of_char_of)

lemma is_digit_digit_char: "d < 10 \<Longrightarrow> is_digit (digit_char d)"
  by (simp add: is_digit_def of_char_digit)

lemma show_nat_nonempty [simp]: "show_nat n \<noteq> []"
  by (subst show_nat.simps) simp

lemma show_nat_digits: "list_all is_digit (show_nat n)"
proof (induction n rule: show_nat.induct)
  case (1 n)
  then show ?case
    by (subst show_nat.simps) (auto simp: is_digit_digit_char)
qed

lemma digits_value_show_nat: "digits_value (show_nat n) = n"
proof (induction n rule: show_nat.induct)
  case (1 n)
  then show ?case
    by (subst show_nat.simps) (auto simp: digits_value_def of_char_digit)
qed

lemma not_digit_notin: "\<not> is_digit c \<Longrightarrow> c \<notin> set (show_nat n)"
  using show_nat_digits [of n] by (auto simp: list_all_iff)

lemma atoi_show_nat:
  assumes "n < 2 ^ 63"
  shows "atoi (show_nat n) = Some (int n)"
proof -
  have "is_digit (hd (show_nat n))"
    using show_nat_digits [of n] hd_in_set [OF show_nat_nonempty [of n]]
    by (simp add: list_all_iff)
  then have nosign: "hd (show_nat n) \<noteq> CHR ''-''" "hd (show_nat n) \<noteq> CHR ''+''"
    by (auto simp: is_digit_def)
  have "int n < int (2 ^ 63)" using assms by (simp only: of_nat_less_iff)
  then show ?thesis
    using nosign show_nat_digits [of n]
    by (simp add: atoi_def digits_value_show_nat)
qed

section \<open>64-bit integers\<close>

text \<open>Go's \<open>int\<close> on a 64-bit platform wraps around in two's complement.\<close>

definition wrap64 :: "int \<Rightarrow> int" where
  "wrap64 i = (i + 2 ^ 63) mod 2 ^ 64 - 2 ^ 63"

lemma wrap64_id: "- (2 ^ 63) \<le> i \<Longrightarrow> i < 2 ^ 63 \<Longrightarrow> wrap64 i = i"
  by (simp add: wrap64_def mod_pos_pos_trivial)

lemma wrap64_bounds: "- (2 ^ 63) \<le> wrap64 i \<and> wrap64 i < 2 ^ 63"
proof -
  have "0 \<le> (i + 2 ^ 63) mod 2 ^ 64" "(i + 2 ^ 63) mod 2 ^ 64 < (2 ^ 64 :: int)"
    by simp_all
  then show ?thesis by (simp add: wrap64_def)
qed

section \<open>Time\<close>

text \<open>
  A \<open>time.Time\<close> in UTC is the number of nanoseconds since Go's zero time (January 1 of year
  1, a Monday), so \<open>IsZero\<close> is equality with \<open>0\<close>.
\<close>

type_synonym gotime = int

definition hour_ns :: int where
  "hour_ns = 3600 * 1000000000"

text \<open>\<open>Time.Hour\<close> and \<open>Time.Weekday\<close> (Sunday is 0).\<close>

definition time_hour :: "gotime \<Rightarrow> int" where
  "time_hour t = (t div hour_ns) mod 24"

definition time_weekday :: "gotime \<Rightarrow> int" where
  "time_weekday t = (t div (24 * hour_ns) + 1) mod 7"

section \<open>Objects: map[string]any\<close>

text \<open>
  The dynamic values of YAML, JSON and the runtime. A \<open>map[string]any\<close> is an association
  list; its order is one order in which Go's \<open>range\<close> may visit the map, and every lookup goes
  through \<^const>\<open>map_of\<close>. \<open>VUnbound\<close> is the runtime's \<open>unboundTriggerSentinel\<close>.
\<close>

datatype val =
    VNil
  | VBool bool
  | VInt int
  | VString string
  | VList "val list"
  | VMap "(string \<times> val) list"
  | VUnbound string

type_synonym obj = "(string \<times> val) list"

text \<open>A missing key and a key bound to another type both give the zero value.\<close>

definition val_string :: "val option \<Rightarrow> string" where
  "val_string v = (case v of Some (VString s) \<Rightarrow> s | _ \<Rightarrow> [])"

section \<open>sort.Slice\<close>

text \<open>
  \<open>sort.Slice\<close> leaves the order of elements that compare equal open; the model is the stable sort,
  one of the results the code may see.
\<close>

fun insert_by :: "('a \<Rightarrow> 'a \<Rightarrow> bool) \<Rightarrow> 'a \<Rightarrow> 'a list \<Rightarrow> 'a list" where
  "insert_by lt x [] = [x]"
| "insert_by lt x (y # ys) = (if lt y x then y # insert_by lt x ys else x # y # ys)"

definition sort_slice :: "('a \<Rightarrow> 'a \<Rightarrow> bool) \<Rightarrow> 'a list \<Rightarrow> 'a list" where
  "sort_slice lt xs = foldr (insert_by lt) xs []"

lemma set_insert_by [simp]: "set (insert_by lt x ys) = insert x (set ys)"
  by (induction ys) auto

lemma mset_insert_by [simp]: "mset (insert_by lt x ys) = add_mset x (mset ys)"
  by (induction ys) auto

lemma mset_sort_slice [simp]: "mset (sort_slice lt xs) = mset xs"
  unfolding sort_slice_def by (induction xs) auto

lemma set_sort_slice [simp]: "set (sort_slice lt xs) = set xs"
  using mset_sort_slice [of lt xs] by (rule mset_eq_setD)

lemma sorted_insert_by:
  assumes trans: "\<And>a b c. \<not> lt b a \<Longrightarrow> \<not> lt c b \<Longrightarrow> \<not> lt c a"
    and asym: "\<And>a b. lt a b \<Longrightarrow> \<not> lt b a"
  shows "sorted_wrt (\<lambda>a b. \<not> lt b a) ys \<Longrightarrow> sorted_wrt (\<lambda>a b. \<not> lt b a) (insert_by lt x ys)"
  by (induction ys) (auto dest: trans asym)

lemma sorted_sort_slice:
  assumes "\<And>a b c. \<not> lt b a \<Longrightarrow> \<not> lt c b \<Longrightarrow> \<not> lt c a"
    and "\<And>a b. lt a b \<Longrightarrow> \<not> lt b a"
  shows "sorted_wrt (\<lambda>a b. \<not> lt b a) (sort_slice lt xs)"
  unfolding sort_slice_def using sorted_insert_by [of lt, OF assms] by (induction xs) auto

section \<open>Lists\<close>

lemma find_SomeD: "List.find P xs = Some x \<Longrightarrow> x \<in> set xs \<and> P x"
  by (induction xs) (auto split: if_splits)

lemma fold_keeps: "(\<And>x y. x \<in> set xs \<Longrightarrow> P y \<Longrightarrow> P (f x y)) \<Longrightarrow> P y \<Longrightarrow> P (fold f xs y)"
  by (induction xs arbitrary: y) auto

lemma in_map_filter: "y \<in> set (List.map_filter f xs) \<longleftrightarrow> (\<exists>x \<in> set xs. f x = Some y)"
  by (auto simp: List.map_filter_def image_iff)

section \<open>Maps of lists\<close>

text \<open>\<open>m[k]\<close> of a \<open>map[string][]T\<close>, empty when the key is missing, and
  \<open>m[k] = append(m[k], x)\<close>.\<close>

definition list_at :: "('k \<times> 'a list) list \<Rightarrow> 'k \<Rightarrow> 'a list" where
  "list_at m k = (case map_of m k of Some xs \<Rightarrow> xs | None \<Rightarrow> [])"

definition push_at :: "'k \<Rightarrow> 'a \<Rightarrow> ('k \<times> 'a list) list \<Rightarrow> ('k \<times> 'a list) list" where
  "push_at k x m = AList.update k (list_at m k @ [x]) m"

lemma list_at_Nil [simp]: "list_at [] k = []"
  by (simp add: list_at_def)

lemma list_at_update [store_simps]: "list_at (AList.update k xs m) i = (if i = k then xs else list_at m i)"
  by (simp add: list_at_def update_conv')

lemma list_at_push [store_simps]:
  "list_at (push_at k x m) i = (if i = k then list_at m k @ [x] else list_at m i)"
  by (simp add: push_at_def list_at_update)

lemma map_of_update [store_simps]: "map_of (AList.update k v m) i = (if i = k then Some v else map_of m i)"
  by (simp add: update_conv')

text \<open>The prefix order on lists, for state that is only appended to.\<close>

definition extends :: "'a list \<Rightarrow> 'a list \<Rightarrow> bool" where
  "extends xs ys \<longleftrightarrow> take (length xs) ys = xs"

lemma extends_refl [simp, intro]: "extends xs xs"
  by (simp add: extends_def)

lemma extends_append [simp, intro]: "extends xs (xs @ ys)"
  by (simp add: extends_def)

lemma extendsE:
  assumes "extends xs ys"
  obtains zs where "ys = xs @ zs"
  using assms unfolding extends_def by (metis append_take_drop_id)

lemma extends_trans: "extends xs ys \<Longrightarrow> extends ys zs \<Longrightarrow> extends xs zs"
  by (metis extendsE extends_append append.assoc)

lemma extends_set: "extends xs ys \<Longrightarrow> set xs \<subseteq> set ys"
  by (metis extendsE set_append Un_upper1)

lemma extends_map: "extends xs ys \<Longrightarrow> extends (map f xs) (map f ys)"
  by (metis extendsE extends_append map_append)

section \<open>Interfaces\<close>

text \<open>A store of values under their keys: what a lookup returns after a write.\<close>

locale keyed_store =
  fixes get :: "'s \<Rightarrow> 'k \<Rightarrow> 'v option"
    and put :: "'v \<Rightarrow> 's \<Rightarrow> 's"
    and key :: "'v \<Rightarrow> 'k"
  assumes get_put: "get (put v s) k = (if k = key v then Some v else get s k)"
begin

lemma get_put_same: "get (put v s) (key v) = Some v"
  by (simp add: get_put)

lemma get_put_other: "k \<noteq> key v \<Longrightarrow> get (put v s) k = get s k"
  by (simp add: get_put)

lemma get_puts_other: "k \<notin> key ` set vs \<Longrightarrow> get (fold put vs s) k = get s k"
  by (induction vs arbitrary: s) (auto simp: get_put)

lemma last_put_wins: "get (fold put (vs @ [v]) s) (key v) = Some v"
  by (simp add: get_put)

lemma get_puts_cases:
  "get (fold put vs s) k = Some w \<Longrightarrow> get s k = Some w \<or> w \<in> set vs \<and> key w = k"
proof (induction vs arbitrary: s)
  case Nil
  then show ?case by simp
next
  case (Cons v vs)
  from Cons.prems have "get (fold put vs (put v s)) k = Some w" by simp
  from Cons.IH [OF this] show ?case by (auto simp: get_put split: if_splits)
qed

end

text \<open>A component driven by operations, with an invariant every operation keeps.\<close>

locale op_machine =
  fixes step :: "'op \<Rightarrow> 's \<Rightarrow> 's"
    and inv :: "'s \<Rightarrow> bool"
  assumes step_inv: "inv s \<Longrightarrow> inv (step op s)"
begin

lemma run_inv: "inv s \<Longrightarrow> inv (fold step ops s)"
  by (induction ops arbitrary: s) (auto intro: step_inv)

end

text \<open>The same, where every step also moves the state up a preorder.\<close>

locale monotone_machine = op_machine step inv
  for step :: "'op \<Rightarrow> 's \<Rightarrow> 's" and inv :: "'s \<Rightarrow> bool" +
  fixes below :: "'s \<Rightarrow> 's \<Rightarrow> bool"
  assumes below_refl: "below s s"
    and below_trans: "below s t \<Longrightarrow> below t u \<Longrightarrow> below s u"
    and step_below: "inv s \<Longrightarrow> below s (step op s)"
begin

lemma run_below: "inv s \<Longrightarrow> below s (fold step ops s)"
proof (induction ops arbitrary: s)
  case Nil
  show ?case by (simp add: below_refl)
next
  case (Cons op ops)
  have "below s (step op s)" using Cons.prems by (rule step_below)
  moreover have "below (step op s) (fold step ops (step op s))"
    using Cons.prems by (intro Cons.IH step_inv)
  ultimately show ?case by (simp add: below_trans)
qed

end

text \<open>
  An operation machine that implements an abstract one: every operation, seen through the
  abstraction, is a step of the abstract machine or leaves the abstract state alone.
\<close>

locale simulation = op_machine step inv
  for step :: "'op \<Rightarrow> 's \<Rightarrow> 's" and inv :: "'s \<Rightarrow> bool" +
  fixes abs_state :: "'s \<Rightarrow> 'a"
    and may :: "'a \<Rightarrow> 'a \<Rightarrow> bool"
  assumes step_may: "inv s \<Longrightarrow> abs_state (step op s) = abs_state s \<or> may (abs_state s) (abs_state (step op s))"
begin

lemma step_path: "inv s \<Longrightarrow> may\<^sup>*\<^sup>* (abs_state s) (abs_state (step op s))"
  using step_may [of s op] by auto

lemma run_path: "inv s \<Longrightarrow> may\<^sup>*\<^sup>* (abs_state s) (abs_state (fold step ops s))"
proof (induction ops arbitrary: s)
  case Nil
  show ?case by simp
next
  case (Cons op ops)
  have "may\<^sup>*\<^sup>* (abs_state s) (abs_state (step op s))" using Cons.prems by (rule step_path)
  moreover have "may\<^sup>*\<^sup>* (abs_state (step op s)) (abs_state (fold step ops (step op s)))"
    using Cons.prems by (intro Cons.IH step_inv)
  ultimately show ?case by simp
qed

end

text \<open>A three-way comparison in the style of \<open>strings.Compare\<close>.\<close>

locale three_way =
  fixes cmp :: "'a \<Rightarrow> 'a \<Rightarrow> int"
  assumes cmp_antisym: "cmp b a = - cmp a b"
    and cmp_trans: "cmp a b \<le> 0 \<Longrightarrow> cmp b c \<le> 0 \<Longrightarrow> cmp a c \<le> 0"
begin

lemma cmp_refl: "cmp a a = 0"
  using cmp_antisym [of a a] by linarith

lemma cmp_total: "cmp a b \<le> 0 \<or> cmp b a \<le> 0"
  using cmp_antisym [of a b] by linarith

lemma cmp_ge_trans: "cmp a b \<ge> 0 \<Longrightarrow> cmp b c \<ge> 0 \<Longrightarrow> cmp a c \<ge> 0"
  using cmp_trans [of c b a] cmp_antisym [of a b] cmp_antisym [of b c] cmp_antisym [of a c]
  by linarith

lemma cmp_less_le_trans:
  assumes "cmp a b < 0" "cmp b c \<le> 0"
  shows "cmp a c < 0"
proof (rule ccontr)
  assume "\<not> cmp a c < 0"
  then have "cmp c a \<le> 0" using cmp_antisym [of a c] by linarith
  with assms(2) have "cmp b a \<le> 0" by (rule cmp_trans)
  with assms(1) show False using cmp_antisym [of a b] by linarith
qed

lemma cmp_ge_gt_trans: "cmp a b \<ge> 0 \<Longrightarrow> cmp b c > 0 \<Longrightarrow> cmp a c > 0"
  using cmp_less_le_trans [of c b a] cmp_antisym [of a b] cmp_antisym [of b c]
    cmp_antisym [of a c]
  by linarith

end

interpretation str_cmp: three_way str_compare
  by (unfold_locales; rule str_compare_antisym str_compare_trans)

end
