(* ===== verification/Semver.thy ===== *)
theory Semver
  imports Fabric_Prelude
begin

text \<open>
  \<open>services/workflow-registry/internal/registry/semver.go\<close>: parsing, printing, comparing and
  bumping the versions of a workflow. The three numbers are Go \<open>int\<close>s, so the increments of
  \<open>MinNextVersion\<close> wrap around at 64 bits.
\<close>

record semver =
  sv_major :: int
  sv_minor :: int
  sv_patch :: int
  sv_pre :: string
  sv_build :: string

definition split_at_first :: "char \<Rightarrow> string \<Rightarrow> string \<times> string" where
  "split_at_first c s =
     (case index_of c s of None \<Rightarrow> (s, []) | Some i \<Rightarrow> (take i s, drop (Suc i) s))"

text \<open>\<open>None\<close> is \<open>ErrInvalidSemVer\<close>.\<close>

definition parse_semver :: "string \<Rightarrow> semver option" where
  "parse_semver s =
     (if s = [] then None
      else let (main0, build) = split_at_first (CHR ''+'') s;
               (main1, pre) = split_at_first (CHR ''-'') main0
      in case split_on (CHR ''.'') main1 of
           [a, b, c] \<Rightarrow>
             (case (atoi a, atoi b, atoi c) of
                (Some mj, Some mi, Some pa) \<Rightarrow>
                  if mj < 0 \<or> mi < 0 \<or> pa < 0 then None
                  else Some \<lparr>sv_major = mj, sv_minor = mi, sv_patch = pa, sv_pre = pre,
                             sv_build = build\<rparr>
              | _ \<Rightarrow> None)
         | _ \<Rightarrow> None)"

definition semver_string :: "semver \<Rightarrow> string" where
  "semver_string v =
     show_int (sv_major v) @ ''.'' @ show_int (sv_minor v) @ ''.'' @ show_int (sv_patch v)
     @ (if sv_pre v \<noteq> [] then ''-'' @ sv_pre v else [])
     @ (if sv_build v \<noteq> [] then ''+'' @ sv_build v else [])"

definition cmp_int :: "int \<Rightarrow> int \<Rightarrow> int" where
  "cmp_int a b = (if a < b then -1 else if a > b then 1 else 0)"

definition semver_compare :: "semver \<Rightarrow> semver \<Rightarrow> int" where
  "semver_compare v u =
     (if sv_major v \<noteq> sv_major u then cmp_int (sv_major v) (sv_major u)
      else if sv_minor v \<noteq> sv_minor u then cmp_int (sv_minor v) (sv_minor u)
      else if sv_patch v \<noteq> sv_patch u then cmp_int (sv_patch v) (sv_patch u)
      else if sv_pre v = [] \<and> sv_pre u = [] then 0
      else if sv_pre v = [] \<and> sv_pre u \<noteq> [] then 1
      else if sv_pre v \<noteq> [] \<and> sv_pre u = [] then -1
      else str_compare (sv_pre v) (sv_pre u))"

datatype bump_kind = BumpMajor | BumpMinor | BumpPatch

definition min_next_version :: "semver \<Rightarrow> bump_kind \<Rightarrow> semver" where
  "min_next_version prev bump =
     (case bump of
        BumpMajor \<Rightarrow> \<lparr>sv_major = wrap64 (sv_major prev + 1), sv_minor = 0, sv_patch = 0,
                      sv_pre = [], sv_build = []\<rparr>
      | BumpMinor \<Rightarrow> \<lparr>sv_major = sv_major prev, sv_minor = wrap64 (sv_minor prev + 1),
                      sv_patch = 0, sv_pre = [], sv_build = []\<rparr>
      | BumpPatch \<Rightarrow> \<lparr>sv_major = sv_major prev, sv_minor = sv_minor prev,
                      sv_patch = wrap64 (sv_patch prev + 1), sv_pre = [], sv_build = []\<rparr>)"

section \<open>The order\<close>

lemma cmp_int_antisym: "cmp_int b a = - cmp_int a b"
  by (simp add: cmp_int_def)

lemma semver_compare_antisym: "semver_compare u v = - semver_compare v u"
  by (simp add: semver_compare_def cmp_int_def str_compare_antisym [of "sv_pre u" "sv_pre v"])

text \<open>The comparison as the negation of a lexicographic condition.\<close>

lemma semver_compare_le_iff:
  "semver_compare v u \<le> 0 \<longleftrightarrow>
     sv_major v < sv_major u \<or> sv_major v = sv_major u \<and>
     (sv_minor v < sv_minor u \<or> sv_minor v = sv_minor u \<and>
     (sv_patch v < sv_patch u \<or> sv_patch v = sv_patch u \<and>
     (sv_pre u = [] \<or> sv_pre v \<noteq> [] \<and> str_compare (sv_pre v) (sv_pre u) \<le> 0)))"
  by (auto simp: semver_compare_def cmp_int_def)

lemma semver_compare_trans:
  assumes "semver_compare v u \<le> 0" "semver_compare u w \<le> 0"
  shows "semver_compare v w \<le> 0"
  using assms str_compare_trans [of "sv_pre v" "sv_pre u" "sv_pre w"]
  unfolding semver_compare_le_iff by (elim disjE conjE) auto

interpretation sv_cmp: three_way semver_compare
  by (unfold_locales; rule semver_compare_antisym semver_compare_trans)

lemma semver_compare_range: "semver_compare v u \<in> {-1, 0, 1}"
  using str_compare_range [of "sv_pre v" "sv_pre u"]
  by (auto simp: semver_compare_def cmp_int_def)

text \<open>The versions that parsing yields.\<close>

definition semver_ok :: "semver \<Rightarrow> bool" where
  "semver_ok v \<longleftrightarrow>
     0 \<le> sv_major v \<and> sv_major v < 2 ^ 63 \<and> 0 \<le> sv_minor v \<and> sv_minor v < 2 ^ 63
     \<and> 0 \<le> sv_patch v \<and> sv_patch v < 2 ^ 63 \<and> CHR ''+'' \<notin> set (sv_pre v)"

lemma atoi_bounds: "atoi s = Some n \<Longrightarrow> - (2 ^ 63) \<le> n \<and> n < 2 ^ 63"
  by (auto simp: atoi_def Let_def split: if_splits)

lemma split_at_first_fst: "c \<notin> set (fst (split_at_first c s))"
  by (auto simp: split_at_first_def index_of_None_iff dest: index_of_SomeD split: option.splits)

lemma split_at_first_snd: "set (snd (split_at_first c s)) \<subseteq> set s"
  by (auto simp: split_at_first_def dest: in_set_dropD split: option.splits)

lemma parse_semver_ok:
  assumes "parse_semver s = Some v"
  shows "semver_ok v"
proof -
  obtain m0 b where m0: "split_at_first (CHR ''+'') s = (m0, b)" by (cases "split_at_first (CHR ''+'') s")
  obtain m1 p where m1: "split_at_first (CHR ''-'') m0 = (m1, p)" by (cases "split_at_first (CHR ''-'') m0")
  have "CHR ''+'' \<notin> set p"
    using split_at_first_fst [of "CHR ''+''" s] split_at_first_snd [of "CHR ''-''" m0] m0 m1 by auto
  then show ?thesis
    using assms
    by (auto simp: parse_semver_def m0 m1 semver_ok_def dest!: atoi_bounds
        split: if_splits list.splits option.splits)
qed

section \<open>Round trip\<close>

lemma not_in_show_int: "0 \<le> i \<Longrightarrow> \<not> is_digit c \<Longrightarrow> c \<notin> set (show_int i)"
  by (simp add: show_int_def not_digit_notin)

lemma atoi_show_int:
  assumes "0 \<le> i" "i < 2 ^ 63"
  shows "atoi (show_int i) = Some i"
proof -
  have "nat i < 2 ^ 63" using assms by (simp add: nat_less_iff)
  then show ?thesis using atoi_show_nat [of "nat i"] assms by (simp add: show_int_def)
qed

lemma split_at_first_append: "c \<notin> set s \<Longrightarrow> split_at_first c (s @ c # t) = (s, t)"
  by (simp add: split_at_first_def index_of_append)

lemma split_at_first_none: "c \<notin> set s \<Longrightarrow> split_at_first c s = (s, [])"
  using index_of_None_iff [of c s] by (simp add: split_at_first_def)

lemma special_not_digit: "\<not> is_digit (CHR ''.'')" "\<not> is_digit (CHR ''-'')" "\<not> is_digit (CHR ''+'')"
  by (simp_all add: is_digit_def)

lemma parse_semver_string:
  assumes ok: "semver_ok v"
  shows "parse_semver (semver_string v) = Some v"
proof -
  let ?a = "show_int (sv_major v)" and ?b = "show_int (sv_minor v)" and ?c = "show_int (sv_patch v)"
  define core where "core = ?a @ CHR ''.'' # ?b @ CHR ''.'' # ?c"
  define main where "main = core @ (if sv_pre v \<noteq> [] then CHR ''-'' # sv_pre v else [])"
  have no: "d \<notin> set ?a" "d \<notin> set ?b" "d \<notin> set ?c" if "\<not> is_digit d" for d
    using ok that by (simp_all add: semver_ok_def not_in_show_int)
  have core: "CHR ''+'' \<notin> set core" "CHR ''-'' \<notin> set core"
    using no [OF special_not_digit(3)] no [OF special_not_digit(2)] by (simp_all add: core_def)
  have str: "semver_string v = main @ (if sv_build v \<noteq> [] then CHR ''+'' # sv_build v else [])"
    by (simp add: semver_string_def main_def core_def)
  have "CHR ''+'' \<notin> set main"
    using core ok by (simp add: main_def semver_ok_def)
  then have s0: "split_at_first (CHR ''+'') (semver_string v) = (main, sv_build v)"
    by (simp add: str split_at_first_append split_at_first_none)
  have s1: "split_at_first (CHR ''-'') main = (core, sv_pre v)"
    using core by (simp add: main_def split_at_first_append split_at_first_none)
  have "split_on (CHR ''.'') core = [?a, ?b, ?c]"
    using no [OF special_not_digit(1)] by (simp add: core_def split_on_append split_on_no_sep)
  moreover have "semver_string v \<noteq> []" by (simp add: semver_string_def)
  ultimately show ?thesis
    using ok by (simp add: parse_semver_def s0 s1 atoi_show_int semver_ok_def)
qed

section \<open>Bumping\<close>

text \<open>What keeps the increment of a bump from wrapping around.\<close>

definition bump_room :: "semver \<Rightarrow> bump_kind \<Rightarrow> bool" where
  "bump_room v b \<longleftrightarrow>
     (case b of BumpMajor \<Rightarrow> sv_major v < 2 ^ 63 - 1 | BumpMinor \<Rightarrow> sv_minor v < 2 ^ 63 - 1
      | BumpPatch \<Rightarrow> sv_patch v < 2 ^ 63 - 1)"

lemma min_next_greater:
  "semver_ok v \<Longrightarrow> bump_room v b \<Longrightarrow> semver_compare v (min_next_version v b) < 0"
  by (cases b) (simp_all add: semver_ok_def bump_room_def min_next_version_def
      semver_compare_def cmp_int_def wrap64_id)

lemma min_next_ok: "semver_ok v \<Longrightarrow> bump_room v b \<Longrightarrow> semver_ok (min_next_version v b)"
  by (cases b) (simp_all add: semver_ok_def bump_room_def min_next_version_def wrap64_id)

section \<open>Properties\<close>

text \<open>Printing then parsing a version gives the same version, for every version that parsing can
  produce (three non-negative 64-bit numbers and a pre-release without a plus sign): the printed
  form loses nothing, build metadata included.\<close>

theorem semver_roundtrip: "parse_semver s = Some v \<Longrightarrow> parse_semver (semver_string v) = Some v"
  by (rule parse_semver_string, rule parse_semver_ok)

theorem semver_roundtrip_witness:
  "parse_semver ''01.2.3-rc.1+b7'' = Some \<lparr>sv_major = 1, sv_minor = 2, sv_patch = 3,
      sv_pre = ''rc.1'', sv_build = ''b7''\<rparr>
   \<and> parse_semver (semver_string \<lparr>sv_major = 1, sv_minor = 2, sv_patch = 3,
      sv_pre = ''rc.1'', sv_build = ''b7''\<rparr>) = Some \<lparr>sv_major = 1, sv_minor = 2, sv_patch = 3,
      sv_pre = ''rc.1'', sv_build = ''b7''\<rparr>"
proof -
  have h: "parse_semver ''01.2.3-rc.1+b7'' = Some \<lparr>sv_major = 1, sv_minor = 2, sv_patch = 3,
      sv_pre = ''rc.1'', sv_build = ''b7''\<rparr>"
    by code_simp
  from h semver_roundtrip [OF h] show ?thesis by blast
qed

text \<open>The smallest next version is strictly above a parsed version, as long as the bumped number
  is not the largest 64-bit integer, and it is the least such release: a release version above
  the previous one that changes the bumped number and keeps the ones before it is never below
  the smallest next version.\<close>

theorem min_next_version_least:
  assumes "semver_ok v" "bump_room v b"
  shows "semver_compare v (min_next_version v b) < 0 \<and>
    (\<forall>w. semver_ok w \<longrightarrow> sv_pre w = [] \<longrightarrow> semver_compare v w < 0 \<longrightarrow>
      (case b of BumpMajor \<Rightarrow> sv_major w \<noteq> sv_major v
       | BumpMinor \<Rightarrow> sv_major w = sv_major v \<and> sv_minor w \<noteq> sv_minor v
       | BumpPatch \<Rightarrow> sv_major w = sv_major v \<and> sv_minor w = sv_minor v
           \<and> sv_patch w \<noteq> sv_patch v) \<longrightarrow>
      semver_compare (min_next_version v b) w \<le> 0)"
proof (intro conjI allI impI)
  show "semver_compare v (min_next_version v b) < 0"
    using assms by (rule min_next_greater)
next
  fix w
  assume w: "semver_ok w" "sv_pre w = []" "semver_compare v w < 0"
    and c: "case b of BumpMajor \<Rightarrow> sv_major w \<noteq> sv_major v
           | BumpMinor \<Rightarrow> sv_major w = sv_major v \<and> sv_minor w \<noteq> sv_minor v
           | BumpPatch \<Rightarrow> sv_major w = sv_major v \<and> sv_minor w = sv_minor v
               \<and> sv_patch w \<noteq> sv_patch v"
  from w(3) have le: "semver_compare v w \<le> 0" by simp
  show "semver_compare (min_next_version v b) w \<le> 0"
    using assms w(1,2) c le unfolding semver_compare_le_iff
    by (cases b) (auto simp: min_next_version_def semver_ok_def bump_room_def wrap64_id)
qed

theorem min_next_version_least_witness:
  "semver_compare \<lparr>sv_major = 1, sv_minor = 4, sv_patch = 2, sv_pre = [], sv_build = []\<rparr>
     (min_next_version \<lparr>sv_major = 1, sv_minor = 4, sv_patch = 2, sv_pre = [], sv_build = []\<rparr>
       BumpMinor) < 0"
proof -
  let ?v = "\<lparr>sv_major = 1, sv_minor = 4, sv_patch = 2, sv_pre = [], sv_build = []\<rparr>"
  have ok: "semver_ok ?v" by (simp add: semver_ok_def)
  have room: "bump_room ?v BumpMinor" by (simp add: bump_room_def)
  show ?thesis using min_next_version_least [OF ok room] by (rule conjunct1)
qed

text \<open>\<open>SemVer.Compare\<close> is a total preorder with values -1, 0 and 1, and two versions compare equal
  exactly when they differ in nothing but their build metadata.\<close>

theorem semver_compare_preorder:
  "semver_compare v u \<in> {-1, 0, 1} \<and> semver_compare u v = - semver_compare v u
   \<and> (semver_compare v u \<le> 0 \<longrightarrow> semver_compare u w \<le> 0 \<longrightarrow> semver_compare v w \<le> 0)
   \<and> (semver_compare v u = 0 \<longleftrightarrow> v\<lparr>sv_build := []\<rparr> = u\<lparr>sv_build := []\<rparr>)"
proof (intro conjI impI)
  show "semver_compare v u \<in> {-1, 0, 1}" by (rule semver_compare_range)
  show "semver_compare u v = - semver_compare v u" by (rule sv_cmp.cmp_antisym)
  show "semver_compare v w \<le> 0" if "semver_compare v u \<le> 0" "semver_compare u w \<le> 0"
    using that by (rule sv_cmp.cmp_trans)
  show "semver_compare v u = 0 \<longleftrightarrow> v\<lparr>sv_build := []\<rparr> = u\<lparr>sv_build := []\<rparr>"
    by (cases v; cases u) (auto simp: semver_compare_def cmp_int_def str_compare_eq_0_iff)
qed

theorem semver_compare_preorder_witness:
  "semver_compare \<lparr>sv_major = 1, sv_minor = 0, sv_patch = 0, sv_pre = ''rc.1'', sv_build = []\<rparr>
     \<lparr>sv_major = 2, sv_minor = 0, sv_patch = 0, sv_pre = [], sv_build = []\<rparr> \<le> 0"
proof -
  let ?a = "\<lparr>sv_major = 1, sv_minor = 0, sv_patch = 0, sv_pre = ''rc.1'', sv_build = []\<rparr>"
  let ?b = "\<lparr>sv_major = 1, sv_minor = 0, sv_patch = 0, sv_pre = [], sv_build = []\<rparr>"
  let ?c = "\<lparr>sv_major = 2, sv_minor = 0, sv_patch = 0, sv_pre = [], sv_build = []\<rparr>"
  have ab: "semver_compare ?a ?b \<le> 0" by (simp add: semver_compare_def)
  have bc: "semver_compare ?b ?c \<le> 0" by (simp add: semver_compare_def cmp_int_def)
  from semver_compare_preorder [of ?a ?b ?c] ab bc show ?thesis by blast
qed

text \<open>Pre-releases are compared byte by byte, not identifier by identifier: for two versions with
  the same three numbers and non-empty pre-releases the comparison is that of the pre-release
  strings, so \<open>1.0.0-rc.10\<close> comes before \<open>1.0.0-rc.2\<close>, against the numeric rule of SemVer 2.0
  that the comment on \<open>Compare\<close> announces.\<close>

theorem semver_prerelease_bytewise:
  "semver_compare \<lparr>sv_major = a, sv_minor = b, sv_patch = c, sv_pre = x # xs, sv_build = d\<rparr>
     \<lparr>sv_major = a, sv_minor = b, sv_patch = c, sv_pre = y # ys, sv_build = e\<rparr>
     = str_compare (x # xs) (y # ys)
   \<and> semver_compare \<lparr>sv_major = 1, sv_minor = 0, sv_patch = 0, sv_pre = ''rc.10'', sv_build = []\<rparr>
     \<lparr>sv_major = 1, sv_minor = 0, sv_patch = 0, sv_pre = ''rc.2'', sv_build = []\<rparr> = -1"
proof
  show "semver_compare \<lparr>sv_major = a, sv_minor = b, sv_patch = c, sv_pre = x # xs, sv_build = d\<rparr>
     \<lparr>sv_major = a, sv_minor = b, sv_patch = c, sv_pre = y # ys, sv_build = e\<rparr>
     = str_compare (x # xs) (y # ys)"
    by (simp add: semver_compare_def)
  show "semver_compare \<lparr>sv_major = 1, sv_minor = 0, sv_patch = 0, sv_pre = ''rc.10'', sv_build = []\<rparr>
     \<lparr>sv_major = 1, sv_minor = 0, sv_patch = 0, sv_pre = ''rc.2'', sv_build = []\<rparr> = -1"
    by code_simp
qed

end
