(* ===== verification/Workflow_AST.thy ===== *)
theory Workflow_AST
  imports Fabric_Prelude
begin

text \<open>
  The workflow AST of \<open>pkg/workflow/ast/ast.go\<close> and the registry references of
  \<open>pkg/workflow/ast/ref.go\<close>. A Go string enumeration becomes a datatype with one constructor per
  declared constant and a constructor \<open>\<dots>Other\<close> that carries any other string (the empty
  string, Go's zero value, included). \<open>Step\<close> contains steps (loop bodies, branch arms), so its
  flat fields form the record \<open>step_core\<close> and the recursive ones the datatype \<open>step\<close>.

  A slice or map is a list. Where the code compares with \<open>reflect.DeepEqual\<close>, which tells a nil slice
  or map from an empty one, a flag \<open>\<dots>_nil\<close> beside the list says which of the two the empty list stands for;
  it means nothing beside a list that is not empty. Elsewhere nil and empty are one value.
\<close>

section \<open>Step types\<close>

datatype step_type =
    StepSkill | StepMCP | StepLLM | StepAgent | StepPromptTemplate | StepBranch | StepLoop
  | StepHumanInLoop | StepSubWorkflow | StepWebhookOut | StepGithubAction | StepDeployAction
  | StepApprovalAction | StepNotificationAction | StepEval | StepCustom
  | StepPrompt | StepEventTrigger
  | StepTypeOther string

fun step_type_string :: "step_type \<Rightarrow> string" where
  "step_type_string StepSkill = ''skill''"
| "step_type_string StepMCP = ''mcp''"
| "step_type_string StepLLM = ''llm''"
| "step_type_string StepAgent = ''agent''"
| "step_type_string StepPromptTemplate = ''prompt-template''"
| "step_type_string StepBranch = ''branch''"
| "step_type_string StepLoop = ''loop''"
| "step_type_string StepHumanInLoop = ''human-in-the-loop''"
| "step_type_string StepSubWorkflow = ''sub-workflow''"
| "step_type_string StepWebhookOut = ''webhook''"
| "step_type_string StepGithubAction = ''github-action''"
| "step_type_string StepDeployAction = ''deploy-action''"
| "step_type_string StepApprovalAction = ''approval-action''"
| "step_type_string StepNotificationAction = ''notification-action''"
| "step_type_string StepEval = ''eval''"
| "step_type_string StepCustom = ''custom''"
| "step_type_string StepPrompt = ''prompt''"
| "step_type_string StepEventTrigger = ''event-trigger''"
| "step_type_string (StepTypeOther s) = s"

definition all_step_types :: "step_type list" where
  "all_step_types =
     [StepSkill, StepMCP, StepLLM, StepAgent, StepPromptTemplate, StepBranch, StepLoop,
      StepHumanInLoop, StepSubWorkflow, StepWebhookOut, StepGithubAction, StepDeployAction,
      StepApprovalAction, StepNotificationAction, StepEval, StepCustom, StepPrompt,
      StepEventTrigger]"

definition is_known_step_type :: "step_type \<Rightarrow> bool" where
  "is_known_step_type s \<longleftrightarrow> list_ex (\<lambda>t. t = s) all_step_types"

text \<open>\<open>DeprecatedStepTypes\<close>: the replacement, \<open>StepTypeOther ''''\<close> when there is none.\<close>

definition deprecated_step_types :: "(step_type \<times> step_type) list" where
  "deprecated_step_types =
     [(StepPrompt, StepPromptTemplate), (StepEventTrigger, StepTypeOther [])]"

section \<open>Triggers\<close>

datatype trigger_type =
    TriggerManual | TriggerCron | TriggerWebhookIn | TriggerEventBus | TriggerEmailInbound
  | TriggerTypeOther string

definition all_trigger_types :: "trigger_type list" where
  "all_trigger_types =
     [TriggerManual, TriggerCron, TriggerWebhookIn, TriggerEventBus, TriggerEmailInbound]"

definition is_known_trigger_type :: "trigger_type \<Rightarrow> bool" where
  "is_known_trigger_type t \<longleftrightarrow> list_ex (\<lambda>k. k = t) all_trigger_types"

datatype trigger_concurrency =
    TriggerConcurrencyQueue | TriggerConcurrencyDrop | TriggerConcurrencyOverlap
  | TriggerConcurrencyOther string

record trigger =
  tr_id :: string
  tr_type :: trigger_type
  tr_config :: obj
  tr_config_nil :: bool
  tr_outputs :: "(string \<times> string) list"
  tr_concurrency :: trigger_concurrency
  tr_migrated_from :: step_type

definition concurrency_or_default :: "trigger \<Rightarrow> trigger_concurrency" where
  "concurrency_or_default t =
     (if tr_concurrency t = TriggerConcurrencyOther [] then TriggerConcurrencyQueue
      else tr_concurrency t)"

text \<open>Equality of two slices as \<open>reflect.DeepEqual\<close> has it: the elements, and nil or not when there are none.\<close>

definition slice_eq :: "bool \<Rightarrow> 'a list \<Rightarrow> bool \<Rightarrow> 'a list \<Rightarrow> bool" where
  "slice_eq xs_nil xs ys_nil ys \<longleftrightarrow> xs = ys \<and> (xs = [] \<longrightarrow> xs_nil = ys_nil)"

section \<open>Workflows\<close>

record metadata =
  md_id :: string
  md_name :: string
  md_version :: string
  md_owners :: "string list"
  md_owners_nil :: bool
  md_visibility :: string
  md_criticality :: string
  md_openspec_ids :: "string list"
  md_tags :: "string list"
  md_tags_nil :: bool
  md_description :: string
  md_success_metric :: string

record io_field =
  io_name :: string
  io_type :: string
  io_required :: bool
  io_default :: val
  io_description :: string
  io_validations :: obj

text \<open>The integers of a retry policy are 64-bit.\<close>

record retry_policy =
  rp_max :: int
  rp_backoff :: string
  rp_initial_ms :: int
  rp_max_ms :: int
  rp_non_retryable :: "string list"

record event_pattern =
  ep_type :: string
  ep_source :: string
  ep_filter :: obj

record model_binding =
  mb_ref :: string
  mb_overrides :: obj

record node_active_surface =
  as_family :: string
  as_endpoint :: string
  as_artifact_pointer :: string
  as_digest :: string
  as_signature_id :: string

record step_core =
  st_id :: string
  st_type :: step_type
  st_ref :: string
  st_tool :: string
  st_depends_on :: "string list"
  st_depends_on_nil :: bool
  st_inputs :: obj
  st_outputs :: "string list"
  st_retries :: "retry_policy option"
  st_timeout :: string
  st_compensate_with :: string
  st_for_each :: string
  st_max_parallel :: int
  st_body_ref :: string
  st_approver_role :: string
  st_on_timeout :: string
  st_escalation_role :: string
  st_expected_outputs :: obj
  st_workflow_ref :: string
  st_workflow_version :: string
  st_event_pattern :: "event_pattern option"
  st_prompt_template :: string
  st_model :: "model_binding option"
  st_tools :: "string list"
  st_tools_nil :: bool
  st_max_tool_calls :: int
  st_step_outputs :: "(string \<times> string) list"
  st_active_surface :: "node_active_surface option"
  st_targets :: "(string \<times> string) list"
  st_migrated_from :: step_type

datatype step = Step (core: step_core) (branches: "branch list") (body: "step list")
  and branch = Branch (br_when: string) (br_goto: string) (br_steps: "step list")

text \<open>The identifier and the fields the engine reads, through the core.\<close>

abbreviation sid :: "step \<Rightarrow> string" where
  "sid s \<equiv> st_id (core s)"

abbreviation stype :: "step \<Rightarrow> step_type" where
  "stype s \<equiv> st_type (core s)"

text \<open>Every step of a tree, itself included.\<close>

fun steps_of :: "step \<Rightarrow> step list" and steps_of_branch :: "branch \<Rightarrow> step list" where
  "steps_of (Step c bs b) =
     Step c bs b # concat (map steps_of_branch bs) @ concat (map steps_of b)"
| "steps_of_branch (Branch w g ss) = concat (map steps_of ss)"

record wf_spec =
  sp_inputs :: "io_field list"
  sp_outputs :: "io_field list"
  sp_steps :: "step list"
  sp_on_failure :: "step list"
  sp_triggers :: "trigger list"

record workflow =
  wf_api_version :: string
  wf_kind :: string
  wf_metadata :: metadata
  wf_spec :: wf_spec

text \<open>The zero values, from which concrete workflows are built.\<close>

definition zero_step_core :: step_core where
  "zero_step_core = \<lparr>st_id = [], st_type = StepTypeOther [], st_ref = [], st_tool = [],
     st_depends_on = [], st_depends_on_nil = True, st_inputs = [], st_outputs = [], st_retries = None, st_timeout = [],
     st_compensate_with = [], st_for_each = [], st_max_parallel = 0, st_body_ref = [],
     st_approver_role = [], st_on_timeout = [], st_escalation_role = [],
     st_expected_outputs = [], st_workflow_ref = [], st_workflow_version = [],
     st_event_pattern = None, st_prompt_template = [], st_model = None, st_tools = [], st_tools_nil = True,
     st_max_tool_calls = 0, st_step_outputs = [], st_active_surface = None, st_targets = [],
     st_migrated_from = StepTypeOther []\<rparr>"

definition zero_metadata :: metadata where
  "zero_metadata = \<lparr>md_id = [], md_name = [], md_version = [], md_owners = [], md_owners_nil = True,
     md_visibility = [], md_criticality = [], md_openspec_ids = [], md_tags = [], md_tags_nil = True,
     md_description = [], md_success_metric = []\<rparr>"

definition zero_spec :: wf_spec where
  "zero_spec = \<lparr>sp_inputs = [], sp_outputs = [], sp_steps = [], sp_on_failure = [],
     sp_triggers = []\<rparr>"

definition zero_workflow :: workflow where
  "zero_workflow = \<lparr>wf_api_version = ''forge.workflows/v1'', wf_kind = ''Workflow'',
     wf_metadata = zero_metadata, wf_spec = zero_spec\<rparr>"

definition zero_trigger :: trigger where
  "zero_trigger = \<lparr>tr_id = [], tr_type = TriggerTypeOther [], tr_config = [], tr_config_nil = True, tr_outputs = [],
     tr_concurrency = TriggerConcurrencyOther [], tr_migrated_from = StepTypeOther []\<rparr>"

lemmas zero_defs = zero_step_core_def zero_metadata_def zero_spec_def zero_workflow_def
  zero_trigger_def

section \<open>Registry references\<close>

record asset_ref =
  ar_type :: string
  ar_id :: string
  ar_version :: string

datatype ref_error = ErrNotRegistryRef | ErrFloatingReference | ErrMalformedReference

definition floating_tag_words :: "string list" where
  "floating_tag_words = [''latest'', ''main'', ''master'', ''current'', ''stable'']"

definition mcp_permission_scopes :: "string list" where
  "mcp_permission_scopes = [''read'', ''write'', ''admin'']"

text \<open>
  The regular expression \<open>^\d+\.\d+\.\d+(?:-[0-9A-Za-z.-]+)?(?:\+[0-9A-Za-z.-]+)?$\<close> as a
  recogniser. Greedy consumption is exact: a digit run is followed by a dot or by the end, and
  \<open>+\<close> is not in the character class.
\<close>

definition is_alpha :: "char \<Rightarrow> bool" where
  "is_alpha c \<longleftrightarrow> (65 \<le> (of_char c :: nat) \<and> (of_char c :: nat) \<le> 90)
     \<or> (97 \<le> (of_char c :: nat) \<and> (of_char c :: nat) \<le> 122)"

definition is_tag_char :: "char \<Rightarrow> bool" where
  "is_tag_char c \<longleftrightarrow> is_digit c \<or> is_alpha c \<or> c = CHR ''.'' \<or> c = CHR ''-''"

definition match_build :: "string \<Rightarrow> bool" where
  "match_build s =
     (case s of
        [] \<Rightarrow> True
      | c # cs \<Rightarrow> c = CHR ''+'' \<and> cs \<noteq> [] \<and> list_all is_tag_char cs)"

definition match_pre :: "string \<Rightarrow> bool" where
  "match_pre s =
     (case s of
        [] \<Rightarrow> True
      | c # cs \<Rightarrow>
          if c = CHR ''-''
          then takeWhile is_tag_char cs \<noteq> [] \<and> match_build (dropWhile is_tag_char cs)
          else match_build s)"

fun match_numbers :: "nat \<Rightarrow> string \<Rightarrow> bool" where
  "match_numbers 0 s = (takeWhile is_digit s \<noteq> [] \<and> match_pre (dropWhile is_digit s))"
| "match_numbers (Suc n) s =
     (takeWhile is_digit s \<noteq> [] \<and>
      (case dropWhile is_digit s of
         [] \<Rightarrow> False
       | c # cs \<Rightarrow> c = CHR ''.'' \<and> match_numbers n cs))"

definition semver_ref_pattern :: "string \<Rightarrow> bool" where
  "semver_ref_pattern s = match_numbers 2 s"

text \<open>
  \<open>ParseAssetRef\<close>. On \<open>ErrFloatingReference\<close> the code also returns the parts it has read;
  every caller ignores them, and so does the sum type.
\<close>

definition registry_prefix :: string where
  "registry_prefix = ''registry:''"

definition parse_asset_ref :: "string \<Rightarrow> ref_error + asset_ref" where
  "parse_asset_ref ref =
     (if \<not> has_prefix ref registry_prefix then Inl ErrNotRegistryRef
      else let bdy = trim_prefix ref registry_prefix in
      case last_index_of (CHR ''@'') bdy of
        None \<Rightarrow> Inl ErrMalformedReference
      | Some at \<Rightarrow>
          if at = 0 \<or> at = length bdy - 1 then Inl ErrMalformedReference
          else let left = take at bdy; right = drop (Suc at) bdy in
          case index_of (CHR ''/'') left of
            None \<Rightarrow> Inl ErrMalformedReference
          | Some slash \<Rightarrow>
              if slash = 0 \<or> slash = length left - 1 then Inl ErrMalformedReference
              else let out = \<lparr>ar_type = take slash left, ar_id = drop (Suc slash) left,
                              ar_version = right\<rparr> in
              if to_lower (ar_version out) \<in> set floating_tag_words then Inl ErrFloatingReference
              else if ar_type out = ''mcp'' \<and> to_lower (ar_version out) \<in> set mcp_permission_scopes
                then Inr out
              else if \<not> semver_ref_pattern (ar_version out) then Inl ErrFloatingReference
              else Inr out)"

definition asset_ref_string :: "asset_ref \<Rightarrow> string" where
  "asset_ref_string r =
     registry_prefix @ ar_type r @ [CHR ''/''] @ ar_id r @ [CHR ''@''] @ ar_version r"

text \<open>What a version must look like for a reference to be accepted.\<close>

definition pinned_version :: "string \<Rightarrow> string \<Rightarrow> bool" where
  "pinned_version ty v \<longleftrightarrow>
     to_lower v \<notin> set floating_tag_words
     \<and> (semver_ref_pattern v \<or> ty = ''mcp'' \<and> to_lower v \<in> set mcp_permission_scopes)"

text \<open>The references that have a canonical form of their own.\<close>

definition wf_asset_ref :: "asset_ref \<Rightarrow> bool" where
  "wf_asset_ref r \<longleftrightarrow>
     ar_type r \<noteq> [] \<and> CHR ''/'' \<notin> set (ar_type r) \<and> ar_id r \<noteq> [] \<and> ar_version r \<noteq> []
     \<and> CHR ''@'' \<notin> set (ar_version r) \<and> pinned_version (ar_type r) (ar_version r)"

lemma parse_asset_ref_InrE:
  assumes "parse_asset_ref s = Inr r"
  obtains bdy at slash where
    "has_prefix s registry_prefix" "bdy = trim_prefix s registry_prefix"
    "last_index_of (CHR ''@'') bdy = Some at" "at \<noteq> 0" "at \<noteq> length bdy - 1"
    "index_of (CHR ''/'') (take at bdy) = Some slash" "slash \<noteq> 0"
    "slash \<noteq> length (take at bdy) - 1"
    "r = \<lparr>ar_type = take slash (take at bdy), ar_id = drop (Suc slash) (take at bdy),
          ar_version = drop (Suc at) bdy\<rparr>"
    "pinned_version (ar_type r) (ar_version r)"
  using assms unfolding parse_asset_ref_def Let_def pinned_version_def
  by (simp only: split: if_split_asm option.split_asm) auto

lemma parse_asset_ref_sound:
  assumes "parse_asset_ref s = Inr r"
  shows "asset_ref_string r = s \<and> wf_asset_ref r"
  using assms
proof (rule parse_asset_ref_InrE)
  fix bdy at slash
  assume pre: "has_prefix s registry_prefix" "bdy = trim_prefix s registry_prefix"
    and at: "last_index_of (CHR ''@'') bdy = Some at" "at \<noteq> 0" "at \<noteq> length bdy - 1"
    and sl: "index_of (CHR ''/'') (take at bdy) = Some slash" "slash \<noteq> 0"
      "slash \<noteq> length (take at bdy) - 1"
    and r: "r = \<lparr>ar_type = take slash (take at bdy), ar_id = drop (Suc slash) (take at bdy),
                 ar_version = drop (Suc at) bdy\<rparr>"
    and v: "pinned_version (ar_type r) (ar_version r)"
  define left where "left = take at bdy"
  note a = last_index_of_SomeD [OF at(1)] and b = index_of_SomeD [OF sl(1), folded left_def]
  have s: "s = registry_prefix @ bdy"
    using has_prefixD [OF pre(1)] pre(2) by auto
  have bdy: "bdy = left @ CHR ''@'' # drop (Suc at) bdy"
    unfolding left_def using a id_take_nth_drop [of at bdy] by simp
  have left: "left = take slash left @ CHR ''/'' # drop (Suc slash) left"
    using b id_take_nth_drop [of slash left] by simp
  have "asset_ref_string r
      = registry_prefix @ (take slash left @ CHR ''/'' # drop (Suc slash) left)
          @ CHR ''@'' # drop (Suc at) bdy"
    by (simp add: asset_ref_string_def r left_def)
  also have "\<dots> = s"
    by (simp only: left [symmetric] bdy [symmetric] s)
  finally have "asset_ref_string r = s" .
  moreover have "ar_type r \<noteq> []" "ar_id r \<noteq> []" "ar_version r \<noteq> []"
    using a b at sl by (auto simp: r left_def)
  moreover have "CHR ''/'' \<notin> set (ar_type r)" "CHR ''@'' \<notin> set (ar_version r)"
    using a b by (auto simp: r left_def)
  ultimately show ?thesis using v by (simp add: wf_asset_ref_def)
qed

lemma parse_asset_ref_complete:
  assumes "wf_asset_ref r"
  shows "parse_asset_ref (asset_ref_string r) = Inr r"
proof -
  define left where "left = ar_type r @ CHR ''/'' # ar_id r"
  define bdy where "bdy = left @ CHR ''@'' # ar_version r"
  have str: "asset_ref_string r = registry_prefix @ bdy"
    by (simp add: asset_ref_string_def bdy_def left_def)
  have at: "last_index_of (CHR ''@'') bdy = Some (length left)"
    unfolding bdy_def using assms by (intro last_index_of_append) (simp add: wf_asset_ref_def)
  have sl: "index_of (CHR ''/'') left = Some (length (ar_type r))"
    unfolding left_def using assms by (intro index_of_append) (simp add: wf_asset_ref_def)
  have parts: "take (length left) bdy = left" "drop (Suc (length left)) bdy = ar_version r"
    "take (length (ar_type r)) left = ar_type r" "drop (Suc (length (ar_type r))) left = ar_id r"
    by (simp_all add: bdy_def left_def)
  have len: "length left \<noteq> 0" "length left \<noteq> length bdy - 1" "length (ar_type r) \<noteq> 0"
    "length (ar_type r) \<noteq> length left - 1"
    using assms by (auto simp: bdy_def left_def wf_asset_ref_def)
  show ?thesis
    using assms len unfolding parse_asset_ref_def str
    by (auto simp: at sl parts Let_def wf_asset_ref_def pinned_version_def)
qed

section \<open>Properties of references\<close>

text \<open>C16: \<open>ParseAssetRef\<close> and \<open>AssetRef.String\<close> are inverse: a string that parses is the canonical
  form of the reference it parses to, so no byte of it is lost, and the references accepted are
  exactly the canonical forms of the well-formed references.\<close>

theorem asset_ref_roundtrip:
  "parse_asset_ref s = Inr r \<longleftrightarrow> wf_asset_ref r \<and> asset_ref_string r = s"
proof
  assume "parse_asset_ref s = Inr r"
  then show "wf_asset_ref r \<and> asset_ref_string r = s" by (simp add: parse_asset_ref_sound)
next
  assume "wf_asset_ref r \<and> asset_ref_string r = s"
  then show "parse_asset_ref s = Inr r" using parse_asset_ref_complete by blast
qed

text \<open>No reference with a floating version is accepted: whatever the case of its letters, a
  version that is one of the floating tags is refused, and an accepted version is an exact SemVer
  or, for an MCP server only, a permission scope.\<close>

theorem asset_ref_never_floating:
  assumes "parse_asset_ref s = Inr r"
  shows "to_lower (ar_version r) \<notin> set floating_tag_words
    \<and> (semver_ref_pattern (ar_version r)
       \<or> ar_type r = ''mcp'' \<and> to_lower (ar_version r) \<in> set mcp_permission_scopes)"
  using parse_asset_ref_sound [OF assms]
  by (simp add: wf_asset_ref_def pinned_version_def)

theorem asset_ref_never_floating_witness:
  "to_lower ''1.2.0'' \<notin> set floating_tag_words"
proof -
  have h: "parse_asset_ref ''registry:skill/sdlc/refine@1.2.0''
      = Inr \<lparr>ar_type = ''skill'', ar_id = ''sdlc/refine'', ar_version = ''1.2.0''\<rparr>"
    by code_simp
  from asset_ref_never_floating [OF h] show ?thesis by simp
qed

end
