(* ===== verification/Workflow_Diff.thy ===== *)
theory Workflow_Diff
  imports Workflow_AST Semver
begin

text \<open>
  \<open>services/workflow-registry/internal/registry/diff.go\<close>: the classification of the change
  between two versions of a workflow. The Go function threads a \<open>DiffResult\<close> through loops over
  maps; here each loop is a \<open>fold\<close> over the association list that stands for the map, in one of the
  orders in which Go may visit it. Numbers are compared as decoded by one decoder (publication always
  decodes YAML).
\<close>

section \<open>Deep equality of dynamic values\<close>

lemma size_val_in_pairs [termination_simp]:
  "(k, v) \<in> set xs \<Longrightarrow> size v < Suc (size_list (size_prod (\<lambda>x. 0) size) xs)"
  by (induction xs) auto

lemma size_val_in_zip [termination_simp]:
  "(v, w) \<in> set (zip xs ys) \<Longrightarrow> size v < Suc (size_list size xs)"
  by (induction xs ys rule: list_induct2') auto

text \<open>\<open>reflect.DeepEqual\<close>: maps are equal when they have the same keys with equal values.\<close>

fun val_eq :: "val \<Rightarrow> val \<Rightarrow> bool" where
  "val_eq VNil VNil = True"
| "val_eq (VBool a) (VBool b) = (a = b)"
| "val_eq (VInt a) (VInt b) = (a = b)"
| "val_eq (VString a) (VString b) = (a = b)"
| "val_eq (VUnbound a) (VUnbound b) = (a = b)"
| "val_eq (VList xs) (VList ys) =
     (length xs = length ys \<and> list_all (\<lambda>(x, y). val_eq x y) (zip xs ys))"
| "val_eq (VMap xs) (VMap ys) =
     (list_all (\<lambda>(k, v). case map_of ys k of None \<Rightarrow> False | Some w \<Rightarrow> val_eq v w) xs
      \<and> list_all (\<lambda>(k, w). map_of xs k \<noteq> None) ys)"
| "val_eq _ _ = False"

text \<open>The comparisons of dependencies and of trigger configurations.\<close>

definition same_deps :: "step_core \<Rightarrow> step_core \<Rightarrow> bool" where
  "same_deps p n \<longleftrightarrow> slice_eq (st_depends_on_nil p) (st_depends_on p) (st_depends_on_nil n) (st_depends_on n)"

definition same_config :: "trigger \<Rightarrow> trigger \<Rightarrow> bool" where
  "same_config p n \<longleftrightarrow> val_eq (VMap (tr_config p)) (VMap (tr_config n)) \<and>
     (tr_config p = [] \<longrightarrow> tr_config_nil p = tr_config_nil n)"

section \<open>Results and marks\<close>

record diff_result =
  dr_bump :: bump_kind
  dr_reasons :: "string list"
  dr_major :: bool
  dr_minor :: bool

definition append_once :: "string list \<Rightarrow> string \<Rightarrow> string list" where
  "append_once xs v = (if v \<in> set xs then xs else xs @ [v])"

definition mark_major :: "string \<Rightarrow> diff_result \<Rightarrow> diff_result" where
  "mark_major reason d =
     d\<lparr>dr_bump := BumpMajor, dr_major := True, dr_reasons := append_once (dr_reasons d) reason\<rparr>"

definition mark_minor :: "string \<Rightarrow> diff_result \<Rightarrow> diff_result" where
  "mark_minor reason d =
     (let d1 = (if dr_bump d \<noteq> BumpMajor then d\<lparr>dr_bump := BumpMinor, dr_minor := True\<rparr> else d)
      in d1\<lparr>dr_reasons := append_once (dr_reasons d1) reason\<rparr>)"

definition mark_patch_migration :: "string \<Rightarrow> diff_result \<Rightarrow> diff_result" where
  "mark_patch_migration reason d = d\<lparr>dr_reasons := append_once (dr_reasons d) reason\<rparr>"

section \<open>Indexing by name\<close>

text \<open>\<open>indexIO\<close>, \<open>indexSteps\<close> and \<open>indexTriggers\<close>: a later entry overwrites an earlier one.\<close>

definition index_by :: "('a \<Rightarrow> string) \<Rightarrow> 'a list \<Rightarrow> (string \<times> 'a) list" where
  "index_by key xs = fold (\<lambda>x m. AList.update (key x) x m) xs []"

definition index_io :: "io_field list \<Rightarrow> (string \<times> io_field) list" where
  "index_io fs = index_by io_name fs"

definition index_steps :: "step list \<Rightarrow> (string \<times> step) list" where
  "index_steps ss = index_by sid ss"

definition index_triggers :: "trigger list \<Rightarrow> (string \<times> trigger) list" where
  "index_triggers ts = index_by tr_id ts"

definition is_prompt_to_template_migration :: "step_type \<Rightarrow> step_type \<Rightarrow> bool" where
  "is_prompt_to_template_migration p n \<longleftrightarrow> p = StepPrompt \<and> n = StepPromptTemplate"

definition model_ref :: "model_binding option \<Rightarrow> string" where
  "model_ref m = (case m of None \<Rightarrow> [] | Some b \<Rightarrow> mb_ref b)"

definition arrow :: "string \<Rightarrow> string \<Rightarrow> string" where
  "arrow a b = a @ ''->'' @ b"

section \<open>The loops\<close>

definition diff_prev_input ::
  "(string \<times> io_field) list \<Rightarrow> string \<times> io_field \<Rightarrow> diff_result \<Rightarrow> diff_result" where
  "diff_prev_input next_inputs = (\<lambda>(name, p) d.
     case map_of next_inputs name of
       None \<Rightarrow> mark_major (''input_removed:'' @ name) d
     | Some n \<Rightarrow>
         let d1 = (if io_type p \<noteq> io_type n
                   then mark_major (''input_type_changed:'' @ name @ '':''
                          @ arrow (io_type p) (io_type n)) d
                   else d)
         in if \<not> io_required p \<and> io_required n
            then mark_major (''input_required_added:'' @ name) d1 else d1)"

definition diff_added ::
  "string \<Rightarrow> (string \<times> 'a) list \<Rightarrow> string \<times> 'a \<Rightarrow> diff_result \<Rightarrow> diff_result" where
  "diff_added label prev = (\<lambda>(name, _) d.
     if map_of prev name = None then mark_minor (label @ name) d else d)"

definition diff_prev_output ::
  "(string \<times> io_field) list \<Rightarrow> string \<times> io_field \<Rightarrow> diff_result \<Rightarrow> diff_result" where
  "diff_prev_output next_outputs = (\<lambda>(name, p) d.
     case map_of next_outputs name of
       None \<Rightarrow> mark_major (''output_removed:'' @ name) d
     | Some n \<Rightarrow>
         if io_type p \<noteq> io_type n
         then mark_major (''output_type_changed:'' @ name @ '':''
                @ arrow (io_type p) (io_type n)) d
         else d)"

definition diff_removed ::
  "string \<Rightarrow> (string \<times> 'a) list \<Rightarrow> string \<times> 'b \<Rightarrow> diff_result \<Rightarrow> diff_result" where
  "diff_removed label next = (\<lambda>(ident, _) d.
     if map_of next ident = None then mark_major (label @ ident) d else d)"

definition diff_llm_step :: "string \<Rightarrow> step_core \<Rightarrow> step_core \<Rightarrow> diff_result \<Rightarrow> diff_result" where
  "diff_llm_step ident p n d =
     (let d1 = (if st_prompt_template p \<noteq> st_prompt_template n
                then mark_minor (''llm_prompt_template_changed:'' @ ident) d else d);
          d2 = (if model_ref (st_model p) \<noteq> model_ref (st_model n)
                then mark_minor (''llm_model_ref_changed:'' @ ident) d1 else d1);
          d3 = (if \<not> slice_eq (st_tools_nil p) (st_tools p) (st_tools_nil n) (st_tools n)
                then mark_minor (''llm_tools_changed:'' @ ident) d2 else d2);
          d4 = fold (diff_removed (''llm_outputs_removed:'' @ ident @ '':'') (st_step_outputs n))
                 (st_step_outputs p) d3
      in fold (diff_added (''llm_outputs_added:'' @ ident @ '':'') (st_step_outputs p))
           (st_step_outputs n) d4)"

definition diff_next_step ::
  "(string \<times> step) list \<Rightarrow> string \<times> step \<Rightarrow> diff_result \<Rightarrow> diff_result" where
  "diff_next_step prev_steps = (\<lambda>(ident, n) d.
     case map_of prev_steps ident of
       None \<Rightarrow> mark_minor (''step_added:'' @ ident) d
     | Some p \<Rightarrow>
         let d1 = (if stype p \<noteq> stype n
                   then (if is_prompt_to_template_migration (stype p) (stype n)
                         then mark_patch_migration (''migrate_prompt_to_prompt_template:'' @ ident) d
                         else mark_major (''step_type_changed:'' @ ident @ '':''
                                @ arrow (step_type_string (stype p)) (step_type_string (stype n))) d)
                   else d);
             d2 = (if st_ref (core p) \<noteq> st_ref (core n) \<or> st_tool (core p) \<noteq> st_tool (core n)
                   then mark_minor (''step_ref_changed:'' @ ident) d1 else d1);
             d3 = (if \<not> same_deps (core p) (core n)
                   then mark_minor (''step_deps_changed:'' @ ident) d2 else d2)
         in if stype p = StepLLM \<and> stype n = StepLLM
            then diff_llm_step ident (core p) (core n) d3 else d3)"

text \<open>The text of a trigger type, as \<open>%s\<close> prints it.\<close>

fun trigger_type_string :: "trigger_type \<Rightarrow> string" where
  "trigger_type_string TriggerManual = ''manual''"
| "trigger_type_string TriggerCron = ''cron''"
| "trigger_type_string TriggerWebhookIn = ''webhook-in''"
| "trigger_type_string TriggerEventBus = ''event-bus''"
| "trigger_type_string TriggerEmailInbound = ''email-inbound''"
| "trigger_type_string (TriggerTypeOther s) = s"

definition diff_next_trigger ::
  "(string \<times> trigger) list \<Rightarrow> string \<times> trigger \<Rightarrow> diff_result \<Rightarrow> diff_result" where
  "diff_next_trigger prev_idx = (\<lambda>(ident, n) d.
     case map_of prev_idx ident of
       None \<Rightarrow>
         if tr_migrated_from n \<noteq> StepTypeOther []
         then mark_patch_migration (''migrate_event_trigger_to_triggers_block:'' @ ident) d
         else mark_minor (''trigger_added:'' @ ident) d
     | Some p \<Rightarrow>
         let d1 = (if tr_type p \<noteq> tr_type n
                   then mark_major (''trigger_type_changed:'' @ ident @ '':''
                          @ arrow (trigger_type_string (tr_type p)) (trigger_type_string (tr_type n))) d
                   else d);
             d2 = (if \<not> same_config p n
                   then mark_minor (''trigger_config_changed:'' @ ident) d1 else d1);
             d3 = fold (diff_removed (''trigger_outputs_removed:'' @ ident @ '':'') (tr_outputs n))
                    (tr_outputs p) d2;
             d4 = fold (diff_added (''trigger_outputs_added:'' @ ident @ '':'') (tr_outputs p))
                    (tr_outputs n) d3
         in if concurrency_or_default p \<noteq> concurrency_or_default n
            then mark_minor (''trigger_concurrency_changed:'' @ ident) d4 else d4)"

definition diff_triggers :: "trigger list \<Rightarrow> trigger list \<Rightarrow> diff_result \<Rightarrow> diff_result" where
  "diff_triggers prev next d =
     fold (diff_next_trigger (index_triggers prev)) (index_triggers next)
       (fold (diff_removed ''trigger_removed:'' (index_triggers next)) (index_triggers prev) d)"

definition metadata_changed :: "workflow \<Rightarrow> workflow \<Rightarrow> bool" where
  "metadata_changed prev next \<longleftrightarrow>
     md_description (wf_metadata prev) \<noteq> md_description (wf_metadata next)
     \<or> md_success_metric (wf_metadata prev) \<noteq> md_success_metric (wf_metadata next)
     \<or> \<not> slice_eq (md_owners_nil (wf_metadata prev)) (md_owners (wf_metadata prev))
           (md_owners_nil (wf_metadata next)) (md_owners (wf_metadata next))
     \<or> \<not> slice_eq (md_tags_nil (wf_metadata prev)) (md_tags (wf_metadata prev))
           (md_tags_nil (wf_metadata next)) (md_tags (wf_metadata next))"

definition diff_specs :: "wf_spec \<Rightarrow> wf_spec \<Rightarrow> diff_result \<Rightarrow> diff_result" where
  "diff_specs prev next d0 =
     (let prev_inputs = index_io (sp_inputs prev); next_inputs = index_io (sp_inputs next);
          d1 = fold (diff_prev_input next_inputs) prev_inputs d0;
          d2 = fold (diff_added ''input_added:'' prev_inputs) next_inputs d1;
          prev_outputs = index_io (sp_outputs prev); next_outputs = index_io (sp_outputs next);
          d3 = fold (diff_prev_output next_outputs) prev_outputs d2;
          d4 = fold (diff_added ''output_added:'' prev_outputs) next_outputs d3;
          prev_steps = index_steps (sp_steps prev); next_steps = index_steps (sp_steps next);
          d5 = fold (diff_removed ''step_removed:'' next_steps) prev_steps d4;
          d6 = fold (diff_next_step prev_steps) next_steps d5
      in diff_triggers (sp_triggers prev) (sp_triggers next) d6)"

text \<open>\<open>None\<close> is a nil workflow.\<close>

definition diff_workflows :: "workflow option \<Rightarrow> workflow option \<Rightarrow> diff_result" where
  "diff_workflows prev next =
     (let out = \<lparr>dr_bump = BumpPatch, dr_reasons = [], dr_major = False, dr_minor = False\<rparr> in
      case (prev, next) of
        (Some p, Some n) \<Rightarrow>
          let d = diff_specs (wf_spec p) (wf_spec n) out
          in if dr_bump d = BumpPatch \<and> metadata_changed p n
             then d\<lparr>dr_reasons := dr_reasons d @ [''metadata_only_change'']\<rparr> else d
      | _ \<Rightarrow> out\<lparr>dr_bump := BumpMajor, dr_reasons := [''missing_workflow''], dr_major := True\<rparr>)"

section \<open>The order on bumps\<close>

fun bump_rank :: "bump_kind \<Rightarrow> nat" where
  "bump_rank BumpPatch = 0"
| "bump_rank BumpMinor = 1"
| "bump_rank BumpMajor = 2"

lemma bump_rank_inj: "bump_rank a = bump_rank b \<longleftrightarrow> a = b"
  by (cases a; cases b) auto

instantiation bump_kind :: linorder
begin

definition less_eq_bump_kind :: "bump_kind \<Rightarrow> bump_kind \<Rightarrow> bool" where
  "less_eq_bump_kind a b \<longleftrightarrow> bump_rank a \<le> bump_rank b"

definition less_bump_kind :: "bump_kind \<Rightarrow> bump_kind \<Rightarrow> bool" where
  "less_bump_kind a b \<longleftrightarrow> bump_rank a < bump_rank b"

instance
  by standard (auto simp: less_eq_bump_kind_def less_bump_kind_def bump_rank_inj)

end

lemma bump_le_simps [simp]:
  "BumpPatch \<le> b" "b \<le> BumpMajor" "BumpMajor \<le> b \<longleftrightarrow> b = BumpMajor"
  "BumpMinor \<le> b \<longleftrightarrow> b \<noteq> BumpPatch"
  by (cases b; simp add: less_eq_bump_kind_def)+

text \<open>
  A loop body that raises the bump to at least \<open>t\<close> exactly on the elements with \<open>P\<close> makes a loop
  that does so exactly when one of its elements has \<open>P\<close>.
\<close>

definition raises :: "bump_kind \<Rightarrow> (diff_result \<Rightarrow> diff_result) \<Rightarrow> bool \<Rightarrow> bool" where
  "raises t f b \<longleftrightarrow> (\<forall>d. t \<le> dr_bump (f d) \<longleftrightarrow> t \<le> dr_bump d \<or> b)"

lemma raisesI: "(\<And>d. t \<le> dr_bump (f d) \<longleftrightarrow> t \<le> dr_bump d \<or> b) \<Longrightarrow> raises t f b"
  by (simp add: raises_def)

lemma raisesD: "raises t f b \<Longrightarrow> t \<le> dr_bump (f d) \<longleftrightarrow> t \<le> dr_bump d \<or> b"
  by (simp add: raises_def)

lemma raises_fold:
  assumes "\<And>x. raises t (f x) (P x)"
  shows "t \<le> dr_bump (fold f xs d) \<longleftrightarrow> t \<le> dr_bump d \<or> (\<exists>x\<in>set xs. P x)"
  by (induction xs arbitrary: d) (auto simp: raisesD [OF assms])

lemma mark_bumps [simp]:
  "dr_bump (mark_major r d) = BumpMajor"
  "dr_bump (mark_patch_migration r d) = dr_bump d"
  "dr_bump (mark_minor r d) = max (dr_bump d) BumpMinor"
  by (cases "dr_bump d"; simp add: mark_major_def mark_patch_migration_def mark_minor_def Let_def
      max_def less_eq_bump_kind_def)+

lemma ge_mark_minor [simp]:
  "BumpMajor \<le> max b BumpMinor \<longleftrightarrow> BumpMajor \<le> b" "BumpMinor \<le> max b BumpMinor"
  "max b BumpMinor = BumpMajor \<longleftrightarrow> b = BumpMajor" "max b BumpMinor \<noteq> BumpPatch"
  by (cases b; simp add: max_def less_eq_bump_kind_def)+

section \<open>The reference classification\<close>

text \<open>The last entry with a name is the one in force.\<close>

definition last_by :: "('a \<Rightarrow> string) \<Rightarrow> 'a list \<Rightarrow> string \<Rightarrow> 'a option" where
  "last_by key xs k = find (\<lambda>x. key x = k) (rev xs)"

lemma find_append:
  "find P (xs @ ys) = (case find P xs of None \<Rightarrow> find P ys | Some x \<Rightarrow> Some x)"
  by (induction xs) auto

lemma map_of_index_fold:
  "map_of (fold (\<lambda>x m. AList.update (key x) x m) xs m0) k
     = (case find (\<lambda>x. key x = k) (rev xs) of None \<Rightarrow> map_of m0 k | Some x \<Rightarrow> Some x)"
proof (induction xs arbitrary: m0)
  case Nil
  then show ?case by simp
next
  case (Cons x xs)
  then show ?case
    by (simp add: Cons.IH update_conv find_append split: option.split)
qed

lemma map_of_index_by [simp]: "map_of (index_by key xs) k = last_by key xs k"
  by (simp add: index_by_def last_by_def map_of_index_fold split: option.split)

lemma distinct_index_fold:
  "distinct (map fst m0) \<Longrightarrow> distinct (map fst (fold (\<lambda>x m. AList.update (key x) x m) xs m0))"
  by (induction xs arbitrary: m0) (auto intro: distinct_update)

lemma ex_index_by:
  "(\<exists>(k, v) \<in> set (index_by key xs). P k v) \<longleftrightarrow> (\<exists>k v. last_by key xs k = Some v \<and> P k v)"
proof -
  have d: "distinct (map fst (index_by key xs))"
    unfolding index_by_def by (rule distinct_index_fold) simp
  have "(k, v) \<in> set (index_by key xs) \<longleftrightarrow> last_by key xs k = Some v" for k v
    using map_of_eq_Some_iff [OF d, of k v] by simp
  then show ?thesis by auto
qed

lemma ex_pairs: "(\<exists>x\<in>set xs. P (fst x) (snd x)) \<longleftrightarrow> (\<exists>(k, v)\<in>set xs. P k v)"
  by force

lemma last_by_None_iff: "last_by key xs k = None \<longleftrightarrow> k \<notin> key ` set xs"
  by (auto simp: last_by_def find_None_iff)

text \<open>What the rules listed above \<open>DiffWorkflows\<close> call a major change.\<close>

definition breaking_input :: "wf_spec \<Rightarrow> wf_spec \<Rightarrow> bool" where
  "breaking_input prev next \<longleftrightarrow>
     (\<exists>name p. last_by io_name (sp_inputs prev) name = Some p \<and>
        (case last_by io_name (sp_inputs next) name of
           None \<Rightarrow> True
         | Some n \<Rightarrow> io_type p \<noteq> io_type n \<or> \<not> io_required p \<and> io_required n))"

definition breaking_output :: "wf_spec \<Rightarrow> wf_spec \<Rightarrow> bool" where
  "breaking_output prev next \<longleftrightarrow>
     (\<exists>name p. last_by io_name (sp_outputs prev) name = Some p \<and>
        (case last_by io_name (sp_outputs next) name of
           None \<Rightarrow> True | Some n \<Rightarrow> io_type p \<noteq> io_type n))"

definition breaking_step :: "wf_spec \<Rightarrow> wf_spec \<Rightarrow> bool" where
  "breaking_step prev next \<longleftrightarrow>
     (\<exists>i p. last_by sid (sp_steps prev) i = Some p \<and>
        (case last_by sid (sp_steps next) i of
           None \<Rightarrow> True
         | Some n \<Rightarrow>
             stype p \<noteq> stype n \<and> \<not> (stype p = StepPrompt \<and> stype n = StepPromptTemplate)
             \<or> stype p = StepLLM \<and> stype n = StepLLM
               \<and> \<not> fst ` set (st_step_outputs (core p)) \<subseteq> fst ` set (st_step_outputs (core n))))"

definition breaking_trigger :: "wf_spec \<Rightarrow> wf_spec \<Rightarrow> bool" where
  "breaking_trigger prev next \<longleftrightarrow>
     (\<exists>i p. last_by tr_id (sp_triggers prev) i = Some p \<and>
        (case last_by tr_id (sp_triggers next) i of
           None \<Rightarrow> True
         | Some n \<Rightarrow> tr_type p \<noteq> tr_type n
             \<or> \<not> fst ` set (tr_outputs p) \<subseteq> fst ` set (tr_outputs n)))"

definition breaking :: "wf_spec \<Rightarrow> wf_spec \<Rightarrow> bool" where
  "breaking prev next \<longleftrightarrow> breaking_input prev next \<or> breaking_output prev next
     \<or> breaking_step prev next \<or> breaking_trigger prev next"

text \<open>What they call a minor change.\<close>

definition additive_io :: "wf_spec \<Rightarrow> wf_spec \<Rightarrow> bool" where
  "additive_io prev next \<longleftrightarrow>
     \<not> io_name ` set (sp_inputs next) \<subseteq> io_name ` set (sp_inputs prev)
     \<or> \<not> io_name ` set (sp_outputs next) \<subseteq> io_name ` set (sp_outputs prev)"

definition additive_llm :: "step_core \<Rightarrow> step_core \<Rightarrow> bool" where
  "additive_llm p n \<longleftrightarrow>
     st_prompt_template p \<noteq> st_prompt_template n \<or> model_ref (st_model p) \<noteq> model_ref (st_model n)
     \<or> \<not> slice_eq (st_tools_nil p) (st_tools p) (st_tools_nil n) (st_tools n)
     \<or> \<not> fst ` set (st_step_outputs n) \<subseteq> fst ` set (st_step_outputs p)"

definition additive_step :: "wf_spec \<Rightarrow> wf_spec \<Rightarrow> bool" where
  "additive_step prev next \<longleftrightarrow>
     (\<exists>i n. last_by sid (sp_steps next) i = Some n \<and>
        (case last_by sid (sp_steps prev) i of
           None \<Rightarrow> True
         | Some p \<Rightarrow>
             st_ref (core p) \<noteq> st_ref (core n) \<or> st_tool (core p) \<noteq> st_tool (core n)
             \<or> \<not> same_deps (core p) (core n)
             \<or> stype p = StepLLM \<and> stype n = StepLLM \<and> additive_llm (core p) (core n)))"

definition additive_trigger :: "wf_spec \<Rightarrow> wf_spec \<Rightarrow> bool" where
  "additive_trigger prev next \<longleftrightarrow>
     (\<exists>i n. last_by tr_id (sp_triggers next) i = Some n \<and>
        (case last_by tr_id (sp_triggers prev) i of
           None \<Rightarrow> tr_migrated_from n = StepTypeOther []
         | Some p \<Rightarrow>
             \<not> same_config p n
             \<or> \<not> fst ` set (tr_outputs n) \<subseteq> fst ` set (tr_outputs p)
             \<or> concurrency_or_default p \<noteq> concurrency_or_default n))"

definition additive :: "wf_spec \<Rightarrow> wf_spec \<Rightarrow> bool" where
  "additive prev next \<longleftrightarrow> additive_io prev next \<or> additive_step prev next
     \<or> additive_trigger prev next"

section \<open>Each loop against its rule\<close>

lemmas bump_splits = option.splits if_splits

lemma raises_diff_added:
  "raises BumpMajor (diff_added l prev x) False"
  "raises BumpMinor (diff_added l prev x) (fst x \<notin> fst ` set prev)"
  by (rule raisesI; cases x; auto simp: diff_added_def map_of_eq_None_iff)+

lemma raises_diff_removed:
  "raises t (diff_removed l next x) (t \<noteq> BumpPatch \<and> fst x \<notin> fst ` set next)"
  by (rule raisesI; cases x; cases t; auto simp: diff_removed_def map_of_eq_None_iff)

lemma raises_prev_input:
  "raises t (diff_prev_input ni x) (t \<noteq> BumpPatch \<and> (case map_of ni (fst x) of None \<Rightarrow> True
     | Some n \<Rightarrow> io_type (snd x) \<noteq> io_type n \<or> \<not> io_required (snd x) \<and> io_required n))"
  by (rule raisesI; cases x; cases t; simp add: diff_prev_input_def Let_def split: option.split)

lemma raises_prev_output:
  "raises t (diff_prev_output ni x) (t \<noteq> BumpPatch \<and> (case map_of ni (fst x) of None \<Rightarrow> True
     | Some n \<Rightarrow> io_type (snd x) \<noteq> io_type n))"
  by (rule raisesI; cases x; cases t; simp add: diff_prev_output_def Let_def split: option.split)

text \<open>The same for the loops over declared names, as rewrite rules on the two tests of a bump.\<close>

lemma ge_iff: "b = BumpMajor \<longleftrightarrow> BumpMajor \<le> b" "b = BumpPatch \<longleftrightarrow> \<not> BumpMinor \<le> b"
  by simp_all

lemma fold_names_bump [simp]:
  "dr_bump (fold (diff_added l ys) xs d) = BumpMajor \<longleftrightarrow> dr_bump d = BumpMajor"
  "dr_bump (fold (diff_added l ys) xs d) = BumpPatch
     \<longleftrightarrow> dr_bump d = BumpPatch \<and> fst ` set xs \<subseteq> fst ` set ys"
  "dr_bump (fold (diff_removed l ys) xs d) = BumpMajor
     \<longleftrightarrow> dr_bump d = BumpMajor \<or> \<not> fst ` set xs \<subseteq> fst ` set ys"
  "dr_bump (fold (diff_removed l ys) xs d) = BumpPatch
     \<longleftrightarrow> dr_bump d = BumpPatch \<and> fst ` set xs \<subseteq> fst ` set ys"
  unfolding ge_iff raises_fold [OF raises_diff_added(1)] raises_fold [OF raises_diff_added(2)]
    raises_fold [OF raises_diff_removed]
  by auto

lemma llm_bump [simp]:
  "dr_bump (diff_llm_step i p n d) = BumpMajor \<longleftrightarrow> dr_bump d = BumpMajor
     \<or> \<not> fst ` set (st_step_outputs p) \<subseteq> fst ` set (st_step_outputs n)"
  "dr_bump (diff_llm_step i p n d) = BumpPatch \<longleftrightarrow> dr_bump d = BumpPatch
     \<and> fst ` set (st_step_outputs p) \<subseteq> fst ` set (st_step_outputs n) \<and> \<not> additive_llm p n"
  by (auto simp: diff_llm_step_def Let_def additive_llm_def)

definition step_break :: "step \<Rightarrow> step \<Rightarrow> bool" where
  "step_break p n \<longleftrightarrow>
     stype p \<noteq> stype n \<and> \<not> (stype p = StepPrompt \<and> stype n = StepPromptTemplate)
     \<or> stype p = StepLLM \<and> stype n = StepLLM
       \<and> \<not> fst ` set (st_step_outputs (core p)) \<subseteq> fst ` set (st_step_outputs (core n))"

definition step_add :: "step \<Rightarrow> step \<Rightarrow> bool" where
  "step_add p n \<longleftrightarrow>
     st_ref (core p) \<noteq> st_ref (core n) \<or> st_tool (core p) \<noteq> st_tool (core n)
     \<or> \<not> same_deps (core p) (core n)
     \<or> stype p = StepLLM \<and> stype n = StepLLM \<and> additive_llm (core p) (core n)"

definition trigger_break :: "trigger \<Rightarrow> trigger \<Rightarrow> bool" where
  "trigger_break p n \<longleftrightarrow>
     tr_type p \<noteq> tr_type n \<or> \<not> fst ` set (tr_outputs p) \<subseteq> fst ` set (tr_outputs n)"

definition trigger_add :: "trigger \<Rightarrow> trigger \<Rightarrow> bool" where
  "trigger_add p n \<longleftrightarrow>
     \<not> same_config p n
     \<or> \<not> fst ` set (tr_outputs n) \<subseteq> fst ` set (tr_outputs p)
     \<or> concurrency_or_default p \<noteq> concurrency_or_default n"

lemma raises_next_step:
  "raises BumpMajor (diff_next_step ps x)
     (case map_of ps (fst x) of None \<Rightarrow> False | Some p \<Rightarrow> step_break p (snd x))"
  "raises BumpMinor (diff_next_step ps x)
     ((case map_of ps (fst x) of None \<Rightarrow> False | Some p \<Rightarrow> step_break p (snd x))
      \<or> (case map_of ps (fst x) of None \<Rightarrow> True | Some p \<Rightarrow> step_add p (snd x)))"
  by (rule raisesI; cases x; cases "map_of ps (fst x)";
      auto simp: diff_next_step_def Let_def step_break_def step_add_def
        is_prompt_to_template_migration_def)+

lemma raises_next_trigger:
  "raises BumpMajor (diff_next_trigger ps x)
     (case map_of ps (fst x) of None \<Rightarrow> False | Some p \<Rightarrow> trigger_break p (snd x))"
  "raises BumpMinor (diff_next_trigger ps x)
     ((case map_of ps (fst x) of None \<Rightarrow> False | Some p \<Rightarrow> trigger_break p (snd x))
      \<or> (case map_of ps (fst x) of None \<Rightarrow> tr_migrated_from (snd x) = StepTypeOther []
         | Some p \<Rightarrow> trigger_add p (snd x)))"
  by (rule raisesI; cases x; cases "map_of ps (fst x)";
      auto simp: diff_next_trigger_def Let_def trigger_break_def trigger_add_def)+

section \<open>The whole classification\<close>

lemmas diff_loops = raises_fold [OF raises_prev_input] raises_fold [OF raises_prev_output]
  raises_fold [OF raises_diff_added(1)] raises_fold [OF raises_diff_added(2)]
  raises_fold [OF raises_diff_removed] raises_fold [OF raises_next_step(1)]
  raises_fold [OF raises_next_step(2)] raises_fold [OF raises_next_trigger(1)]
  raises_fold [OF raises_next_trigger(2)]

lemma bex_index_by:
  "(\<exists>x\<in>set (index_by key xs). P (fst x) (snd x)) \<longleftrightarrow> (\<exists>k v. last_by key xs k = Some v \<and> P k v)"
  by (rule trans [OF ex_pairs ex_index_by])

lemma fst_index_by [simp]: "fst ` set (index_by key xs) = key ` set xs"
proof -
  have "k \<in> fst ` set (index_by key xs) \<longleftrightarrow> k \<in> key ` set xs" for k
    using map_of_eq_None_iff [of "index_by key xs" k] last_by_None_iff [of key xs k] by simp
  then show ?thesis by blast
qed

lemma ex_new_key:
  "(\<exists>x\<in>set (index_by key xs). fst x \<notin> key ` set ys) \<longleftrightarrow> \<not> key ` set xs \<subseteq> key ` set ys"
proof -
  have "(\<exists>x\<in>set (index_by key xs). fst x \<notin> key ` set ys)
      \<longleftrightarrow> \<not> fst ` set (index_by key xs) \<subseteq> key ` set ys"
    by (simp add: image_subset_iff del: fst_index_by)
  then show ?thesis by simp
qed

lemma ex_dropped:
  "(\<exists>k p. last_by key xs k = Some p \<and> last_by key ys k = None)
     \<longleftrightarrow> \<not> key ` set xs \<subseteq> key ` set ys"
  unfolding last_by_None_iff
  using bex_index_by [of key xs "\<lambda>k v. k \<notin> key ` set ys"] ex_new_key [of key xs ys] by simp

lemmas index_defs = index_io_def index_steps_def index_triggers_def

text \<open>A changed entry seen from the next side is one seen from the previous side.\<close>

lemma case_None_False:
  "(case L of None \<Rightarrow> False | Some p \<Rightarrow> C p) \<longleftrightarrow> (\<exists>p. L = Some p \<and> C p)"
  by (cases L) auto

lemma case_None_True:
  "(case L of None \<Rightarrow> True | Some p \<Rightarrow> C p) \<longleftrightarrow> L = None \<or> (\<exists>p. L = Some p \<and> C p)"
  by (cases L) auto

lemma ex_changed:
  "(\<exists>x\<in>set (index_by key ys). case last_by key xs (fst x) of None \<Rightarrow> False | Some p \<Rightarrow> C p (snd x))
     \<longleftrightarrow> (\<exists>k p n. last_by key xs k = Some p \<and> last_by key ys k = Some n \<and> C p n)"
  unfolding case_None_False
  by (subst bex_index_by [of key ys "\<lambda>k n. \<exists>p. last_by key xs k = Some p \<and> C p n"]) blast

lemma ex_case_split:
  "(\<exists>k p. last_by key xs k = Some p \<and> (case last_by key ys k of None \<Rightarrow> True | Some n \<Rightarrow> C p n))
     \<longleftrightarrow> \<not> key ` set xs \<subseteq> key ` set ys
       \<or> (\<exists>k p n. last_by key xs k = Some p \<and> last_by key ys k = Some n \<and> C p n)"
  unfolding ex_dropped [symmetric] case_None_True by blast

lemma breaking_alt:
  "breaking_step prev next \<longleftrightarrow> \<not> sid ` set (sp_steps prev) \<subseteq> sid ` set (sp_steps next)
     \<or> (\<exists>k p n. last_by sid (sp_steps prev) k = Some p \<and> last_by sid (sp_steps next) k = Some n
          \<and> step_break p n)"
  "breaking_trigger prev next \<longleftrightarrow> \<not> tr_id ` set (sp_triggers prev) \<subseteq> tr_id ` set (sp_triggers next)
     \<or> (\<exists>k p n. last_by tr_id (sp_triggers prev) k = Some p
          \<and> last_by tr_id (sp_triggers next) k = Some n \<and> trigger_break p n)"
  unfolding breaking_step_def breaking_trigger_def step_break_def trigger_break_def
  by (rule ex_case_split)+

lemma ex_inputs:
  "(\<exists>x\<in>set (index_by io_name (sp_inputs prev)).
      case last_by io_name (sp_inputs next) (fst x) of None \<Rightarrow> True
      | Some n \<Rightarrow> io_type (snd x) \<noteq> io_type n \<or> \<not> io_required (snd x) \<and> io_required n)
     \<longleftrightarrow> breaking_input prev next"
  unfolding breaking_input_def by (rule bex_index_by)

lemma ex_outputs:
  "(\<exists>x\<in>set (index_by io_name (sp_outputs prev)).
      case last_by io_name (sp_outputs next) (fst x) of None \<Rightarrow> True
      | Some n \<Rightarrow> io_type (snd x) \<noteq> io_type n)
     \<longleftrightarrow> breaking_output prev next"
  unfolding breaking_output_def by (rule bex_index_by)

lemma ex_additive_steps:
  "(\<exists>x\<in>set (index_by sid (sp_steps next)). case last_by sid (sp_steps prev) (fst x) of
      None \<Rightarrow> True | Some p \<Rightarrow> step_add p (snd x)) \<longleftrightarrow> additive_step prev next"
  unfolding additive_step_def step_add_def by (rule bex_index_by)

lemma ex_additive_triggers:
  "(\<exists>x\<in>set (index_by tr_id (sp_triggers next)). case last_by tr_id (sp_triggers prev) (fst x) of
      None \<Rightarrow> tr_migrated_from (snd x) = StepTypeOther [] | Some p \<Rightarrow> trigger_add p (snd x))
     \<longleftrightarrow> additive_trigger prev next"
  unfolding additive_trigger_def trigger_add_def by (rule bex_index_by)

lemmas diff_unfold = diff_specs_def diff_triggers_def Let_def index_defs diff_loops map_of_index_by
  fst_index_by bex_disj_distrib ex_additive_steps ex_additive_triggers ex_changed
  ex_new_key breaking_def breaking_alt additive_def additive_io_def

lemma diff_specs_major:
  "dr_bump (diff_specs prev next d) = BumpMajor \<longleftrightarrow> dr_bump d = BumpMajor \<or> breaking prev next"
proof -
  have "BumpMajor \<le> dr_bump (diff_specs prev next d) \<longleftrightarrow> BumpMajor \<le> dr_bump d \<or> breaking prev next"
    unfolding diff_unfold by (simp add: ex_inputs ex_outputs ex_new_key disj_ac)
  then show ?thesis by simp
qed

lemma diff_specs_patch:
  "dr_bump (diff_specs prev next d) = BumpPatch
     \<longleftrightarrow> dr_bump d = BumpPatch \<and> \<not> breaking prev next \<and> \<not> additive prev next"
proof -
  have "BumpMinor \<le> dr_bump (diff_specs prev next d)
      \<longleftrightarrow> BumpMinor \<le> dr_bump d \<or> breaking prev next \<or> additive prev next"
    unfolding diff_unfold by (simp add: ex_inputs ex_outputs ex_new_key disj_ac) blast
  then show ?thesis by simp blast
qed

section \<open>Properties\<close>

text \<open>C12: The bump \<open>DiffWorkflows\<close> computes between two workflows is major exactly when an input,
  output, step or trigger in force was removed or changed incompatibly, minor exactly when there is no
  such change but something was added or reconfigured, and patch otherwise, in whatever order Go visits
  the maps. Two points differ from the rules in the comment of the function: dependencies, tools and
  trigger configurations are compared with nil and empty told apart, so writing \<open>depends_on: []\<close> for no
  dependencies is minor; and an \<open>event-trigger\<close> step of the previous version that became a trigger counts
  as a removed step, so it is major and not the patch announced there.\<close>

theorem diff_workflows_classifies:
  "dr_bump (diff_workflows (Some p) (Some n)) =
     (if breaking (wf_spec p) (wf_spec n) then BumpMajor
      else if additive (wf_spec p) (wf_spec n) then BumpMinor
      else BumpPatch)"
proof -
  let ?out = "\<lparr>dr_bump = BumpPatch, dr_reasons = [], dr_major = False, dr_minor = False\<rparr>"
  let ?d = "diff_specs (wf_spec p) (wf_spec n) ?out"
  have "dr_bump (diff_workflows (Some p) (Some n)) = dr_bump ?d"
    by (simp add: diff_workflows_def Let_def)
  moreover have "dr_bump ?d = BumpMajor \<longleftrightarrow> breaking (wf_spec p) (wf_spec n)"
    by (simp add: diff_specs_major)
  moreover have "dr_bump ?d = BumpPatch
      \<longleftrightarrow> \<not> breaking (wf_spec p) (wf_spec n) \<and> \<not> additive (wf_spec p) (wf_spec n)"
    by (simp add: diff_specs_patch)
  ultimately show ?thesis by (cases "dr_bump ?d") auto
qed

text \<open>The migration of an event-trigger step into a trigger, seen by the diff of the raw workflows.\<close>

lemma event_trigger_migration_major:
  assumes "last_by sid (sp_steps (wf_spec p)) i = Some st" "stype st = StepEventTrigger"
    and "i \<notin> sid ` set (sp_steps (wf_spec n))"
  shows "dr_bump (diff_workflows (Some p) (Some n)) = BumpMajor"
proof -
  have gone: "last_by sid (sp_steps (wf_spec n)) i = None" using assms(3) by (simp only: last_by_None_iff not_False_eq_True)
  have "breaking_step (wf_spec p) (wf_spec n)"
    unfolding breaking_step_def using assms(1) by (intro exI [of _ i] exI [of _ st]) (simp add: gone)
  then have "breaking (wf_spec p) (wf_spec n)" by (simp add: breaking_def)
  then show ?thesis
    using diff_specs_major [of "wf_spec p" "wf_spec n"] by (simp add: diff_workflows_def Let_def)
qed

text \<open>Naming no dependencies explicitly is a minor change.\<close>

lemma explicit_empty_deps_minor:
  "dr_bump (diff_workflows
     (Some (zero_workflow\<lparr>wf_spec := zero_spec\<lparr>sp_steps := [Step (zero_step_core\<lparr>st_id := ''a''\<rparr>) [] []]\<rparr>\<rparr>))
     (Some (zero_workflow\<lparr>wf_spec := zero_spec\<lparr>sp_steps :=
        [Step (zero_step_core\<lparr>st_id := ''a'', st_depends_on_nil := False\<rparr>) [] []]\<rparr>\<rparr>))) = BumpMinor"
  by code_simp

end
