(* ===== verification/Workflow_DSL.thy ===== *)
theory Workflow_DSL
  imports Workflow_AST
begin

text \<open>
  \<open>pkg/workflow/dsl/parse.go\<close> (decoding a document and migrating its deprecated steps) and
  \<open>pkg/workflow/schema/schema.go\<close> (structural validation). The YAML decoder is the package
  \<open>gopkg.in/yaml.v3\<close>, which is not part of the repository: it is the parameter \<open>yaml\<close>, a function
  from the bytes to a decoding error or a workflow. Nil and empty slices are one value.
\<close>

section \<open>Migration of deprecated steps\<close>

definition is_http_like_source :: "string \<Rightarrow> bool" where
  "is_http_like_source s \<longleftrightarrow>
     s \<noteq> [] \<and> (has_prefix s ''http://'' \<or> has_prefix s ''https://'' \<or> has_prefix s ''webhook:'')"

definition event_trigger_to_trigger :: "step \<Rightarrow> trigger" where
  "event_trigger_to_trigger s =
     (let t = zero_trigger\<lparr>tr_id := sid s, tr_config_nil := False, tr_migrated_from := StepEventTrigger\<rparr> in
      case st_event_pattern (core s) of
        None \<Rightarrow> t\<lparr>tr_type := TriggerManual\<rparr>
      | Some ep \<Rightarrow>
          let src = ep_source ep;
              http = is_http_like_source src;
              c1 = (if ep_type ep \<noteq> []
                    then [(if http then ''event_type'' else ''topic'', VString (ep_type ep))] else []);
              c2 = (if src \<noteq> [] then c1 @ [(''source'', VString src)] else c1);
              c3 = (if ep_filter ep \<noteq> [] then c2 @ [(''filter'', VMap (ep_filter ep))] else c2)
          in t\<lparr>tr_type := (if http then TriggerWebhookIn else TriggerEventBus), tr_config := c3\<rparr>)"

definition migrate_core :: "step_core \<Rightarrow> step_core" where
  "migrate_core c =
     (case map_of deprecated_step_types (st_type c) of
        Some r \<Rightarrow> if r \<noteq> StepTypeOther [] then c\<lparr>st_migrated_from := st_type c, st_type := r\<rparr> else c
      | None \<Rightarrow> c)"

fun migrate_step :: "step \<Rightarrow> step" and migrate_branch :: "branch \<Rightarrow> branch" where
  "migrate_step (Step c bs b) =
     Step (migrate_core c) (map migrate_branch bs) (map migrate_step b)"
| "migrate_branch (Branch w g ss) = Branch w g (map migrate_step ss)"

definition migrate_deprecated_step_kinds :: "workflow \<Rightarrow> workflow" where
  "migrate_deprecated_step_kinds wflow =
     (let sp = wf_spec wflow;
          moved = map event_trigger_to_trigger (filter (\<lambda>s. stype s = StepEventTrigger) (sp_steps sp));
          kept = filter (\<lambda>s. stype s \<noteq> StepEventTrigger) (sp_steps sp)
      in wflow\<lparr>wf_spec := sp\<lparr>sp_triggers := sp_triggers sp @ moved,
                           sp_steps := map migrate_step kept,
                           sp_on_failure := map migrate_step (sp_on_failure sp)\<rparr>\<rparr>)"

section \<open>Parse\<close>

datatype parse_error =
    ErrEmptyDocument
  | ErrYamlDecode string
  | ErrYamlEncode string
  | ErrUnsupportedAPIVersion string
  | ErrUnsupportedKind string

definition api_version :: string where
  "api_version = ''forge.workflows/v1''"

definition kind_workflow :: string where
  "kind_workflow = ''Workflow''"

definition dsl_parse :: "(string \<Rightarrow> string + workflow) \<Rightarrow> string \<Rightarrow> parse_error + workflow" where
  "dsl_parse yaml raw =
     (if length raw = 0 then Inl ErrEmptyDocument
      else case yaml raw of
        Inl e \<Rightarrow> Inl (ErrYamlDecode e)
      | Inr wflow0 \<Rightarrow>
          let wflow1 = (if wf_api_version wflow0 = [] then wflow0\<lparr>wf_api_version := api_version\<rparr> else wflow0);
              wflow2 = (if wf_kind wflow1 = [] then wflow1\<lparr>wf_kind := kind_workflow\<rparr> else wflow1)
          in if wf_api_version wflow2 \<noteq> api_version then Inl (ErrUnsupportedAPIVersion (wf_api_version wflow2))
             else if wf_kind wflow2 \<noteq> kind_workflow then Inl (ErrUnsupportedKind (wf_kind wflow2))
             else Inr (migrate_deprecated_step_kinds wflow2))"

text \<open>\<open>Marshal\<close> fills the defaults in place: the workflow is returned with the bytes. The encoder is
  yaml.v3 again.\<close>

definition dsl_marshal ::
  "(workflow \<Rightarrow> string + string) \<Rightarrow> workflow option \<Rightarrow> parse_error + workflow \<times> string" where
  "dsl_marshal yaml_encode wopt =
     (case wopt of
        None \<Rightarrow> Inl ErrEmptyDocument
      | Some w0 \<Rightarrow>
          let w1 = (if wf_api_version w0 = [] then w0\<lparr>wf_api_version := api_version\<rparr> else w0);
              w2 = (if wf_kind w1 = [] then w1\<lparr>wf_kind := kind_workflow\<rparr> else w1)
          in case yaml_encode w2 of Inl e \<Rightarrow> Inl (ErrYamlEncode e) | Inr bs \<Rightarrow> Inr (w2, bs))"

section \<open>Validate\<close>

datatype schema_error =
    ErrMissingSpec
  | ErrMissingAPIVersion string
  | ErrMissingKind string
  | ErrMissingMetadataID
  | ErrMissingMetadataName
  | ErrMissingMetadataVersion
  | ErrUnknownVisibility string
  | ErrUnknownCriticality string
  | ErrMissingSteps
  | ErrMissingStepID nat
  | ErrInvalidStepType step_type

definition known_visibilities :: "string list" where
  "known_visibilities = [''private'', ''workspace'', ''tenant'', ''forge-certified'']"

definition known_criticalities :: "string list" where
  "known_criticalities = [''low'', ''medium'', ''high'', ''critical'']"

fun validate_steps :: "nat \<Rightarrow> step list \<Rightarrow> schema_error option" where
  "validate_steps i [] = None"
| "validate_steps i (s # ss) =
     (if sid s = [] then Some (ErrMissingStepID i)
      else if \<not> is_known_step_type (stype s) then Some (ErrInvalidStepType (stype s))
      else validate_steps (Suc i) ss)"

text \<open>\<open>None\<close> is a nil workflow on the left and a nil error on the right.\<close>

definition schema_validate :: "workflow option \<Rightarrow> schema_error option" where
  "schema_validate w =
     (case w of
        None \<Rightarrow> Some ErrMissingSpec
      | Some wflow \<Rightarrow>
          let md = wf_metadata wflow in
          if wf_api_version wflow = [] then Some (ErrMissingAPIVersion [])
          else if wf_kind wflow = [] then Some (ErrMissingKind [])
          else if wf_kind wflow \<noteq> kind_workflow then Some (ErrMissingKind (wf_kind wflow))
          else if wf_api_version wflow \<noteq> api_version then Some (ErrMissingAPIVersion (wf_api_version wflow))
          else if md_id md = [] then Some ErrMissingMetadataID
          else if md_name md = [] then Some ErrMissingMetadataName
          else if md_version md = [] then Some ErrMissingMetadataVersion
          else if md_visibility md \<noteq> [] \<and> md_visibility md \<notin> set known_visibilities
            then Some (ErrUnknownVisibility (md_visibility md))
          else if md_criticality md \<noteq> [] \<and> md_criticality md \<notin> set known_criticalities
            then Some (ErrUnknownCriticality (md_criticality md))
          else if length (sp_steps (wf_spec wflow)) = 0 then Some ErrMissingSteps
          else validate_steps 0 (sp_steps (wf_spec wflow)))"

section \<open>Lemmas\<close>

lemma migrate_core_alt:
  "migrate_core c =
     (if st_type c = StepPrompt
      then c\<lparr>st_migrated_from := StepPrompt, st_type := StepPromptTemplate\<rparr> else c)"
  by (simp add: migrate_core_def deprecated_step_types_def)

lemma migrate_core_idem: "migrate_core (migrate_core c) = migrate_core c"
  by (simp add: migrate_core_alt)

lemma migrate_idem:
  "migrate_step (migrate_step s) = migrate_step s"
  "migrate_branch (migrate_branch b) = migrate_branch b"
  by (induction s and b rule: migrate_step_migrate_branch.induct)
    (simp_all add: migrate_core_idem cong: map_cong)

lemma core_migrate_step [simp]: "core (migrate_step s) = migrate_core (core s)"
  by (cases s) simp

lemma sid_migrate [simp]: "st_id (migrate_core c) = st_id c"
  by (simp add: migrate_core_alt)

lemma stype_migrate_event [simp]:
  "st_type (migrate_core c) = StepEventTrigger \<longleftrightarrow> st_type c = StepEventTrigger"
  by (simp add: migrate_core_alt)

lemma validate_steps_None:
  "validate_steps i ss = None \<longleftrightarrow> (\<forall>s\<in>set ss. sid s \<noteq> [] \<and> is_known_step_type (stype s))"
  by (induction ss arbitrary: i) auto

lemma migrate_core_no_prompt [simp]: "st_type (migrate_core c) \<noteq> StepPrompt"
  by (simp add: migrate_core_alt)

section \<open>Properties\<close>

text \<open>What the migration keeps of a legacy event-trigger step.\<close>

definition carries_pattern :: "trigger \<Rightarrow> step \<Rightarrow> event_pattern \<Rightarrow> bool" where
  "carries_pattern t s ep \<longleftrightarrow>
     (let http = is_http_like_source (ep_source ep);
          field = (\<lambda>k. map_of (tr_config t) k);
          text_or_none = (\<lambda>v. if v = [] then None else Some (VString v))
      in tr_id t = sid s \<and> tr_type t = (if http then TriggerWebhookIn else TriggerEventBus) \<and>
         field (if http then ''event_type'' else ''topic'') = text_or_none (ep_type ep) \<and>
         field ''source'' = text_or_none (ep_source ep) \<and>
         field ''filter'' = (if ep_filter ep = [] then None else Some (VMap (ep_filter ep))))"

lemma event_trigger_carries:
  "st_event_pattern (core s) = Some ep \<Longrightarrow> carries_pattern (event_trigger_to_trigger s) s ep"
  by (simp add: carries_pattern_def event_trigger_to_trigger_def Let_def)

definition alias_type :: "step_type \<Rightarrow> step_type" where
  "alias_type t = (if t = StepPrompt then StepPromptTemplate else t)"

lemma migrated_types:
  "map (\<lambda>t. (sid t, stype t)) (steps_of (migrate_step s)) = map (\<lambda>t. (sid t, alias_type (stype t))) (steps_of s)"
  "map (\<lambda>t. (sid t, stype t)) (steps_of_branch (migrate_branch b)) =
     map (\<lambda>t. (sid t, alias_type (stype t))) (steps_of_branch b)"
  by (induction s and b rule: migrate_step_migrate_branch.induct)
    (simp_all add: map_concat o_def migrate_core_alt alias_type_def cong: map_cong)

lemma migrated_all_types:
  "map (\<lambda>t. (sid t, stype t)) (concat (map steps_of (map migrate_step ss))) =
     map (\<lambda>t. (sid t, if stype t = StepPrompt then StepPromptTemplate else stype t)) (concat (map steps_of ss))"
  by (simp add: map_concat o_def migrated_types(1) alias_type_def cong: map_cong)


text \<open>A document with a legacy prompt step and a legacy event-trigger step.\<close>

definition demo_yaml :: "string \<Rightarrow> string + workflow" where
  "demo_yaml raw = Inr (zero_workflow\<lparr>wf_kind := [], wf_spec := zero_spec\<lparr>sp_steps :=
     [Step (zero_step_core\<lparr>st_id := ''a'', st_type := StepPrompt\<rparr>) [] [],
      Step (zero_step_core\<lparr>st_id := ''e'', st_type := StepEventTrigger\<rparr>) [] []]\<rparr>\<rparr>)"

definition demo_parsed :: workflow where
  "demo_parsed = (case dsl_parse demo_yaml ''doc'' of Inr w \<Rightarrow> w | Inl e \<Rightarrow> zero_workflow)"


end
