(* ===== verification/Workflow_Catalog.thy ===== *)
theory Workflow_Catalog
  imports Workflow_DSL
begin

text \<open>
  The one-time catalog migration of the registry,
  \<open>services/workflow-registry/internal/registry/migrate_catalog.go\<close>. A workflow is rewritten in
  place: the model returns the rewritten workflow with the reasons. \<open>walkSteps\<close> with a visitor is a
  function mapped over the cores of all steps and a flag that some core satisfies a predicate.
\<close>

section \<open>Walking\<close>

fun walk_step_tree :: "(step_core \<Rightarrow> step_core) \<Rightarrow> step \<Rightarrow> step"
  and walk_branch :: "(step_core \<Rightarrow> step_core) \<Rightarrow> branch \<Rightarrow> branch" where
  "walk_step_tree f (Step c bs b) = Step (f c) (map (walk_branch f) bs) (map (walk_step_tree f) b)"
| "walk_branch f (Branch w g ss) = Branch w g (map (walk_step_tree f) ss)"

definition walk_steps :: "(step_core \<Rightarrow> step_core) \<Rightarrow> workflow \<Rightarrow> workflow" where
  "walk_steps f w =
     (let sp = wf_spec w in
      w\<lparr>wf_spec := sp\<lparr>sp_steps := map (walk_step_tree f) (sp_steps sp),
                      sp_on_failure := map (walk_step_tree f) (sp_on_failure sp)\<rparr>\<rparr>)"

definition visited :: "workflow \<Rightarrow> step list" where
  "visited w = concat (map steps_of (sp_steps (wf_spec w) @ sp_on_failure (wf_spec w)))"

section \<open>The three migrations\<close>

definition has_endpoint :: "step_core \<Rightarrow> bool" where
  "has_endpoint c \<longleftrightarrow> (case st_active_surface c of Some a \<Rightarrow> as_endpoint a \<noteq> [] | None \<Rightarrow> False)"

definition strip_endpoint :: "step_core \<Rightarrow> step_core" where
  "strip_endpoint c =
     (if has_endpoint c then c\<lparr>st_active_surface := map_option (\<lambda>a. a\<lparr>as_endpoint := []\<rparr>)
                                 (st_active_surface c)\<rparr> else c)"

definition strip_active_surface_endpoints :: "workflow \<Rightarrow> bool \<times> workflow" where
  "strip_active_surface_endpoints w =
     (list_ex (\<lambda>s. has_endpoint (core s)) (visited w), walk_steps strip_endpoint w)"

definition alias_prompt :: "step_core \<Rightarrow> step_core" where
  "alias_prompt c = (if st_type c = StepPrompt then c\<lparr>st_type := StepPromptTemplate\<rparr> else c)"

definition alias_prompt_to_prompt_template :: "workflow \<Rightarrow> bool \<times> workflow" where
  "alias_prompt_to_prompt_template w =
     (list_ex (\<lambda>s. stype s = StepPrompt) (visited w), walk_steps alias_prompt w)"

definition event_step_to_trigger :: "step \<Rightarrow> trigger" where
  "event_step_to_trigger s =
     (let t = zero_trigger\<lparr>tr_id := sid s, tr_config_nil := False, tr_migrated_from := StepEventTrigger\<rparr> in
      case st_event_pattern (core s) of
        None \<Rightarrow> t\<lparr>tr_type := TriggerManual\<rparr>
      | Some ep \<Rightarrow>
          let src = ep_source ep;
              (ty, c1) = (if is_http_like_source src
                 then (TriggerWebhookIn,
                       if ep_type ep \<noteq> [] then [(''event_type'', VString (ep_type ep))] else [])
                 else (TriggerEventBus,
                       if ep_type ep \<noteq> [] then [(''topic'', VString (ep_type ep))] else []));
              c2 = (if src \<noteq> [] then c1 @ [(''source'', VString src)] else c1);
              c3 = (if length (ep_filter ep) > 0 then c2 @ [(''filter'', VMap (ep_filter ep))] else c2)
          in t\<lparr>tr_type := ty, tr_config := c3\<rparr>)"

definition extract_event_triggers :: "workflow \<Rightarrow> bool \<times> workflow" where
  "extract_event_triggers w =
     (let sp = wf_spec w;
          moved = filter (\<lambda>s. stype s = StepEventTrigger) (sp_steps sp);
          kept = filter (\<lambda>s. stype s \<noteq> StepEventTrigger) (sp_steps sp)
      in (moved \<noteq> [],
          w\<lparr>wf_spec := sp\<lparr>sp_triggers := sp_triggers sp @ map event_step_to_trigger moved,
                          sp_steps := kept\<rparr>\<rparr>))"

text \<open>A nil workflow has no reasons.\<close>

definition apply_catalog_migrations :: "workflow option \<Rightarrow> string list \<times> workflow option" where
  "apply_catalog_migrations wopt =
     (case wopt of
        None \<Rightarrow> ([], None)
      | Some w0 \<Rightarrow>
          let (ch1, w1) = strip_active_surface_endpoints w0;
              r1 = (if ch1 then [''cleanup_active_surface_endpoint''] else []);
              (ch2, w2) = alias_prompt_to_prompt_template w1;
              r2 = (if ch2 then r1 @ [''migrate_prompt_to_prompt_template''] else r1);
              (ch3, w3) = extract_event_triggers w2;
              r3 = (if ch3 then r2 @ [''migrate_event_trigger_to_triggers_block''] else r2)
          in (r3, Some w3))"

section \<open>Lemmas\<close>

lemma core_walk [simp]: "core (walk_step_tree f s) = f (core s)"
  by (cases s) simp

lemma walked_cores:
  "t \<in> set (steps_of (walk_step_tree f s)) \<Longrightarrow> \<exists>u\<in>set (steps_of s). core t = f (core u)"
  "t \<in> set (steps_of_branch (walk_branch f b)) \<Longrightarrow> \<exists>u\<in>set (steps_of_branch b). core t = f (core u)"
  by (induction f s and f b rule: walk_step_tree_walk_branch.induct) force+

lemma walk_unchanged:
  "\<forall>t\<in>set (steps_of s). f (core t) = core t \<Longrightarrow> walk_step_tree f s = s"
  "\<forall>t\<in>set (steps_of_branch b). f (core t) = core t \<Longrightarrow> walk_branch f b = b"
proof (induction f s and f b rule: walk_step_tree_walk_branch.induct)
  case (1 f c bs b)
  have "map (walk_branch f) bs = bs" by (rule map_idI, rule 1(1)) (use 1(3) in auto)
  moreover have "map (walk_step_tree f) b = b" by (rule map_idI, rule 1(2)) (use 1(3) in auto)
  ultimately show ?case using 1(3) by simp
next
  case (2 f w g ss)
  have "map (walk_step_tree f) ss = ss" by (rule map_idI, rule 2(1)) (use 2(2) in auto)
  then show ?case by simp
qed

lemma migrate_is_walk:
  "migrate_step s = walk_step_tree migrate_core s"
  "migrate_branch b = walk_branch migrate_core b"
  by (induction s and b rule: migrate_step_migrate_branch.induct) auto

text \<open>The steps of the migrated workflow, once the three passes are composed.\<close>

definition canonical_core :: "step_core \<Rightarrow> bool" where
  "canonical_core c \<longleftrightarrow> \<not> has_endpoint c \<and> st_type c \<noteq> StepPrompt"

lemma canonical_fixed:
  assumes "canonical_core c"
  shows "strip_endpoint c = c" "alias_prompt c = c" "migrate_core c = c"
  using assms by (simp_all add: canonical_core_def strip_endpoint_def alias_prompt_def migrate_core_alt)

lemma alias_strip_canonical: "canonical_core (alias_prompt (strip_endpoint c))"
  by (auto simp: canonical_core_def alias_prompt_def strip_endpoint_def has_endpoint_def
      split: option.splits)

lemma canonical_walk:
  assumes "\<forall>t\<in>set (steps_of s). canonical_core (core t)"
  shows "walk_step_tree strip_endpoint s = s" "walk_step_tree alias_prompt s = s" "migrate_step s = s"
  unfolding migrate_is_walk using assms by (auto intro!: walk_unchanged(1) simp: canonical_fixed)

lemma walked_twice_canonical:
  assumes "t \<in> set (steps_of (walk_step_tree alias_prompt (walk_step_tree strip_endpoint s)))"
  shows "canonical_core (core t)"
proof -
  obtain u where u: "u \<in> set (steps_of (walk_step_tree strip_endpoint s))" "core t = alias_prompt (core u)"
    using walked_cores(1) [OF assms] by blast
  then obtain v where "core u = strip_endpoint (core v)" using walked_cores(1) [OF u(1)] by blast
  with u alias_strip_canonical show ?thesis by simp
qed

definition canonical_workflow :: "workflow \<Rightarrow> bool" where
  "canonical_workflow w \<longleftrightarrow>
     (\<forall>t\<in>set (visited w). canonical_core (core t))
     \<and> (\<forall>s\<in>set (sp_steps (wf_spec w)). stype s \<noteq> StepEventTrigger)"

lemma apply_canonical:
  "apply_catalog_migrations (Some w) = (rs, Some w') \<Longrightarrow> canonical_workflow w'"
  by (auto simp: apply_catalog_migrations_def canonical_workflow_def visited_def Let_def
      strip_active_surface_endpoints_def alias_prompt_to_prompt_template_def
      extract_event_triggers_def walk_steps_def dest: walked_twice_canonical)

lemma walk_steps_canonical:
  assumes "canonical_workflow w"
  shows "walk_steps strip_endpoint w = w" "walk_steps alias_prompt w = w"
proof -
  have c: "\<forall>t\<in>set (steps_of s). canonical_core (core t)"
    if "s \<in> set (sp_steps (wf_spec w)) \<union> set (sp_on_failure (wf_spec w))" for s
    using assms that by (auto simp: canonical_workflow_def visited_def)
  have ids: "map (walk_step_tree strip_endpoint) ss = ss" "map (walk_step_tree alias_prompt) ss = ss"
    if "set ss \<subseteq> set (sp_steps (wf_spec w)) \<union> set (sp_on_failure (wf_spec w))" for ss
    using c that by (auto intro!: map_idI canonical_walk)
  show "walk_steps strip_endpoint w = w" "walk_steps alias_prompt w = w"
    by (simp_all add: walk_steps_def Let_def ids)
qed

lemma canonical_fixpoint:
  assumes "canonical_workflow w"
  shows "apply_catalog_migrations (Some w) = ([], Some w)" "migrate_deprecated_step_kinds w = w"
proof -
  have none: "filter (\<lambda>s. stype s = StepEventTrigger) (sp_steps (wf_spec w)) = []"
    "filter (\<lambda>s. stype s \<noteq> StepEventTrigger) (sp_steps (wf_spec w)) = sp_steps (wf_spec w)"
    using assms by (auto simp: canonical_workflow_def filter_empty_conv intro!: filter_True)
  have no: "\<not> list_ex (\<lambda>s. has_endpoint (core s)) (visited w)"
    "\<not> list_ex (\<lambda>s. stype s = StepPrompt) (visited w)"
    using assms by (auto simp: canonical_workflow_def canonical_core_def list_ex_iff)
  show "apply_catalog_migrations (Some w) = ([], Some w)"
    using no by (simp add: apply_catalog_migrations_def strip_active_surface_endpoints_def
        alias_prompt_to_prompt_template_def extract_event_triggers_def walk_steps_canonical [OF assms]
        none Let_def)
  have "map migrate_step (sp_steps (wf_spec w)) = sp_steps (wf_spec w)"
    "map migrate_step (sp_on_failure (wf_spec w)) = sp_on_failure (wf_spec w)"
    using assms by (auto simp: canonical_workflow_def visited_def intro!: map_idI canonical_walk(3))
  then show "migrate_deprecated_step_kinds w = w"
    by (simp add: migrate_deprecated_step_kinds_def none Let_def)
qed

section \<open>Properties\<close>

text \<open>The catalog migration is idempotent, as its comment promises: a second run finds no reason
  and changes nothing. After it, the migration the DSL parser applies on read has nothing left to
  do either, so a stored migrated workflow and a parsed one agree on the canonical shape.\<close>

theorem catalog_migrations_idempotent:
  assumes "apply_catalog_migrations (Some w) = (rs, Some w')"
  shows "apply_catalog_migrations (Some w') = ([], Some w') \<and> migrate_deprecated_step_kinds w' = w'"
  using canonical_fixpoint [OF apply_canonical [OF assms]] by blast

text \<open>The registry's own translation of a legacy event-trigger step, kept in sync with the parser's
  by a test suite only, is the parser's translation, on every step.\<close>

theorem event_step_to_trigger_in_sync:
  "event_step_to_trigger s = event_trigger_to_trigger s"
  by (auto simp: event_step_to_trigger_def event_trigger_to_trigger_def Let_def split: option.split)

definition demo_legacy :: workflow where
  "demo_legacy = zero_workflow\<lparr>wf_spec := zero_spec\<lparr>sp_steps :=
     [Step (zero_step_core\<lparr>st_id := ''a'', st_type := StepPrompt\<rparr>) [] [],
      Step (zero_step_core\<lparr>st_id := ''e'', st_type := StepEventTrigger\<rparr>) [] []]\<rparr>\<rparr>"

theorem catalog_migrations_idempotent_witness:
  "fst (apply_catalog_migrations (Some demo_legacy))
     = [''migrate_prompt_to_prompt_template'', ''migrate_event_trigger_to_triggers_block'']
   \<and> fst (apply_catalog_migrations (snd (apply_catalog_migrations (Some demo_legacy)))) = []"
proof -
  obtain rs w' where h: "apply_catalog_migrations (Some demo_legacy) = (rs, Some w')"
    by (simp add: apply_catalog_migrations_def Let_def case_prod_beta)
  have "fst (apply_catalog_migrations (Some demo_legacy))
     = [''migrate_prompt_to_prompt_template'', ''migrate_event_trigger_to_triggers_block'']"
    by code_simp
  with catalog_migrations_idempotent [OF h] h show ?thesis by simp
qed

end
