(* ===== verification/Workflow_Lint.thy ===== *)
theory Workflow_Lint
  imports Workflow_AST
begin

text \<open>
  The linter, \<open>pkg/workflow/lint/lint.go\<close>: every check, in the code's order. A finding keeps its
  code, severity and step; its message is text for people and is left out. A Go map that a check
  ranges over is visited in the order its keys were first written. \<open>checkCycles\<close> recurses on the
  depth of the depends-on graph: the model carries fuel, and \<open>run_cycles_returns\<close> shows that the
  fuel \<open>cycle_fuel\<close> is always enough.
\<close>

section \<open>Findings\<close>

datatype severity = SeverityError | SeverityWarning

datatype lint_code =
    CodeDanglingDep | CodeUnreachableStep | CodeCycleDetected | CodeTypeMismatch | CodeFloatingRef
  | CodeUnknownAssetFormat | CodeDuplicateStepID | CodeMissingRef | CodeMissingTool
  | CodeMissingApprover | CodeInvalidTargetPhase | CodeInvalidTargetValue | CodeDeprecatedStepKind
  | CodeUnknownTriggerType | CodeDanglingTriggerRef | CodeUnknownEventTopic
  | CodeToolOutsidePinnedSet | CodeDanglingStepField | CodeMissingPromptTpl | CodeMissingModelRef

record finding =
  fd_code :: lint_code
  fd_severity :: severity
  fd_step :: string

definition err_finding :: "lint_code \<Rightarrow> string \<Rightarrow> finding" where
  "err_finding c i = \<lparr>fd_code = c, fd_severity = SeverityError, fd_step = i\<rparr>"

definition warn_finding :: "lint_code \<Rightarrow> string \<Rightarrow> finding" where
  "warn_finding c i = \<lparr>fd_code = c, fd_severity = SeverityWarning, fd_step = i\<rparr>"

definition is_error :: "finding \<Rightarrow> bool" where
  "is_error f \<longleftrightarrow> fd_severity f = SeverityError"

definition result_errors :: "finding list \<Rightarrow> finding list" where
  "result_errors fs = filter is_error fs"

section \<open>Vocabularies\<close>

definition known_event_topics :: "string list" where
  "known_event_topics =
     [''workflow.published.v1'', ''workflow.started.v1'', ''workflow.completed.v1'',
      ''workflow.failed.v1'', ''workflow.step.started.v1'', ''workflow.step.completed.v1'',
      ''workflow.trigger.fired.v1'', ''workflow.trigger.dropped.v1'',
      ''workflow.trigger.failed.v1'', ''workflow.llm.budget_exhausted.v1'',
      ''deployment.completed.v1'', ''deployment.failed.v1'', ''incident.opened.v1'',
      ''incident.resolved.v1'', ''symptom.detected.v1'', ''github.push.v1'',
      ''github.pull_request.opened.v1'', ''github.pull_request.merged.v1'']"

definition known_target_phases :: "string list" where
  "known_target_phases =
     [''architect'', ''design'', ''development'', ''qa'', ''security'', ''devops'', ''iac'', ''sre'',
      ''finops'', ''observability'']"

definition known_target_values :: "string list" where
  "known_target_values = [''required'', ''optional'', ''opt-in'', ''skipped'']"

definition dollar_prefix :: string where
  "dollar_prefix = ''$''"

definition triggers_prefix :: string where
  "triggers_prefix = ''$triggers.''"

definition steps_prefix :: string where
  "steps_prefix = ''$steps.''"

section \<open>Walking the steps\<close>

definition walk_branches :: "step \<Rightarrow> step list" where
  "walk_branches s = concat (map br_steps (branches s))"

definition all_steps :: "workflow \<Rightarrow> step list" where
  "all_steps w =
     sp_steps (wf_spec w)
       @ concat (map (\<lambda>s. walk_branches s @ body s) (sp_steps (wf_spec w)))
       @ sp_on_failure (wf_spec w)"

text \<open>A Go map filled by a loop: the last write of a key wins.\<close>

definition last_wins :: "('k \<times> 'v) list \<Rightarrow> 'k \<Rightarrow> 'v option" where
  "last_wins kvs = map_of (rev kvs)"

text \<open>\<open>scan\<close> runs on every input of every step.\<close>

definition scan_inputs :: "(string \<Rightarrow> val \<Rightarrow> finding list) \<Rightarrow> workflow \<Rightarrow> finding list" where
  "scan_inputs scan w =
     concat (map (\<lambda>s. concat (map (\<lambda>kv. scan (sid s) (snd kv)) (st_inputs (core s)))) (all_steps w))"

section \<open>Identifiers and dependencies\<close>

definition check_duplicate_ids :: "workflow \<Rightarrow> finding list" where
  "check_duplicate_ids w =
     (let ids = map sid (all_steps w) in
      map (err_finding CodeDuplicateStepID)
        (filter (\<lambda>i. count_list ids i > 1) (remdups ids)))"

definition check_dangling_deps :: "workflow \<Rightarrow> finding list" where
  "check_dangling_deps w =
     (let have_ids = map sid (all_steps w) in
      concat (map (\<lambda>s. map (\<lambda>d. err_finding CodeDanglingDep (sid s))
                        (filter (\<lambda>d. d \<notin> set have_ids) (st_depends_on (core s))))
               (all_steps w)))"

datatype color = White | Gray | Black

definition dep_graph :: "workflow \<Rightarrow> string \<Rightarrow> string list" where
  "dep_graph w i =
     (case last_wins (map (\<lambda>s. (sid s, st_depends_on (core s))) (all_steps w)) i of
        Some ds \<Rightarrow> ds
      | None \<Rightarrow> [])"

text \<open>The result is the new colours and, if a cycle closed, the step that closed it. \<open>None\<close> means that
  the fuel ran out.\<close>

function dfs :: "nat \<Rightarrow> (string \<Rightarrow> string list) \<Rightarrow> string \<Rightarrow> (string \<Rightarrow> color)
    \<Rightarrow> ((string \<Rightarrow> color) \<times> string option) option"
  and dfs_deps :: "nat \<Rightarrow> (string \<Rightarrow> string list) \<Rightarrow> string \<Rightarrow> string list \<Rightarrow> (string \<Rightarrow> color)
    \<Rightarrow> ((string \<Rightarrow> color) \<times> string option) option" where
  "dfs 0 g i st = None"
| "dfs (Suc n) g i st =
     (case dfs_deps n g i (g i) (st(i := Gray)) of
        None \<Rightarrow> None
      | Some (st', Some f) \<Rightarrow> Some (st', Some f)
      | Some (st', None) \<Rightarrow> Some (st'(i := Black), None))"
| "dfs_deps n g i [] st = Some (st, None)"
| "dfs_deps n g i (d # ds) st =
     (case st d of
        Gray \<Rightarrow> Some (st, Some i)
      | White \<Rightarrow>
          (case dfs n g d st of
             None \<Rightarrow> None
           | Some (st', Some f) \<Rightarrow> Some (st', Some f)
           | Some (st', None) \<Rightarrow> dfs_deps n g i ds st')
      | Black \<Rightarrow> dfs_deps n g i ds st)"
  by pat_completeness auto
termination
  by (relation "measures [\<lambda>x. case x of Inl (n, _) \<Rightarrow> n | Inr (n, _) \<Rightarrow> n,
        \<lambda>x. case x of Inl _ \<Rightarrow> 0 | Inr (_, _, _, ds, _) \<Rightarrow> Suc (length ds)]") auto

fun run_cycles :: "nat \<Rightarrow> (string \<Rightarrow> string list) \<Rightarrow> string list \<Rightarrow> (string \<Rightarrow> color)
    \<Rightarrow> finding list option" where
  "run_cycles n g [] st = Some []"
| "run_cycles n g (i # ids) st =
     (if st i = White then
        (case dfs n g i st of
           None \<Rightarrow> None
         | Some (st', Some f) \<Rightarrow> Some [err_finding CodeCycleDetected f]
         | Some (st', None) \<Rightarrow> run_cycles n g ids st')
      else run_cycles n g ids st)"

definition graph_ids :: "workflow \<Rightarrow> string list" where
  "graph_ids w = remdups (map sid (all_steps w))"

definition cycle_fuel :: "workflow \<Rightarrow> nat" where
  "cycle_fuel w =
     length (all_steps w) + length (concat (map (\<lambda>s. st_depends_on (core s)) (all_steps w)))"

definition check_cycles :: "workflow \<Rightarrow> finding list" where
  "check_cycles w =
     (case run_cycles (cycle_fuel w) (dep_graph w) (graph_ids w) (\<lambda>_. White) of
        Some fs \<Rightarrow> fs
      | None \<Rightarrow> [])"

text \<open>The edges of \<open>successors\<close>, from a dependency to the step that waits for it.\<close>

definition succ_edges :: "workflow \<Rightarrow> (string \<times> string) list" where
  "succ_edges w =
     (let ids = map sid (all_steps w) in
      concat (map (\<lambda>s. map (\<lambda>d. (d, sid s)) (filter (\<lambda>d. d \<in> set ids) (st_depends_on (core s))))
               (all_steps w)))"

definition successors :: "(string \<times> string) list \<Rightarrow> string \<Rightarrow> string list" where
  "successors es i = map snd (filter (\<lambda>e. fst e = i) es)"

definition push_succ :: "string \<Rightarrow> string list \<times> string list \<Rightarrow> string list \<times> string list" where
  "push_succ s rq = (if s \<in> set (fst rq) then rq else (fst rq @ [s], snd rq @ [s]))"

lemma push_succs_spec:
  "fold push_succ ss (r, q) = (r', q') \<Longrightarrow>
     set r' = set r \<union> set ss
     \<and> (\<exists>new. q' = q @ new \<and> distinct new \<and> set new = set ss - set r)"
proof (induction ss arbitrary: r q)
  case Nil
  then show ?case by auto
next
  case (Cons s ss)
  show ?case
  proof (cases "s \<in> set r")
    case True
    with Cons show ?thesis by (auto simp: push_succ_def insert_absorb)
  next
    case False
    then have "push_succ s (r, q) = (r @ [s], q @ [s])" by (simp add: push_succ_def)
    then have "fold push_succ ss (r @ [s], q @ [s]) = (r', q')" using Cons.prems by simp
    from Cons.IH [OF this] obtain new where
      "set r' = set (r @ [s]) \<union> set ss" "q' = (q @ [s]) @ new" "distinct new"
      "set new = set ss - set (r @ [s])"
      by blast
    then show ?thesis using False by (intro conjI exI [of _ "s # new"]) auto
  qed
qed

function bfs :: "(string \<times> string) list \<Rightarrow> string list \<Rightarrow> string list \<Rightarrow> string list" where
  "bfs es r [] = r"
| "bfs es r (x # q) =
     (let rq = fold push_succ (successors es x) (r, q) in bfs es (fst rq) (snd rq))"
  by pat_completeness auto
termination
proof (relation "measures [\<lambda>(es, r, q). card (set (map snd es) - set r), \<lambda>(es, r, q). length q]",
    goal_cases)
  case 1
  show ?case by simp
next
  case (2 es r x q rq)
  obtain r' q' where rq: "rq = (r', q')" by fastforce
  then have "fold push_succ (successors es x) (r, q) = (r', q')" using 2 by simp
  from push_succs_spec [OF this] obtain new where
    r': "set r' = set r \<union> set (successors es x)" and q': "q' = q @ new"
    and new: "set new = set (successors es x) - set r"
    by blast
  have sub: "set (successors es x) \<subseteq> set (map snd es)" by (auto simp: successors_def)
  show ?case
  proof (cases "new = []")
    case True
    then have "set r' = set r" using r' new by auto
    with True rq q' show ?thesis by simp
  next
    case False
    then obtain y where "y \<in> set new" by (cases new) auto
    then have "set (map snd es) - set r' \<subset> set (map snd es) - set r" using r' new sub by blast
    then have "card (set (map snd es) - set r') < card (set (map snd es) - set r)"
      by (rule psubset_card_mono [rotated]) simp
    with rq show ?thesis by simp
  qed
qed

definition roots :: "workflow \<Rightarrow> string list" where
  "roots w = map sid (filter (\<lambda>s. sid s \<notin> snd ` set (succ_edges w) \<or> stype s = StepEventTrigger)
     (all_steps w))"

definition check_unreachable :: "workflow \<Rightarrow> finding list" where
  "check_unreachable w =
     (let reachable = bfs (succ_edges w) (roots w) (roots w) in
      map (err_finding CodeUnreachableStep) (filter (\<lambda>i. i \<notin> set reachable) (graph_ids w)))"

section \<open>References and the shape of steps\<close>

definition check_ref :: "step \<Rightarrow> finding list" where
  "check_ref s =
     (if st_ref (core s) = [] then []
      else case parse_asset_ref (st_ref (core s)) of
        Inr _ \<Rightarrow> []
      | Inl ErrFloatingReference \<Rightarrow> [err_finding CodeFloatingRef (sid s)]
      | Inl _ \<Rightarrow> [err_finding CodeUnknownAssetFormat (sid s)])"

definition check_refs :: "workflow \<Rightarrow> finding list" where
  "check_refs w = concat (map check_ref (all_steps w))"

definition check_shape :: "step \<Rightarrow> finding list" where
  "check_shape s =
     (if stype s \<in> {StepSkill, StepPromptTemplate, StepPrompt, StepSubWorkflow} then
        (if st_ref (core s) = [] \<and> st_workflow_ref (core s) = []
         then [err_finding CodeMissingRef (sid s)] else [])
      else if stype s = StepMCP then
        (if st_ref (core s) = [] then [err_finding CodeMissingRef (sid s)] else [])
        @ (if st_tool (core s) = [] then [err_finding CodeMissingTool (sid s)] else [])
      else if stype s = StepHumanInLoop then
        (if st_approver_role (core s) = [] then [err_finding CodeMissingApprover (sid s)] else [])
      else [])"

definition check_step_shape :: "workflow \<Rightarrow> finding list" where
  "check_step_shape w = concat (map check_shape (all_steps w))"

section \<open>Wiring\<close>

definition string_value :: "val \<Rightarrow> string" where
  "string_value v = (case v of VString s \<Rightarrow> s | _ \<Rightarrow> [])"

definition scan_refs ::
  "string list \<Rightarrow> (string \<Rightarrow> string list option) \<Rightarrow> string \<Rightarrow> val \<Rightarrow> finding list" where
  "scan_refs known_inputs step_outputs step_id v =
     (let ref = string_value v; parts = split_on (CHR ''.'') (trim_prefix ref dollar_prefix) in
      if ref = [] then []
      else if \<not> has_prefix ref dollar_prefix then []
      else if length parts < 2 then []
      else if parts ! 0 = ''inputs'' then
        (if parts ! 1 \<notin> set known_inputs then [err_finding CodeTypeMismatch step_id] else [])
      else if parts ! 0 = ''steps'' then
        (if length parts < 4 \<or> parts ! 2 \<noteq> ''outputs'' then []
         else case step_outputs (parts ! 1) of
           None \<Rightarrow> [err_finding CodeTypeMismatch step_id]
         | Some producer \<Rightarrow>
             if length producer = 0 then []
             else if parts ! 3 \<notin> set producer then [err_finding CodeTypeMismatch step_id] else [])
      else [])"

definition check_type_wiring :: "workflow \<Rightarrow> finding list" where
  "check_type_wiring w =
     (let known_inputs = map io_name (sp_inputs (wf_spec w));
          step_outputs = last_wins (map (\<lambda>s. (sid s, st_outputs (core s))) (all_steps w))
      in scan_inputs (scan_refs known_inputs step_outputs) w)"

section \<open>Targets and deprecated kinds\<close>

definition check_target :: "string \<Rightarrow> string \<times> string \<Rightarrow> finding list" where
  "check_target i pv =
     (if fst pv \<notin> set known_target_phases then [err_finding CodeInvalidTargetPhase i] else [])
     @ (if snd pv \<notin> set known_target_values then [err_finding CodeInvalidTargetValue i] else [])"

definition check_targets :: "workflow \<Rightarrow> finding list" where
  "check_targets w =
     concat (map (\<lambda>s. concat (map (check_target (sid s)) (st_targets (core s)))) (all_steps w))"

definition check_deprecated_step_kinds :: "workflow \<Rightarrow> finding list" where
  "check_deprecated_step_kinds w =
     map (\<lambda>s. warn_finding CodeDeprecatedStepKind (sid s))
       (filter (\<lambda>s. st_migrated_from (core s) \<noteq> StepTypeOther []) (all_steps w))
     @ map (\<lambda>t. warn_finding CodeDeprecatedStepKind (tr_id t))
       (filter (\<lambda>t. tr_migrated_from t \<noteq> StepTypeOther []) (sp_triggers (wf_spec w)))"

section \<open>Triggers\<close>

definition check_trigger :: "trigger \<Rightarrow> finding list" where
  "check_trigger t =
     (if \<not> is_known_trigger_type (tr_type t)
      then [err_finding CodeUnknownTriggerType (tr_id t)] else [])
     @ (if tr_type t = TriggerEventBus then
          (let topic = val_string (map_of (tr_config t) ''topic'') in
           if topic \<noteq> [] \<and> topic \<notin> set known_event_topics
           then [err_finding CodeUnknownEventTopic (tr_id t)] else [])
        else [])"

definition scan_trigger_ref ::
  "(string \<Rightarrow> string list option) \<Rightarrow> string \<Rightarrow> val \<Rightarrow> finding list" where
  "scan_trigger_ref declared step_id v =
     (case v of
        VString ref \<Rightarrow>
          if \<not> has_prefix ref triggers_prefix then []
          else let rest = trim_prefix ref triggers_prefix in
            (case index_of (CHR ''.'') rest of
               None \<Rightarrow> []
             | Some i \<Rightarrow>
                 (case declared (take i rest) of
                    None \<Rightarrow> [err_finding CodeDanglingTriggerRef step_id]
                  | Some flds \<Rightarrow>
                      if length flds = 0 then []
                      else if drop (Suc i) rest \<notin> set flds
                        then [err_finding CodeDanglingTriggerRef step_id] else []))
      | _ \<Rightarrow> [])"

definition check_triggers :: "workflow \<Rightarrow> finding list" where
  "check_triggers w =
     (let ts = sp_triggers (wf_spec w);
          declared = last_wins (map (\<lambda>t. (tr_id t, map fst (tr_outputs t))) ts)
      in concat (map check_trigger ts) @ scan_inputs (scan_trigger_ref declared) w)"

section \<open>LLM steps\<close>

definition is_floating :: "string \<Rightarrow> bool" where
  "is_floating ref \<longleftrightarrow> (case parse_asset_ref ref of Inl ErrFloatingReference \<Rightarrow> True | _ \<Rightarrow> False)"

definition check_llm_step :: "step \<Rightarrow> finding list" where
  "check_llm_step s =
     (if st_prompt_template (core s) = [] then [err_finding CodeMissingPromptTpl (sid s)]
      else if is_floating (st_prompt_template (core s)) then [err_finding CodeFloatingRef (sid s)]
      else [])
     @ (case st_model (core s) of
          None \<Rightarrow> [err_finding CodeMissingModelRef (sid s)]
        | Some m \<Rightarrow> if mb_ref m = [] then [err_finding CodeMissingModelRef (sid s)] else [])
     @ map (\<lambda>_. err_finding CodeFloatingRef (sid s)) (filter is_floating (st_tools (core s)))"

definition scan_llm_ref :: "(string \<Rightarrow> string list option) \<Rightarrow> string \<Rightarrow> val \<Rightarrow> finding list" where
  "scan_llm_ref llm_outputs step_id v =
     (case v of
        VString ref \<Rightarrow>
          if \<not> has_prefix ref steps_prefix then []
          else let parts = split_on (CHR ''.'') (trim_prefix ref steps_prefix) in
            if length parts < 2 then []
            else (case llm_outputs (parts ! 0) of
                    None \<Rightarrow> []
                  | Some flds \<Rightarrow>
                      if length flds = 0 then []
                      else let field = (if parts ! 1 = ''outputs'' \<and> length parts \<ge> 3
                                        then parts ! 2 else parts ! 1) in
                        if field \<notin> set flds
                        then [err_finding CodeDanglingStepField step_id] else [])
      | _ \<Rightarrow> [])"

definition check_llm_steps :: "workflow \<Rightarrow> finding list" where
  "check_llm_steps w =
     (let llm_steps = filter (\<lambda>s. stype s = StepLLM) (all_steps w);
          llm_outputs = last_wins (map (\<lambda>s. (sid s, map fst (st_step_outputs (core s)))) llm_steps)
      in concat (map check_llm_step llm_steps) @ scan_inputs (scan_llm_ref llm_outputs) w)"

section \<open>Lint\<close>

definition lint :: "workflow option \<Rightarrow> finding list" where
  "lint wopt =
     (case wopt of
        None \<Rightarrow> []
      | Some w \<Rightarrow>
          check_duplicate_ids w @ check_dangling_deps w @ check_cycles w @ check_unreachable w
          @ check_refs w @ check_step_shape w @ check_type_wiring w @ check_targets w
          @ check_deprecated_step_kinds w @ check_triggers w @ check_llm_steps w)"

section \<open>The cycle check\<close>

definition dep_edges :: "(string \<Rightarrow> string list) \<Rightarrow> (string \<times> string) set" where
  "dep_edges g = {(i, d). d \<in> set (g i)}"

text \<open>A step all of whose dependency chains end.\<close>

inductive settled :: "(string \<Rightarrow> string list) \<Rightarrow> string \<Rightarrow> bool" for g where
  settledI: "(\<And>d. d \<in> set (g i) \<Longrightarrow> settled g d) \<Longrightarrow> settled g i"

lemma settled_no_cycle: "settled g i \<Longrightarrow> (i, i) \<notin> (dep_edges g)\<^sup>+"
proof (induction rule: settled.induct)
  case (settledI i)
  show ?case
  proof
    assume "(i, i) \<in> (dep_edges g)\<^sup>+"
    then obtain d where "(i, d) \<in> dep_edges g" "(d, i) \<in> (dep_edges g)\<^sup>*"
      by (meson tranclD)
    then have "d \<in> set (g i)" "(d, d) \<in> (dep_edges g)\<^sup>+"
      by (auto simp: dep_edges_def intro: rtrancl_into_trancl1)
    with settledI.IH show False by blast
  qed
qed

definition blacks_settled :: "(string \<Rightarrow> string list) \<Rightarrow> (string \<Rightarrow> color) \<Rightarrow> bool" where
  "blacks_settled g st \<longleftrightarrow> (\<forall>v. st v = Black \<longrightarrow> settled g v)"

definition same_grays :: "(string \<Rightarrow> color) \<Rightarrow> (string \<Rightarrow> color) \<Rightarrow> bool" where
  "same_grays st st' \<longleftrightarrow> (\<forall>v. (st' v = Gray) = (st v = Gray)) \<and> (\<forall>v. st v = Black \<longrightarrow> st' v = Black)"

lemma dfs_grays:
  "dfs n g i st = Some (st', None) \<Longrightarrow> st i = White \<Longrightarrow> same_grays st st' \<and> st' i = Black"
  "dfs_deps n g i ds st = Some (st', None) \<Longrightarrow>
     same_grays st st' \<and> (\<forall>d\<in>set ds. st' d = Black)"
proof (induction n g i st and n g i ds st arbitrary: st' and st' rule: dfs_dfs_deps.induct)
  case (2 n g i st)
  then obtain s1 where "dfs_deps n g i (g i) (st(i := Gray)) = Some (s1, None)"
    and st': "st' = s1(i := Black)"
    by (auto split: option.splits prod.splits)
  with 2 have "same_grays (st(i := Gray)) s1" by blast
  with 2 st' show ?case by (auto simp: same_grays_def split: if_splits)
next
  case (4 n g i d ds st)
  show ?case
  proof (cases "st d")
    case White
    with 4 obtain s1 where s1: "dfs n g d st = Some (s1, None)" "dfs_deps n g i ds s1 = Some (st', None)"
      by (auto split: option.splits prod.splits)
    then have "same_grays st s1 \<and> s1 d = Black" "same_grays s1 st' \<and> (\<forall>d\<in>set ds. st' d = Black)"
      using 4 White by blast+
    then show ?thesis by (auto simp: same_grays_def)
  qed (use 4 in \<open>auto simp: same_grays_def\<close>)
qed (auto simp: same_grays_def)

lemma dfs_settles:
  "dfs n g i st = Some (st', None) \<Longrightarrow> st i = White \<Longrightarrow> blacks_settled g st \<Longrightarrow> blacks_settled g st'"
  "dfs_deps n g i ds st = Some (st', None) \<Longrightarrow> blacks_settled g st \<Longrightarrow> blacks_settled g st'"
proof (induction n g i st and n g i ds st arbitrary: st' and st' rule: dfs_dfs_deps.induct)
  case (2 n g i st)
  then obtain s1 where s1: "dfs_deps n g i (g i) (st(i := Gray)) = Some (s1, None)"
    and st': "st' = s1(i := Black)"
    by (auto split: option.splits prod.splits)
  have "blacks_settled g (st(i := Gray))" using 2 by (auto simp: blacks_settled_def)
  with 2 s1 have "blacks_settled g s1" by blast
  moreover have "\<forall>d\<in>set (g i). s1 d = Black" using dfs_grays(2) [OF s1] by blast
  ultimately show ?case by (auto simp: st' blacks_settled_def intro: settledI)
next
  case (4 n g i d ds st)
  then show ?case by (cases "st d") (auto split: option.splits prod.splits)
qed (auto simp: blacks_settled_def)

lemma dfs_finds_cycle:
  "dfs n g i st = Some (st', Some f) \<Longrightarrow> st i = White \<Longrightarrow>
     \<forall>v. st v = Gray \<longrightarrow> (v, i) \<in> (dep_edges g)\<^sup>* \<Longrightarrow> (f, f) \<in> (dep_edges g)\<^sup>+"
  "dfs_deps n g i ds st = Some (st', Some f) \<Longrightarrow> set ds \<subseteq> set (g i) \<Longrightarrow>
     \<forall>v. st v = Gray \<longrightarrow> (v, i) \<in> (dep_edges g)\<^sup>* \<Longrightarrow> (f, f) \<in> (dep_edges g)\<^sup>+"
proof (induction n g i st and n g i ds st arbitrary: st' f and st' f rule: dfs_dfs_deps.induct)
  case (2 n g i st)
  then have "dfs_deps n g i (g i) (st(i := Gray)) = Some (st', Some f)"
    by (auto split: option.splits prod.splits)
  moreover have "\<forall>v. (st(i := Gray)) v = Gray \<longrightarrow> (v, i) \<in> (dep_edges g)\<^sup>*"
    using 2 by auto
  ultimately show ?case using 2 by blast
next
  case (4 n g i d ds st)
  have edge: "(i, d) \<in> dep_edges g" using 4 by (auto simp: dep_edges_def)
  show ?case
  proof (cases "st d")
    case White
    have pre: "\<forall>v. st v = Gray \<longrightarrow> (v, d) \<in> (dep_edges g)\<^sup>*"
      using 4 edge by (meson rtrancl.rtrancl_into_rtrancl)
    from 4 White consider "dfs n g d st = Some (st', Some f)"
      | s1 where "dfs n g d st = Some (s1, None)" "dfs_deps n g i ds s1 = Some (st', Some f)"
      by (auto split: option.splits prod.splits)
    then show ?thesis
    proof cases
      case 1
      with 4 White pre show ?thesis by blast
    next
      case 2
      then have "same_grays st s1" using dfs_grays(1) White by blast
      then have "\<forall>v. s1 v = Gray \<longrightarrow> (v, i) \<in> (dep_edges g)\<^sup>*"
        using 4 by (simp add: same_grays_def)
      with 2 4 White show ?thesis by auto
    qed
  next
    case Gray
    with 4 have "f = i" "(d, i) \<in> (dep_edges g)\<^sup>*" by auto
    with edge show ?thesis by (simp add: rtrancl_into_trancl2)
  next
    case Black
    with 4 show ?thesis by auto
  qed
qed auto

definition whites :: "string set \<Rightarrow> (string \<Rightarrow> color) \<Rightarrow> string set" where
  "whites V st = {v \<in> V. st v = White}"

lemma dfs_returns:
  "finite V \<Longrightarrow> \<forall>v\<in>V. set (g v) \<subseteq> V \<Longrightarrow> i \<in> V \<Longrightarrow> st i = White \<Longrightarrow> card (whites V st) \<le> n \<Longrightarrow>
     \<exists>r. dfs n g i st = Some r \<and> whites V (fst r) \<subseteq> whites V st"
  "finite V \<Longrightarrow> \<forall>v\<in>V. set (g v) \<subseteq> V \<Longrightarrow> set ds \<subseteq> V \<Longrightarrow> card (whites V st) \<le> n \<Longrightarrow>
     \<exists>r. dfs_deps n g i ds st = Some r \<and> whites V (fst r) \<subseteq> whites V st"
proof (induction n g i st and n g i ds st rule: dfs_dfs_deps.induct)
  case (1 g i st)
  then show ?case by (auto simp: whites_def)
next
  case (2 n g i st)
  have sub: "whites V (st(i := Gray)) = whites V st - {i}" "i \<in> whites V st"
    using 2 by (auto simp: whites_def)
  have "finite (whites V st)" using 2(2) by (simp add: whites_def)
  then have "card (whites V (st(i := Gray))) \<le> n"
    using sub 2(6) by simp
  then have "\<exists>r. dfs_deps n g i (g i) (st(i := Gray)) = Some r
      \<and> whites V (fst r) \<subseteq> whites V (st(i := Gray))"
    using 2(2-4) by (intro 2(1)) (auto simp: fun_upd_def)
  then obtain s1 o1 where r: "dfs_deps n g i (g i) (st(i := Gray)) = Some (s1, o1)"
    "whites V s1 \<subseteq> whites V (st(i := Gray))"
    by force
  then show ?case using sub by (cases o1) (auto simp: whites_def)
next
  case (3 n g i st)
  then show ?case by simp
next
  case (4 n g i d ds st)
  show ?case
  proof (cases "st d")
    case White
    have "\<exists>r. dfs n g d st = Some r \<and> whites V (fst r) \<subseteq> whites V st"
      using 4(4-7) White by (intro 4(1)) auto
    then obtain s1 o1 where r: "dfs n g d st = Some (s1, o1)" "whites V s1 \<subseteq> whites V st"
      by force
    show ?thesis
    proof (cases o1)
      case None
      have fin: "finite (whites V st)" using 4(4) by (simp add: whites_def)
      have "card (whites V s1) \<le> n"
        using card_mono [OF fin r(2)] 4(7) by simp
      then have "\<exists>q. dfs_deps n g i ds s1 = Some q \<and> whites V (fst q) \<subseteq> whites V s1"
        using 4(4-6) White r None by (intro 4(2)) auto
      with r White None show ?thesis by auto
    qed (use r White in auto)
  next
    case Gray
    then show ?thesis by simp
  next
    case Black
    then have "\<exists>r. dfs_deps n g i ds st = Some r \<and> whites V (fst r) \<subseteq> whites V st"
      using 4(4-7) by (intro 4(3)) auto
    with Black show ?thesis by simp
  qed
qed

lemma run_cycles_sound:
  "run_cycles n g ids st = Some [] \<Longrightarrow> blacks_settled g st \<Longrightarrow> \<forall>v. st v \<noteq> Gray \<Longrightarrow>
     \<forall>i\<in>set ids. settled g i"
proof (induction ids arbitrary: st)
  case Nil
  then show ?case by simp
next
  case (Cons i ids)
  show ?case
  proof (cases "st i")
    case White
    with Cons.prems obtain s1 where s1: "dfs n g i st = Some (s1, None)"
      "run_cycles n g ids s1 = Some []"
      by (auto split: option.splits prod.splits)
    then have "blacks_settled g s1" "same_grays st s1" "s1 i = Black"
      using dfs_settles(1) dfs_grays(1) White Cons.prems by blast+
    with s1 Cons show ?thesis by (auto simp: blacks_settled_def same_grays_def)
  qed (use Cons in \<open>auto simp: blacks_settled_def\<close>)
qed

lemma run_cycles_finds:
  "run_cycles n g ids st = Some (f # fs) \<Longrightarrow> \<forall>v. st v \<noteq> Gray \<Longrightarrow>
     (fd_step f, fd_step f) \<in> (dep_edges g)\<^sup>+"
proof (induction ids arbitrary: st)
  case Nil
  then show ?case by simp
next
  case (Cons i ids)
  show ?case
  proof (cases "st i = White")
    case True
    with Cons.prems consider s1 z where "dfs n g i st = Some (s1, Some z)"
        "f = err_finding CodeCycleDetected z"
      | s1 where "dfs n g i st = Some (s1, None)" "run_cycles n g ids s1 = Some (f # fs)"
      by (auto split: option.splits prod.splits)
    then show ?thesis
    proof cases
      case 1
      then have "(z, z) \<in> (dep_edges g)\<^sup>+"
        using Cons.prems by (intro dfs_finds_cycle(1) [OF 1(1) True]) simp
      then show ?thesis by (simp add: 1 err_finding_def)
    next
      case 2
      then have "\<forall>v. s1 v \<noteq> Gray"
        using dfs_grays(1) [OF 2(1) True] Cons.prems by (simp add: same_grays_def)
      with Cons.IH 2 show ?thesis by blast
    qed
  qed (use Cons in auto)
qed

lemma run_cycles_total:
  "finite V \<Longrightarrow> \<forall>v\<in>V. set (g v) \<subseteq> V \<Longrightarrow> set ids \<subseteq> V \<Longrightarrow> card (whites V st) \<le> n \<Longrightarrow>
     \<exists>fs. run_cycles n g ids st = Some fs"
proof (induction ids arbitrary: st)
  case Nil
  then show ?case by simp
next
  case (Cons i ids)
  show ?case
  proof (cases "st i = White")
    case True
    with Cons.prems dfs_returns(1) [of V g i st n]
    obtain s1 o1 where r: "dfs n g i st = Some (s1, o1)" "whites V s1 \<subseteq> whites V st" by force
    have "card (whites V s1) \<le> n"
      using r Cons.prems card_mono [of "whites V st" "whites V s1"] by (simp add: whites_def)
    with Cons r True show ?thesis by (cases o1) auto
  qed (use Cons in auto)
qed

lemma dep_graph_in_deps:
  "d \<in> set (dep_graph w i) \<Longrightarrow> \<exists>s\<in>set (all_steps w). sid s = i \<and> d \<in> set (st_depends_on (core s))"
proof -
  assume d: "d \<in> set (dep_graph w i)"
  then obtain ds where "map_of (rev (map (\<lambda>s. (sid s, st_depends_on (core s))) (all_steps w))) i = Some ds"
    "d \<in> set ds"
    by (cases "map_of (rev (map (\<lambda>s. (sid s, st_depends_on (core s))) (all_steps w))) i")
      (auto simp: dep_graph_def last_wins_def)
  then show ?thesis by (auto dest!: map_of_SomeD)
qed

lemma run_cycles_returns:
  "\<exists>fs. run_cycles (cycle_fuel w) (dep_graph w) (graph_ids w) (\<lambda>_. White) = Some fs"
proof -
  define ids where "ids = map sid (all_steps w)"
  define deps where "deps = concat (map (\<lambda>s. st_depends_on (core s)) (all_steps w))"
  let ?V = "set (ids @ deps)"
  have "\<forall>v\<in>?V. set (dep_graph w v) \<subseteq> ?V"
    by (auto simp: deps_def dest: dep_graph_in_deps)
  moreover have "whites ?V (\<lambda>_. White) = ?V" by (auto simp: whites_def)
  then have "card (whites ?V (\<lambda>_. White)) \<le> cycle_fuel w"
    using card_length [of "ids @ deps"]
    by (simp only: cycle_fuel_def ids_def deps_def length_append length_map)
  moreover have "set (graph_ids w) \<subseteq> ?V" by (auto simp: graph_ids_def ids_def)
  ultimately show ?thesis by (intro run_cycles_total [of ?V]) auto
qed

lemma check_cycles_iff: "check_cycles w = [] \<longleftrightarrow> acyclic (dep_edges (dep_graph w))"
proof -
  let ?g = "dep_graph w"
  obtain fs where fs: "run_cycles (cycle_fuel w) ?g (graph_ids w) (\<lambda>_. White) = Some fs"
    using run_cycles_returns by blast
  show ?thesis
  proof (cases fs)
    case Nil
    have "(x, x) \<notin> (dep_edges ?g)\<^sup>+" for x
    proof
      assume c: "(x, x) \<in> (dep_edges ?g)\<^sup>+"
      then obtain d where "(x, d) \<in> dep_edges ?g" by (meson tranclD)
      then have "x \<in> set (graph_ids w)"
        by (auto simp: dep_edges_def graph_ids_def dest!: dep_graph_in_deps)
      moreover have "\<forall>i\<in>set (graph_ids w). settled ?g i"
        using run_cycles_sound [OF fs [unfolded Nil]] by (simp add: blacks_settled_def)
      ultimately show False using settled_no_cycle c by blast
    qed
    then show ?thesis by (simp add: check_cycles_def fs Nil acyclic_def)
  next
    case (Cons f fs')
    have "(fd_step f, fd_step f) \<in> (dep_edges ?g)\<^sup>+"
      using run_cycles_finds [OF fs [unfolded Cons]] by simp
    then show ?thesis by (auto simp: check_cycles_def fs Cons acyclic_def)
  qed
qed

section \<open>The reachability check\<close>

lemma bfs_sound:
  "set r \<subseteq> (set es)\<^sup>* `` R \<Longrightarrow> set q \<subseteq> set r \<Longrightarrow> set (bfs es r q) \<subseteq> (set es)\<^sup>* `` R"
proof (induction es r q rule: bfs.induct)
  case (1 es r)
  then show ?case by simp
next
  case (2 es r x q)
  obtain r' q' where rq: "fold push_succ (successors es x) (r, q) = (r', q')" by fastforce
  note p = push_succs_spec [OF rq]
  have "y \<in> (set es)\<^sup>* `` R" if "y \<in> set (successors es x)" for y
  proof -
    have "x \<in> (set es)\<^sup>* `` R" using 2 by auto
    moreover have "(x, y) \<in> set es" using that by (auto simp: successors_def)
    ultimately show ?thesis by (meson ImageE ImageI rtrancl.rtrancl_into_rtrancl)
  qed
  then have "set r' \<subseteq> (set es)\<^sup>* `` R" "set q' \<subseteq> set r'" using p 2 by auto
  with 2(1) [OF refl] rq show ?case by simp
qed

lemma bfs_closed:
  "set q \<subseteq> set r \<Longrightarrow> \<forall>x\<in>set r - set q. set (successors es x) \<subseteq> set r \<Longrightarrow>
     set r \<subseteq> set (bfs es r q) \<and> (\<forall>x\<in>set (bfs es r q). set (successors es x) \<subseteq> set (bfs es r q))"
proof (induction es r q rule: bfs.induct)
  case (1 es r)
  then show ?case by simp
next
  case (2 es r x q)
  obtain r' q' where rq: "fold push_succ (successors es x) (r, q) = (r', q')" by fastforce
  note p = push_succs_spec [OF rq]
  have "set q' \<subseteq> set r'" "\<forall>y\<in>set r' - set q'. set (successors es y) \<subseteq> set r'"
    using p 2(2,3) by auto
  with 2(1) [OF refl] rq p show ?case by auto
qed

lemma bfs_reachable: "set (bfs es r r) = (set es)\<^sup>* `` set r"
proof
  show "set (bfs es r r) \<subseteq> (set es)\<^sup>* `` set r" by (rule bfs_sound) auto
  have c: "set r \<subseteq> set (bfs es r r)" "\<forall>x\<in>set (bfs es r r). set (successors es x) \<subseteq> set (bfs es r r)"
    using bfs_closed [of r r es] by auto
  have "y \<in> set (bfs es r r)" if "(x, y) \<in> (set es)\<^sup>*" "x \<in> set r" for x y
    using that
  proof (induction rule: rtrancl_induct)
    case base
    then show ?case using c by auto
  next
    case (step y z)
    then have "z \<in> set (successors es y)" by (auto simp: successors_def intro: image_eqI [of _ _ "(y, z)"])
    with step c show ?case by auto
  qed
  then show "(set es)\<^sup>* `` set r \<subseteq> set (bfs es r r)" by auto
qed

lemma dep_graph_distinct:
  assumes "distinct (map sid (all_steps w))" "s \<in> set (all_steps w)"
  shows "dep_graph w (sid s) = st_depends_on (core s)"
proof -
  have "map_of (rev (map (\<lambda>s. (sid s, st_depends_on (core s))) (all_steps w))) (sid s)
      = Some (st_depends_on (core s))"
    using assms by (intro map_of_is_SomeI) (auto simp: rev_map o_def simp flip: rev_map)
  then show ?thesis by (simp add: dep_graph_def last_wins_def)
qed

lemma succ_edges_iff:
  "(d, i) \<in> set (succ_edges w) \<longleftrightarrow>
     d \<in> sid ` set (all_steps w) \<and> (\<exists>s\<in>set (all_steps w). sid s = i \<and> d \<in> set (st_depends_on (core s)))"
  by (auto simp: succ_edges_def Let_def)

lemma acyclic_settled:
  assumes "check_cycles w = []" "i \<in> set (graph_ids w)"
  shows "settled (dep_graph w) i"
proof -
  obtain fs where fs: "run_cycles (cycle_fuel w) (dep_graph w) (graph_ids w) (\<lambda>_. White) = Some fs"
    using run_cycles_returns by blast
  with assms(1) have "fs = []" by (simp add: check_cycles_def)
  from run_cycles_sound [OF fs [unfolded this]] assms(2) show ?thesis
    by (simp add: blacks_settled_def)
qed

lemma settled_reachable:
  assumes dist: "distinct (map sid (all_steps w))"
  shows "settled (dep_graph w) i \<Longrightarrow> i \<in> set (graph_ids w)
    \<Longrightarrow> i \<in> (set (succ_edges w))\<^sup>* `` set (roots w)"
proof (induction rule: settled.induct)
  case (settledI i)
  then obtain s where s: "s \<in> set (all_steps w)" "sid s = i" by (auto simp: graph_ids_def)
  show ?case
  proof (cases "\<exists>d. (d, i) \<in> set (succ_edges w)")
    case True
    then obtain d where d: "(d, i) \<in> set (succ_edges w)" by blast
    then obtain s' where "s' \<in> set (all_steps w)" "sid s' = i" "d \<in> set (st_depends_on (core s'))"
      and "d \<in> set (graph_ids w)"
      by (auto simp: succ_edges_iff graph_ids_def)
    then have "d \<in> set (dep_graph w i)" using dep_graph_distinct [OF dist] by metis
    with settledI \<open>d \<in> set (graph_ids w)\<close> have "d \<in> (set (succ_edges w))\<^sup>* `` set (roots w)" by blast
    with d show ?thesis by (meson ImageE ImageI rtrancl.rtrancl_into_rtrancl)
  next
    case False
    then have "i \<in> set (roots w)" using s by (force simp: roots_def)
    then show ?thesis by blast
  qed
qed

section \<open>What a clean result means\<close>

definition lint_clean :: "workflow \<Rightarrow> bool" where
  "lint_clean w \<longleftrightarrow> result_errors (lint (Some w)) = []"

lemma err_is_error [simp]: "is_error (err_finding c i)"
  by (simp add: is_error_def err_finding_def)

lemma no_errors_in_errs: "filter is_error (map (err_finding c) xs) = [] \<longleftrightarrow> xs = []"
  by (cases xs) auto

lemma run_cycles_errors:
  "run_cycles n g ids st = Some fs \<Longrightarrow> f \<in> set fs \<Longrightarrow> is_error f"
  by (induction ids arbitrary: st) (auto split: if_splits option.splits prod.splits)

lemma check_cycles_errors: "f \<in> set (check_cycles w) \<Longrightarrow> is_error f"
  by (cases "run_cycles (cycle_fuel w) (dep_graph w) (graph_ids w) (\<lambda>_. White)")
    (auto simp: check_cycles_def dest: run_cycles_errors)

lemma lint_clean_checks:
  assumes "lint_clean w"
  shows "check_duplicate_ids w = []" "check_dangling_deps w = []" "check_cycles w = []"
    "check_refs w = []" "check_step_shape w = []"
    "concat (map check_llm_step (filter (\<lambda>s. stype s = StepLLM) (all_steps w))) = []"
proof -
  have e: "xs = []" if "\<forall>f\<in>set xs. is_error f" "set xs \<subseteq> set (lint (Some w))" for xs
    using that assms by (cases xs) (auto simp: lint_clean_def result_errors_def filter_empty_conv)
  show "check_duplicate_ids w = []"
    by (rule e) (auto simp: check_duplicate_ids_def lint_def Let_def)
  show "check_dangling_deps w = []"
    by (rule e) (auto simp: check_dangling_deps_def lint_def Let_def)
  show "check_cycles w = []"
    by (rule e) (auto simp: lint_def dest: check_cycles_errors)
  show "check_refs w = []"
  proof (rule e)
    have "\<forall>f\<in>set (check_ref s). is_error f" for s
    proof (cases "parse_asset_ref (st_ref (core s))")
      case (Inl e)
      then show ?thesis by (cases e) (simp_all add: check_ref_def)
    qed (simp add: check_ref_def)
    then show "\<forall>f\<in>set (check_refs w). is_error f" by (auto simp: check_refs_def)
  qed (auto simp: lint_def)
  show "check_step_shape w = []"
    by (rule e) (auto simp: check_step_shape_def check_shape_def lint_def split: if_splits)
  show "concat (map check_llm_step (filter (\<lambda>s. stype s = StepLLM) (all_steps w))) = []"
    by (rule e) (auto simp: check_llm_step_def check_llm_steps_def lint_def Let_def
        split: if_splits option.splits)
qed

lemma count_list_distinct: "(\<forall>x\<in>set xs. \<not> count_list xs x > 1) \<longleftrightarrow> distinct xs"
proof (induction xs)
  case Nil
  show ?case by simp
next
  case (Cons a xs)
  have "(\<forall>x\<in>set (a # xs). \<not> count_list (a # xs) x > 1)
      \<longleftrightarrow> a \<notin> set xs \<and> (\<forall>x\<in>set xs. \<not> count_list xs x > 1)"
    using count_list_0_iff [of xs a] by auto
  with Cons show ?case by simp
qed

lemma check_duplicate_ids_iff: "check_duplicate_ids w = [] \<longleftrightarrow> distinct (map sid (all_steps w))"
  using count_list_distinct [of "map sid (all_steps w)"]
  by (auto simp: check_duplicate_ids_def Let_def filter_empty_conv)

section \<open>Properties\<close>

text \<open>C10: The cycle check is exact and always terminates within its fuel: it reports nothing if and
  only if the depends-on graph of the workflow, on-failure and nested steps included, is acyclic.\<close>

theorem check_cycles_exact:
  "(check_cycles w = [] \<longleftrightarrow> acyclic (dep_edges (dep_graph w)))
   \<and> run_cycles (cycle_fuel w) (dep_graph w) (graph_ids w) (\<lambda>_. White) = Some (check_cycles w)"
proof -
  obtain fs where "run_cycles (cycle_fuel w) (dep_graph w) (graph_ids w) (\<lambda>_. White) = Some fs"
    using run_cycles_returns by blast
  then show ?thesis by (simp add: check_cycles_iff [symmetric]) (simp add: check_cycles_def)
qed

text \<open>The reachability check is exact: a step is reported if and only if no chain of resolved
  dependency edges leads to it from a step without resolved dependencies (or an event trigger).\<close>

theorem check_unreachable_exact:
  "err_finding CodeUnreachableStep i \<in> set (check_unreachable w) \<longleftrightarrow>
     i \<in> sid ` set (all_steps w) \<and> i \<notin> (set (succ_edges w))\<^sup>* `` set (roots w)"
  by (auto simp: check_unreachable_def Let_def bfs_reachable graph_ids_def err_finding_def)

text \<open>The unreachable-step rule never reports on its own: a workflow whose identifiers are distinct
  and whose dependency graph passes the cycle check has no unreachable step.\<close>

theorem unreachable_needs_cycle:
  assumes "check_duplicate_ids w = []" "check_cycles w = []"
  shows "check_unreachable w = []"
  using settled_reachable acyclic_settled assms
  by (auto simp: check_unreachable_def Let_def bfs_reachable filter_empty_conv
      check_duplicate_ids_iff)

text \<open>C14: A workflow that lints without errors has distinct step identifiers, dependencies that all
  name a step, an acyclic dependency graph and references that all parse to a pinned registry
  reference; its MCP steps have a reference and a tool, its approval steps an approver, and its LLM
  steps a prompt template that is not floating and a model.\<close>

theorem lint_clean_sound:
  assumes "lint_clean w"
  shows "distinct (map sid (all_steps w))
    \<and> acyclic (dep_edges (dep_graph w))
    \<and> (\<forall>s \<in> set (all_steps w).
         set (st_depends_on (core s)) \<subseteq> sid ` set (all_steps w)
         \<and> (st_ref (core s) = [] \<or> (\<exists>r. parse_asset_ref (st_ref (core s)) = Inr r))
         \<and> (stype s = StepMCP \<longrightarrow> st_ref (core s) \<noteq> [] \<and> st_tool (core s) \<noteq> [])
         \<and> (stype s = StepHumanInLoop \<longrightarrow> st_approver_role (core s) \<noteq> [])
         \<and> (stype s = StepLLM \<longrightarrow> st_prompt_template (core s) \<noteq> []
              \<and> \<not> is_floating (st_prompt_template (core s)) \<and> st_model (core s) \<noteq> None
              \<and> (\<forall>t \<in> set (st_tools (core s)). \<not> is_floating t)))"
proof -
  note c = lint_clean_checks [OF assms]
  have "set (st_depends_on (core s)) \<subseteq> sid ` set (all_steps w)" if "s \<in> set (all_steps w)" for s
    using c(2) that by (auto simp: check_dangling_deps_def Let_def filter_empty_conv)
  moreover have "st_ref (core s) = [] \<or> (\<exists>r. parse_asset_ref (st_ref (core s)) = Inr r)"
    if "s \<in> set (all_steps w)" for s
  proof -
    have "check_ref s = []" using c(4) that by (simp add: check_refs_def)
    then show ?thesis
      by (cases "parse_asset_ref (st_ref (core s))")
        (auto simp: check_ref_def split: if_splits ref_error.splits)
  qed
  moreover have "stype s = StepMCP \<longrightarrow> st_ref (core s) \<noteq> [] \<and> st_tool (core s) \<noteq> []"
    "stype s = StepHumanInLoop \<longrightarrow> st_approver_role (core s) \<noteq> []" if "s \<in> set (all_steps w)" for s
  proof -
    have "check_shape s = []" using c(5) that by (simp add: check_step_shape_def)
    then show "stype s = StepMCP \<longrightarrow> st_ref (core s) \<noteq> [] \<and> st_tool (core s) \<noteq> []"
      "stype s = StepHumanInLoop \<longrightarrow> st_approver_role (core s) \<noteq> []"
      by (auto simp: check_shape_def split: if_splits)
  qed
  moreover have "stype s = StepLLM \<longrightarrow> st_prompt_template (core s) \<noteq> []
      \<and> \<not> is_floating (st_prompt_template (core s)) \<and> st_model (core s) \<noteq> None
      \<and> (\<forall>t \<in> set (st_tools (core s)). \<not> is_floating t)" if "s \<in> set (all_steps w)" for s
  proof
    assume "stype s = StepLLM"
    then have "check_llm_step s = []" using c(6) that by simp
    then show "st_prompt_template (core s) \<noteq> []
      \<and> \<not> is_floating (st_prompt_template (core s)) \<and> st_model (core s) \<noteq> None
      \<and> (\<forall>t \<in> set (st_tools (core s)). \<not> is_floating t)"
      by (auto simp: check_llm_step_def filter_empty_conv split: if_splits option.splits)
  qed
  ultimately show ?thesis
    using c(1,3) by (simp add: check_duplicate_ids_iff check_cycles_iff)
qed

text \<open>Two steps in order; and a floating reference two levels deep.\<close>

definition demo_clean :: workflow where
  "demo_clean = zero_workflow\<lparr>wf_spec := zero_spec\<lparr>sp_steps :=
     [Step (zero_step_core\<lparr>st_id := ''b'', st_type := StepHumanInLoop, st_approver_role := ''qa'',
              st_depends_on := [''a'']\<rparr>) [] [],
      Step (zero_step_core\<lparr>st_id := ''a'', st_type := StepSkill,
              st_ref := ''registry:skill/x@1.0.0''\<rparr>) [] []]\<rparr>\<rparr>"

definition demo_nested_step :: step where
  "demo_nested_step = Step (zero_step_core\<lparr>st_id := ''c'', st_type := StepSkill,
     st_ref := ''registry:skill/x@latest''\<rparr>) [] []"

definition demo_nested :: workflow where
  "demo_nested = zero_workflow\<lparr>wf_spec := zero_spec\<lparr>sp_steps :=
     [Step (zero_step_core\<lparr>st_id := ''a'', st_type := StepLoop\<rparr>) []
        [Step (zero_step_core\<lparr>st_id := ''b'', st_type := StepLoop\<rparr>) [] [demo_nested_step]]]\<rparr>\<rparr>"

lemma demo_clean_clean: "lint_clean demo_clean"
  by code_simp

theorem unreachable_needs_cycle_witness: "check_unreachable demo_clean = []"
  using unreachable_needs_cycle [of demo_clean] lint_clean_checks [OF demo_clean_clean] by blast

theorem lint_clean_sound_witness: "acyclic (dep_edges (dep_graph demo_clean))"
  using lint_clean_sound [OF demo_clean_clean] by blast

text \<open>The linter looks one level into loops and branches: a workflow with a floating reference two
  levels deep has no finding at all, although the same step at the top level would be refused.\<close>

theorem lint_misses_deep_steps:
  "lint (Some demo_nested) = []
   \<and> demo_nested_step \<in> set (concat (map steps_of (sp_steps (wf_spec demo_nested))))
   \<and> check_ref demo_nested_step = [err_finding CodeFloatingRef ''c'']"
  by code_simp

end
