(* ===== verification/Workflow_Registry.thy ===== *)
theory Workflow_Registry
  imports Workflow_Lint Workflow_DSL Workflow_Diff
begin

text \<open>
  The workflow registry, \<open>services/workflow-registry/internal/registry/service.go\<close> and \<open>seed.go\<close>
  (\<open>seedOne\<close>; the directory walk is file-system I/O). The two maps of the service are association
  lists, the sink is the list of events it received, the clock's readings are arguments. A lock is
  held over every operation, so an operation is one step. An operation that fails leaves the
  service alone, so it returns either an error or the new service and its result. The returned
  copies are values: the sharing of nested slices between a stored version and its clones is not
  modelled.
\<close>

section \<open>State\<close>

datatype lifecycle_state =
    LifecycleDraft | LifecycleInReview | LifecycleApproved | LifecyclePublished | LifecycleDeprecated

record reg_workflow =
  rw_id :: string
  rw_tenant_id :: string
  rw_workspace_id :: string
  rw_name :: string
  rw_owners :: "string list"
  rw_description :: string
  rw_tags :: "string list"
  rw_visibility :: string
  rw_latest :: string
  rw_created_at :: gotime
  rw_updated_at :: gotime

record reg_version =
  ve_workflow_id :: string
  ve_version :: string
  ve_ast :: workflow
  ve_state :: lifecycle_state
  ve_published_at :: "gotime option"
  ve_created_at :: gotime
  ve_created_by :: string
  ve_diff_prev :: "diff_result option"

record create_request =
  cr_id :: string
  cr_tenant_id :: string
  cr_workspace_id :: string
  cr_name :: string
  cr_owners :: "string list"
  cr_description :: string
  cr_tags :: "string list"
  cr_visibility :: string

record publish_request =
  pr_tenant_id :: string
  pr_workflow_id :: string
  pr_workflow_yaml :: string
  pr_actor :: string
  pr_auto_bump :: bool

text \<open>The two events, with their envelope's tenant, workspace and subject, and their data.\<close>

datatype reg_event =
    WorkflowCreated string string string string string
  | WorkflowPublished string string string string "diff_result option"

record registry =
  rg_workflows :: "(string \<times> reg_workflow) list"
  rg_versions :: "(string \<times> (string \<times> reg_version) list) list"
  rg_events :: "reg_event list"

definition new_service :: registry where
  "new_service = \<lparr>rg_workflows = [], rg_versions = [], rg_events = []\<rparr>"

datatype reg_error =
    ErrIdRequired
  | ErrNameRequired
  | ErrWorkflowAlreadyExists string
  | ErrParse parse_error
  | ErrSchemaValidationFailed schema_error
  | ErrLintFailed nat
  | ErrInvalidVersion
  | ErrWorkflowNotFound
  | ErrVersionNotFound string
  | ErrVersionAlreadyExists semver
  | ErrBreakingChange semver semver "string list"
  | ErrRead
  | ErrMetadataIDEmpty

section \<open>Workflows\<close>

definition visibility_private :: string where
  "visibility_private = ''private''"

definition create_workflow ::
  "gotime \<Rightarrow> gotime \<Rightarrow> create_request \<Rightarrow> registry \<Rightarrow> reg_error + registry \<times> reg_workflow" where
  "create_workflow now1 now2 req s =
     (if cr_id req = [] then Inl ErrIdRequired
      else if cr_name req = [] then Inl ErrNameRequired
      else
        let w = \<lparr>rw_id = cr_id req, rw_tenant_id = cr_tenant_id req,
                 rw_workspace_id = cr_workspace_id req, rw_name = cr_name req,
                 rw_owners = cr_owners req, rw_description = cr_description req,
                 rw_tags = cr_tags req,
                 rw_visibility = (if cr_visibility req = [] then visibility_private
                                  else cr_visibility req),
                 rw_latest = [], rw_created_at = now1, rw_updated_at = now2\<rparr> in
        if map_of (rg_workflows s) (cr_id req) \<noteq> None then Inl (ErrWorkflowAlreadyExists (cr_id req))
        else Inr (s\<lparr>rg_workflows := AList.update (cr_id req) w (rg_workflows s),
                    rg_versions := AList.update (cr_id req) [] (rg_versions s),
                    rg_events := rg_events s @ [WorkflowCreated (rw_tenant_id w) (rw_workspace_id w)
                      (rw_id w) (rw_name w) (rw_visibility w)]\<rparr>, w))"

definition get_workflow :: "registry \<Rightarrow> string \<Rightarrow> reg_error + reg_workflow" where
  "get_workflow s i =
     (case map_of (rg_workflows s) i of None \<Rightarrow> Inl ErrWorkflowNotFound | Some w \<Rightarrow> Inr w)"

definition list_workflows :: "registry \<Rightarrow> string \<Rightarrow> string \<Rightarrow> reg_workflow list" where
  "list_workflows s tenant_id workspace_id =
     sort_slice (\<lambda>a b. rw_created_at a > rw_created_at b)
       (filter (\<lambda>w. (tenant_id = [] \<or> rw_tenant_id w = tenant_id)
                  \<and> (workspace_id = [] \<or> rw_workspace_id w = workspace_id))
          (map snd (rg_workflows s)))"

section \<open>Versions\<close>

definition zero_semver :: semver where
  "zero_semver = \<lparr>sv_major = 0, sv_minor = 0, sv_patch = 0, sv_pre = [], sv_build = []\<rparr>"

text \<open>\<open>v, _ := ParseSemVer(s)\<close>: on an error, the zero version.\<close>

definition semver_or_zero :: "string \<Rightarrow> semver" where
  "semver_or_zero v = (case parse_semver v of Some x \<Rightarrow> x | None \<Rightarrow> zero_semver)"

definition list_versions :: "registry \<Rightarrow> string \<Rightarrow> reg_version list" where
  "list_versions s wid =
     (case map_of (rg_versions s) wid of
        None \<Rightarrow> []
      | Some vs \<Rightarrow>
          sort_slice (\<lambda>a b. semver_compare (semver_or_zero (ve_version a))
                                           (semver_or_zero (ve_version b)) > 0) (map snd vs))"

definition get_version :: "registry \<Rightarrow> string \<Rightarrow> string \<Rightarrow> reg_error + reg_version" where
  "get_version s wid version =
     (case map_of (rg_versions s) wid of
        None \<Rightarrow> Inl ErrWorkflowNotFound
      | Some vs \<Rightarrow> (case map_of vs version of
                     None \<Rightarrow> Inl (ErrVersionNotFound version) | Some v \<Rightarrow> Inr v))"

section \<open>Publishing\<close>

text \<open>The checks before the lock is taken.\<close>

definition publish_check ::
  "(string \<Rightarrow> string + workflow) \<Rightarrow> string \<Rightarrow> reg_error + workflow \<times> semver" where
  "publish_check yaml doc =
     (case dsl_parse yaml doc of
        Inl e \<Rightarrow> Inl (ErrParse e)
      | Inr w \<Rightarrow>
          (case schema_validate (Some w) of
             Some e \<Rightarrow> Inl (ErrSchemaValidationFailed e)
           | None \<Rightarrow>
               if length (result_errors (lint (Some w))) > 0
               then Inl (ErrLintFailed (length (result_errors (lint (Some w)))))
               else (case parse_semver (md_version (wf_metadata w)) of
                       None \<Rightarrow> Inl ErrInvalidVersion
                     | Some v \<Rightarrow> Inr (w, v))))"

definition is_published :: "(string \<times> reg_version) list \<Rightarrow> semver \<Rightarrow> bool" where
  "is_published vs v \<longleftrightarrow>
     (case map_of vs (semver_string v) of
        Some existing \<Rightarrow> ve_state existing = LifecyclePublished
      | None \<Rightarrow> False)"

text \<open>The version decided under the lock, with the difference to the latest version.\<close>

definition publish_decide ::
  "bool \<Rightarrow> string \<Rightarrow> (string \<times> reg_version) list \<Rightarrow> workflow \<Rightarrow> semver
     \<Rightarrow> reg_error + semver \<times> workflow \<times> diff_result option" where
  "publish_decide auto latest vs w requested =
     (let prev = (if latest \<noteq> [] then map_of vs latest else None);
          diff = map_option (\<lambda>p. diff_workflows (Some (ve_ast p)) (Some w)) prev
      in if \<not> auto \<and> is_published vs requested then Inl (ErrVersionAlreadyExists requested)
         else
           let decided =
             (case diff of
                None \<Rightarrow> Inr (requested, w)
              | Some d \<Rightarrow>
                  let least = min_next_version (semver_or_zero latest) (dr_bump d) in
                  if auto then Inr (least, w\<lparr>wf_metadata := (wf_metadata w)\<lparr>md_version := semver_string least\<rparr>\<rparr>)
                  else if semver_compare requested least < 0
                    then Inl (ErrBreakingChange requested least (dr_reasons d))
                  else Inr (requested, w))
           in case decided of
             Inl e \<Rightarrow> Inl e
           | Inr (final, w') \<Rightarrow>
               if is_published vs final then Inl (ErrVersionAlreadyExists final)
               else Inr (final, w', diff))"

text \<open>\<open>versions[v.Version] = v; s.versions[id] = versions\<close>.\<close>

definition store_version :: "reg_version \<Rightarrow> registry \<Rightarrow> registry" where
  "store_version v s =
     (let vs = (case map_of (rg_versions s) (ve_workflow_id v) of Some vs \<Rightarrow> vs | None \<Rightarrow> []) in
      s\<lparr>rg_versions := AList.update (ve_workflow_id v) (AList.update (ve_version v) v vs)
                         (rg_versions s)\<rparr>)"

definition publish_version ::
  "(string \<Rightarrow> string + workflow) \<Rightarrow> gotime \<Rightarrow> publish_request \<Rightarrow> registry
     \<Rightarrow> reg_error + registry \<times> reg_version" where
  "publish_version yaml now req s =
     (case publish_check yaml (pr_workflow_yaml req) of
        Inl e \<Rightarrow> Inl e
      | Inr (w, requested) \<Rightarrow>
          (case map_of (rg_workflows s) (pr_workflow_id req) of
             None \<Rightarrow> Inl ErrWorkflowNotFound
           | Some rw \<Rightarrow>
               let vs = (case map_of (rg_versions s) (pr_workflow_id req) of Some vs \<Rightarrow> vs | None \<Rightarrow> []) in
               (case publish_decide (pr_auto_bump req) (rw_latest rw) vs w requested of
                  Inl e \<Rightarrow> Inl e
                | Inr (final, w', diff) \<Rightarrow>
                    let v = \<lparr>ve_workflow_id = pr_workflow_id req, ve_version = semver_string final,
                             ve_ast = w', ve_state = LifecyclePublished, ve_published_at = Some now,
                             ve_created_at = now, ve_created_by = pr_actor req,
                             ve_diff_prev = diff\<rparr>;
                        rw' = rw\<lparr>rw_latest := ve_version v, rw_updated_at := now\<rparr>
                    in Inr ((store_version v s)
                            \<lparr>rg_workflows := AList.update (pr_workflow_id req) rw' (rg_workflows s),
                              rg_events := rg_events s @ [WorkflowPublished (rw_tenant_id rw)
                                (rw_workspace_id rw) (rw_id rw) (ve_version v) diff]\<rparr>, v))))"

section \<open>Seeding\<close>

definition reference_tag :: string where
  "reference_tag = ''reference''"

text \<open>\<open>seedOne\<close> on the bytes of one file (\<open>None\<close>: the read failed). A failed seed may leave the parent
  workflow behind, so the service is returned in every case.\<close>

definition seed_one ::
  "(string \<Rightarrow> string + workflow) \<Rightarrow> gotime \<Rightarrow> string option \<Rightarrow> string \<Rightarrow> string \<Rightarrow> string \<Rightarrow> registry
     \<Rightarrow> registry \<times> reg_error option" where
  "seed_one yaml now raw tenant workspace actor s =
     (case raw of
        None \<Rightarrow> (s, Some ErrRead)
      | Some doc \<Rightarrow>
          (case dsl_parse yaml doc of
             Inl e \<Rightarrow> (s, Some (ErrParse e))
           | Inr w \<Rightarrow>
               let md = wf_metadata w in
               if md_id md = [] then (s, Some ErrMetadataIDEmpty)
               else
                 let tags = (if reference_tag \<in> set (md_tags md) then md_tags md
                             else md_tags md @ [reference_tag]);
                     parent = \<lparr>cr_id = md_id md, cr_tenant_id = tenant, cr_workspace_id = workspace,
                               cr_name = md_name md, cr_owners = md_owners md,
                               cr_description = md_description md, cr_tags = tags,
                               cr_visibility = md_visibility md\<rparr>;
                     pub = \<lparr>pr_tenant_id = tenant, pr_workflow_id = md_id md, pr_workflow_yaml = doc,
                            pr_actor = actor, pr_auto_bump = False\<rparr>;
                     publish = (\<lambda>s1. case publish_version yaml now pub s1 of
                                  Inr (s2, v) \<Rightarrow> (s2, None)
                                | Inl (ErrVersionAlreadyExists v) \<Rightarrow> (s1, None)
                                | Inl e \<Rightarrow> (s1, Some e))
                 in case create_workflow now now parent s of
                      Inr (s1, rw) \<Rightarrow> publish s1
                    | Inl (ErrWorkflowAlreadyExists i) \<Rightarrow> publish s
                    | Inl e \<Rightarrow> (s, Some e)))"

section \<open>Operations as steps\<close>

datatype reg_op =
    OpCreate gotime gotime create_request
  | OpPublish gotime publish_request
  | OpSeed gotime "string option" string string string

fun reg_step :: "(string \<Rightarrow> string + workflow) \<Rightarrow> reg_op \<Rightarrow> registry \<Rightarrow> registry" where
  "reg_step yaml (OpCreate t1 t2 req) s = (case create_workflow t1 t2 req s of Inr (s', w) \<Rightarrow> s' | Inl e \<Rightarrow> s)"
| "reg_step yaml (OpPublish t req) s = (case publish_version yaml t req s of Inr (s', v) \<Rightarrow> s' | Inl e \<Rightarrow> s)"
| "reg_step yaml (OpSeed t raw tn ws a) s = fst (seed_one yaml t raw tn ws a s)"

text \<open>The version under an identifier and a version string.\<close>

definition reg_lookup :: "registry \<Rightarrow> string \<Rightarrow> string \<Rightarrow> reg_version option" where
  "reg_lookup s wid version = Option.bind (map_of (rg_versions s) wid) (\<lambda>vs. map_of vs version)"

section \<open>The invariant\<close>

definition version_ok :: "string \<Rightarrow> string \<Rightarrow> reg_version \<Rightarrow> bool" where
  "version_ok wid ver v \<longleftrightarrow>
     ve_workflow_id v = wid \<and> ve_version v = ver \<and> ve_state v = LifecyclePublished
     \<and> schema_validate (Some (ve_ast v)) = None \<and> lint_clean (ve_ast v)"

definition reg_inv :: "registry \<Rightarrow> bool" where
  "reg_inv s \<longleftrightarrow>
     (\<forall>wid ver v. reg_lookup s wid ver = Some v \<longrightarrow> version_ok wid ver v)
     \<and> (\<forall>wid. (map_of (rg_versions s) wid = None) = (map_of (rg_workflows s) wid = None))
     \<and> (\<forall>wid w. map_of (rg_workflows s) wid = Some w \<longrightarrow>
          rw_id w = wid \<and> (rw_latest w = [] \<or> reg_lookup s wid (rw_latest w) \<noteq> None))"

definition reg_below :: "registry \<Rightarrow> registry \<Rightarrow> bool" where
  "reg_below s t \<longleftrightarrow>
     (\<forall>wid ver v. reg_lookup s wid ver = Some v \<longrightarrow> reg_lookup t wid ver = Some v)"

lemma all_steps_metadata [simp]: "all_steps (w\<lparr>wf_metadata := m\<rparr>) = all_steps w"
  by (simp add: all_steps_def)

lemma lint_metadata [simp]: "lint (Some (w\<lparr>wf_metadata := m\<rparr>)) = lint (Some w)"
proof -
  have "dep_graph (w\<lparr>wf_metadata := m\<rparr>) = dep_graph w"
    by (rule ext) (simp add: dep_graph_def)
  moreover have "scan_inputs f (w\<lparr>wf_metadata := m\<rparr>) = scan_inputs f w" for f
    by (simp add: scan_inputs_def)
  ultimately show ?thesis
    by (simp add: lint_def check_duplicate_ids_def check_dangling_deps_def check_cycles_def
        cycle_fuel_def graph_ids_def check_unreachable_def succ_edges_def roots_def check_refs_def
        check_step_shape_def check_type_wiring_def check_targets_def check_deprecated_step_kinds_def
        check_triggers_def check_llm_steps_def)
qed

lemma semver_string_nonempty [simp]: "semver_string v \<noteq> []"
  by (simp add: semver_string_def)

lemma schema_version:
  "schema_validate (Some w) = None \<Longrightarrow> v \<noteq> [] \<Longrightarrow>
     schema_validate (Some (w\<lparr>wf_metadata := (wf_metadata w)\<lparr>md_version := v\<rparr>\<rparr>)) = None"
  by (auto simp: schema_validate_def Let_def split: if_split_asm)

lemma publish_check_ok:
  "publish_check yaml doc = Inr (w, v) \<Longrightarrow>
     schema_validate (Some w) = None \<and> lint_clean w \<and> parse_semver (md_version (wf_metadata w)) = Some v
     \<and> dsl_parse yaml doc = Inr w"
  by (auto simp: publish_check_def lint_clean_def split: sum.splits option.splits if_splits)

lemma publish_decide_ok:
  assumes "publish_decide auto latest vs w requested = Inr (final, w', diff)"
  shows "\<not> is_published vs final"
    "w' = w \<or> w' = w\<lparr>wf_metadata := (wf_metadata w)\<lparr>md_version := semver_string final\<rparr>\<rparr>"
    "diff = (if latest \<noteq> [] then map_option (\<lambda>p. diff_workflows (Some (ve_ast p)) (Some w)) (map_of vs latest)
             else None)"
    "case diff of
       None \<Rightarrow> final = requested
     | Some d \<Rightarrow> semver_compare (min_next_version (semver_or_zero latest) (dr_bump d)) final \<le> 0
         \<and> (auto \<longrightarrow> final = min_next_version (semver_or_zero latest) (dr_bump d))
         \<and> (\<not> auto \<longrightarrow> final = requested)"
proof -
  define prev where "prev = (if latest \<noteq> [] then map_of vs latest else None)"
  define d0 where "d0 = map_option (\<lambda>p. diff_workflows (Some (ve_ast p)) (Some w)) prev"
  define least where "least = (\<lambda>d :: diff_result. min_next_version (semver_or_zero latest) (dr_bump d))"
  define w2 where "w2 = (\<lambda>v. w\<lparr>wf_metadata := (wf_metadata w)\<lparr>md_version := semver_string v\<rparr>\<rparr>)"
  have main: "\<not> is_published vs final \<and> (w' = w \<or> w' = w2 final) \<and> diff = d0
      \<and> (case d0 of None \<Rightarrow> final = requested
         | Some d \<Rightarrow> semver_compare final (least d) \<ge> 0
             \<and> (auto \<longrightarrow> final = least d) \<and> (\<not> auto \<longrightarrow> final = requested))"
    using assms unfolding publish_decide_def prev_def [symmetric] Let_def d0_def [symmetric]
      w2_def [symmetric] least_def [symmetric]
    by (cases d0; cases auto) (auto simp: sv_cmp.cmp_refl w2_def least_def split: if_split_asm)
  then show "\<not> is_published vs final" by blast
  from main show "w' = w \<or> w' = w\<lparr>wf_metadata := (wf_metadata w)\<lparr>md_version := semver_string final\<rparr>\<rparr>"
    by (simp add: w2_def)
  from main show "diff = (if latest \<noteq> [] then map_option (\<lambda>p. diff_workflows (Some (ve_ast p)) (Some w)) (map_of vs latest)
             else None)"
    by (simp add: d0_def prev_def)
  have "semver_compare final v \<ge> 0 \<longleftrightarrow> semver_compare v final \<le> 0" for v
    using semver_compare_antisym [of v final] by linarith
  with main show "case diff of
       None \<Rightarrow> final = requested
     | Some d \<Rightarrow> semver_compare (min_next_version (semver_or_zero latest) (dr_bump d)) final \<le> 0
         \<and> (auto \<longrightarrow> final = min_next_version (semver_or_zero latest) (dr_bump d))
         \<and> (\<not> auto \<longrightarrow> final = requested)"
    unfolding least_def by (cases d0) simp_all
qed

lemma lookup_store:
  "reg_lookup (store_version v s) wid ver =
     (if wid = ve_workflow_id v \<and> ver = ve_version v then Some v else reg_lookup s wid ver)"
  by (auto simp: reg_lookup_def store_version_def Let_def AList.update_conv' bind_eq_None_conv
      split: option.splits)

interpretation versions: keyed_store "\<lambda>s k. reg_lookup s (fst k) (snd k)" store_version
    "\<lambda>v. (ve_workflow_id v, ve_version v)"
  by unfold_locales (auto simp: lookup_store)

lemma lookup_frame [frame_simps]:
  "reg_lookup (s\<lparr>rg_workflows := x\<rparr>) = reg_lookup s"
  "reg_lookup (s\<lparr>rg_events := y\<rparr>) = reg_lookup s"
  by (rule ext, rule ext, simp add: reg_lookup_def)+

lemma publish_versionE:
  assumes "publish_version yaml now req s = Inr (s', v)"
  obtains w requested rw vs final w' diff rw' evs where
    "publish_check yaml (pr_workflow_yaml req) = Inr (w, requested)"
    "map_of (rg_workflows s) (pr_workflow_id req) = Some rw"
    "vs = (case map_of (rg_versions s) (pr_workflow_id req) of Some vs \<Rightarrow> vs | None \<Rightarrow> [])"
    "publish_decide (pr_auto_bump req) (rw_latest rw) vs w requested = Inr (final, w', diff)"
    "ve_workflow_id v = pr_workflow_id req" "ve_version v = semver_string final" "ve_ast v = w'"
    "ve_state v = LifecyclePublished" "ve_diff_prev v = diff"
    "rw' = rw\<lparr>rw_latest := ve_version v, rw_updated_at := now\<rparr>"
    "s' = (store_version v s)\<lparr>rg_workflows := AList.update (pr_workflow_id req) rw' (rg_workflows s),
            rg_events := evs\<rparr>"
  using assms unfolding publish_version_def Let_def
  by (auto split: sum.splits option.splits prod.splits)

lemma lookup_case:
  "reg_lookup s wid ver =
     map_of (case map_of (rg_versions s) wid of Some vs \<Rightarrow> vs | None \<Rightarrow> []) ver"
  by (simp add: reg_lookup_def split: option.split)

lemma publish_lookup:
  assumes "publish_version yaml now req s = Inr (s', v)"
  shows "reg_lookup s' wid ver =
    (if wid = ve_workflow_id v \<and> ver = ve_version v then Some v else reg_lookup s wid ver)"
  using assms by (rule publish_versionE) (simp add: lookup_frame lookup_store)

lemma publish_fresh:
  assumes "reg_inv s" "publish_version yaml now req s = Inr (s', v)"
  shows "reg_lookup s (ve_workflow_id v) (ve_version v) = None"
  using assms(2)
proof (rule publish_versionE)
  fix w requested rw vs final w' diff rw' evs
  assume vs: "vs = (case map_of (rg_versions s) (pr_workflow_id req) of Some vs \<Rightarrow> vs | None \<Rightarrow> [])"
    and d: "publish_decide (pr_auto_bump req) (rw_latest rw) vs w requested = Inr (final, w', diff)"
    and v: "ve_workflow_id v = pr_workflow_id req" "ve_version v = semver_string final"
  have "\<not> is_published vs final" by (rule publish_decide_ok(1) [OF d])
  then have "\<not> (\<exists>x. reg_lookup s (ve_workflow_id v) (ve_version v) = Some x \<and> ve_state x = LifecyclePublished)"
    by (auto simp: is_published_def v lookup_case vs)
  with assms(1) show ?thesis by (auto simp: reg_inv_def version_ok_def)
qed

lemma publish_inv:
  assumes inv: "reg_inv s" and pub: "publish_version yaml now req s = Inr (s', v)"
  shows "reg_inv s'"
  using pub
proof (rule publish_versionE)
  fix w requested rw vs final w' diff rw' evs
  assume c: "publish_check yaml (pr_workflow_yaml req) = Inr (w, requested)"
    and rw: "map_of (rg_workflows s) (pr_workflow_id req) = Some rw"
    and d: "publish_decide (pr_auto_bump req) (rw_latest rw) vs w requested = Inr (final, w', diff)"
    and v: "ve_workflow_id v = pr_workflow_id req" "ve_version v = semver_string final" "ve_ast v = w'"
      "ve_state v = LifecyclePublished"
    and rw': "rw' = rw\<lparr>rw_latest := ve_version v, rw_updated_at := now\<rparr>"
    and s': "s' = (store_version v s)\<lparr>rg_workflows := AList.update (pr_workflow_id req) rw' (rg_workflows s),
            rg_events := evs\<rparr>"
  have "schema_validate (Some w') = None" "lint_clean w'"
    using publish_check_ok [OF c] publish_decide_ok(2) [OF d]
    by (auto intro: schema_version simp: lint_clean_def)
  then have "version_ok (ve_workflow_id v) (ve_version v) v" by (simp add: version_ok_def v)
  then have ok: "\<forall>wid ver x. reg_lookup s' wid ver = Some x \<longrightarrow> version_ok wid ver x"
    using inv by (simp add: publish_lookup [OF pub] reg_inv_def)
  have dom: "(map_of (rg_versions s') wid = None) = (map_of (rg_workflows s') wid = None)" for wid
    using inv by (simp add: s' store_version_def Let_def AList.update_conv' v reg_inv_def)
  have "rw_id w = wid \<and> (rw_latest w = [] \<or> reg_lookup s' wid (rw_latest w) \<noteq> None)"
    if "map_of (rg_workflows s') wid = Some w" for wid w
  proof (cases "wid = pr_workflow_id req")
    case True
    then have "w = rw'" using that by (simp add: s' AList.update_conv')
    then show ?thesis using inv rw True
      by (auto simp: rw' v publish_lookup [OF pub] reg_inv_def)
  next
    case False
    then have "map_of (rg_workflows s) wid = Some w" using that by (simp add: s' AList.update_conv')
    then have "rw_id w = wid \<and> (rw_latest w = [] \<or> reg_lookup s wid (rw_latest w) \<noteq> None)"
      using inv by (auto simp: reg_inv_def)
    then show ?thesis by (simp add: publish_lookup [OF pub])
  qed
  with ok dom show ?thesis unfolding reg_inv_def by blast
qed

lemma create_effect:
  assumes "create_workflow t1 t2 req s = Inr (s', w)"
  shows "map_of (rg_workflows s) (cr_id req) = None"
    "rg_workflows s' = AList.update (cr_id req) w (rg_workflows s)"
    "rg_versions s' = AList.update (cr_id req) [] (rg_versions s)"
    "rw_id w = cr_id req" "rw_latest w = []"
  using assms by (auto simp: create_workflow_def Let_def split: if_split_asm)

lemma create_lookup:
  assumes "reg_inv s" "create_workflow t1 t2 req s = Inr (s', w)"
  shows "reg_lookup s' = reg_lookup s"
proof (rule ext, rule ext)
  fix wid ver
  have "map_of (rg_versions s) (cr_id req) = None"
    using assms create_effect(1) [OF assms(2)] by (simp add: reg_inv_def)
  then show "reg_lookup s' wid ver = reg_lookup s wid ver"
    by (simp add: reg_lookup_def create_effect(3) [OF assms(2)] AList.update_conv')
qed

lemma create_inv:
  assumes inv: "reg_inv s" and cr: "create_workflow t1 t2 req s = Inr (s', w)"
  shows "reg_inv s'"
proof -
  note e = create_effect [OF cr]
  have "rw_id x = wid \<and> (rw_latest x = [] \<or> reg_lookup s' wid (rw_latest x) \<noteq> None)"
    if "map_of (rg_workflows s') wid = Some x" for wid x
  proof (cases "wid = cr_id req")
    case True
    then have "x = w" using that by (simp add: e(2) AList.update_conv')
    with True e(4,5) show ?thesis by simp
  next
    case False
    then have "map_of (rg_workflows s) wid = Some x" using that by (simp add: e(2) AList.update_conv')
    with inv show ?thesis unfolding create_lookup [OF inv cr] reg_inv_def by blast
  qed
  then show ?thesis
    using inv unfolding reg_inv_def create_lookup [OF inv cr] by (auto simp: e AList.update_conv')
qed

lemma seed_cases:
  assumes "seed_one yaml now raw tn ws a s = (s', e)"
  obtains "s' = s" "e \<noteq> None"
  | t1 t2 req w pub s1 where "create_workflow t1 t2 req s = Inr (s1, w) \<or> s1 = s"
      "s' = s1 \<or> (\<exists>v. publish_version yaml now pub s1 = Inr (s', v))"
proof -
  from assms show thesis
    unfolding seed_one_def Let_def
    by (cases raw) (auto intro: that split: sum.split_asm if_split_asm prod.split_asm reg_error.split_asm)
qed

lemma publish_below:
  assumes "reg_inv s" "publish_version yaml now req s = Inr (s', v)"
  shows "reg_below s s'"
  using publish_fresh [OF assms] by (auto simp: reg_below_def publish_lookup [OF assms(2)])

lemma create_below:
  assumes "reg_inv s" "create_workflow t1 t2 req s = Inr (s', w)"
  shows "reg_below s s'"
  by (simp add: reg_below_def create_lookup [OF assms])

lemma reg_below_refl: "reg_below s s"
  by (simp add: reg_below_def)

lemma reg_below_trans: "reg_below s t \<Longrightarrow> reg_below t u \<Longrightarrow> reg_below s u"
  by (simp add: reg_below_def)

lemma seed_inv_below:
  assumes inv: "reg_inv s" and seed: "seed_one yaml now raw tn ws a s = (s', e)"
  shows "reg_inv s' \<and> reg_below s s'"
  using seed
proof (cases rule: seed_cases)
  case 1
  with inv show ?thesis by (simp add: reg_below_refl)
next
  case (2 t1 t2 req w pub s1)
  have s1: "reg_inv s1 \<and> reg_below s s1"
    using 2(1) inv create_inv create_below reg_below_refl by blast
  with 2(2) publish_inv publish_below reg_below_trans show ?thesis by blast
qed

lemma reg_step_inv_below:
  assumes inv: "reg_inv s"
  shows "reg_inv (reg_step yaml op s) \<and> reg_below s (reg_step yaml op s)"
proof (cases op)
  case (OpCreate t1 t2 req)
  then show ?thesis using inv create_inv create_below reg_below_refl
    by (auto split: sum.splits prod.splits)
next
  case (OpPublish t req)
  then show ?thesis using inv publish_inv publish_below reg_below_refl
    by (auto split: sum.splits prod.splits)
next
  case (OpSeed t raw tn ws a)
  obtain s' e where "seed_one yaml t raw tn ws a s = (s', e)" by fastforce
  with seed_inv_below [OF inv this] OpSeed show ?thesis by simp
qed

interpretation registry: monotone_machine "reg_step yaml" reg_inv reg_below for yaml
  by unfold_locales
    (use reg_step_inv_below in \<open>auto intro: reg_below_refl reg_below_trans\<close>)

lemma new_service_inv: "reg_inv new_service"
  by (simp add: reg_inv_def reg_lookup_def new_service_def)

section \<open>Publishing twice\<close>

abbreviation versions_of :: "registry \<Rightarrow> string \<Rightarrow> (string \<times> reg_version) list" where
  "versions_of s wid \<equiv> (case map_of (rg_versions s) wid of Some vs \<Rightarrow> vs | None \<Rightarrow> [])"

lemma decide_published:
  "is_published vs r \<Longrightarrow> publish_decide False latest vs w r = Inl (ErrVersionAlreadyExists r)"
  by (simp add: publish_decide_def Let_def)

lemma decide_existsD:
  "publish_decide False latest vs w r = Inl (ErrVersionAlreadyExists x) \<Longrightarrow> is_published vs r"
  by (auto simp: publish_decide_def Let_def split: if_split_asm option.split_asm sum.split_asm)

lemma publish_existsD:
  assumes "publish_version yaml now req s = Inl (ErrVersionAlreadyExists x)" "\<not> pr_auto_bump req"
  shows "\<exists>w r rw. publish_check yaml (pr_workflow_yaml req) = Inr (w, r)
    \<and> map_of (rg_workflows s) (pr_workflow_id req) = Some rw
    \<and> is_published (versions_of s (pr_workflow_id req)) r"
proof -
  have c: "publish_check yaml doc \<noteq> Inl (ErrVersionAlreadyExists x)" for doc
    by (auto simp: publish_check_def split: sum.split option.split)
  show ?thesis using assms c unfolding publish_version_def Let_def
    by (auto dest: decide_existsD split: sum.split_asm option.split_asm prod.split_asm)
qed

lemma publish_okD:
  assumes "publish_version yaml now req s = Inr (s', v)" "\<not> pr_auto_bump req"
  shows "\<exists>w r rw. publish_check yaml (pr_workflow_yaml req) = Inr (w, r)
    \<and> map_of (rg_workflows s') (pr_workflow_id req) = Some rw
    \<and> is_published (versions_of s' (pr_workflow_id req)) r"
  using assms(1)
proof (rule publish_versionE)
  fix w requested rw vs final w' diff rw' evs
  assume c: "publish_check yaml (pr_workflow_yaml req) = Inr (w, requested)"
    and d: "publish_decide (pr_auto_bump req) (rw_latest rw) vs w requested = Inr (final, w', diff)"
    and v: "ve_workflow_id v = pr_workflow_id req" "ve_version v = semver_string final"
      "ve_state v = LifecyclePublished"
    and s': "s' = (store_version v s)\<lparr>rg_workflows := AList.update (pr_workflow_id req) rw' (rg_workflows s),
            rg_events := evs\<rparr>"
  have "final = requested"
    using publish_decide_ok(4) [OF d] assms(2) by (simp split: option.splits)
  then have "reg_lookup s' (pr_workflow_id req) (semver_string requested) = Some v"
    by (simp add: publish_lookup [OF assms(1)] v)
  then have "is_published (versions_of s' (pr_workflow_id req)) requested"
    by (simp add: is_published_def lookup_case v)
  with c show ?thesis by (simp add: s' AList.update_conv')
qed

lemma publish_again:
  assumes "publish_check yaml (pr_workflow_yaml req) = Inr (w, r)"
    "map_of (rg_workflows s) (pr_workflow_id req) = Some rw"
    "is_published (versions_of s (pr_workflow_id req)) r" "\<not> pr_auto_bump req"
  shows "publish_version yaml now req s = Inl (ErrVersionAlreadyExists r)"
  using assms by (simp add: publish_version_def Let_def decide_published)

lemma create_again:
  assumes "cr_id req \<noteq> []" "cr_name req \<noteq> []" "map_of (rg_workflows s) (cr_id req) = Some w"
  shows "create_workflow t1 t2 req s = Inl (ErrWorkflowAlreadyExists (cr_id req))"
  using assms by (simp add: create_workflow_def Let_def)

lemma create_unnamed:
  "cr_name req = [] \<Longrightarrow>
     create_workflow t1 t2 req s = Inl (if cr_id req = [] then ErrIdRequired else ErrNameRequired)"
  by (simp add: create_workflow_def)

lemma seed_okD:
  assumes "seed_one yaml now raw tn ws a s = (s', None)"
  obtains doc w w' r rw where "raw = Some doc" "dsl_parse yaml doc = Inr w" "md_id (wf_metadata w) \<noteq> []"
    "md_name (wf_metadata w) \<noteq> []" "publish_check yaml doc = Inr (w', r)"
    "map_of (rg_workflows s') (md_id (wf_metadata w)) = Some rw"
    "is_published (versions_of s' (md_id (wf_metadata w))) r"
proof -
  obtain doc w where doc: "raw = Some doc" "dsl_parse yaml doc = Inr w" "md_id (wf_metadata w) \<noteq> []"
    using assms by (cases raw) (auto simp: seed_one_def Let_def split: sum.split_asm if_split_asm)
  let ?pub = "\<lparr>pr_tenant_id = tn, pr_workflow_id = md_id (wf_metadata w), pr_workflow_yaml = doc,
                pr_actor = a, pr_auto_bump = False\<rparr>"
  have name: "md_name (wf_metadata w) \<noteq> []"
    using assms doc by (auto simp: seed_one_def Let_def create_unnamed)
  have "\<exists>s1. (\<exists>v. publish_version yaml now ?pub s1 = Inr (s', v))
        \<or> (\<exists>v. publish_version yaml now ?pub s1 = Inl (ErrVersionAlreadyExists v) \<and> s1 = s')"
    using assms doc unfolding seed_one_def Let_def
    by (auto split: sum.split_asm prod.split_asm reg_error.split_asm)
  then obtain s1 where p: "(\<exists>v. publish_version yaml now ?pub s1 = Inr (s', v))
        \<or> (\<exists>v. publish_version yaml now ?pub s1 = Inl (ErrVersionAlreadyExists v) \<and> s1 = s')"
    by blast
  have "\<exists>w' r rw. publish_check yaml doc = Inr (w', r)
      \<and> map_of (rg_workflows s') (md_id (wf_metadata w)) = Some rw
      \<and> is_published (versions_of s' (md_id (wf_metadata w))) r"
    using p publish_okD [of yaml now ?pub s1 s'] publish_existsD [of yaml now ?pub s'] by auto
  with doc name that show thesis by blast
qed

section \<open>Properties\<close>

text \<open>C3: Versions are immutable: once a version of a workflow is in the registry, it stays there,
  unchanged, whatever sequence of creations, publications and seeds follows.\<close>

theorem published_versions_immutable:
  assumes "reg_lookup (fold (reg_step yaml) ops new_service) wid ver = Some v"
  shows "reg_lookup (fold (reg_step yaml) (ops @ ops') new_service) wid ver = Some v"
proof -
  have "reg_inv (fold (reg_step yaml) ops new_service)"
    by (rule registry.run_inv [OF new_service_inv])
  from registry.run_below [OF this, of yaml ops'] assms show ?thesis by (simp add: reg_below_def)
qed

text \<open>C13: Everything the registry ever serves is valid: in every reachable state a stored version is
  filed under its own workflow and version, is published, passes schema validation and lints
  without errors, and the latest version of every workflow is stored.\<close>

theorem registry_serves_valid_versions:
  "reg_inv (fold (reg_step yaml) ops new_service)"
  by (rule registry.run_inv [OF new_service_inv])

text \<open>C11: A publication obeys semantic versioning: with a stored latest version, the new version is at
  least the smallest next version for the difference between the two documents, is exactly that
  version under automatic bumping, and is the requested one otherwise, so it is strictly above the
  latest version unless the bumped number is the largest 64-bit integer; it becomes the latest
  version, is stored where no version was, and no other stored version changes.\<close>

theorem publish_enforces_semver:
  assumes "reg_inv s" "publish_version yaml now req s = Inr (s', v)"
    "map_of (rg_workflows s) (pr_workflow_id req) = Some rw"
    "reg_lookup s (pr_workflow_id req) (rw_latest rw) = Some prev" "rw_latest rw \<noteq> []"
    "dsl_parse yaml (pr_workflow_yaml req) = Inr w"
  shows "(\<exists>final. ve_version v = semver_string final
      \<and> (let least = min_next_version (semver_or_zero (rw_latest rw))
                       (dr_bump (diff_workflows (Some (ve_ast prev)) (Some w)))
         in semver_compare least final \<le> 0
            \<and> (if pr_auto_bump req then final = least
               else parse_semver (md_version (wf_metadata w)) = Some final)
            \<and> (\<forall>p. parse_semver (rw_latest rw) = Some p
                 \<longrightarrow> bump_room p (dr_bump (diff_workflows (Some (ve_ast prev)) (Some w)))
                 \<longrightarrow> semver_compare p final < 0)))
    \<and> map_option rw_latest (map_of (rg_workflows s') (pr_workflow_id req)) = Some (ve_version v)
    \<and> reg_lookup s (pr_workflow_id req) (ve_version v) = None
    \<and> (\<forall>wid ver. reg_lookup s' wid ver =
         (if wid = pr_workflow_id req \<and> ver = ve_version v then Some v else reg_lookup s wid ver))"
  using assms(2)
proof (rule publish_versionE)
  fix w0 requested rw0 vs final w' diff rw' evs
  assume c: "publish_check yaml (pr_workflow_yaml req) = Inr (w0, requested)"
    and rw: "map_of (rg_workflows s) (pr_workflow_id req) = Some rw0"
    and vs: "vs = (case map_of (rg_versions s) (pr_workflow_id req) of Some vs \<Rightarrow> vs | None \<Rightarrow> [])"
    and d: "publish_decide (pr_auto_bump req) (rw_latest rw0) vs w0 requested = Inr (final, w', diff)"
    and v: "ve_workflow_id v = pr_workflow_id req" "ve_version v = semver_string final"
    and rw': "rw' = rw0\<lparr>rw_latest := ve_version v, rw_updated_at := now\<rparr>"
    and s': "s' = (store_version v s)\<lparr>rg_workflows := AList.update (pr_workflow_id req) rw' (rg_workflows s),
            rg_events := evs\<rparr>"
  have eqs: "rw0 = rw" "w0 = w" using rw assms(3,6) publish_check_ok [OF c] by auto
  have "map_of vs (rw_latest rw) = Some prev" using assms(4) by (simp add: lookup_case vs)
  then have diff: "diff = Some (diff_workflows (Some (ve_ast prev)) (Some w))"
    using publish_decide_ok(3) [OF d] assms(5) by (simp add: eqs)
  have fin: "semver_compare (min_next_version (semver_or_zero (rw_latest rw))
      (dr_bump (diff_workflows (Some (ve_ast prev)) (Some w)))) final \<le> 0
    \<and> (if pr_auto_bump req then final = min_next_version (semver_or_zero (rw_latest rw))
         (dr_bump (diff_workflows (Some (ve_ast prev)) (Some w)))
       else parse_semver (md_version (wf_metadata w)) = Some final)"
    using publish_decide_ok(4) [OF d] publish_check_ok [OF c] by (simp add: diff eqs)
  have up: "semver_compare p final < 0"
    if "parse_semver (rw_latest rw) = Some p"
      "bump_room p (dr_bump (diff_workflows (Some (ve_ast prev)) (Some w)))" for p
  proof (rule sv_cmp.cmp_less_le_trans)
    show "semver_compare p (min_next_version p (dr_bump (diff_workflows (Some (ve_ast prev)) (Some w)))) < 0"
      using that by (intro min_next_greater parse_semver_ok)
    show "semver_compare (min_next_version p (dr_bump (diff_workflows (Some (ve_ast prev)) (Some w)))) final \<le> 0"
      using fin that(1) by (simp add: semver_or_zero_def)
  qed
  have "map_option rw_latest (map_of (rg_workflows s') (pr_workflow_id req)) = Some (ve_version v)"
    by (simp add: s' AList.update_conv' rw')
  moreover have "reg_lookup s (pr_workflow_id req) (ve_version v) = None"
    using publish_fresh [OF assms(1,2)] by (simp add: v)
  moreover have "\<forall>wid ver. reg_lookup s' wid ver =
      (if wid = pr_workflow_id req \<and> ver = ve_version v then Some v else reg_lookup s wid ver)"
    by (simp add: publish_lookup [OF assms(2)] v)
  ultimately show ?thesis
    unfolding Let_def using fin v(2) up by (intro conjI exI [of _ final]) blast+
qed

text \<open>Seeding is idempotent: a seed that succeeded can be repeated, by any actor and at any time, and
  succeeds again without touching the registry (nor emitting an event).\<close>

theorem seed_one_idempotent:
  assumes "seed_one yaml now raw tn ws a s = (s', None)"
  shows "seed_one yaml now' raw tn' ws' a' s' = (s', None)"
  using assms
proof (rule seed_okD)
  fix doc w w' r rw
  assume h: "raw = Some doc" "dsl_parse yaml doc = Inr w" "md_id (wf_metadata w) \<noteq> []"
    "md_name (wf_metadata w) \<noteq> []" "publish_check yaml doc = Inr (w', r)"
    "map_of (rg_workflows s') (md_id (wf_metadata w)) = Some rw"
    "is_published (versions_of s' (md_id (wf_metadata w))) r"
  then show ?thesis
    by (simp add: seed_one_def Let_def create_again publish_again)
qed

text \<open>A decoder that takes the document for the version of a fixed workflow.\<close>

definition demo_reg_yaml :: "string \<Rightarrow> string + workflow" where
  "demo_reg_yaml raw = Inr (demo_clean\<lparr>wf_metadata := zero_metadata\<lparr>md_id := ''wf'', md_name := ''W'',
     md_version := raw\<rparr>\<rparr>)"

definition demo_create :: create_request where
  "demo_create = \<lparr>cr_id = ''wf'', cr_tenant_id = ''t'', cr_workspace_id = ''ws'', cr_name = ''W'',
     cr_owners = [], cr_description = [], cr_tags = [], cr_visibility = []\<rparr>"

definition demo_publish :: "string \<Rightarrow> bool \<Rightarrow> publish_request" where
  "demo_publish doc auto = \<lparr>pr_tenant_id = ''t'', pr_workflow_id = ''wf'', pr_workflow_yaml = doc,
     pr_actor = ''u'', pr_auto_bump = auto\<rparr>"

definition demo_reg_ops :: "reg_op list" where
  "demo_reg_ops = [OpCreate 1 1 demo_create, OpPublish 2 (demo_publish ''1.0.0'' False)]"

theorem published_versions_immutable_witness:
  "reg_lookup (fold (reg_step demo_reg_yaml) (demo_reg_ops @ [OpPublish 3 (demo_publish ''1.0.0'' False)])
     new_service) ''wf'' ''1.0.0'' \<noteq> None"
proof -
  have "reg_lookup (fold (reg_step demo_reg_yaml) demo_reg_ops new_service) ''wf'' ''1.0.0'' \<noteq> None"
    by code_simp
  then obtain v where
    h: "reg_lookup (fold (reg_step demo_reg_yaml) demo_reg_ops new_service) ''wf'' ''1.0.0'' = Some v"
    by blast
  from published_versions_immutable [OF h] show ?thesis by (simp only: option.distinct not_False_eq_True)
qed

theorem seed_one_idempotent_witness:
  "snd (seed_one demo_reg_yaml 9 (Some ''1.0.0'') ''t'' ''ws'' ''u''
     (fst (seed_one demo_reg_yaml 1 (Some ''1.0.0'') ''t'' ''ws'' ''u'' new_service))) = None"
proof -
  have "snd (seed_one demo_reg_yaml 1 (Some ''1.0.0'') ''t'' ''ws'' ''u'' new_service) = None"
    by code_simp
  then obtain s' where
    h: "seed_one demo_reg_yaml 1 (Some ''1.0.0'') ''t'' ''ws'' ''u'' new_service = (s', None)"
    by (metis prod.collapse)
  from seed_one_idempotent [OF h] show ?thesis by (simp add: h)
qed

theorem publish_enforces_semver_witness:
  "\<exists>s' v. publish_version demo_reg_yaml 3 (demo_publish ''1.0.1'' True)
       (fold (reg_step demo_reg_yaml) demo_reg_ops new_service) = Inr (s', v)
     \<and> map_option rw_latest (map_of (rg_workflows s') ''wf'') = Some (ve_version v)"
proof -
  define s where "s = fold (reg_step demo_reg_yaml) demo_reg_ops new_service"
  let ?req = "demo_publish ''1.0.1'' True"
  have inv: "reg_inv s" unfolding s_def by (rule registry.run_inv [OF new_service_inv])
  have "case publish_version demo_reg_yaml 3 ?req s of Inr _ \<Rightarrow> True | Inl _ \<Rightarrow> False"
    unfolding s_def by code_simp
  then obtain s' v where pub: "publish_version demo_reg_yaml 3 ?req s = Inr (s', v)"
    by (auto split: sum.splits)
  have "map_option rw_latest (map_of (rg_workflows s) ''wf'') = Some ''1.0.0''"
    unfolding s_def by code_simp
  then obtain rw where rw: "map_of (rg_workflows s) (pr_workflow_id ?req) = Some rw"
    "rw_latest rw = ''1.0.0''"
    by (auto simp: demo_publish_def)
  have "reg_lookup s ''wf'' ''1.0.0'' \<noteq> None" unfolding s_def by code_simp
  then obtain prev where prev: "reg_lookup s (pr_workflow_id ?req) (rw_latest rw) = Some prev"
    by (auto simp: rw demo_publish_def)
  have "case dsl_parse demo_reg_yaml ''1.0.1'' of Inr _ \<Rightarrow> True | Inl _ \<Rightarrow> False" by code_simp
  then obtain w where w: "dsl_parse demo_reg_yaml (pr_workflow_yaml ?req) = Inr w"
    by (auto simp: demo_publish_def split: sum.splits)
  have ne: "rw_latest rw \<noteq> []" by (simp add: rw)
  have "map_option rw_latest (map_of (rg_workflows s') (pr_workflow_id ?req)) = Some (ve_version v)"
    using publish_enforces_semver [OF inv pub rw(1) prev ne w] by blast
  with pub show ?thesis by (auto simp: s_def demo_publish_def)
qed

end
