(* ===== verification/Workflow_Concurrency.thy ===== *)
theory Workflow_Concurrency
  imports Workflow_AST
begin

text \<open>
  Per-trigger concurrency, \<open>services/workflow-runtime/internal/runtime/concurrency.go\<close>: the tracker's
  \<open>Acquire\<close> and \<open>Release\<close> as functions on the holder counts, and the executions that compete for a
  lane as a step relation. An \<open>Acquire\<close> under the queue policy that finds the lane busy waits on the
  condition variable: the result \<open>Blocked\<close> leaves the counts alone, and the waiter tries again
  after a wake-up. A count missing from the Go map is 0.
\<close>

section \<open>The tracker\<close>

record lane =
  ck_workflow_id :: string
  ck_trigger_id :: string

type_synonym holders = "lane \<Rightarrow> nat"

definition new_concurrency_tracker :: holders where
  "new_concurrency_tracker = (\<lambda>_. 0)"

datatype acquire_result = Acquired holders | ErrDropConcurrency | Blocked

definition acquire :: "lane \<Rightarrow> trigger_concurrency \<Rightarrow> holders \<Rightarrow> acquire_result" where
  "acquire key policy h =
     (case policy of
        TriggerConcurrencyOverlap \<Rightarrow> Acquired (h(key := h key + 1))
      | TriggerConcurrencyDrop \<Rightarrow>
          if h key > 0 then ErrDropConcurrency else Acquired (h(key := h key + 1))
      | TriggerConcurrencyQueue \<Rightarrow>
          if h key > 0 then Blocked else Acquired (h(key := h key + 1))
      | TriggerConcurrencyOther _ \<Rightarrow> Acquired (h(key := h key + 1)))"

definition release :: "lane \<Rightarrow> holders \<Rightarrow> holders" where
  "release key h = (if h key > 0 then h(key := h key - 1) else h)"

definition in_flight :: "lane \<Rightarrow> holders \<Rightarrow> nat" where
  "in_flight key h = h key"

definition lookup_trigger_policy :: "workflow option \<Rightarrow> string \<Rightarrow> trigger_concurrency" where
  "lookup_trigger_policy wopt tid =
     (case wopt of
        None \<Rightarrow> TriggerConcurrencyQueue
      | Some w \<Rightarrow>
          (case List.find (\<lambda>t. tr_id t = tid) (sp_triggers (wf_spec w)) of
             Some t \<Rightarrow> concurrency_or_default t
           | None \<Rightarrow> TriggerConcurrencyQueue))"

section \<open>Executions competing for lanes\<close>

text \<open>Each execution runs or waits in its lane, under the policy it arrived with.\<close>

record lanes =
  ls_holders :: holders
  ls_running :: "(nat \<times> lane \<times> trigger_concurrency) list"
  ls_waiting :: "(nat \<times> lane) list"

definition lanes_init :: lanes where
  "lanes_init = \<lparr>ls_holders = new_concurrency_tracker, ls_running = [], ls_waiting = []\<rparr>"

inductive lane_step :: "lanes \<Rightarrow> lanes \<Rightarrow> bool" where
  start: "acquire k p (ls_holders s) = Acquired h \<Longrightarrow>
    lane_step s (s\<lparr>ls_holders := h, ls_running := (x, k, p) # ls_running s\<rparr>)"
| dropped: "acquire k p (ls_holders s) = ErrDropConcurrency \<Longrightarrow> lane_step s s"
| queued: "acquire k p (ls_holders s) = Blocked \<Longrightarrow>
    lane_step s (s\<lparr>ls_waiting := ls_waiting s @ [(x, k)]\<rparr>)"
| woken: "(x, k) \<in> set (ls_waiting s) \<Longrightarrow>
    acquire k TriggerConcurrencyQueue (ls_holders s) = Acquired h \<Longrightarrow>
    lane_step s (s\<lparr>ls_holders := h, ls_running := (x, k, TriggerConcurrencyQueue) # ls_running s,
                  ls_waiting := remove1 (x, k) (ls_waiting s)\<rparr>)"
| finished: "(x, k, p) \<in> set (ls_running s) \<Longrightarrow>
    lane_step s (s\<lparr>ls_holders := release k (ls_holders s),
                  ls_running := remove1 (x, k, p) (ls_running s)\<rparr>)"

inductive_cases lane_stepE: "lane_step s t"

definition running_in ::
  "lane \<Rightarrow> (nat \<times> lane \<times> trigger_concurrency) list \<Rightarrow> (nat \<times> lane \<times> trigger_concurrency) list" where
  "running_in k rs = filter (\<lambda>r. fst (snd r) = k) rs"

definition exclusive :: "trigger_concurrency \<Rightarrow> bool" where
  "exclusive p \<longleftrightarrow> p = TriggerConcurrencyQueue \<or> p = TriggerConcurrencyDrop"

text \<open>
  The counts are the executions in flight; executions that queue or drop came to an idle lane, so
  in a lane they are apart from the executions that overlap; whoever waits found the lane busy,
  or has been left to run.
\<close>

definition lanes_inv :: "lanes \<Rightarrow> bool" where
  "lanes_inv s \<longleftrightarrow>
     (\<forall>k. ls_holders s k = length (running_in k (ls_running s)))
     \<and> (\<forall>k. length (filter (\<lambda>r. exclusive (snd (snd r))) (running_in k (ls_running s))) \<le> 1)"

lemma acquire_cases:
  assumes "acquire k p h = Acquired h'"
  shows "h' = h(k := h k + 1)" "exclusive p \<Longrightarrow> h k = 0"
  using assms by (auto simp: acquire_def exclusive_def split: trigger_concurrency.splits if_splits)

lemma length_filter_remove1:
  "r \<in> set xs \<Longrightarrow> length (filter P (remove1 r xs)) = length (filter P xs) - (if P r then 1 else 0)"
  by (auto simp: filter_remove1 length_remove1 remove1_idem)

lemma running_in_Cons [simp]:
  "running_in j ((x, k, p) # rs) = (if j = k then [(x, k, p)] else []) @ running_in j rs"
  by (simp add: running_in_def)

lemma running_in_remove1 [simp]:
  "running_in j (remove1 (x, k, p) rs)
     = (if j = k then remove1 (x, k, p) (running_in k rs) else running_in j rs)"
  by (auto simp: running_in_def filter_remove1 intro!: remove1_idem)

lemma lanes_inv_start:
  assumes "lanes_inv s" "acquire k p (ls_holders s) = Acquired h"
  shows "lanes_inv (s\<lparr>ls_holders := h, ls_running := (x, k, p) # ls_running s, ls_waiting := w\<rparr>)"
proof -
  note a = acquire_cases [OF assms(2)]
  have "running_in k (ls_running s) = []" if "exclusive p"
    using a(2) [OF that] assms(1) by (simp add: lanes_inv_def)
  then show ?thesis using assms(1) unfolding a(1) by (auto simp: lanes_inv_def)
qed

lemma lanes_inv_finish:
  assumes "lanes_inv s" "(x, k, p) \<in> set (ls_running s)"
  shows "lanes_inv (s\<lparr>ls_holders := release k (ls_holders s), ls_running := remove1 (x, k, p) (ls_running s)\<rparr>)"
proof -
  let ?r = "(x, k, p)"
  have m: "?r \<in> set (running_in k (ls_running s))" using assms(2) by (simp add: running_in_def)
  then have "length (remove1 ?r (running_in k (ls_running s))) = length (running_in k (ls_running s)) - 1"
    "length (running_in k (ls_running s)) > 0"
    by (auto simp: length_remove1 length_pos_if_in_set)
  moreover have "length (filter (\<lambda>r. exclusive (snd (snd r))) (remove1 ?r (running_in k (ls_running s)))) \<le> 1"
  proof -
    have "length (filter (\<lambda>r. exclusive (snd (snd r))) (running_in k (ls_running s))) \<le> 1"
      using assms(1) unfolding lanes_inv_def by blast
    then show ?thesis by (simp add: length_filter_remove1 [OF m])
  qed
  ultimately show ?thesis
    using assms(1) by (auto simp: lanes_inv_def release_def)
qed

lemma lane_step_inv: "lane_step s t \<Longrightarrow> lanes_inv s \<Longrightarrow> lanes_inv t"
proof (induction rule: lane_step.induct)
  case (start k p s h i)
  then show ?case using lanes_inv_start [of s k p h, where x = i and w = "ls_waiting s"] by simp
next
  case (queued k p s x)
  then show ?case by (simp add: lanes_inv_def running_in_def)
next
  case (woken x k s h)
  then show ?case by (intro lanes_inv_start)
qed (auto intro: lanes_inv_finish)

lemma lanes_reachable_inv: "lane_step\<^sup>*\<^sup>* lanes_init s \<Longrightarrow> lanes_inv s"
proof (induction rule: rtranclp_induct)
  case base
  show ?case by (simp add: lanes_inv_def lanes_init_def running_in_def new_concurrency_tracker_def)
qed (rule lane_step_inv)

section \<open>Properties\<close>

text \<open>C15: In every reachable state the tracker's count for a lane is the number of executions in flight
  there, so \<open>Release\<close> never finds the count at zero; and of the executions running in a lane at
  most one came in under the queue or drop policy: they exclude one another.\<close>

theorem lane_exclusive:
  assumes "lane_step\<^sup>*\<^sup>* lanes_init s"
  shows "in_flight k (ls_holders s) = length (running_in k (ls_running s))
    \<and> length (filter (\<lambda>r. exclusive (snd (snd r))) (running_in k (ls_running s))) \<le> 1
    \<and> (\<forall>r \<in> set (running_in k (ls_running s)). in_flight k (ls_holders s) > 0)"
  using lanes_reachable_inv [OF assms]
  by (auto simp: lanes_inv_def in_flight_def length_pos_if_in_set)

text \<open>An execution is dropped exactly when its policy is drop and another is in flight in its lane,
  and it waits exactly when its policy is queue and another is in flight: an idle lane admits every
  execution, so a waiter whose lane has drained can always go on.\<close>

theorem acquire_outcomes:
  assumes "lane_step\<^sup>*\<^sup>* lanes_init s"
  shows "(acquire k p (ls_holders s) = ErrDropConcurrency
      \<longleftrightarrow> p = TriggerConcurrencyDrop \<and> running_in k (ls_running s) \<noteq> [])
    \<and> (acquire k p (ls_holders s) = Blocked \<longleftrightarrow> p = TriggerConcurrencyQueue \<and> running_in k (ls_running s) \<noteq> [])
    \<and> ((x, k) \<in> set (ls_waiting s) \<longrightarrow> running_in k (ls_running s) = []
        \<longrightarrow> (\<exists>t. lane_step s t \<and> (x, k, TriggerConcurrencyQueue) \<in> set (running_in k (ls_running t))))"
proof (intro conjI impI)
  have "ls_holders s k = length (running_in k (ls_running s))"
    using lanes_reachable_inv [OF assms] by (simp add: lanes_inv_def)
  then have zero: "ls_holders s k > 0 \<longleftrightarrow> running_in k (ls_running s) \<noteq> []" by simp
  show "acquire k p (ls_holders s) = ErrDropConcurrency
      \<longleftrightarrow> p = TriggerConcurrencyDrop \<and> running_in k (ls_running s) \<noteq> []"
    "acquire k p (ls_holders s) = Blocked \<longleftrightarrow> p = TriggerConcurrencyQueue \<and> running_in k (ls_running s) \<noteq> []"
    by (auto simp: acquire_def zero split: trigger_concurrency.split)
  assume w: "(x, k) \<in> set (ls_waiting s)" and idle: "running_in k (ls_running s) = []"
  have "acquire k TriggerConcurrencyQueue (ls_holders s)
      = Acquired ((ls_holders s)(k := ls_holders s k + 1))"
    using zero idle by (simp add: acquire_def)
  from lane_step.woken [OF w this] show "\<exists>t. lane_step s t
      \<and> (x, k, TriggerConcurrencyQueue) \<in> set (running_in k (ls_running t))"
    by (intro exI conjI, assumption) (simp add: running_in_def)
qed

text \<open>One execution in a lane, and a second one queued behind it.\<close>

definition demo_lane :: lane where
  "demo_lane = \<lparr>ck_workflow_id = ''wf'', ck_trigger_id = ''t''\<rparr>"

definition demo_lanes :: lanes where
  "demo_lanes = \<lparr>ls_holders = (\<lambda>_. 0)(demo_lane := 1),
     ls_running = [(1, demo_lane, TriggerConcurrencyDrop)], ls_waiting = [(2, demo_lane)]\<rparr>"

lemma demo_lanes_reachable: "lane_step\<^sup>*\<^sup>* lanes_init demo_lanes"
proof -
  let ?s = "lanes_init\<lparr>ls_holders := (\<lambda>_. 0)(demo_lane := 1),
     ls_running := (1, demo_lane, TriggerConcurrencyDrop) # ls_running lanes_init\<rparr>"
  have "lane_step lanes_init ?s"
    by (rule lane_step.start) (simp add: acquire_def lanes_init_def new_concurrency_tracker_def)
  moreover have "lane_step ?s (?s\<lparr>ls_waiting := ls_waiting ?s @ [(2, demo_lane)]\<rparr>)"
    by (rule lane_step.queued [of demo_lane TriggerConcurrencyQueue]) (simp add: acquire_def)
  moreover have "?s\<lparr>ls_waiting := ls_waiting ?s @ [(2, demo_lane)]\<rparr> = demo_lanes"
    by (simp add: demo_lanes_def lanes_init_def)
  ultimately show ?thesis by (metis r_into_rtranclp rtranclp.rtrancl_into_rtrancl)
qed

theorem lane_exclusive_witness:
  "in_flight demo_lane (ls_holders demo_lanes) = length (running_in demo_lane (ls_running demo_lanes))"
  using lane_exclusive [OF demo_lanes_reachable] by blast

theorem acquire_outcomes_witness:
  "acquire demo_lane TriggerConcurrencyDrop (ls_holders demo_lanes) = ErrDropConcurrency"
  using acquire_outcomes [OF demo_lanes_reachable, of demo_lane TriggerConcurrencyDrop 2]
  by (simp add: running_in_def demo_lanes_def)

end
