(* ===== verification/Workflow_Runtime.thy ===== *)
theory Workflow_Runtime
  imports Workflow_Concurrency
begin

text \<open>
  The in-memory workflow engine, \<open>services/workflow-runtime/internal/runtime/inmemory.go\<close>, with the
  types of \<open>types.go\<close>, the input difference of \<open>hitl.go\<close> and the errors of \<open>engine.go\<close>.

  The engine's maps are association lists, its sink and its audit log are the lists of what they
  received. \<open>e.now()\<close> reads a clock: the \<open>n\<close>-th reading is \<open>env_now n\<close>, and \<open>en_clock\<close> counts the
  readings. Activities (the clients of gateways and inboxes behind them included) are the parameter
  \<open>env_activity\<close>: the result of the \<open>n\<close>-th call for a step type and an input, and \<open>env_registered\<close> says which
  types the registry resolves. What reaches a step that waits for a person is the list
  \<open>rt_inbox\<close>: signals from the execution's channel, and the timer of the wait; a run that has used up
  its inbox is still waiting. Errors are values of \<open>failure\<close>, not texts.
\<close>

section \<open>Types\<close>

datatype execution_status =
    StatusPending | StatusRunning | StatusWaiting | StatusCompleted | StatusFailed
  | StatusCancelled | StatusCompensating

datatype step_status =
    StepStatusPending | StepStatusRunning | StepStatusWaiting | StepStatusCompleted
  | StepStatusFailed | StepStatusCompensated | StepStatusSkipped

datatype failure =
    AssetNotPinned string string
  | NoActivityForType step_type
  | UnboundTriggerReference "string list"
  | ActivityFailed string
  | SignalCancelled
  | SignalRejected obj
  | HitlEscalated
  | HitlTimeout
  | ExhaustedRetries string "failure option"
  | DeadlockUnresolvedDeps

record selected_assets =
  sa_skills :: "string list"
  sa_mcps :: "string list"
  sa_agents :: "string list"

record trigger_event =
  te_trigger_id :: string
  te_fired_at :: gotime
  te_payload :: obj
  te_queue_position :: int

record step_event =
  se_step_id :: string
  se_type :: step_type
  se_status :: step_status
  se_started_at :: gotime
  se_completed_at :: "gotime option"
  se_inputs :: obj
  se_outputs :: obj
  se_attempt :: int
  se_failure :: "failure option"

record compensation_item =
  ci_for_step_id :: string
  ci_compensate_id :: string
  ci_at :: gotime
  ci_outcome :: "failure option"

record execution =
  ex_id :: string
  ex_tenant_id :: string
  ex_workspace_id :: string
  ex_namespace :: string
  ex_workflow_id :: string
  ex_version :: string
  ex_correlation_id :: string
  ex_status :: execution_status
  ex_inputs :: obj
  ex_outputs :: obj
  ex_steps :: "step_event list"
  ex_started_at :: gotime
  ex_updated_at :: gotime
  ex_completed_at :: "gotime option"
  ex_failure :: "failure option"
  ex_compensations :: "compensation_item list"
  ex_dry_run :: bool
  ex_selected_assets :: "selected_assets option"
  ex_trigger_event :: "trigger_event option"

record start_request =
  sr_tenant_id :: string
  sr_workspace_id :: string
  sr_workflow :: "workflow option"
  sr_inputs :: obj
  sr_correlation_id :: string
  sr_dry_run :: bool
  sr_selected_assets :: "selected_assets option"
  sr_trigger_event :: "trigger_event option"

definition assets_is_empty :: "selected_assets option \<Rightarrow> bool" where
  "assets_is_empty sopt =
     (case sopt of
        None \<Rightarrow> True
      | Some s \<Rightarrow> length (sa_skills s) = 0 \<and> length (sa_mcps s) = 0 \<and> length (sa_agents s) = 0)"

text \<open>\<open>Allows\<close> compares the step type as a string.\<close>

definition assets_allows :: "selected_assets option \<Rightarrow> string \<Rightarrow> string \<Rightarrow> bool" where
  "assets_allows sopt step_type_str ref =
     (case sopt of
        None \<Rightarrow> True
      | Some s \<Rightarrow>
          if assets_is_empty sopt then True
          else if step_type_str = ''skill'' then ref \<in> set (sa_skills s)
          else if step_type_str = ''mcp'' then ref \<in> set (sa_mcps s)
          else if step_type_str = ''agent'' \<or> step_type_str = ''sub_workflow'' then ref \<in> set (sa_agents s)
          else True)"

section \<open>The engine\<close>

record signal_envelope =
  sg_signal :: string
  sg_payload :: obj

datatype rt_event =
    EventExecutionStarted string string bool "trigger_event option"
  | EventStepStarted string step_type int
  | EventStepCompleted string obj
  | EventStepFailed string failure
  | EventRetried string int failure
  | EventCompensated string string "failure option"
  | EventStepWaitingHuman string string string string
  | EventStepEscalated string string
  | EventExecutionCompleted string string
  | EventExecutionFailed "string option" failure
  | EventGuardrailTrip string

record audit_entry =
  ae_execution_id :: string
  ae_step_id :: string
  ae_approver_role :: string
  ae_decision :: string
  ae_original_inputs :: obj
  ae_final_inputs :: obj
  ae_input_diff :: obj
  ae_at :: gotime
  ae_on_timeout_policy :: string

record engine =
  en_executions :: "(string \<times> execution) list"
  en_signals :: "(string \<times> signal_envelope list) list"
  en_events :: "(string \<times> rt_event) list"
  en_audit :: "audit_entry list"
  en_tracker :: holders
  en_clock :: nat

definition new_in_memory_engine :: engine where
  "new_in_memory_engine = \<lparr>en_executions = [], en_signals = [], en_events = [], en_audit = [],
     en_tracker = new_concurrency_tracker, en_clock = 0\<rparr>"

definition ensure_namespace :: "string \<Rightarrow> string" where
  "ensure_namespace tenant_id = (if tenant_id = [] then ''default'' else ''tenant-'' @ tenant_id)"

definition put_exec :: "execution \<Rightarrow> engine \<Rightarrow> engine" where
  "put_exec ex e = e\<lparr>en_executions := AList.update (ex_id ex) ex (en_executions e)\<rparr>"

definition snapshot :: "engine \<Rightarrow> string \<Rightarrow> execution option" where
  "snapshot e i = map_of (en_executions e) i"

definition emit_rt :: "string \<Rightarrow> rt_event \<Rightarrow> engine \<Rightarrow> engine" where
  "emit_rt i ev e = e\<lparr>en_events := en_events e @ [(i, ev)]\<rparr>"

datatype fetch_error = ErrExecutionNotFound | ErrCrossTenantAccess

text \<open>\<open>fetch\<close> reports a cross-tenant access, so it may change the engine.\<close>

definition fetch :: "engine \<Rightarrow> string \<Rightarrow> string \<Rightarrow> engine \<times> (fetch_error + execution)" where
  "fetch e tenant_id execution_id =
     (case map_of (en_executions e) execution_id of
        None \<Rightarrow> (e, Inl ErrExecutionNotFound)
      | Some ex \<Rightarrow>
          if tenant_id \<noteq> [] \<and> ex_tenant_id ex \<noteq> tenant_id
          then (emit_rt (ex_id ex) (EventGuardrailTrip ''cross_tenant_access'') e, Inl ErrCrossTenantAccess)
          else (e, Inr ex))"

datatype api_error =
    FetchError fetch_error | ExecutionNotSignalable | SignalChannelFull

definition channel_capacity :: nat where
  "channel_capacity = 8"

definition signal_workflow ::
  "string \<Rightarrow> string \<Rightarrow> signal_envelope \<Rightarrow> engine \<Rightarrow> engine \<times> (api_error + execution)" where
  "signal_workflow tenant_id execution_id sg e =
     (case fetch e tenant_id execution_id of
        (e1, Inl err) \<Rightarrow> (e1, Inl (FetchError err))
      | (e1, Inr ex) \<Rightarrow>
          (case map_of (en_signals e1) execution_id of
             None \<Rightarrow> (e1, Inl ExecutionNotSignalable)
           | Some ch \<Rightarrow>
               if length ch < channel_capacity
               then (e1\<lparr>en_signals := AList.update execution_id (ch @ [sg]) (en_signals e1)\<rparr>, Inr ex)
               else (e1, Inl SignalChannelFull)))"

definition cancel_signal :: string where
  "cancel_signal = ''__cancel__''"

definition cancel_workflow :: "string \<Rightarrow> string \<Rightarrow> engine \<Rightarrow> engine \<times> (api_error + execution)" where
  "cancel_workflow tenant_id execution_id e =
     (case fetch e tenant_id execution_id of
        (e1, Inl err) \<Rightarrow> (e1, Inl (FetchError err))
      | (e1, Inr ex) \<Rightarrow>
          (case map_of (en_signals e1) execution_id of
             None \<Rightarrow> (e1, Inr ex)
           | Some ch \<Rightarrow>
               if length ch < channel_capacity
               then (e1\<lparr>en_signals := AList.update execution_id
                        (ch @ [\<lparr>sg_signal = cancel_signal, sg_payload = []\<rparr>]) (en_signals e1)\<rparr>, Inr ex)
               else (e1, Inr ex)))"

text \<open>\<open>QueryWorkflow\<close>: the whole execution, or the events of one step.\<close>

definition query_workflow ::
  "engine \<Rightarrow> string \<Rightarrow> string \<Rightarrow> string \<Rightarrow> engine \<times> (fetch_error + execution + step_event list)" where
  "query_workflow e tenant_id execution_id step_id =
     (case fetch e tenant_id execution_id of
        (e1, Inl err) \<Rightarrow> (e1, Inl err)
      | (e1, Inr ex) \<Rightarrow>
          if step_id = [] then (e1, Inr (Inl ex))
          else (e1, Inr (Inr (filter (\<lambda>s. se_step_id s = step_id) (ex_steps ex)))))"

definition list_executions :: "engine \<Rightarrow> string \<Rightarrow> string \<Rightarrow> execution list" where
  "list_executions e tenant_id workspace_id =
     filter (\<lambda>ex. ex_tenant_id ex = tenant_id \<and> (workspace_id = [] \<or> ex_workspace_id ex = workspace_id))
       (map snd (en_executions e))"

section \<open>Starting\<close>

text \<open>
  \<open>StartWorkflow\<close> up to the launch of \<open>run\<close>; \<open>uuid\<close> is the new identifier. Under the queue policy it
  may block; the caller then tries again when the lane changes.
\<close>

datatype start_result =
    WorkflowRequired
  | DropConcurrency
  | StartBlocked
  | Started engine execution

definition start_exec :: "(nat \<Rightarrow> gotime) \<Rightarrow> string \<Rightarrow> workflow \<Rightarrow> start_request \<Rightarrow> engine \<Rightarrow> start_result" where
  "start_exec now uuid w req e =
     (let ex = \<lparr>ex_id = uuid, ex_tenant_id = sr_tenant_id req, ex_workspace_id = sr_workspace_id req,
                ex_namespace = ensure_namespace (sr_tenant_id req),
                ex_workflow_id = md_id (wf_metadata w), ex_version = md_version (wf_metadata w),
                ex_correlation_id = sr_correlation_id req, ex_status = StatusPending,
                ex_inputs = sr_inputs req, ex_outputs = [], ex_steps = [],
                ex_started_at = now (en_clock e), ex_updated_at = now (en_clock e + 1),
                ex_completed_at = None, ex_failure = None, ex_compensations = [],
                ex_dry_run = sr_dry_run req, ex_selected_assets = sr_selected_assets req,
                ex_trigger_event = sr_trigger_event req\<rparr>;
          e1 = put_exec ex (e\<lparr>en_clock := en_clock e + 2\<rparr>);
          e2 = e1\<lparr>en_signals := AList.update uuid [] (en_signals e1)\<rparr>;
          e3 = emit_rt uuid (EventExecutionStarted (ex_workflow_id ex) (ex_version ex) (ex_dry_run ex)
                 (ex_trigger_event ex)) e2
      in Started e3 ex)"

definition start_workflow :: "(nat \<Rightarrow> gotime) \<Rightarrow> string \<Rightarrow> start_request \<Rightarrow> engine \<Rightarrow> start_result" where
  "start_workflow now uuid req e =
     (case sr_workflow req of
        None \<Rightarrow> WorkflowRequired
      | Some w \<Rightarrow>
          (case sr_trigger_event req of
             None \<Rightarrow> start_exec now uuid w req e
           | Some te \<Rightarrow>
               let key = \<lparr>ck_workflow_id = md_id (wf_metadata w), ck_trigger_id = te_trigger_id te\<rparr>;
                   policy = lookup_trigger_policy (Some w) (te_trigger_id te)
               in case acquire key policy (en_tracker e) of
                    ErrDropConcurrency \<Rightarrow> DropConcurrency
                  | Blocked \<Rightarrow> StartBlocked
                  | Acquired h \<Rightarrow> start_exec now uuid w req (e\<lparr>en_tracker := h\<rparr>)))"

section \<open>Inputs and outputs\<close>

type_synonym completed = "(string \<times> obj) list"

text \<open>One input; the result is the binding it leaves, if any.\<close>

definition resolve_input ::
  "obj \<Rightarrow> completed \<Rightarrow> trigger_event option \<Rightarrow> string \<times> val \<Rightarrow> (string \<times> val) list" where
  "resolve_input wf_inputs produced trig kv =
     (case snd kv of
        VString s \<Rightarrow>
          if \<not> has_prefix s ''$'' then [(fst kv, VString s)]
          else
            let parts = split_on (CHR ''.'') (trim_prefix s ''$'') in
            if length parts \<ge> 2 \<and> parts ! 0 = ''inputs'' then
              (case map_of wf_inputs (parts ! 1) of Some v \<Rightarrow> [(fst kv, v)] | None \<Rightarrow> [])
            else if length parts \<ge> 4 \<and> parts ! 0 = ''steps'' \<and> parts ! 2 = ''outputs'' then
              (case map_of produced (parts ! 1) of
                 Some outs \<Rightarrow> (case map_of outs (parts ! 3) of Some v \<Rightarrow> [(fst kv, v)] | None \<Rightarrow> [])
               | None \<Rightarrow> [])
            else if length parts \<ge> 3 \<and> parts ! 0 = ''triggers'' then
              (case trig of
                 None \<Rightarrow> [(fst kv, VUnbound s)]
               | Some te \<Rightarrow>
                   if te_trigger_id te \<noteq> parts ! 1 then [(fst kv, VUnbound s)]
                   else (case map_of (te_payload te) (parts ! 2) of
                           Some v \<Rightarrow> [(fst kv, v)] | None \<Rightarrow> []))
            else [(fst kv, VString s)]
      | v \<Rightarrow> [(fst kv, v)])"

definition resolve_inputs_with_trigger ::
  "step \<Rightarrow> obj \<Rightarrow> completed \<Rightarrow> trigger_event option \<Rightarrow> obj" where
  "resolve_inputs_with_trigger s wf_inputs produced trig =
     concat (map (resolve_input wf_inputs produced trig) (st_inputs (core s)))"

definition unbound_trigger_references :: "obj \<Rightarrow> string list" where
  "unbound_trigger_references inputs =
     concat (map (\<lambda>kv. case snd kv of VUnbound r \<Rightarrow> [r] | _ \<Rightarrow> []) inputs)"

definition aggregate_outputs :: "workflow \<Rightarrow> completed \<Rightarrow> obj" where
  "aggregate_outputs w produced =
     (if length (sp_outputs (wf_spec w)) = 0 then map (\<lambda>kv. (fst kv, VMap (snd kv))) produced
      else map (\<lambda>n. (n, VNil)) (remdups (map io_name (sp_outputs (wf_spec w)))))"

text \<open>\<open>DiffInputs\<close>; the equality of values is \<open>reflect.DeepEqual\<close>.\<close>

definition diff_inputs :: "obj \<Rightarrow> obj \<Rightarrow> obj" where
  "diff_inputs original final =
     concat (map (\<lambda>kv. case map_of final (fst kv) of
         None \<Rightarrow> [(fst kv, VMap [(''removed'', snd kv)])]
       | Some v2 \<Rightarrow> if snd kv \<noteq> v2 then [(fst kv, VMap [(''from'', snd kv), (''to'', v2)])] else [])
       original)
     @ concat (map (\<lambda>kv. if map_of original (fst kv) = None then [(fst kv, VMap [(''added'', snd kv)])]
                         else []) final)"

section \<open>Choosing steps\<close>

definition step_id_set :: "step list \<Rightarrow> string list" where
  "step_id_set steps = remdups (map sid steps)"

definition runnable :: "string list \<Rightarrow> completed \<Rightarrow> step \<Rightarrow> bool" where
  "runnable pending produced s \<longleftrightarrow>
     sid s \<in> set pending \<and> list_all (\<lambda>d. map_of produced d \<noteq> None) (st_depends_on (core s))"

definition next_runnable :: "step list \<Rightarrow> string list \<Rightarrow> completed \<Rightarrow> step option" where
  "next_runnable steps pending produced = List.find (runnable pending produced) steps"

definition find_compensation_step :: "workflow \<Rightarrow> string \<Rightarrow> step option" where
  "find_compensation_step w i =
     (case List.find (\<lambda>s. sid s = i) (sp_on_failure (wf_spec w)) of
        Some s \<Rightarrow> Some s
      | None \<Rightarrow> List.find (\<lambda>s. sid s = i) (sp_steps (wf_spec w)))"

section \<open>Retries\<close>

text \<open>The addition wraps around.\<close>

definition max_attempts :: "retry_policy option \<Rightarrow> int" where
  "max_attempts policy =
     (case policy of
        None \<Rightarrow> 1
      | Some p \<Rightarrow> if rp_max p > 0 then wrap64 (rp_max p + 1) else 1)"

text \<open>The error text is matched against the policy's non-retryable substrings.\<close>

definition should_retry :: "retry_policy option \<Rightarrow> string \<Rightarrow> int \<Rightarrow> int \<Rightarrow> bool" where
  "should_retry policy err attempt maxa =
     (case policy of
        None \<Rightarrow> False
      | Some p \<Rightarrow> attempt < maxa \<and> \<not> list_ex (\<lambda>ne. contains_str err ne) (rp_non_retryable p))"

text \<open>\<open>waitBackoff\<close> as the milliseconds it sleeps. Multiplication wraps around, and a shift by 64 or more
  gives 0.\<close>

definition wait_backoff :: "retry_policy option \<Rightarrow> int \<Rightarrow> int" where
  "wait_backoff policy attempt =
     (case policy of
        None \<Rightarrow> 0
      | Some p \<Rightarrow>
          let base = (if rp_initial_ms p > 0 then rp_initial_ms p else 50);
              maxd = (if rp_max_ms p > 0 then rp_max_ms p else 5000);
              delay = (if rp_backoff p = ''exponential''
                         then wrap64 (base * wrap64 (2 ^ nat (attempt - 1)))
                       else if rp_backoff p = ''linear'' then wrap64 (base * attempt)
                       else base);
              delay = (if delay > maxd then maxd else delay)
          in if delay \<le> 0 then 0 else if delay > 50 then 50 else delay)"

section \<open>The world of a run\<close>

record activity_input =
  ai_tenant_id :: string
  ai_workspace_id :: string
  ai_execution_id :: string
  ai_step :: step_core
  ai_inputs :: obj
  ai_dry_run :: bool

record activity_output =
  ao_outputs :: obj
  ao_wait :: bool
  ao_reason :: string

record env =
  env_now :: "nat \<Rightarrow> gotime"
  env_ctx_done :: "nat \<Rightarrow> bool"
  env_registered :: "step_type \<Rightarrow> bool"
  env_activity :: "nat \<Rightarrow> step_type \<Rightarrow> activity_input \<Rightarrow> string + activity_output"

datatype arrival = SignalArrives signal_envelope | TimerFires

record rt =
  rt_exec :: execution
  rt_engine :: engine
  rt_calls :: nat
  rt_polls :: nat
  rt_inbox :: "arrival list"
  rt_blocked :: bool

definition read_clock :: "env \<Rightarrow> rt \<Rightarrow> gotime \<times> rt" where
  "read_clock ev r =
     (env_now ev (en_clock (rt_engine r)),
      r\<lparr>rt_engine := (rt_engine r)\<lparr>en_clock := en_clock (rt_engine r) + 1\<rparr>\<rparr>)"

text \<open>\<open>e.update(exec)\<close>.\<close>

definition update_exec :: "env \<Rightarrow> rt \<Rightarrow> rt" where
  "update_exec ev r =
     (let (t, r1) = read_clock ev r;
          ex = (rt_exec r1)\<lparr>ex_updated_at := t\<rparr>
      in r1\<lparr>rt_exec := ex, rt_engine := put_exec ex (rt_engine r1)\<rparr>)"

definition emit_run :: "rt_event \<Rightarrow> rt \<Rightarrow> rt" where
  "emit_run x r = r\<lparr>rt_engine := emit_rt (ex_id (rt_exec r)) x (rt_engine r)\<rparr>"

definition on_exec :: "(execution \<Rightarrow> execution) \<Rightarrow> rt \<Rightarrow> rt" where
  "on_exec f r = r\<lparr>rt_exec := f (rt_exec r)\<rparr>"

definition set_status :: "execution_status \<Rightarrow> rt \<Rightarrow> rt" where
  "set_status st = on_exec (\<lambda>ex. ex\<lparr>ex_status := st\<rparr>)"

text \<open>The last element that satisfies \<open>P\<close> is changed.\<close>

fun update_first :: "('a \<Rightarrow> bool) \<Rightarrow> ('a \<Rightarrow> 'a) \<Rightarrow> 'a list \<Rightarrow> 'a list" where
  "update_first P f [] = []"
| "update_first P f (x # xs) = (if P x then f x # xs else x # update_first P f xs)"

definition mark_step ::
  "string \<Rightarrow> int \<Rightarrow> step_status \<Rightarrow> gotime \<Rightarrow> obj \<Rightarrow> obj \<Rightarrow> failure option \<Rightarrow> execution \<Rightarrow> execution" where
  "mark_step step_id attempt status completed_at inputs outputs reason ex =
     ex\<lparr>ex_steps := rev (update_first (\<lambda>s. se_step_id s = step_id \<and> se_attempt s = attempt)
          (\<lambda>s. s\<lparr>se_status := status, se_completed_at := Some completed_at, se_outputs := outputs,
                 se_inputs := inputs, se_failure := reason\<rparr>) (rev (ex_steps ex)))\<rparr>"

section \<open>Waiting for a person\<close>

text \<open>
  \<open>awaitHITLSignal\<close>. The result is the outputs or the failure, the decision and the final inputs,
  with what is left of the inbox; \<open>None\<close> means still waiting. Other signals are skipped.
\<close>

definition approve_outputs :: "obj \<Rightarrow> obj" where
  "approve_outputs payload =
     fold (\<lambda>kv out. if fst kv = ''inputs'' then out else AList.update (fst kv) (snd kv) out) payload
       [(''decision'', VString ''approved'')]"

definition approve_inputs :: "obj \<Rightarrow> obj \<Rightarrow> obj" where
  "approve_inputs payload inputs =
     (case map_of payload ''inputs'' of
        Some (VMap mods) \<Rightarrow> fold (\<lambda>kv fin. AList.update (fst kv) (snd kv) fin) mods inputs
      | _ \<Rightarrow> inputs)"

definition on_timer :: "step \<Rightarrow> (failure + obj) \<times> string" where
  "on_timer s =
     (if st_on_timeout (core s) = ''proceed''
        then (Inr [(''decision'', VString ''timeout_proceed'')], ''timeout_proceed'')
      else if st_on_timeout (core s) = ''escalate'' then (Inl HitlEscalated, ''escalated'')
      else (Inl HitlTimeout, ''timeout_failed''))"

fun await_hitl_signal ::
  "step \<Rightarrow> obj \<Rightarrow> arrival list \<Rightarrow> ((failure + obj) \<times> string \<times> obj \<times> arrival list) option" where
  "await_hitl_signal s inputs [] = None"
| "await_hitl_signal s inputs (TimerFires # rest) =
     Some (fst (on_timer s), snd (on_timer s), inputs, rest)"
| "await_hitl_signal s inputs (SignalArrives sg # rest) =
     (if sg_signal sg = cancel_signal then Some (Inl SignalCancelled, ''cancelled'', inputs, rest)
      else if sg_signal sg = ''approve''
        then Some (Inr (approve_outputs (sg_payload sg)), ''approved'',
                   approve_inputs (sg_payload sg) inputs, rest)
      else if sg_signal sg = ''reject''
        then Some (Inl (SignalRejected (sg_payload sg)), ''rejected'', inputs, rest)
      else await_hitl_signal s inputs rest)"

text \<open>A nil channel never delivers: only the timer ends the wait of a compensation step.\<close>

definition await_hitl_nil :: "step \<Rightarrow> obj \<Rightarrow> (failure + obj) \<times> string \<times> obj" where
  "await_hitl_nil s inputs = (fst (on_timer s), snd (on_timer s), inputs)"

section \<open>Running a step\<close>

record step_context =
  sc_step :: step
  sc_inputs :: obj
  sc_nil_signals :: bool

text \<open>The end of a step that failed or completed: \<open>markStep\<close>, \<open>update\<close>, one event.\<close>

definition close_step ::
  "env \<Rightarrow> step \<Rightarrow> int \<Rightarrow> step_status \<Rightarrow> obj \<Rightarrow> obj \<Rightarrow> failure option \<Rightarrow> execution_status option \<Rightarrow> rt_event
     \<Rightarrow> rt \<Rightarrow> rt" where
  "close_step ev s attempt status inputs outputs reason new_status event r =
     (let (t, r1) = read_clock ev r;
          r2 = on_exec (mark_step (sid s) attempt status t inputs outputs reason) r1;
          r3 = (case new_status of Some st \<Rightarrow> set_status st r2 | None \<Rightarrow> r2)
      in emit_run event (update_exec ev r3))"

definition start_attempt :: "env \<Rightarrow> step_context \<Rightarrow> int \<Rightarrow> rt \<Rightarrow> rt" where
  "start_attempt ev sc attempt r =
     (let s = sc_step sc;
          (t, r1) = read_clock ev r;
          se = \<lparr>se_step_id = sid s, se_type = stype s, se_status = StepStatusRunning,
                se_started_at = t, se_completed_at = None, se_inputs = sc_inputs sc, se_outputs = [],
                se_attempt = attempt, se_failure = None\<rparr>;
          r2 = on_exec (\<lambda>ex. ex\<lparr>ex_steps := ex_steps ex @ [se]\<rparr>) r1
      in emit_run (EventStepStarted (sid s) (stype s) attempt) (update_exec ev r2))"

definition call_activity :: "env \<Rightarrow> step_context \<Rightarrow> rt \<Rightarrow> (string + activity_output) \<times> rt" where
  "call_activity ev sc r =
     (let ex = rt_exec r;
          inp = \<lparr>ai_tenant_id = ex_tenant_id ex, ai_workspace_id = ex_workspace_id ex,
                 ai_execution_id = ex_id ex, ai_step = core (sc_step sc),
                 ai_inputs = sc_inputs sc, ai_dry_run = ex_dry_run ex\<rparr>
      in (env_activity ev (rt_calls r) (stype (sc_step sc)) inp, r\<lparr>rt_calls := rt_calls r + 1\<rparr>))"

definition log_audit :: "env \<Rightarrow> step \<Rightarrow> string \<Rightarrow> obj \<Rightarrow> obj \<Rightarrow> rt \<Rightarrow> rt" where
  "log_audit ev s decision original final r =
     (let (t, r1) = read_clock ev r;
          a = \<lparr>ae_execution_id = ex_id (rt_exec r), ae_step_id = sid s,
               ae_approver_role = st_approver_role (core s), ae_decision = decision,
               ae_original_inputs = original, ae_final_inputs = final,
               ae_input_diff = diff_inputs original final, ae_at = t,
               ae_on_timeout_policy = st_on_timeout (core s)\<rparr>
      in r1\<lparr>rt_engine := (rt_engine r1)\<lparr>en_audit := en_audit (rt_engine r1) @ [a]\<rparr>\<rparr>)"

text \<open>
  The part of an attempt after the activity asked to wait. The result is \<open>None\<close> when the step is still
  waiting, and otherwise the failure or the outputs.
\<close>

definition suspend_step ::
  "env \<Rightarrow> step_context \<Rightarrow> int \<Rightarrow> activity_output \<Rightarrow> rt \<Rightarrow> (failure + obj) option \<times> rt" where
  "suspend_step ev sc attempt out r =
     (let s = sc_step sc; inputs = sc_inputs sc;
          r1 = close_step ev s attempt StepStatusWaiting inputs (ao_outputs out) None (Some StatusWaiting)
                 (EventStepWaitingHuman (sid s) (st_approver_role (core s)) (st_on_timeout (core s))
                    (ao_reason out)) r;
          answer = (if sc_nil_signals sc
             then (case await_hitl_nil s inputs of (a, d, fin) \<Rightarrow> Some (a, d, fin, rt_inbox r1))
             else await_hitl_signal s inputs (rt_inbox r1))
      in case answer of
           None \<Rightarrow> (None, r1\<lparr>rt_inbox := [], rt_blocked := True\<rparr>)
         | Some (res, decision, final_inputs, rest) \<Rightarrow>
             let r2 = log_audit ev s decision inputs final_inputs (r1\<lparr>rt_inbox := rest\<rparr>) in
             (case res of
                Inl f \<Rightarrow>
                  let r3 = (if decision = ''escalated''
                            then emit_run (EventStepEscalated (sid s) (st_escalation_role (core s))) r2
                            else r2)
                  in (Some (Inl f), close_step ev s attempt StepStatusFailed inputs [] (Some f) None
                       (EventStepFailed (sid s) f) r3)
              | Inr outs \<Rightarrow>
                  (Some (Inr outs), close_step ev s attempt StepStatusCompleted final_inputs outs None
                     (Some StatusRunning) (EventStepCompleted (sid s) outs) r2)))"

text \<open>
  The retry loop: \<open>n\<close> attempts are left, of which the first is number \<open>attempt\<close>.
\<close>

fun run_attempts ::
  "env \<Rightarrow> step_context \<Rightarrow> int \<Rightarrow> nat \<Rightarrow> int \<Rightarrow> failure option \<Rightarrow> rt \<Rightarrow> (failure + obj) option \<times> rt" where
  "run_attempts ev sc maxa 0 attempt last_err r =
     (Some (Inl (ExhaustedRetries (sid (sc_step sc)) last_err)), r)"
| "run_attempts ev sc maxa (Suc n) attempt last_err r =
     (let s = sc_step sc; inputs = sc_inputs sc; r1 = start_attempt ev sc attempt r;
          unbound = unbound_trigger_references inputs
      in if length unbound > 0 then
           (Some (Inl (UnboundTriggerReference unbound)),
            close_step ev s attempt StepStatusFailed inputs [] (Some (UnboundTriggerReference unbound)) None
              (EventStepFailed (sid s) (UnboundTriggerReference unbound)) r1)
         else
           case call_activity ev sc r1 of
             (Inr out, r2) \<Rightarrow>
               if ao_wait out then suspend_step ev sc attempt out r2
               else (Some (Inr (ao_outputs out)),
                     close_step ev s attempt StepStatusCompleted inputs (ao_outputs out) None None
                       (EventStepCompleted (sid s) (ao_outputs out)) r2)
           | (Inl err, r2) \<Rightarrow>
               let f = ActivityFailed err in
               if \<not> should_retry (st_retries (core s)) err attempt maxa then
                 (Some (Inl f), close_step ev s attempt StepStatusFailed inputs [] (Some f) None
                    (EventStepFailed (sid s) f) r2)
               else run_attempts ev sc maxa n (attempt + 1) (Some f)
                      (close_step ev s attempt StepStatusFailed inputs [] (Some f) None
                         (EventRetried (sid s) attempt f) r2))"

definition pinned_out :: "execution \<Rightarrow> step \<Rightarrow> bool" where
  "pinned_out ex s \<longleftrightarrow>
     \<not> assets_is_empty (ex_selected_assets ex) \<and> st_ref (core s) \<noteq> []
     \<and> \<not> assets_allows (ex_selected_assets ex) (step_type_string (stype s)) (st_ref (core s))"

definition run_step :: "env \<Rightarrow> step_context \<Rightarrow> rt \<Rightarrow> (failure + obj) option \<times> rt" where
  "run_step ev sc r =
     (let s = sc_step sc in
      if pinned_out (rt_exec r) s then
        (Some (Inl (AssetNotPinned (sid s) (st_ref (core s)))),
         emit_run (EventGuardrailTrip ''asset_not_in_pinned_set'') r)
      else if \<not> env_registered ev (stype s) then (Some (Inl (NoActivityForType (stype s))), r)
      else
        let maxa = max_attempts (st_retries (core s)) in run_attempts ev sc maxa (nat maxa) 1 None r)"

section \<open>Compensation\<close>

definition compensate_one :: "env \<Rightarrow> workflow \<Rightarrow> step \<Rightarrow> rt \<Rightarrow> rt" where
  "compensate_one ev w s r =
     (case find_compensation_step w (st_compensate_with (core s)) of
        None \<Rightarrow> r
      | Some c \<Rightarrow>
          (case run_step ev \<lparr>sc_step = c, sc_inputs = [(''compensating_for'', VString (sid s))],
                             sc_nil_signals = True\<rparr> r of
             (res, r1) \<Rightarrow>
               let outcome = (case res of Some (Inl f) \<Rightarrow> Some f | _ \<Rightarrow> None);
                   (t, r2) = read_clock ev r1;
                   item = \<lparr>ci_for_step_id = sid s, ci_compensate_id = sid c, ci_at = t,
                           ci_outcome = outcome\<rparr>
               in emit_run (EventCompensated (sid s) (sid c) outcome)
                    (on_exec (\<lambda>ex. ex\<lparr>ex_compensations := ex_compensations ex @ [item]\<rparr>) r2)))"

definition compensate :: "env \<Rightarrow> workflow \<Rightarrow> step list \<Rightarrow> rt \<Rightarrow> rt" where
  "compensate ev w successful r =
     (if length successful = 0 then r
      else update_exec ev
             (fold (compensate_one ev w) (rev successful)
                (update_exec ev (set_status StatusCompensating r))))"

section \<open>The run loop\<close>

definition complete_now :: "env \<Rightarrow> rt \<Rightarrow> rt" where
  "complete_now ev r =
     (let (t, r1) = read_clock ev r in
      update_exec ev (on_exec (\<lambda>ex. ex\<lparr>ex_completed_at := Some t\<rparr>) r1))"

definition fail_with :: "failure \<Rightarrow> rt \<Rightarrow> rt" where
  "fail_with f = on_exec (\<lambda>ex. ex\<lparr>ex_status := StatusFailed, ex_failure := Some f\<rparr>)"

definition set_outputs :: "obj \<Rightarrow> rt \<Rightarrow> rt" where
  "set_outputs o1 = on_exec (\<lambda>ex. ex\<lparr>ex_outputs := o1\<rparr>)"

lemma find_NoneD: "List.find P xs = None \<Longrightarrow> \<forall>x\<in>set xs. \<not> P x"
  by (induction xs) (auto split: if_splits)

lemma next_runnable_pending:
  "next_runnable steps pending produced = Some s \<Longrightarrow> sid s \<in> set pending"
  by (auto simp: next_runnable_def runnable_def dest: find_SomeD)

function run_loop ::
  "env \<Rightarrow> workflow \<Rightarrow> string list \<Rightarrow> completed \<Rightarrow> step list \<Rightarrow> rt \<Rightarrow> rt" where
  "run_loop ev w pending produced compensable r =
     (if pending = [] then
        let r1 = set_outputs (aggregate_outputs w produced) (set_status StatusCompleted r);
            r2 = complete_now ev r1
        in emit_run (EventExecutionCompleted (ex_workflow_id (rt_exec r2)) (ex_version (rt_exec r2))) r2
      else
        case next_runnable (sp_steps (wf_spec w)) pending produced of
          None \<Rightarrow>
            emit_run (EventExecutionFailed None DeadlockUnresolvedDeps)
              (complete_now ev (fail_with DeadlockUnresolvedDeps r))
        | Some s \<Rightarrow>
            if env_ctx_done ev (rt_polls r) then
              complete_now ev (set_status StatusCancelled (r\<lparr>rt_polls := rt_polls r + 1\<rparr>))
            else
              let ex = rt_exec r;
                  sc = \<lparr>sc_step = s,
                        sc_inputs = resolve_inputs_with_trigger s (ex_inputs ex) produced
                                      (ex_trigger_event ex),
                        sc_nil_signals = False\<rparr>
              in case run_step ev sc (r\<lparr>rt_polls := rt_polls r + 1\<rparr>) of
                   (None, r1) \<Rightarrow> r1
                 | (Some (Inl f), r1) \<Rightarrow>
                     complete_now ev (compensate ev w compensable
                       (emit_run (EventExecutionFailed (Some (sid s)) f)
                          (update_exec ev (fail_with f r1))))
                 | (Some (Inr out), r1) \<Rightarrow>
                     run_loop ev w (removeAll (sid s) pending) (AList.update (sid s) out produced)
                       (if st_compensate_with (core s) \<noteq> [] then compensable @ [s] else compensable) r1)"
  by pat_completeness auto
termination
proof (relation "measure (\<lambda>(ev, w, pending, rest). length pending)", goal_cases)
  case (2 ev w pending produced compensable r s)
  then show ?case by (auto simp: length_removeAll_less dest!: next_runnable_pending)
qed simp

declare run_loop.simps [simp del]

definition run :: "env \<Rightarrow> workflow \<Rightarrow> rt \<Rightarrow> rt" where
  "run ev w r =
     run_loop ev w (step_id_set (sp_steps (wf_spec w))) [] []
       (update_exec ev (set_status StatusRunning r))"

text \<open>The goroutine of \<open>StartWorkflow\<close>: when the run is over (and not still waiting for a person), the
  lane is released.\<close>

definition run_and_release :: "env \<Rightarrow> workflow \<Rightarrow> rt \<Rightarrow> rt" where
  "run_and_release ev w r =
     (let r1 = run ev w r in
      case ex_trigger_event (rt_exec r) of
        None \<Rightarrow> r1
      | Some te \<Rightarrow>
          if rt_blocked r1 then r1 else r1\<lparr>rt_engine := (rt_engine r1)\<lparr>en_tracker := release
            \<lparr>ck_workflow_id = md_id (wf_metadata w), ck_trigger_id = te_trigger_id te\<rparr>
            (en_tracker (rt_engine r1))\<rparr>\<rparr>)"

section \<open>What the operations leave alone\<close>

text \<open>The fields of an execution that no part of a run changes.\<close>

definition fixed :: "execution \<Rightarrow> execution" where
  "fixed ex = ex\<lparr>ex_status := StatusPending, ex_outputs := [], ex_steps := [], ex_updated_at := 0,
     ex_completed_at := None, ex_failure := None, ex_compensations := []\<rparr>"

lemma fixed_fields:
  assumes "fixed a = fixed b"
  shows "ex_id a = ex_id b" "ex_selected_assets a = ex_selected_assets b"
    "ex_trigger_event a = ex_trigger_event b" "ex_inputs a = ex_inputs b"
  using assms by (cases a; cases b; simp add: fixed_def)+

lemma fixed_updates [frame_simps]:
  "fixed (ex\<lparr>ex_status := a\<rparr>) = fixed ex" "fixed (ex\<lparr>ex_outputs := b\<rparr>) = fixed ex"
  "fixed (ex\<lparr>ex_steps := c\<rparr>) = fixed ex" "fixed (ex\<lparr>ex_updated_at := d\<rparr>) = fixed ex"
  "fixed (ex\<lparr>ex_completed_at := e\<rparr>) = fixed ex" "fixed (ex\<lparr>ex_failure := f\<rparr>) = fixed ex"
  "fixed (ex\<lparr>ex_compensations := g\<rparr>) = fixed ex"
  by (simp_all add: fixed_def)

lemmas rt_defs = read_clock_def update_exec_def emit_run_def on_exec_def set_status_def
  close_step_def start_attempt_def call_activity_def log_audit_def Let_def case_prod_beta

lemma exec_update [frame_simps]:
  "rt_exec (update_exec ev r) = (rt_exec r)\<lparr>ex_updated_at := env_now ev (en_clock (rt_engine r))\<rparr>"
  "rt_exec (emit_run x r) = rt_exec r"
  "rt_exec (snd (read_clock ev r)) = rt_exec r"
  "rt_exec (snd (call_activity ev sc r)) = rt_exec r"
  "rt_exec (log_audit ev s d a b r) = rt_exec r"
  "rt_exec (set_status st r) = (rt_exec r)\<lparr>ex_status := st\<rparr>"
  "rt_exec (on_exec f r) = f (rt_exec r)"
  by (simp_all add: rt_defs)

lemma mark_step_frame [frame_simps]:
  "fixed (mark_step i k st t a b f ex) = fixed ex"
  "ex_compensations (mark_step i k st t a b f ex) = ex_compensations ex"
  "ex_failure (mark_step i k st t a b f ex) = ex_failure ex"
  "ex_completed_at (mark_step i k st t a b f ex) = ex_completed_at ex"
  by (simp_all add: mark_step_def frame_simps)

lemma close_step_exec:
  "rt_exec (close_step ev s k st a b f ns e r) =
     (let ex = mark_step (sid s) k st (env_now ev (en_clock (rt_engine r))) a b f (rt_exec r);
          ex' = (case ns of Some st \<Rightarrow> ex\<lparr>ex_status := st\<rparr> | None \<Rightarrow> ex)
      in ex'\<lparr>ex_updated_at := env_now ev (en_clock (rt_engine r) + 1)\<rparr>)"
  by (simp add: rt_defs split: option.split)

lemma close_step_frame [frame_simps]:
  "fixed (rt_exec (close_step ev s k st a b f ns e r)) = fixed (rt_exec r)"
  "ex_compensations (rt_exec (close_step ev s k st a b f ns e r)) = ex_compensations (rt_exec r)"
  "ex_failure (rt_exec (close_step ev s k st a b f ns e r)) = ex_failure (rt_exec r)"
  "ex_completed_at (rt_exec (close_step ev s k st a b f ns e r)) = ex_completed_at (rt_exec r)"
  by (simp_all add: close_step_exec Let_def frame_simps split: option.split)

lemma start_attempt_exec:
  "rt_exec (start_attempt ev sc k r) = (rt_exec r)
     \<lparr>ex_steps := ex_steps (rt_exec r) @ [\<lparr>se_step_id = sid (sc_step sc), se_type = stype (sc_step sc),
        se_status = StepStatusRunning, se_started_at = env_now ev (en_clock (rt_engine r)),
        se_completed_at = None, se_inputs = sc_inputs sc, se_outputs = [], se_attempt = k,
        se_failure = None\<rparr>],
      ex_updated_at := env_now ev (en_clock (rt_engine r) + 1)\<rparr>"
  by (simp add: rt_defs)

text \<open>The last event of an execution is the attempt \<open>k\<close> of step \<open>s\<close>, after the events \<open>xs\<close>.\<close>

definition open_attempt :: "step \<Rightarrow> int \<Rightarrow> step_event list \<Rightarrow> execution \<Rightarrow> bool" where
  "open_attempt s k xs ex \<longleftrightarrow>
     (\<exists>e. ex_steps ex = xs @ [e] \<and> se_step_id e = sid s \<and> se_attempt e = k)"

text \<open>The same, with the attempt in status \<open>st\<close>.\<close>

definition closed_attempt ::
  "step \<Rightarrow> int \<Rightarrow> step_status \<Rightarrow> obj \<Rightarrow> step_event list \<Rightarrow> execution \<Rightarrow> bool" where
  "closed_attempt s k st outs xs ex \<longleftrightarrow>
     (\<exists>e. ex_steps ex = xs @ [e] \<and> se_step_id e = sid s \<and> se_attempt e = k \<and> se_status e = st
        \<and> se_outputs e = outs)"

lemma open_start: "open_attempt (sc_step sc) k (ex_steps (rt_exec r)) (rt_exec (start_attempt ev sc k r))"
  by (simp add: open_attempt_def start_attempt_exec)

lemma closed_close:
  "open_attempt s k xs (rt_exec r) \<Longrightarrow>
     closed_attempt s k st b xs (rt_exec (close_step ev s k st a b f ns e r))"
  by (auto simp: open_attempt_def closed_attempt_def close_step_exec mark_step_def Let_def
      split: option.split)

lemma closed_open: "closed_attempt s k st b xs ex \<Longrightarrow> open_attempt s k xs ex"
  by (auto simp: open_attempt_def closed_attempt_def)

section \<open>What a step does to the execution\<close>

text \<open>Consecutive attempts at one step, all but the last one failed.\<close>

fun attempts_ok :: "step \<Rightarrow> int \<Rightarrow> step_event list \<Rightarrow> bool" where
  "attempts_ok s k [] \<longleftrightarrow> True"
| "attempts_ok s k (e # es) \<longleftrightarrow>
     se_step_id e = sid s \<and> se_attempt e = k \<and> (es \<noteq> [] \<longrightarrow> se_status e = StepStatusFailed)
     \<and> attempts_ok s (k + 1) es"

definition same_frame :: "rt \<Rightarrow> rt \<Rightarrow> bool" where
  "same_frame r r' \<longleftrightarrow>
     fixed (rt_exec r') = fixed (rt_exec r)
     \<and> ex_compensations (rt_exec r') = ex_compensations (rt_exec r)
     \<and> ex_failure (rt_exec r') = ex_failure (rt_exec r)
     \<and> ex_completed_at (rt_exec r') = ex_completed_at (rt_exec r)"

lemma same_frame_refl [simp]: "same_frame r r"
  by (simp add: same_frame_def)

lemma same_frame_trans: "same_frame r s \<Longrightarrow> same_frame s t \<Longrightarrow> same_frame r t"
  by (simp add: same_frame_def)

lemma same_frame_prims [frame_simps]:
  "same_frame r (close_step ev s k st a b f ns e r') = same_frame r r'"
  "same_frame r (emit_run x r') = same_frame r r'"
  "same_frame r (start_attempt ev sc k r') = same_frame r r'"
  "same_frame r (snd (call_activity ev sc r')) = same_frame r r'"
  "same_frame r (log_audit ev s d p q r') = same_frame r r'"
  "same_frame r (r'\<lparr>rt_inbox := i\<rparr>) = same_frame r r'"
  "same_frame r (r'\<lparr>rt_blocked := x3\<rparr>) = same_frame r r'"
  "same_frame r (update_exec ev r') = same_frame r r'"
  "same_frame r (set_status xst r') = same_frame r r'"
  by (simp_all add: same_frame_def frame_simps start_attempt_exec)

text \<open>How the new events of a step end, by its result.\<close>

definition ends_with :: "(failure + obj) option \<Rightarrow> step_event list \<Rightarrow> bool" where
  "ends_with res es \<longleftrightarrow>
     (case res of
        Some (Inr outs) \<Rightarrow> es \<noteq> [] \<and> se_status (last es) = StepStatusCompleted \<and> se_outputs (last es) = outs
      | Some (Inl f) \<Rightarrow> es \<noteq> [] \<longrightarrow> se_status (last es) = StepStatusFailed
      | None \<Rightarrow> es \<noteq> [] \<and> se_status (last es) = StepStatusWaiting)"

lemma suspend_effect:
  assumes "open_attempt (sc_step sc) k xs (rt_exec r)" "suspend_step ev sc k out r = (res, r')"
  shows "same_frame r r' \<and> (\<exists>e. ex_steps (rt_exec r') = xs @ [e] \<and> se_step_id e = sid (sc_step sc)
     \<and> se_attempt e = k \<and> ends_with res [e]) \<and> (res = None \<longrightarrow> rt_blocked r')"
proof -
  let ?s = "sc_step sc" and ?i = "sc_inputs sc"
  define r1 where "r1 = close_step ev ?s k StepStatusWaiting ?i (ao_outputs out) None (Some StatusWaiting)
      (EventStepWaitingHuman (sid ?s) (st_approver_role (core ?s)) (st_on_timeout (core ?s)) (ao_reason out)) r"
  have c1: "closed_attempt ?s k StepStatusWaiting (ao_outputs out) xs (rt_exec r1)"
    unfolding r1_def using assms(1) by (rule closed_close)
  have f1: "same_frame r r1" by (simp add: r1_def frame_simps)
  define answer where "answer = (if sc_nil_signals sc
      then (case await_hitl_nil ?s ?i of (a, d, fin) \<Rightarrow> Some (a, d, fin, rt_inbox r1))
      else await_hitl_signal ?s ?i (rt_inbox r1))"
  note def = assms(2) [unfolded suspend_step_def Let_def, folded r1_def, folded answer_def]
  show ?thesis
  proof (cases answer)
    case None
    then have "res = None" "r' = r1\<lparr>rt_inbox := [], rt_blocked := True\<rparr>" using def by auto
    then show ?thesis using c1 f1 by (auto simp: frame_simps closed_attempt_def ends_with_def)
  next
    case (Some a)
    obtain x d fin rest where a: "a = (x, d, fin, rest)" by (cases a) auto
    define r2 where "r2 = log_audit ev ?s d ?i fin (r1\<lparr>rt_inbox := rest\<rparr>)"
    have c2: "open_attempt ?s k xs (rt_exec r2)"
      using closed_open [OF c1] by (simp add: r2_def frame_simps)
    have f2: "same_frame r r2" using f1 by (simp add: r2_def frame_simps)
    show ?thesis
    proof (cases x)
      case (Inl f)
      define r3 where "r3 = (if d = ''escalated''
          then emit_run (EventStepEscalated (sid ?s) (st_escalation_role (core ?s))) r2 else r2)"
      have res: "res = Some (Inl f)" "r' = close_step ev ?s k StepStatusFailed ?i [] (Some f) None
          (EventStepFailed (sid ?s) f) r3"
        using def by (auto simp: Some a Inl r2_def r3_def)
      have "open_attempt ?s k xs (rt_exec r3)" using c2 by (simp add: r3_def frame_simps)
      from closed_close [OF this] have "closed_attempt ?s k StepStatusFailed [] xs (rt_exec r')"
        by (simp add: res)
      moreover have "same_frame r r'" using f2 by (simp add: res r3_def frame_simps)
      ultimately show ?thesis by (auto simp: res(1) closed_attempt_def ends_with_def)
    next
      case (Inr outs)
      have res: "res = Some (Inr outs)" "r' = close_step ev ?s k StepStatusCompleted fin outs None
          (Some StatusRunning) (EventStepCompleted (sid ?s) outs) r2"
        using def by (simp_all add: Some a Inr r2_def)
      from closed_close [OF c2] have "closed_attempt ?s k StepStatusCompleted outs xs (rt_exec r')"
        by (simp add: res)
      moreover have "same_frame r r'" using f2 by (simp add: res frame_simps)
      ultimately show ?thesis by (auto simp: res(1) closed_attempt_def ends_with_def)
    qed
  qed
qed

text \<open>What a run of a step may end in: never the deadlock of the run loop.\<close>

definition step_failure :: "(failure + obj) option \<Rightarrow> bool" where
  "step_failure res \<longleftrightarrow> res \<noteq> Some (Inl DeadlockUnresolvedDeps)"

lemma await_failure: "await_hitl_signal s i inbox = Some (Inl f, d, fin, rest) \<Longrightarrow> f \<noteq> DeadlockUnresolvedDeps"
  by (induction s i inbox rule: await_hitl_signal.induct)
    (auto simp: on_timer_def split: if_splits)

lemma suspend_failure: "suspend_step ev sc k out r = (res, r') \<Longrightarrow> step_failure res"
  by (auto simp: suspend_step_def Let_def step_failure_def await_hitl_nil_def on_timer_def
      dest: await_failure split: if_splits option.splits sum.splits)

lemma run_attempts_effect:
  "run_attempts ev sc maxa n k le r = (res, r') \<Longrightarrow>
     same_frame r r' \<and> step_failure res \<and> (res = None \<longrightarrow> rt_blocked r')
     \<and> (\<exists>new. ex_steps (rt_exec r') = ex_steps (rt_exec r) @ new \<and> length new \<le> n
          \<and> attempts_ok (sc_step sc) k new \<and> ends_with res new)"
proof (induction n arbitrary: k le r)
  case 0
  then show ?case by (auto simp: ends_with_def step_failure_def)
next
  case (Suc n)
  let ?s = "sc_step sc" and ?i = "sc_inputs sc" and ?xs = "ex_steps (rt_exec r)"
  define r1 where "r1 = start_attempt ev sc k r"
  have o1: "open_attempt ?s k ?xs (rt_exec r1)" unfolding r1_def by (rule open_start)
  have f1: "same_frame r r1" by (simp add: r1_def frame_simps)
  define unbound where "unbound = unbound_trigger_references ?i"
  define call where "call = call_activity ev sc r1"
  have o2: "open_attempt ?s k ?xs (rt_exec (snd call))" and f2: "same_frame r (snd call)"
    using o1 f1 by (simp_all add: call_def frame_simps)
  note def = Suc.prems [simplified run_attempts.simps Let_def, folded r1_def, folded unbound_def call_def]
  have closed: "same_frame r r' \<and> step_failure res \<and> (res = None \<longrightarrow> rt_blocked r')
      \<and> (\<exists>new. ex_steps (rt_exec r') = ?xs @ new \<and> length new \<le> Suc n \<and> attempts_ok ?s k new
           \<and> ends_with res new)"
    if h: "r' = close_step ev ?s k st a b f ns e q" "open_attempt ?s k ?xs (rt_exec q)" "same_frame r q"
      "step_failure res" "res \<noteq> None" "\<And>x. se_status x = st \<Longrightarrow> se_outputs x = b \<Longrightarrow> ends_with res [x]"
    for st a b f ns e q
  proof -
    obtain x where "ex_steps (rt_exec r') = ?xs @ [x]" "se_step_id x = sid ?s" "se_attempt x = k"
      "se_status x = st" "se_outputs x = b"
      using closed_close [OF h(2)] unfolding h(1) closed_attempt_def by blast
    with h show ?thesis by (intro conjI exI [of _ "[x]"]) (auto simp: frame_simps)
  qed
  show ?case
  proof (cases "length unbound > 0")
    case True
    with def have "res = Some (Inl (UnboundTriggerReference unbound))"
      "r' = close_step ev ?s k StepStatusFailed ?i [] (Some (UnboundTriggerReference unbound)) None
            (EventStepFailed (sid ?s) (UnboundTriggerReference unbound)) r1"
      by auto
    then show ?thesis using o1 f1 by (intro closed) (auto simp: step_failure_def ends_with_def)
  next
    case nob: False
    show ?thesis
    proof (cases "fst call")
      case (Inr out)
      show ?thesis
      proof (cases "ao_wait out")
        case True
        with def nob Inr have s: "suspend_step ev sc k out (snd call) = (res, r')"
          by (cases call) auto
        obtain e where "same_frame (snd call) r'" "ex_steps (rt_exec r') = ?xs @ [e]" "se_step_id e = sid ?s"
          "se_attempt e = k" "ends_with res [e]" "res = None \<longrightarrow> rt_blocked r'"
          using suspend_effect [OF o2 s] by blast
        with f2 suspend_failure [OF s] show ?thesis
          by (intro conjI exI [of _ "[e]"]) (auto intro: same_frame_trans)
      next
        case False
        with def nob Inr have "res = Some (Inr (ao_outputs out))"
          "r' = close_step ev ?s k StepStatusCompleted ?i (ao_outputs out) None None
                (EventStepCompleted (sid ?s) (ao_outputs out)) (snd call)"
          by (cases call; auto)+
        then show ?thesis using o2 f2 by (intro closed) (auto simp: step_failure_def ends_with_def)
      qed
    next
      case (Inl err)
      show ?thesis
      proof (cases "should_retry (st_retries (core ?s)) err k maxa")
        case False
        with def nob Inl have "res = Some (Inl (ActivityFailed err))"
          "r' = close_step ev ?s k StepStatusFailed ?i [] (Some (ActivityFailed err)) None
                (EventStepFailed (sid ?s) (ActivityFailed err)) (snd call)"
          by (cases call; auto)+
        then show ?thesis using o2 f2 by (intro closed) (auto simp: step_failure_def ends_with_def)
      next
        case True
        define q where "q = close_step ev ?s k StepStatusFailed ?i [] (Some (ActivityFailed err)) None
            (EventRetried (sid ?s) k (ActivityFailed err)) (snd call)"
        have rec: "run_attempts ev sc maxa n (k + 1) (Some (ActivityFailed err)) q = (res, r')"
          using def nob Inl True by (cases call) (auto simp: q_def)
        obtain x where x: "ex_steps (rt_exec q) = ?xs @ [x]" "se_step_id x = sid ?s" "se_attempt x = k"
          "se_status x = StepStatusFailed"
          using closed_close [OF o2] unfolding q_def closed_attempt_def by blast
        obtain new where "same_frame q r'" "step_failure res" "res = None \<longrightarrow> rt_blocked r'"
          "ex_steps (rt_exec r') = ex_steps (rt_exec q) @ new" "length new \<le> n"
          "attempts_ok ?s (k + 1) new" "ends_with res new"
          using Suc.IH [OF rec] by blast
        moreover have "same_frame r q" using f2 by (simp add: q_def frame_simps)
        ultimately show ?thesis using x
          by (intro conjI exI [of _ "x # new"])
            (auto simp: ends_with_def intro: same_frame_trans split: option.splits sum.splits)
      qed
    qed
  qed
qed

lemma run_step_effect:
  assumes "run_step ev sc r = (res, r')"
  shows "same_frame r r' \<and> step_failure res \<and> (res = None \<longrightarrow> rt_blocked r')
     \<and> (\<exists>new. ex_steps (rt_exec r') = ex_steps (rt_exec r) @ new
          \<and> length new \<le> nat (max_attempts (st_retries (core (sc_step sc))))
          \<and> attempts_ok (sc_step sc) 1 new \<and> ends_with res new
          \<and> (new \<noteq> [] \<longrightarrow> \<not> pinned_out (rt_exec r) (sc_step sc)))"
proof (cases "pinned_out (rt_exec r) (sc_step sc) \<or> \<not> env_registered ev (stype (sc_step sc))")
  case True
  then show ?thesis using assms
    by (auto simp: run_step_def Let_def frame_simps step_failure_def ends_with_def split: if_splits)
next
  case False
  then have "run_attempts ev sc (max_attempts (st_retries (core (sc_step sc))))
      (nat (max_attempts (st_retries (core (sc_step sc))))) 1 None r = (res, r')"
    using assms by (simp add: run_step_def Let_def)
  from run_attempts_effect [OF this] False show ?thesis by blast
qed

section \<open>A proof rule for the run loop\<close>

definition loop_context :: "step \<Rightarrow> completed \<Rightarrow> rt \<Rightarrow> step_context" where
  "loop_context s produced r =
     \<lparr>sc_step = s,
      sc_inputs = resolve_inputs_with_trigger s (ex_inputs (rt_exec r)) produced
                    (ex_trigger_event (rt_exec r)),
      sc_nil_signals = False\<rparr>"

definition polled :: "rt \<Rightarrow> rt" where
  "polled r = r\<lparr>rt_polls := rt_polls r + 1\<rparr>"

text \<open>An invariant of the loop and a property of the result: one obligation per way out.\<close>

lemma run_loop_rule:
  assumes fin: "\<And>produced comps r. I [] produced comps r \<Longrightarrow>
      Q (let r2 = complete_now ev (set_outputs (aggregate_outputs w produced) (set_status StatusCompleted r))
         in emit_run (EventExecutionCompleted (ex_workflow_id (rt_exec r2)) (ex_version (rt_exec r2))) r2)"
    and dead: "\<And>pending produced comps r. I pending produced comps r \<Longrightarrow> pending \<noteq> [] \<Longrightarrow>
      next_runnable (sp_steps (wf_spec w)) pending produced = None \<Longrightarrow>
      Q (emit_run (EventExecutionFailed None DeadlockUnresolvedDeps)
           (complete_now ev (fail_with DeadlockUnresolvedDeps r)))"
    and canc: "\<And>pending produced comps r. I pending produced comps r \<Longrightarrow> env_ctx_done ev (rt_polls r) \<Longrightarrow>
      Q (complete_now ev (set_status StatusCancelled (polled r)))"
    and blocked: "\<And>pending produced comps r s r1. I pending produced comps r \<Longrightarrow>
      next_runnable (sp_steps (wf_spec w)) pending produced = Some s \<Longrightarrow>
      run_step ev (loop_context s produced r) (polled r) = (None, r1) \<Longrightarrow> Q r1"
    and fail: "\<And>pending produced comps r s f r1. I pending produced comps r \<Longrightarrow>
      next_runnable (sp_steps (wf_spec w)) pending produced = Some s \<Longrightarrow>
      run_step ev (loop_context s produced r) (polled r) = (Some (Inl f), r1) \<Longrightarrow>
      Q (complete_now ev (compensate ev w comps
           (emit_run (EventExecutionFailed (Some (sid s)) f) (update_exec ev (fail_with f r1)))))"
    and step: "\<And>pending produced comps r s out r1. I pending produced comps r \<Longrightarrow>
      next_runnable (sp_steps (wf_spec w)) pending produced = Some s \<Longrightarrow>
      run_step ev (loop_context s produced r) (polled r) = (Some (Inr out), r1) \<Longrightarrow>
      I (removeAll (sid s) pending) (AList.update (sid s) out produced)
        (if st_compensate_with (core s) \<noteq> [] then comps @ [s] else comps) r1"
  shows "I pending produced comps r \<Longrightarrow> Q (run_loop ev w pending produced comps r)"
proof (induction "length pending" arbitrary: pending produced comps r rule: less_induct)
  case less
  note I = less.prems
  note unf = run_loop.simps [of ev w pending produced comps r, folded polled_def]
  show ?case
  proof (cases "pending = []")
    case True
    then show ?thesis using fin [of produced comps r] I unfolding unf by (simp add: Let_def)
  next
    case ne: False
    show ?thesis
    proof (cases "next_runnable (sp_steps (wf_spec w)) pending produced")
      case None
      with ne dead [OF I ne None] show ?thesis by (simp add: unf)
    next
      case (Some s)
      show ?thesis
      proof (cases "env_ctx_done ev (rt_polls r)")
        case True
        with ne Some canc [OF I True] show ?thesis by (simp add: unf)
      next
        case go: False
        obtain res r1 where rs: "run_step ev (loop_context s produced r) (polled r) = (res, r1)"
          by fastforce
        note rs' = rs [unfolded loop_context_def]
        consider "res = None" | f where "res = Some (Inl f)" | out where "res = Some (Inr out)"
          by (cases res; cases "the res") auto
        then show ?thesis
        proof cases
          case 1
          with rs rs' blocked [OF I Some] ne Some go show ?thesis by (simp add: unf Let_def)
        next
          case 2
          with rs rs' fail [OF I Some] ne Some go show ?thesis by (simp add: unf Let_def)
        next
          case 3
          have "length (removeAll (sid s) pending) < length pending"
            using next_runnable_pending [OF Some] by (rule length_removeAll_less)
          from less.hyps [OF this step [OF I Some rs [unfolded 3]]] rs' 3 ne Some go
          show ?thesis by (simp add: unf Let_def)
        qed
      qed
    qed
  qed
qed

section \<open>Frames of the rest of the loop\<close>

lemma complete_now_exec [frame_simps]:
  "fixed (rt_exec (complete_now ev r)) = fixed (rt_exec r)"
  "ex_steps (rt_exec (complete_now ev r)) = ex_steps (rt_exec r)"
  "ex_status (rt_exec (complete_now ev r)) = ex_status (rt_exec r)"
  "ex_failure (rt_exec (complete_now ev r)) = ex_failure (rt_exec r)"
  "ex_completed_at (rt_exec (complete_now ev r)) \<noteq> None"
  "snapshot (rt_engine (complete_now ev r)) (ex_id (rt_exec (complete_now ev r)))
     = Some (rt_exec (complete_now ev r))"
  by (simp_all add: complete_now_def rt_defs frame_simps put_exec_def snapshot_def AList.update_conv')

lemma exec_fail [frame_simps]:
  "rt_exec (fail_with f r) = (rt_exec r)\<lparr>ex_status := StatusFailed, ex_failure := Some f\<rparr>"
  "rt_exec (set_outputs o1 r) = (rt_exec r)\<lparr>ex_outputs := o1\<rparr>"
  "rt_exec (polled r) = rt_exec r"
  by (simp_all add: fail_with_def set_outputs_def polled_def on_exec_def)

lemma loop_context_step [simp]: "sc_step (loop_context s produced r) = s"
  by (simp add: loop_context_def)

lemma ex_status_close [frame_simps]:
  "ex_status (rt_exec (close_step ev s k st a b f ns e r)) =
     (case ns of Some st' \<Rightarrow> st' | None \<Rightarrow> ex_status (rt_exec r))"
  by (simp add: close_step_exec mark_step_def Let_def split: option.split)

lemma ex_status_start [frame_simps]: "ex_status (rt_exec (start_attempt ev sc k r)) = ex_status (rt_exec r)"
  by (simp add: start_attempt_exec)

lemma suspend_status:
  "suspend_step ev sc k out r = (res, r') \<Longrightarrow> ex_status (rt_exec r') \<in> {StatusWaiting, StatusRunning}"
  by (auto simp: suspend_step_def Let_def frame_simps split: if_splits option.splits sum.splits)

lemma call_activity_cases:
  "call_activity ev sc r = (x, r') \<Longrightarrow> rt_exec r' = rt_exec r"
  by (auto simp: call_activity_def Let_def)

lemma run_attempts_status:
  "run_attempts ev sc maxa n k le r = (res, r') \<Longrightarrow>
     ex_status (rt_exec r') \<in> {ex_status (rt_exec r), StatusWaiting, StatusRunning}"
proof (induction n arbitrary: k le r)
  case 0
  then show ?case by simp
next
  case (Suc n)
  obtain x r2 where call: "call_activity ev sc (start_attempt ev sc k r) = (x, r2)" by fastforce
  have r2: "ex_status (rt_exec r2) = ex_status (rt_exec r)"
    using call_activity_cases [OF call] by (simp add: frame_simps)
  note def = Suc.prems [simplified run_attempts.simps Let_def call prod.case]
  show ?case
  proof (cases "length (unbound_trigger_references (sc_inputs sc)) > 0")
    case True
    with def have "r' = close_step ev (sc_step sc) k StepStatusFailed (sc_inputs sc) []
        (Some (UnboundTriggerReference (unbound_trigger_references (sc_inputs sc)))) None
        (EventStepFailed (sid (sc_step sc))
          (UnboundTriggerReference (unbound_trigger_references (sc_inputs sc))))
        (start_attempt ev sc k r)"
      by simp
    then show ?thesis by (simp add: frame_simps)
  next
    case nob: False
    show ?thesis
    proof (cases x)
      case (Inr out)
      show ?thesis
      proof (cases "ao_wait out")
        case True
        with def nob Inr have "suspend_step ev sc k out r2 = (res, r')" by simp
        then show ?thesis using suspend_status by blast
      next
        case False
        with def nob Inr have "r' = close_step ev (sc_step sc) k StepStatusCompleted (sc_inputs sc)
            (ao_outputs out) None None (EventStepCompleted (sid (sc_step sc)) (ao_outputs out)) r2"
          by simp
        then show ?thesis by (simp add: frame_simps r2)
      qed
    next
      case (Inl err)
      show ?thesis
      proof (cases "should_retry (st_retries (core (sc_step sc))) err k maxa")
        case True
        with def nob Inl have "run_attempts ev sc maxa n (k + 1) (Some (ActivityFailed err))
            (close_step ev (sc_step sc) k StepStatusFailed (sc_inputs sc) [] (Some (ActivityFailed err))
               None (EventRetried (sid (sc_step sc)) k (ActivityFailed err)) r2) = (res, r')"
          by simp
        from Suc.IH [OF this] show ?thesis by (simp add: frame_simps r2)
      next
        case False
        with def nob Inl have "r' = close_step ev (sc_step sc) k StepStatusFailed (sc_inputs sc) []
            (Some (ActivityFailed err)) None (EventStepFailed (sid (sc_step sc)) (ActivityFailed err)) r2"
          by simp
        then show ?thesis by (simp add: frame_simps r2)
      qed
    qed
  qed
qed

lemma run_step_status:
  "run_step ev sc r = (res, r') \<Longrightarrow>
     ex_status (rt_exec r') \<in> {ex_status (rt_exec r), StatusWaiting, StatusRunning}"
proof -
  assume rs: "run_step ev sc r = (res, r')"
  show ?thesis
  proof (cases "pinned_out (rt_exec r) (sc_step sc) \<or> \<not> env_registered ev (stype (sc_step sc))")
    case True
    with rs have "r' = r \<or> r' = emit_run (EventGuardrailTrip ''asset_not_in_pinned_set'') r"
      unfolding run_step_def Let_def by (metis Pair_inject)
    then have "rt_exec r' = rt_exec r" by (auto simp: frame_simps)
    then show ?thesis by simp
  next
    case False
    with rs have "run_attempts ev sc (max_attempts (st_retries (core (sc_step sc))))
      (nat (max_attempts (st_retries (core (sc_step sc))))) 1 None r = (res, r')"
      by (simp add: run_step_def Let_def)
    then show ?thesis by (rule run_attempts_status)
  qed
qed

text \<open>A step adds events; a compensation adds the events of its steps and one item.\<close>

lemma attempts_ok_ids: "attempts_ok s k es \<Longrightarrow> e \<in> set es \<Longrightarrow> se_step_id e = sid s"
  by (induction s k es rule: attempts_ok.induct) auto

lemma run_step_steps:
  assumes "run_step ev sc r = (res, r')"
  shows "\<exists>new. ex_steps (rt_exec r') = ex_steps (rt_exec r) @ new \<and> ends_with res new
    \<and> (\<forall>e\<in>set new. se_step_id e = sid (sc_step sc) \<and> \<not> pinned_out (rt_exec r) (sc_step sc))"
proof -
  obtain new where new: "ex_steps (rt_exec r') = ex_steps (rt_exec r) @ new"
    "attempts_ok (sc_step sc) 1 new" "ends_with res new"
    "new \<noteq> [] \<longrightarrow> \<not> pinned_out (rt_exec r) (sc_step sc)"
    using run_step_effect [OF assms] by blast
  have "\<forall>e\<in>set new. se_step_id e = sid (sc_step sc) \<and> \<not> pinned_out (rt_exec r) (sc_step sc)"
    using attempts_ok_ids [OF new(2)] new(4) by (cases new) auto
  with new show ?thesis by blast
qed

lemma pinned_out_fixed: "fixed a = fixed b \<Longrightarrow> pinned_out a s = pinned_out b s"
  by (simp add: pinned_out_def fixed_fields(2) [of a b])

end
