(* ===== verification/Workflow_Run.thy ===== *)
theory Workflow_Run
  imports Workflow_Runtime Workflow_Lint
begin

text \<open>
  What a whole run of the in-memory engine guarantees: dependency order, retries, pinned assets,
  compensation in reverse order, the end of a run, and the absence of deadlocks; and the guarantees
  of the engine's interface: tenants, signal channels, backoff.
\<close>

section \<open>The store of executions\<close>

interpretation executions: keyed_store snapshot put_exec ex_id
  by unfold_locales (simp add: snapshot_def put_exec_def AList.update_conv')

section \<open>Dependency order\<close>

text \<open>Every event belongs to a step whose dependencies all completed in earlier events.\<close>

definition dep_ordered :: "workflow \<Rightarrow> step_event list \<Rightarrow> bool" where
  "dep_ordered w es \<longleftrightarrow>
     (\<forall>xs e ys. es = xs @ e # ys \<longrightarrow>
        (\<exists>s\<in>set (sp_steps (wf_spec w)). sid s = se_step_id e
           \<and> (\<forall>d\<in>set (st_depends_on (core s)).
                \<exists>c\<in>set xs. se_step_id c = d \<and> se_status c = StepStatusCompleted)))"

lemma dep_ordered_append:
  assumes "dep_ordered w es" "s \<in> set (sp_steps (wf_spec w))" "\<forall>e\<in>set new. se_step_id e = sid s"
    "\<forall>d\<in>set (st_depends_on (core s)). \<exists>c\<in>set es. se_step_id c = d \<and> se_status c = StepStatusCompleted"
  shows "dep_ordered w (es @ new)"
  unfolding dep_ordered_def
proof (intro allI impI)
  fix xs e ys
  assume eq: "es @ new = xs @ e # ys"
  show "\<exists>s\<in>set (sp_steps (wf_spec w)). sid s = se_step_id e
      \<and> (\<forall>d\<in>set (st_depends_on (core s)). \<exists>c\<in>set xs. se_step_id c = d \<and> se_status c = StepStatusCompleted)"
  proof (cases "length xs < length es")
    case True
    then obtain us where "es = xs @ e # us"
      using eq by (auto simp: append_eq_append_conv2 Cons_eq_append_conv append_eq_Cons_conv)
    then show ?thesis using assms(1) unfolding dep_ordered_def by blast
  next
    case False
    then obtain us where us: "xs = es @ us" "new = us @ e # ys"
      using eq by (auto simp: append_eq_append_conv2)
    then show ?thesis using assms(2-4) by (intro bexI [of _ s]) auto
  qed
qed

definition loop_inv :: "workflow \<Rightarrow> string list \<Rightarrow> completed \<Rightarrow> step list \<Rightarrow> rt \<Rightarrow> bool" where
  "loop_inv w pending produced comps r \<longleftrightarrow>
     dep_ordered w (ex_steps (rt_exec r))
     \<and> (\<forall>d. map_of produced d \<noteq> None \<longrightarrow>
          (\<exists>c\<in>set (ex_steps (rt_exec r)). se_step_id c = d \<and> se_status c = StepStatusCompleted))
     \<and> (\<forall>s\<in>set (sp_steps (wf_spec w)). sid s \<in> set pending \<or> map_of produced (sid s) \<noteq> None)
     \<and> ex_status (rt_exec r) \<in> {StatusRunning, StatusWaiting}"

lemma next_runnableD:
  assumes "next_runnable steps pending produced = Some s"
  shows "s \<in> set steps" "sid s \<in> set pending"
    "\<forall>d\<in>set (st_depends_on (core s)). map_of produced d \<noteq> None"
  using assms by (auto simp: next_runnable_def runnable_def list_all_iff dest!: find_SomeD)

lemma loop_inv_step:
  assumes inv: "loop_inv w pending produced comps r"
    and nxt: "next_runnable (sp_steps (wf_spec w)) pending produced = Some s"
    and rs: "run_step ev (loop_context s produced r) (polled r) = (Some (Inr out), r1)"
  shows "loop_inv w (removeAll (sid s) pending) (AList.update (sid s) out produced) comps' r1"
proof -
  note n = next_runnableD [OF nxt]
  obtain new where new: "ex_steps (rt_exec r1) = ex_steps (rt_exec r) @ new"
    "ends_with (Some (Inr out)) new" and ids: "\<forall>e\<in>set new. se_step_id e = sid s"
    using run_step_steps [OF rs] by (auto simp: frame_simps)
  have "dep_ordered w (ex_steps (rt_exec r1))"
    unfolding new(1) using inv n ids by (intro dep_ordered_append) (auto simp: loop_inv_def)
  moreover have "last new \<in> set new \<and> se_status (last new) = StepStatusCompleted"
    using new(2) by (simp add: ends_with_def)
  then have "\<exists>c\<in>set (ex_steps (rt_exec r1)). se_step_id c = sid s \<and> se_status c = StepStatusCompleted"
    using ids by (auto simp: new(1))
  moreover have "ex_status (rt_exec r1) \<in> {StatusRunning, StatusWaiting}"
    using run_step_status [OF rs] inv by (auto simp: loop_inv_def frame_simps)
  ultimately show ?thesis
    using inv by (auto simp: loop_inv_def AList.update_conv' new(1))
qed

lemma compensate_one_status:
  "ex_status (rt_exec (compensate_one ev w s r)) \<in> {ex_status (rt_exec r), StatusWaiting, StatusRunning}"
proof (cases "find_compensation_step w (st_compensate_with (core s))")
  case None
  then show ?thesis by (simp add: compensate_one_def)
next
  case (Some c)
  obtain res r1 where rs: "run_step ev \<lparr>sc_step = c, sc_inputs = [(''compensating_for'', VString (sid s))],
      sc_nil_signals = True\<rparr> r = (res, r1)"
    by fastforce
  show ?thesis
    using run_step_status [OF rs]
    by (simp add: compensate_one_def Some rs Let_def case_prod_beta frame_simps)
qed

lemma compensate_fold_status:
  "ex_status (rt_exec r) \<noteq> x \<Longrightarrow> x \<in> {StatusCompleted, StatusCancelled} \<Longrightarrow>
     ex_status (rt_exec (fold (compensate_one ev w) ss r)) \<noteq> x"
proof (induction ss arbitrary: r)
  case (Cons s ss)
  have "ex_status (rt_exec (compensate_one ev w s r)) \<noteq> x"
    using compensate_one_status [of ev w s r] Cons.prems by auto
  with Cons show ?case by simp
qed simp

lemma compensate_failed [simp]:
  "ex_status (rt_exec (compensate ev w ss (emit_run x (update_exec ev (fail_with f r))))) \<noteq> StatusCompleted"
  "ex_status (rt_exec (compensate ev w ss (emit_run x (update_exec ev (fail_with f r))))) \<noteq> StatusCancelled"
  by (simp_all add: compensate_def frame_simps compensate_fold_status)

section \<open>Compensation and the frame of a run\<close>

lemma compensate_one_frame:
  assumes "compensate_one ev w s r = r'"
  shows "fixed (rt_exec r') = fixed (rt_exec r) \<and> ex_failure (rt_exec r') = ex_failure (rt_exec r)
    \<and> map ci_for_step_id (ex_compensations (rt_exec r'))
        = map ci_for_step_id (ex_compensations (rt_exec r))
          @ (if find_compensation_step w (st_compensate_with (core s)) = None then [] else [sid s])
    \<and> (\<exists>new. ex_steps (rt_exec r') = ex_steps (rt_exec r) @ new
         \<and> (\<forall>e\<in>set new. \<exists>c. find_compensation_step w (st_compensate_with (core s)) = Some c
              \<and> sid c = se_step_id e \<and> \<not> pinned_out (rt_exec r) c))"
proof (cases "find_compensation_step w (st_compensate_with (core s))")
  case None
  with assms show ?thesis by (auto simp: compensate_one_def)
next
  case (Some c)
  obtain res r1 where rs: "run_step ev \<lparr>sc_step = c, sc_inputs = [(''compensating_for'', VString (sid s))],
      sc_nil_signals = True\<rparr> r = (res, r1)"
    by fastforce
  obtain new where new: "ex_steps (rt_exec r1) = ex_steps (rt_exec r) @ new"
    "\<forall>e\<in>set new. se_step_id e = sid c \<and> \<not> pinned_out (rt_exec r) c"
    using run_step_steps [OF rs] by auto
  have "\<forall>e\<in>set new. \<exists>c. find_compensation_step w (st_compensate_with (core s)) = Some c
      \<and> sid c = se_step_id e \<and> \<not> pinned_out (rt_exec r) c"
    using new(2) by (auto simp: Some)
  moreover have "same_frame r r1" using run_step_effect [OF rs] by blast
  ultimately show ?thesis
    using assms new(1) by (auto simp: compensate_one_def Some rs Let_def case_prod_beta frame_simps same_frame_def)
qed

lemma find_compensation_in:
  "find_compensation_step w i = Some c \<Longrightarrow>
     c \<in> set (sp_steps (wf_spec w)) \<union> set (sp_on_failure (wf_spec w)) \<and> sid c = i"
  by (auto simp: find_compensation_step_def dest: find_SomeD split: option.splits)

text \<open>Every event is of a step of the workflow that the pinned assets allow.\<close>

definition pins_kept :: "workflow \<Rightarrow> execution \<Rightarrow> rt \<Rightarrow> bool" where
  "pins_kept w ex r \<longleftrightarrow> fixed (rt_exec r) = fixed ex
     \<and> (\<forall>e\<in>set (ex_steps (rt_exec r)).
          \<exists>s\<in>set (sp_steps (wf_spec w)) \<union> set (sp_on_failure (wf_spec w)).
            sid s = se_step_id e \<and> \<not> pinned_out ex s)"

lemma pins_kept_cong:
  "fixed (rt_exec r') = fixed (rt_exec r) \<Longrightarrow> ex_steps (rt_exec r') = ex_steps (rt_exec r) \<Longrightarrow>
     pins_kept w ex r' = pins_kept w ex r"
  by (simp add: pins_kept_def)

lemma pins_kept_prims [frame_simps]:
  "pins_kept w ex (complete_now ev r) = pins_kept w ex r"
  "pins_kept w ex (emit_run x r) = pins_kept w ex r"
  "pins_kept w ex (update_exec ev r) = pins_kept w ex r"
  "pins_kept w ex (set_status st r) = pins_kept w ex r"
  "pins_kept w ex (set_outputs o1 r) = pins_kept w ex r"
  "pins_kept w ex (fail_with f r) = pins_kept w ex r"
  "pins_kept w ex (polled r) = pins_kept w ex r"
  by (rule pins_kept_cong; simp add: frame_simps)+

lemma pins_kept_step:
  assumes "pins_kept w ex r" "s \<in> set (sp_steps (wf_spec w))" "run_step ev (loop_context s p r) (polled r) = (res, r1)"
  shows "pins_kept w ex r1"
proof -
  obtain new where new: "ex_steps (rt_exec r1) = ex_steps (rt_exec r) @ new"
    "\<forall>e\<in>set new. se_step_id e = sid s \<and> \<not> pinned_out (rt_exec r) s"
    using run_step_steps [OF assms(3)] by (auto simp: frame_simps)
  have "pinned_out (rt_exec r) s = pinned_out ex s"
    using assms(1) by (intro pinned_out_fixed) (simp add: pins_kept_def)
  moreover have "fixed (rt_exec r1) = fixed (rt_exec r)"
    using run_step_effect [OF assms(3)] by (simp add: same_frame_def frame_simps)
  ultimately show ?thesis
    using assms(1,2) new by (auto simp: pins_kept_def)
qed

lemma pins_kept_compensate_one:
  assumes "pins_kept w ex r"
  shows "pins_kept w ex (compensate_one ev w s r)"
proof -
  obtain new where new: "ex_steps (rt_exec (compensate_one ev w s r)) = ex_steps (rt_exec r) @ new"
    "\<forall>e\<in>set new. \<exists>c. find_compensation_step w (st_compensate_with (core s)) = Some c
        \<and> sid c = se_step_id e \<and> \<not> pinned_out (rt_exec r) c"
    and fx: "fixed (rt_exec (compensate_one ev w s r)) = fixed (rt_exec r)"
    using compensate_one_frame [OF refl] by blast
  have "pinned_out (rt_exec r) c = pinned_out ex c" for c
    using assms by (intro pinned_out_fixed) (simp add: pins_kept_def)
  then show ?thesis
    using assms new fx by (auto simp: pins_kept_def dest!: bspec find_compensation_in)
qed

lemma pins_kept_compensate: "pins_kept w ex r \<Longrightarrow> pins_kept w ex (compensate ev w ss r)"
proof -
  have "pins_kept w ex q \<Longrightarrow> pins_kept w ex (fold (compensate_one ev w) ss q)" for q ss
    by (induction ss arbitrary: q) (simp_all add: pins_kept_compensate_one)
  then show "pins_kept w ex r \<Longrightarrow> pins_kept w ex (compensate ev w ss r)"
    by (simp add: compensate_def frame_simps)
qed

section \<open>No deadlock\<close>

definition progress_inv :: "workflow \<Rightarrow> string list \<Rightarrow> completed \<Rightarrow> step list \<Rightarrow> rt \<Rightarrow> bool" where
  "progress_inv w pending produced comps r \<longleftrightarrow>
     (\<forall>s\<in>set (sp_steps (wf_spec w)). sid s \<in> set pending \<or> map_of produced (sid s) \<noteq> None)
     \<and> set pending \<subseteq> sid ` set (sp_steps (wf_spec w))
     \<and> ex_failure (rt_exec r) \<noteq> Some DeadlockUnresolvedDeps"

lemma settled_runnable:
  assumes deps: "\<And>s. s \<in> set steps \<Longrightarrow> g (sid s) = st_depends_on (core s)"
    and closed: "\<forall>s\<in>set steps. set (st_depends_on (core s)) \<subseteq> sid ` set steps"
    and cover: "\<forall>s\<in>set steps. sid s \<in> set pending \<or> map_of produced (sid s) \<noteq> None"
  shows "settled g i \<Longrightarrow> i \<in> set pending \<Longrightarrow> i \<in> sid ` set steps \<Longrightarrow> \<exists>s\<in>set steps. runnable pending produced s"
proof (induction rule: settled.induct)
  case (settledI i)
  then obtain s where s: "s \<in> set steps" "sid s = i" by auto
  show ?case
  proof (cases "\<exists>d\<in>set (st_depends_on (core s)). map_of produced d = None")
    case True
    then obtain d where d: "d \<in> set (st_depends_on (core s))" "map_of produced d = None" by blast
    then have "d \<in> sid ` set steps" using closed s by blast
    moreover from this d(2) cover have "d \<in> set pending" by auto
    ultimately show ?thesis using settledI.IH deps [OF s(1)] d(1) s(2) by auto
  next
    case False
    with s settledI show ?thesis by (auto simp: runnable_def list_all_iff)
  qed
qed

lemma next_runnable_None: "next_runnable steps pending produced = None \<Longrightarrow> \<not> (\<exists>s\<in>set steps. runnable pending produced s)"
  by (auto simp: next_runnable_def dest: find_NoneD)

lemma compensate_failure: "ex_failure (rt_exec (compensate ev w ss r)) = ex_failure (rt_exec r)"
proof -
  have "ex_failure (rt_exec (fold (compensate_one ev w) ss q)) = ex_failure (rt_exec q)" for q ss
  proof (induction ss arbitrary: q)
    case (Cons s ss)
    then show ?case using compensate_one_frame [OF refl, of ev w s q] by simp
  qed simp
  then show ?thesis by (simp add: compensate_def frame_simps)
qed

section \<open>Properties of a run\<close>

text \<open>C4: A run that completes has run every step, and in dependency order: each event of the execution
  belongs to a step of the workflow all of whose dependencies had already completed, and every
  step has a completed event.\<close>

theorem run_completes_in_order:
  assumes "ex_steps (rt_exec r) = []" "ex_status (rt_exec (run ev w r)) = StatusCompleted"
  shows "dep_ordered w (ex_steps (rt_exec (run ev w r)))
    \<and> (\<forall>s\<in>set (sp_steps (wf_spec w)). \<exists>c\<in>set (ex_steps (rt_exec (run ev w r))).
         se_step_id c = sid s \<and> se_status c = StepStatusCompleted)"
proof -
  define Q where "Q = (\<lambda>r' :: rt. ex_status (rt_exec r') = StatusCompleted \<longrightarrow>
    dep_ordered w (ex_steps (rt_exec r')) \<and> (\<forall>s\<in>set (sp_steps (wf_spec w)).
      \<exists>c\<in>set (ex_steps (rt_exec r')). se_step_id c = sid s \<and> se_status c = StepStatusCompleted))"
  have "Q (run_loop ev w (step_id_set (sp_steps (wf_spec w))) [] []
      (update_exec ev (set_status StatusRunning r)))"
  proof (rule run_loop_rule [where I = "loop_inv w"])
    fix produced comps q
    assume "loop_inv w [] produced comps q"
    then show "Q (let r2 = complete_now ev (set_outputs (aggregate_outputs w produced) (set_status StatusCompleted q))
         in emit_run (EventExecutionCompleted (ex_workflow_id (rt_exec r2)) (ex_version (rt_exec r2))) r2)"
      by (auto simp: Q_def Let_def frame_simps loop_inv_def)
  next
    fix pending produced comps q s r1
    assume "loop_inv w pending produced comps q"
      "run_step ev (loop_context s produced q) (polled q) = (None, r1)"
    then show "Q r1" by (auto simp: Q_def loop_inv_def frame_simps dest!: run_step_status)
  next
    show "loop_inv w (step_id_set (sp_steps (wf_spec w))) [] [] (update_exec ev (set_status StatusRunning r))"
      using assms(1) by (simp add: loop_inv_def frame_simps dep_ordered_def step_id_set_def)
  qed (auto simp: Q_def frame_simps intro: loop_inv_step)
  then show ?thesis using assms(2) by (simp add: Q_def run_def)
qed

text \<open>C18: When an execution pins assets, every step that is ever started, by the run or by its
  compensations, is a step of the workflow, and if it names a skill, an MCP server or an agent, that
  reference is on the list the execution pins for its family; an empty list admits none. Steps of other
  types are not restricted; in particular sub-workflow steps never are
  (\<open>sub_workflow_never_pinned_out\<close>), although the code means to.\<close>

theorem run_respects_pins:
  assumes "ex_steps (rt_exec r) = []" "e \<in> set (ex_steps (rt_exec (run ev w r)))"
    and pins: "ex_selected_assets (rt_exec r) = Some pins"
      "sa_skills pins \<noteq> [] \<or> sa_mcps pins \<noteq> [] \<or> sa_agents pins \<noteq> []"
  shows "\<exists>s\<in>set (sp_steps (wf_spec w)) \<union> set (sp_on_failure (wf_spec w)). sid s = se_step_id e \<and>
    (st_ref (core s) \<noteq> [] \<longrightarrow>
      (stype s = StepSkill \<longrightarrow> st_ref (core s) \<in> set (sa_skills pins)) \<and>
      (stype s = StepMCP \<longrightarrow> st_ref (core s) \<in> set (sa_mcps pins)) \<and>
      (stype s = StepAgent \<longrightarrow> st_ref (core s) \<in> set (sa_agents pins)))"
proof -
  have "pins_kept w (rt_exec r) (run_loop ev w (step_id_set (sp_steps (wf_spec w))) [] []
      (update_exec ev (set_status StatusRunning r)))"
  proof (rule run_loop_rule [where I = "\<lambda>_ _ _ q. pins_kept w (rt_exec r) q"])
    show "pins_kept w (rt_exec r) (update_exec ev (set_status StatusRunning r))"
      by (simp add: frame_simps) (simp add: pins_kept_def assms(1))
  next
    fix pending produced comps q s f r1
    assume "pins_kept w (rt_exec r) q" "next_runnable (sp_steps (wf_spec w)) pending produced = Some s"
      "run_step ev (loop_context s produced q) (polled q) = (Some (Inl f), r1)"
    then have "pins_kept w (rt_exec r) r1" by (blast intro: pins_kept_step next_runnableD(1))
    then show "pins_kept w (rt_exec r) (complete_now ev (compensate ev w comps
        (emit_run (EventExecutionFailed (Some (sid s)) f) (update_exec ev (fail_with f r1)))))"
      by (simp add: frame_simps pins_kept_compensate)
  qed (auto simp: Let_def frame_simps intro: pins_kept_step dest: next_runnableD(1))
  then obtain s where "s \<in> set (sp_steps (wf_spec w)) \<union> set (sp_on_failure (wf_spec w))"
    "sid s = se_step_id e" "\<not> pinned_out (rt_exec r) s"
    using assms(2) by (auto simp: run_def pins_kept_def)
  then show ?thesis
    using pins by (intro bexI [of _ s]) (auto simp: pinned_out_def assets_is_empty_def assets_allows_def)
qed

text \<open>Compensation is a saga in reverse: it runs the compensation steps of the completed compensable
  steps from the last one back to the first, skips a step whose compensation does not exist, and
  records exactly one item for each of the others, whatever the outcome of the compensations.\<close>

theorem compensation_in_reverse:
  "map ci_for_step_id (ex_compensations (rt_exec (compensate ev w successful r)))
     = map ci_for_step_id (ex_compensations (rt_exec r))
       @ map sid (filter (\<lambda>s. find_compensation_step w (st_compensate_with (core s)) \<noteq> None)
           (rev successful))"
proof -
  have "map ci_for_step_id (ex_compensations (rt_exec (fold (compensate_one ev w) ss q)))
     = map ci_for_step_id (ex_compensations (rt_exec q))
       @ map sid (filter (\<lambda>s. find_compensation_step w (st_compensate_with (core s)) \<noteq> None) ss)" for ss q
  proof (induction ss arbitrary: q)
    case (Cons s ss)
    then show ?case using compensate_one_frame [OF refl, of ev w s q] by simp
  qed simp
  then show ?thesis by (simp add: compensate_def frame_simps)
qed

text \<open>C19: Retries are bounded: a step makes at most \<open>max + 1\<close> attempts (one without a policy), numbered
  from 1 without a gap, all of them but the last failed; it succeeds only with a completed last
  attempt whose outputs it returns.\<close>

theorem step_attempts_bounded:
  assumes "run_step ev sc r = (res, r')"
  shows "\<exists>new. ex_steps (rt_exec r') = ex_steps (rt_exec r) @ new
    \<and> attempts_ok (sc_step sc) 1 new \<and> ends_with res new
    \<and> length new \<le> nat (max_attempts (st_retries (core (sc_step sc))))
    \<and> (case st_retries (core (sc_step sc)) of
         None \<Rightarrow> length new \<le> 1
       | Some p \<Rightarrow> int (length new) \<le> max 0 (rp_max p) + 1)"
proof -
  have le: "length new \<le> nat (max_attempts (Some p)) \<Longrightarrow> int (length new) \<le> max 0 (rp_max p) + 1"
    for new :: "step_event list" and p
  proof -
    have "wrap64 x \<le> x" if "0 < x" for x
    proof (cases "x < 2 ^ 63")
      case True
      then show ?thesis using that by (simp add: wrap64_id)
    next
      case False
      then show ?thesis using wrap64_bounds [of x] by linarith
    qed
    then have "max_attempts (Some p) \<le> max 0 (rp_max p) + 1" by (simp add: max_attempts_def)
    then show "length new \<le> nat (max_attempts (Some p)) \<Longrightarrow> int (length new) \<le> max 0 (rp_max p) + 1"
      by linarith
  qed
  obtain new where new: "ex_steps (rt_exec r') = ex_steps (rt_exec r) @ new"
    "length new \<le> nat (max_attempts (st_retries (core (sc_step sc))))"
    "attempts_ok (sc_step sc) 1 new" "ends_with res new"
    using run_step_effect [OF assms] by blast
  then show ?thesis using le
    by (intro exI [of _ new]) (auto simp: max_attempts_def split: option.split)
qed

text \<open>C20: A run always ends: it is either still waiting for a person, or its execution has an end time and
  the engine's store shows the execution as the run left it.\<close>

theorem run_ends:
  "rt_blocked (run ev w r)
   \<or> ex_completed_at (rt_exec (run ev w r)) \<noteq> None
     \<and> snapshot (rt_engine (run ev w r)) (ex_id (rt_exec (run ev w r))) = Some (rt_exec (run ev w r))"
proof -
  have emit: "snapshot (rt_engine (emit_run x q)) = snapshot (rt_engine q)" for x q
    by (rule ext) (simp add: snapshot_def emit_run_def emit_rt_def)
  have "(\<lambda>q. rt_blocked q \<or> ex_completed_at (rt_exec q) \<noteq> None
      \<and> snapshot (rt_engine q) (ex_id (rt_exec q)) = Some (rt_exec q))
    (run_loop ev w (step_id_set (sp_steps (wf_spec w))) [] [] (update_exec ev (set_status StatusRunning r)))"
    by (rule run_loop_rule [where I = "\<lambda>_ _ _ _. True"])
      (use run_step_effect complete_now_exec(5) in \<open>auto simp: Let_def emit exec_update complete_now_exec\<close>)
  then show ?thesis by (simp add: run_def)
qed

text \<open>C7: A workflow that lints without errors and whose top-level steps depend on top-level steps never
  deadlocks: whatever the activities answer, no run fails with \<open>deadlock_unresolved_deps\<close>.\<close>

theorem lint_clean_never_deadlocks:
  assumes "lint_clean w"
    "\<forall>s\<in>set (sp_steps (wf_spec w)). set (st_depends_on (core s)) \<subseteq> sid ` set (sp_steps (wf_spec w))"
    "ex_failure (rt_exec r) = None"
  shows "ex_failure (rt_exec (run ev w r)) \<noteq> Some DeadlockUnresolvedDeps"
proof -
  let ?steps = "sp_steps (wf_spec w)"
  have clean: "distinct (map sid (all_steps w))" "check_cycles w = []"
    using lint_clean_checks [OF assms(1)] by (simp_all add: check_duplicate_ids_iff)
  have top: "set ?steps \<subseteq> set (all_steps w)" by (auto simp: all_steps_def)
  have deps: "dep_graph w (sid s) = st_depends_on (core s)" if "s \<in> set ?steps" for s
    using dep_graph_distinct [OF clean(1)] top that by blast
  have free: "next_runnable ?steps pending produced \<noteq> None"
    if h: "progress_inv w pending produced comps q" "pending \<noteq> []" for pending produced comps q
  proof -
    obtain i where i: "i \<in> set pending" using h(2) by (cases pending) auto
    then have mem: "i \<in> sid ` set ?steps" using h(1) by (auto simp: progress_inv_def)
    then have "i \<in> set (graph_ids w)" using top by (auto simp: graph_ids_def)
    from acyclic_settled [OF clean(2) this] have "settled (dep_graph w) i" .
    then have "\<exists>s\<in>set ?steps. runnable pending produced s"
      using settled_runnable [OF deps assms(2)] h(1) i mem unfolding progress_inv_def by blast
    then show ?thesis using next_runnable_None by blast
  qed
  have nodead: "f \<noteq> DeadlockUnresolvedDeps" if "run_step ev sc q = (Some (Inl f), q')" for sc q f q'
    using run_step_effect [OF that] by (auto simp: step_failure_def)
  have keeps: "ex_failure (rt_exec q') = ex_failure (rt_exec q)" if "run_step ev sc q = (res, q')" for sc q res q'
    using run_step_effect [OF that] by (auto simp: same_frame_def)
  have "(\<lambda>q. ex_failure (rt_exec q) \<noteq> Some DeadlockUnresolvedDeps)
    (run_loop ev w (step_id_set ?steps) [] [] (update_exec ev (set_status StatusRunning r)))"
  proof (rule run_loop_rule [where I = "progress_inv w"])
    show "progress_inv w (step_id_set ?steps) [] [] (update_exec ev (set_status StatusRunning r))"
      using assms(3) by (simp add: progress_inv_def step_id_set_def frame_simps)
  next
    fix pending produced comps q s f r1
    assume "run_step ev (loop_context s produced q) (polled q) = (Some (Inl f), r1)"
    then show "ex_failure (rt_exec (complete_now ev (compensate ev w comps
        (emit_run (EventExecutionFailed (Some (sid s)) f) (update_exec ev (fail_with f r1))))))
      \<noteq> Some DeadlockUnresolvedDeps"
      using nodead by (simp add: frame_simps compensate_failure)
  next
    fix pending produced comps q s out r1
    assume "progress_inv w pending produced comps q" "run_step ev (loop_context s produced q) (polled q) = (Some (Inr out), r1)"
    then show "progress_inv w (removeAll (sid s) pending) (AList.update (sid s) out produced)
        (if st_compensate_with (core s) \<noteq> [] then comps @ [s] else comps) r1"
      by (auto simp: progress_inv_def AList.update_conv' frame_simps dest!: keeps)
  next
    fix pending produced comps q s r1
    assume "progress_inv w pending produced comps q" "run_step ev (loop_context s produced q) (polled q) = (None, r1)"
    then show "ex_failure (rt_exec r1) \<noteq> Some DeadlockUnresolvedDeps"
      by (auto simp: progress_inv_def frame_simps dest!: keeps)
  next
    fix pending produced comps q
    assume "progress_inv w pending produced comps q" "pending \<noteq> []" "next_runnable ?steps pending produced = None"
    then show "ex_failure (rt_exec (emit_run (EventExecutionFailed None DeadlockUnresolvedDeps)
        (complete_now ev (fail_with DeadlockUnresolvedDeps q)))) \<noteq> Some DeadlockUnresolvedDeps"
      using free by blast
  qed (auto simp: Let_def frame_simps progress_inv_def)
  then show ?thesis by (simp add: run_def)
qed

section \<open>Properties of the interface\<close>

text \<open>The delay before a retry is between 0 and 50 milliseconds for every policy and attempt, also when
  the exponential or linear delay overflows.\<close>

theorem wait_backoff_bounds: "0 \<le> wait_backoff policy attempt \<and> wait_backoff policy attempt \<le> 50"
  by (simp add: wait_backoff_def Let_def split: option.split)

text \<open>No tenant reaches another's execution: under a non-empty foreign tenant, reading, querying,
  signalling and cancelling an execution are all refused, and the engine changes in nothing but the
  guardrail event that reports the attempt.\<close>

theorem tenant_isolation:
  assumes "snapshot e i = Some ex" "tenant \<noteq> []" "tenant \<noteq> ex_tenant_id ex"
  shows "let e' = emit_rt (ex_id ex) (EventGuardrailTrip ''cross_tenant_access'') e in
    fetch e tenant i = (e', Inl ErrCrossTenantAccess)
    \<and> query_workflow e tenant i sid0 = (e', Inl ErrCrossTenantAccess)
    \<and> signal_workflow tenant i sg e = (e', Inl (FetchError ErrCrossTenantAccess))
    \<and> cancel_workflow tenant i e = (e', Inl (FetchError ErrCrossTenantAccess))
    \<and> en_executions e' = en_executions e \<and> en_signals e' = en_signals e"
  using assms
  by (auto simp: Let_def fetch_def query_workflow_def signal_workflow_def cancel_workflow_def
      snapshot_def emit_rt_def)

text \<open>The calls that put signals into channels.\<close>

datatype signal_op = OpSignal string string signal_envelope | OpCancel string string

fun signal_step :: "signal_op \<Rightarrow> engine \<Rightarrow> engine" where
  "signal_step (OpSignal t i sg) e = fst (signal_workflow t i sg e)"
| "signal_step (OpCancel t i) e = fst (cancel_workflow t i e)"

definition channels_ok :: "engine \<Rightarrow> bool" where
  "channels_ok e \<longleftrightarrow> (\<forall>i ch. map_of (en_signals e) i = Some ch \<longrightarrow> length ch \<le> channel_capacity)"

text \<open>Channels only grow at their end.\<close>

definition channels_grow :: "engine \<Rightarrow> engine \<Rightarrow> bool" where
  "channels_grow e e' \<longleftrightarrow>
     (\<forall>i ch. map_of (en_signals e) i = Some ch \<longrightarrow>
        (\<exists>more. map_of (en_signals e') i = Some (ch @ more)))"

lemma channels_grow_refl: "channels_grow e e"
  by (auto simp: channels_grow_def)

lemma channels_grow_trans:
  assumes "channels_grow a b" "channels_grow b c"
  shows "channels_grow a c"
  unfolding channels_grow_def
proof (intro allI impI)
  fix i ch
  assume "map_of (en_signals a) i = Some ch"
  then obtain m1 where "map_of (en_signals b) i = Some (ch @ m1)" using assms(1) unfolding channels_grow_def by blast
  then obtain m2 where "map_of (en_signals c) i = Some ((ch @ m1) @ m2)" using assms(2) unfolding channels_grow_def by blast
  then show "\<exists>more. map_of (en_signals c) i = Some (ch @ more)" by auto
qed

lemma fetch_signals: "en_signals (fst (fetch e t i)) = en_signals e"
  by (simp add: fetch_def emit_rt_def split: option.split)

lemma signal_step_cases:
  "en_signals (signal_step op e) = en_signals e
   \<or> (\<exists>i ch sg. map_of (en_signals e) i = Some ch \<and> length ch < channel_capacity
       \<and> en_signals (signal_step op e) = AList.update i (ch @ [sg]) (en_signals e))"
proof (cases op)
  case (OpSignal t i sg)
  obtain e1 x where f: "fetch e t i = (e1, x)" by fastforce
  have "en_signals e1 = en_signals e" using fetch_signals [of e t i] f by simp
  then show ?thesis
    by (cases x; cases "map_of (en_signals e1) i") (auto simp: OpSignal signal_workflow_def f)
next
  case (OpCancel t i)
  obtain e1 x where f: "fetch e t i = (e1, x)" by fastforce
  have "en_signals e1 = en_signals e" using fetch_signals [of e t i] f by simp
  then show ?thesis
    by (cases x; cases "map_of (en_signals e1) i") (auto simp: OpCancel cancel_workflow_def f)
qed

lemma signal_step_ok:
  assumes "channels_ok e"
  shows "channels_ok (signal_step op e) \<and> channels_grow e (signal_step op e)"
  using signal_step_cases [of op e]
proof (elim disjE exE conjE)
  assume "en_signals (signal_step op e) = en_signals e"
  with assms show ?thesis by (auto simp: channels_ok_def channels_grow_def)
next
  fix i ch sg
  assume "map_of (en_signals e) i = Some ch" "length ch < channel_capacity"
    "en_signals (signal_step op e) = AList.update i (ch @ [sg]) (en_signals e)"
  with assms show ?thesis by (auto simp: channels_ok_def channels_grow_def AList.update_conv')
qed

interpretation channels: monotone_machine signal_step channels_ok channels_grow
  by unfold_locales
    (use signal_step_ok in \<open>auto intro: channels_grow_refl channels_grow_trans\<close>)

text \<open>Signals are queued in order and within the channel's capacity: after any sequence of signal and
  cancel calls, no channel holds more than eight signals and every channel still begins with what
  it held before, in the same order.\<close>

theorem signals_fifo_bounded:
  assumes "channels_ok e"
  shows "channels_ok (fold signal_step ops e) \<and> channels_grow e (fold signal_step ops e)"
  using channels.run_inv [OF assms] channels.run_below [OF assms] by blast

section \<open>Concrete runs\<close>

definition demo_exec :: execution where
  "demo_exec = \<lparr>ex_id = ''e1'', ex_tenant_id = ''t'', ex_workspace_id = ''ws'', ex_namespace = ''tenant-t'',
     ex_workflow_id = ''wf'', ex_version = ''1.0.0'', ex_correlation_id = [], ex_status = StatusPending,
     ex_inputs = [], ex_outputs = [], ex_steps = [], ex_started_at = 0, ex_updated_at = 0,
     ex_completed_at = None, ex_failure = None, ex_compensations = [], ex_dry_run = False,
     ex_selected_assets = None, ex_trigger_event = None\<rparr>"

definition demo_rt :: "arrival list \<Rightarrow> rt" where
  "demo_rt inbox = \<lparr>rt_exec = demo_exec, rt_engine = put_exec demo_exec new_in_memory_engine, rt_calls = 0,
     rt_polls = 0, rt_inbox = inbox, rt_blocked = False\<rparr>"

text \<open>Activities that answer at once, wait for a person, or fail for the step \<open>b\<close>.\<close>

definition demo_env :: env where
  "demo_env = \<lparr>env_now = int, env_ctx_done = (\<lambda>_. False), env_registered = (\<lambda>_. True),
     env_activity = (\<lambda>n t i. if t = StepHumanInLoop then Inr \<lparr>ao_outputs = [], ao_wait = True, ao_reason = []\<rparr>
       else if st_id (ai_step i) = ''b'' then Inl ''boom''
       else Inr \<lparr>ao_outputs = [(''n'', VInt (int n))], ao_wait = False, ao_reason = []\<rparr>)\<rparr>"

definition demo_skill :: "string \<Rightarrow> string list \<Rightarrow> string \<Rightarrow> step" where
  "demo_skill i deps comp_with = Step (zero_step_core\<lparr>st_id := i, st_type := StepSkill,
     st_ref := ''registry:skill/x@1.0.0'', st_depends_on := deps, st_compensate_with := comp_with\<rparr>) [] []"

definition demo_steps :: "step list \<Rightarrow> step list \<Rightarrow> workflow" where
  "demo_steps ss fs = zero_workflow\<lparr>wf_spec := zero_spec\<lparr>sp_steps := ss, sp_on_failure := fs\<rparr>\<rparr>"

definition demo_two :: workflow where
  "demo_two = demo_steps [demo_skill ''c'' [''a''] [], demo_skill ''a'' [] []] []"

text \<open>A top-level step that waits for a step of the failure handler.\<close>

definition demo_dead :: workflow where
  "demo_dead = demo_steps [demo_skill ''a'' [''x''] []] [demo_skill ''x'' [] []]"

theorem run_completes_in_order_witness:
  "dep_ordered demo_two (ex_steps (rt_exec (run demo_env demo_two (demo_rt []))))"
proof -
  have h: "ex_steps (rt_exec (demo_rt [])) = []"
    "ex_status (rt_exec (run demo_env demo_two (demo_rt []))) = StatusCompleted"
    by code_simp+
  from run_completes_in_order [OF h] show ?thesis by blast
qed

definition demo_pinned :: rt where
  "demo_pinned = demo_rt []\<lparr>rt_exec := demo_exec\<lparr>ex_selected_assets :=
     Some \<lparr>sa_skills = [''registry:skill/x@1.0.0''], sa_mcps = [], sa_agents = []\<rparr>\<rparr>\<rparr>"

theorem run_respects_pins_witness:
  "\<exists>e s. e \<in> set (ex_steps (rt_exec (run demo_env demo_two demo_pinned))) \<and> sid s = se_step_id e \<and>
     s \<in> set (sp_steps (wf_spec demo_two)) \<union> set (sp_on_failure (wf_spec demo_two))"
proof -
  define es where "es = ex_steps (rt_exec (run demo_env demo_two demo_pinned))"
  have h: "ex_steps (rt_exec demo_pinned) = []" by code_simp
  have p: "ex_selected_assets (rt_exec demo_pinned) =
      Some \<lparr>sa_skills = [''registry:skill/x@1.0.0''], sa_mcps = [], sa_agents = []\<rparr>"
    by (simp add: demo_pinned_def)
  have "es \<noteq> []" unfolding es_def by code_simp
  then have "hd es \<in> set (ex_steps (rt_exec (run demo_env demo_two demo_pinned)))" by (simp add: es_def)
  with run_respects_pins [OF h this p] show ?thesis by auto
qed

theorem step_attempts_bounded_witness:
  "\<exists>res r'. run_step demo_env (loop_context (demo_skill ''b'' [] []) [] (demo_rt [])) (demo_rt []) = (res, r')
     \<and> (\<exists>new. ex_steps (rt_exec r') = new \<and> length new \<le> 1)"
proof -
  obtain res r' where h: "run_step demo_env (loop_context (demo_skill ''b'' [] []) [] (demo_rt [])) (demo_rt [])
      = (res, r')"
    by fastforce
  have "ex_steps (rt_exec (demo_rt [])) = []" "st_retries (core (demo_skill ''b'' [] [])) = None"
    by code_simp+
  with step_attempts_bounded [OF h] h show ?thesis by auto
qed

theorem lint_clean_never_deadlocks_witness:
  "ex_failure (rt_exec (run demo_env demo_two (demo_rt []))) \<noteq> Some DeadlockUnresolvedDeps"
proof (rule lint_clean_never_deadlocks)
  show "lint_clean demo_two" by code_simp
  show "\<forall>s\<in>set (sp_steps (wf_spec demo_two)).
      set (st_depends_on (core s)) \<subseteq> sid ` set (sp_steps (wf_spec demo_two))"
    by code_simp
  show "ex_failure (rt_exec (demo_rt [])) = None" by code_simp
qed

theorem tenant_isolation_witness:
  "fst (fetch (rt_engine (demo_rt [])) ''other'' ''e1'')
     = emit_rt ''e1'' (EventGuardrailTrip ''cross_tenant_access'') (rt_engine (demo_rt []))"
proof -
  have h: "snapshot (rt_engine (demo_rt [])) ''e1'' = Some demo_exec"
    by (simp add: demo_rt_def put_exec_def snapshot_def demo_exec_def AList.update_conv')
  have t: "''other'' \<noteq> ([] :: string)" "''other'' \<noteq> ex_tenant_id demo_exec" by (simp_all add: demo_exec_def)
  have i: "ex_id demo_exec = ''e1''" by (simp add: demo_exec_def)
  from tenant_isolation [OF h t] show ?thesis unfolding Let_def i by simp
qed

theorem signals_fifo_bounded_witness:
  "channels_ok (fold signal_step [OpCancel ''t'' ''e1''] (rt_engine (demo_rt [])))"
proof -
  have "channels_ok (rt_engine (demo_rt []))"
    by (simp add: channels_ok_def demo_rt_def put_exec_def new_in_memory_engine_def)
  from signals_fifo_bounded [OF this] show ?thesis by blast
qed

section \<open>Where the code and its comments part\<close>

text \<open>A deadlock is possible although lint passed: a workflow without lint errors whose top-level step
  depends on a step of its failure handler always fails with \<open>deadlock_unresolved_deps\<close>.\<close>

theorem lint_clean_can_deadlock:
  "lint_clean demo_dead
   \<and> ex_failure (rt_exec (run demo_env demo_dead (demo_rt []))) = Some DeadlockUnresolvedDeps"
proof
  show "lint_clean demo_dead" by code_simp
  show "ex_failure (rt_exec (run demo_env demo_dead (demo_rt []))) = Some DeadlockUnresolvedDeps"
    by code_simp
qed

text \<open>A failed execution that compensated is never left in the status \<open>failed\<close>: once a run with at
  least one completed compensable step has compensated and recorded its end time, the status is
  \<open>compensating\<close>, or even \<open>waiting\<close> or \<open>running\<close> after a compensation step that waited for a person.\<close>

theorem failed_run_left_compensating:
  "ex_status (rt_exec (complete_now ev (compensate ev w (s # ss) r)))
     \<in> {StatusCompensating, StatusWaiting, StatusRunning}
   \<and> ex_completed_at (rt_exec (complete_now ev (compensate ev w (s # ss) r))) \<noteq> None"
proof -
  define S where "S = {StatusCompensating, StatusWaiting, StatusRunning}"
  have one: "ex_status (rt_exec (compensate_one ev w x q)) \<in> S" if "ex_status (rt_exec q) \<in> S" for x q
    using compensate_one_status [of ev w x q] that unfolding S_def by fastforce
  have "ex_status (rt_exec (fold (compensate_one ev w) xs q)) \<in> S" if "ex_status (rt_exec q) \<in> S" for xs q
    using that by (induction xs arbitrary: q) (simp_all add: one)
  moreover have "ex_status (rt_exec (update_exec ev (set_status StatusCompensating r))) \<in> S"
    by (simp add: exec_update S_def)
  ultimately have "ex_status (rt_exec (fold (compensate_one ev w) (rev (s # ss))
      (update_exec ev (set_status StatusCompensating r)))) \<in> S"
    by blast
  then have "ex_status (rt_exec (compensate ev w (s # ss) r)) \<in> S"
    by (simp add: compensate_def exec_update)
  then show ?thesis unfolding S_def by (simp only: complete_now_exec) simp
qed

text \<open>Pinned assets do not bind sub-workflow steps: the check compares with the string \<open>sub_workflow\<close>,
  but the step type is \<open>sub-workflow\<close>, so no sub-workflow step is ever refused.\<close>

theorem sub_workflow_never_pinned_out:
  "\<not> pinned_out ex (Step (c\<lparr>st_type := StepSubWorkflow\<rparr>) bs b)"
  by (simp add: pinned_out_def assets_allows_def split: option.split)

text \<open>Cancelling does not cancel: the call leaves every stored execution as it is, a run that takes the
  cancellation while it waits for a person fails the step, and no run whose context stays live ever
  ends in the status \<open>cancelled\<close>, whatever signals it receives.\<close>

theorem cancel_does_not_cancel:
  "en_executions (fst (cancel_workflow tenant i e)) = en_executions e
   \<and> await_hitl_signal s inputs (SignalArrives \<lparr>sg_signal = cancel_signal, sg_payload = p\<rparr> # rest)
       = Some (Inl SignalCancelled, ''cancelled'', inputs, rest)
   \<and> ex_status (rt_exec (run (ev\<lparr>env_ctx_done := \<lambda>_. False\<rparr>) w r)) \<noteq> StatusCancelled"
proof (intro conjI)
  show "en_executions (fst (cancel_workflow tenant i e)) = en_executions e"
    by (simp add: cancel_workflow_def fetch_def emit_rt_def case_prod_beta split: option.split sum.split)
  show "await_hitl_signal s inputs (SignalArrives \<lparr>sg_signal = cancel_signal, sg_payload = p\<rparr> # rest)
      = Some (Inl SignalCancelled, ''cancelled'', inputs, rest)"
    by simp
  define live where "live = ev\<lparr>env_ctx_done := \<lambda>_. False\<rparr>"
  have "(\<lambda>q. ex_status (rt_exec q) \<noteq> StatusCancelled) (run_loop live w (step_id_set (sp_steps (wf_spec w))) [] []
      (update_exec live (set_status StatusRunning r)))"
  proof (rule run_loop_rule
      [where I = "\<lambda>_ _ _ q. ex_status (rt_exec q) \<in> {StatusRunning, StatusWaiting}"])
  qed (auto simp: Let_def frame_simps live_def dest!: run_step_status)
  then show "ex_status (rt_exec (run (ev\<lparr>env_ctx_done := \<lambda>_. False\<rparr>) w r)) \<noteq> StatusCancelled"
    by (simp add: run_def live_def)
qed

definition demo_bogus :: workflow where
  "demo_bogus = demo_clean\<lparr>wf_spec := (wf_spec demo_clean)\<lparr>sp_triggers :=
     [zero_trigger\<lparr>tr_id := ''t'', tr_type := TriggerManual,
        tr_concurrency := TriggerConcurrencyOther ''serial''\<rparr>]\<rparr>\<rparr>"

text \<open>The linter never looks at a trigger's concurrency: a workflow with an unknown policy has no
  finding, and the runtime then admits its executions without any limit.\<close>

theorem lint_accepts_unknown_concurrency:
  "lint (Some demo_bogus) = []
   \<and> acquire key (lookup_trigger_policy (Some demo_bogus) ''t'') h = Acquired (h(key := h key + 1))"
proof
  show "lint (Some demo_bogus) = []" by code_simp
  have "lookup_trigger_policy (Some demo_bogus) ''t'' = TriggerConcurrencyOther ''serial''" by code_simp
  then show "acquire key (lookup_trigger_policy (Some demo_bogus) ''t'') h = Acquired (h(key := h key + 1))"
    by (simp add: acquire_def)
qed

end
