(* ===== verification/Deploy_Connectors.thy ===== *)
theory Deploy_Connectors
  imports Fabric_Prelude
begin

text \<open>
  What a deployment runs on and is checked with: the runtime descriptors of
  \<open>pkg/runtimes/runtimes.go\<close>, the connector interface and registry of
  \<open>pkg/deployers/deployer.go\<close>, its three connectors \<open>gke\<close>, \<open>cloudrun\<close> and \<open>minikube\<close>, and the image
  verifier of \<open>pkg/cosign/cosign.go\<close>. The command runner is a parameter: it answers the n-th command
  of a session with an error or an output, and the commands run are kept in a log. The SHA-256
  digest in hexadecimal is a parameter too. Durations, and the
  fields of an image's metadata that no check reads, are left out.
\<close>

section \<open>Runtimes\<close>

datatype runtime_type = TypeGKE | TypeCloudRun | TypeMinikube | TypeOther string

datatype runtime_visibility = VisibilityWorkspace | VisibilityTenant | VisibilityOther string

record capabilities =
  cap_canary :: bool
  cap_blue_green :: bool
  cap_secrets_csi :: bool
  cap_traffic_splitting :: bool

fun default_capabilities :: "runtime_type \<Rightarrow> capabilities" where
  "default_capabilities TypeGKE =
     \<lparr>cap_canary = True, cap_blue_green = True, cap_secrets_csi = True, cap_traffic_splitting = False\<rparr>"
| "default_capabilities TypeCloudRun =
     \<lparr>cap_canary = True, cap_blue_green = True, cap_secrets_csi = False, cap_traffic_splitting = True\<rparr>"
| "default_capabilities _ =
     \<lparr>cap_canary = False, cap_blue_green = False, cap_secrets_csi = False, cap_traffic_splitting = False\<rparr>"

record runtime =
  rn_id :: string
  rn_workspace_id :: string
  rn_tenant_id :: string
  rn_type :: runtime_type
  rn_mode :: string
  rn_visibility :: runtime_visibility
  rn_name :: string
  rn_region :: string
  rn_gke_mode :: string
  rn_project_id :: string
  rn_cluster_name :: string
  rn_endpoint :: string
  rn_service_account_email :: string
  rn_namespace :: string
  rn_credential_kms_key_ref :: string
  rn_credential_cipher_b64 :: string
  rn_labels :: obj
  rn_capabilities :: capabilities
  rn_status :: string
  rn_revoked :: bool
  rn_created_at :: gotime
  rn_updated_at :: gotime

section \<open>The connector interface\<close>

record manifest =
  mf_app_name :: string
  mf_namespace :: string
  mf_image :: string
  mf_image_digest :: string
  mf_replicas :: int
  mf_helm_chart :: string
  mf_helm_values :: obj
  mf_k8s_yaml :: string
  mf_cloud_run_image :: string
  mf_health_check_url :: string
  mf_env :: "(string \<times> string) list"
  mf_labels :: "(string \<times> string) list"

definition zero_manifest :: manifest where
  "zero_manifest =
     \<lparr>mf_app_name = [], mf_namespace = [], mf_image = [], mf_image_digest = [], mf_replicas = 0, mf_helm_chart = [],
      mf_helm_values = [], mf_k8s_yaml = [], mf_cloud_run_image = [], mf_health_check_url = [], mf_env = [],
      mf_labels = []\<rparr>"

record params =
  pa_strategy :: string
  pa_canary_percent :: int
  pa_rollback_plan :: string
  pa_openspec_ids :: "string list"
  pa_pr_sha :: string
  pa_revision_id :: string
  pa_prev_revision_id :: string

record rendered_artifacts =
  ra_files :: "(string \<times> string) list"
  ra_manifest_sha :: string
  ra_notes :: "string list"

record apply_result =
  ar_outcome :: string
  ar_revision_id :: string
  ar_detail :: obj

record verify_result =
  vr_healthy :: bool
  vr_detail :: obj
  vr_fail_reason :: string

record rollback_result =
  rr_outcome :: string
  rr_restored_rev_id :: string
  rr_detail :: obj

record preflight_result =
  pf_passed :: bool
  pf_reason :: string
  pf_detail :: obj

text \<open>A command with its arguments, the commands run so far, and the runner's answers: the error
  text on the left, the standard output on the right.\<close>

type_synonym command = "string \<times> string list"
type_synonym runner = "nat \<Rightarrow> command \<Rightarrow> string + string"

definition run_command :: "runner \<Rightarrow> command \<Rightarrow> command list \<Rightarrow> (string + string) \<times> command list" where
  "run_command run c log = (run (length log) c, log @ [c])"

text \<open>A Go function that returns a value and an error: the error is \<open>None\<close> for \<open>nil\<close>.\<close>

record deployer =
  dy_type :: runtime_type
  dy_capabilities :: capabilities
  dy_preflight :: "runtime \<Rightarrow> command list \<Rightarrow> preflight_result \<times> command list"
  dy_render :: "manifest \<Rightarrow> params \<Rightarrow> rendered_artifacts \<times> string option"
  dy_apply :: "runtime \<Rightarrow> rendered_artifacts \<Rightarrow> params \<Rightarrow> command list
                \<Rightarrow> (apply_result \<times> string option) \<times> command list"
  dy_verify :: "runtime \<Rightarrow> manifest \<Rightarrow> params \<Rightarrow> command list
                \<Rightarrow> (verify_result \<times> string option) \<times> command list"
  dy_rollback :: "runtime \<Rightarrow> manifest \<Rightarrow> params \<Rightarrow> command list
                \<Rightarrow> (rollback_result \<times> string option) \<times> command list"

type_synonym deployer_registry = "(runtime_type \<times> deployer) list"

definition new_deployer_registry :: "deployer list \<Rightarrow> deployer_registry" where
  "new_deployer_registry ds = fold (\<lambda>d r. AList.update (dy_type d) d r) ds []"

definition deployer_for :: "deployer_registry \<Rightarrow> runtime_type \<Rightarrow> deployer option" where
  "deployer_for r t = map_of r t"

section \<open>What the connectors share\<close>

definition max_int :: "int \<Rightarrow> int \<Rightarrow> int" where
  "max_int a b = (if a > b then a else b)"

definition deflt :: "string \<Rightarrow> string \<Rightarrow> string" where
  "deflt s fallback = (if s = [] then fallback else s)"

definition newline :: string where
  "newline = [CHR 0x0A]"

definition err_detail :: "string \<Rightarrow> obj" where
  "err_detail e = [(''err'', VString e)]"

definition apply_failed :: "string \<Rightarrow> apply_result \<times> string option" where
  "apply_failed e = (\<lparr>ar_outcome = ''failed'', ar_revision_id = [], ar_detail = err_detail e\<rparr>, Some e)"

definition apply_ok :: "params \<Rightarrow> obj \<Rightarrow> apply_result \<times> string option" where
  "apply_ok p detail = (\<lparr>ar_outcome = ''ok'', ar_revision_id = pa_revision_id p, ar_detail = detail\<rparr>, None)"

definition verify_failed :: "string \<Rightarrow> obj \<Rightarrow> string option \<Rightarrow> verify_result \<times> string option" where
  "verify_failed reason detail e =
     (\<lparr>vr_healthy = False, vr_detail = detail, vr_fail_reason = reason\<rparr>, e)"

definition verify_ok :: "obj \<Rightarrow> verify_result \<times> string option" where
  "verify_ok detail = (\<lparr>vr_healthy = True, vr_detail = detail, vr_fail_reason = []\<rparr>, None)"

definition rollback_failed :: "string \<Rightarrow> rollback_result \<times> string option" where
  "rollback_failed e =
     (\<lparr>rr_outcome = ''failed'', rr_restored_rev_id = [], rr_detail = err_detail e\<rparr>, Some e)"

definition rollback_ok :: "params \<Rightarrow> rollback_result \<times> string option" where
  "rollback_ok p =
     (\<lparr>rr_outcome = ''ok'', rr_restored_rev_id = pa_prev_revision_id p, rr_detail = []\<rparr>, None)"

definition preflight_failed :: "string \<Rightarrow> obj \<Rightarrow> preflight_result" where
  "preflight_failed reason detail = \<lparr>pf_passed = False, pf_reason = reason, pf_detail = detail\<rparr>"

definition preflight_ok :: "obj \<Rightarrow> preflight_result" where
  "preflight_ok detail = \<lparr>pf_passed = True, pf_reason = [], pf_detail = detail\<rparr>"

section \<open>GKE\<close>

definition helm_chart_default :: string where
  "helm_chart_default = ''forge-app-chart''"

definition gke_preflight :: "runner \<Rightarrow> runtime \<Rightarrow> command list \<Rightarrow> preflight_result \<times> command list" where
  "gke_preflight run r log =
     (if rn_endpoint r = [] then (preflight_failed ''endpoint_unreachable'' [], log)
      else case run_command run (''gcloud'', [''container'', ''clusters'', ''describe'', rn_cluster_name r,
                 ''--region'', rn_region r, ''--project'', rn_project_id r]) log of
             (Inl e, log1) \<Rightarrow> (preflight_failed ''gcloud_describe_failed'' (err_detail e), log1)
           | (Inr _, log1) \<Rightarrow> (preflight_ok [], log1))"

text \<open>The code also builds a map of Helm values, which it does not return.\<close>

definition gke_render :: "(string \<Rightarrow> string) \<Rightarrow> manifest \<Rightarrow> params \<Rightarrow> rendered_artifacts \<times> string option" where
  "gke_render sha m p =
     (let chart = deflt (mf_helm_chart m) helm_chart_default;
          rendered = ''chart='' @ chart @ newline @ ''app='' @ mf_app_name m @ newline @ ''image='' @ mf_image m
                     @ newline @ ''strategy='' @ pa_strategy p
      in (\<lparr>ra_files = [(''values.yaml'', rendered), (''chart'', chart)], ra_manifest_sha = sha rendered,
           ra_notes = [''rendered helm chart '' @ chart @ '' for '' @ mf_app_name m]\<rparr>, None))"

definition gke_rollout :: "runtime \<Rightarrow> command" where
  "gke_rollout r = (''kubectl'', [''rollout'', ''status'', ''deployment'', ''-n'',
     deflt (rn_namespace r) ''default'', ''--timeout=600s''])"

definition gke_helm :: "runtime \<Rightarrow> params \<Rightarrow> command" where
  "gke_helm r p =
     (let args0 = [''upgrade'', ''--install'', ''--namespace'', deflt (rn_namespace r) ''default''];
          args1 = (if pa_strategy p = ''canary''
                   then args0 @ [''--set'', ''canary.enabled=true,canary.weight=''
                                  @ show_int (max_int (pa_canary_percent p) 10)] else args0);
          args2 = (if pa_strategy p = ''blue_green'' then args1 @ [''--set'', ''blueGreen.enabled=true''] else args1)
      in (''helm'', ''helm'' # args2))"

definition gke_apply ::
  "runner \<Rightarrow> runtime \<Rightarrow> rendered_artifacts \<Rightarrow> params \<Rightarrow> command list
    \<Rightarrow> (apply_result \<times> string option) \<times> command list" where
  "gke_apply run r art p log =
     (case run_command run (gke_helm r p) log of
        (Inl e, log1) \<Rightarrow> (apply_failed e, log1)
      | (Inr _, log1) \<Rightarrow>
          (case run_command run (gke_rollout r) log1 of
             (Inl e, log2) \<Rightarrow> (apply_failed e, log2)
           | (Inr _, log2) \<Rightarrow>
               (apply_ok p [(''manifest_sha'', VString (ra_manifest_sha art)),
                            (''chart'', VString helm_chart_default)], log2)))"

definition gke_verify ::
  "runner \<Rightarrow> runtime \<Rightarrow> manifest \<Rightarrow> params \<Rightarrow> command list
    \<Rightarrow> (verify_result \<times> string option) \<times> command list" where
  "gke_verify run r m p log =
     (case run_command run (''kubectl'', [''rollout'', ''status'', ''deployment'', mf_app_name m, ''-n'',
              deflt (rn_namespace r) ''default'', ''--timeout=300s'']) log of
        (Inl e, log1) \<Rightarrow> (verify_failed ''rollout_failed'' (err_detail e) (Some e), log1)
      | (Inr _, log1) \<Rightarrow>
          (let url = (if mf_health_check_url m = []
                      then ''http://'' @ mf_app_name m @ ''.'' @ deflt (rn_namespace r) ''default''
                           @ ''.svc.cluster.local/healthz''
                      else mf_health_check_url m)
           in case run_command run (''curl'', [''-fsSL'', url]) log1 of
                (Inl e, log2) \<Rightarrow>
                  (verify_failed ''healthcheck_failed'' (err_detail e @ [(''url'', VString url)]) (Some e), log2)
              | (Inr _, log2) \<Rightarrow> (verify_ok [(''url'', VString url)], log2)))"

definition gke_rollback ::
  "runner \<Rightarrow> runtime \<Rightarrow> manifest \<Rightarrow> params \<Rightarrow> command list
    \<Rightarrow> (rollback_result \<times> string option) \<times> command list" where
  "gke_rollback run r prev p log =
     (case run_command run (''helm'', [''rollback'', mf_app_name prev]) log of
        (Inl e, log1) \<Rightarrow> (rollback_failed e, log1)
      | (Inr _, log1) \<Rightarrow>
          (case run_command run (''kubectl'', [''rollout'', ''status'', ''deployment'', mf_app_name prev, ''-n'',
                   deflt (rn_namespace r) ''default'']) log1 of
             (Inl e, log2) \<Rightarrow> (rollback_failed e, log2)
           | (Inr _, log2) \<Rightarrow> (rollback_ok p, log2)))"

definition gke :: "runner \<Rightarrow> (string \<Rightarrow> string) \<Rightarrow> deployer" where
  "gke run sha =
     \<lparr>dy_type = TypeGKE, dy_capabilities = default_capabilities TypeGKE, dy_preflight = gke_preflight run,
      dy_render = gke_render sha, dy_apply = gke_apply run, dy_verify = gke_verify run,
      dy_rollback = gke_rollback run\<rparr>"

section \<open>Cloud Run\<close>

definition cloudrun_region :: "runtime \<Rightarrow> string" where
  "cloudrun_region r = deflt (rn_region r) ''us-central1''"

definition cloudrun_preflight :: "runner \<Rightarrow> runtime \<Rightarrow> command list \<Rightarrow> preflight_result \<times> command list" where
  "cloudrun_preflight run r log =
     (if rn_project_id r = [] then (preflight_failed ''project_id_missing'' [], log)
      else case run_command run (''gcloud'', [''run'', ''services'', ''list'', ''--project'', rn_project_id r,
                 ''--region'', cloudrun_region r]) log of
             (Inl e, log1) \<Rightarrow> (preflight_failed ''gcloud_run_list_failed'' (err_detail e), log1)
           | (Inr _, log1) \<Rightarrow> (preflight_ok [], log1))"

definition cloudrun_render :: "(string \<Rightarrow> string) \<Rightarrow> manifest \<Rightarrow> params \<Rightarrow> rendered_artifacts \<times> string option" where
  "cloudrun_render sha m p =
     (let image = (if mf_cloud_run_image m = [] then mf_image m else mf_cloud_run_image m);
          rendered = ''service='' @ mf_app_name m @ newline @ ''image='' @ image @ newline
                     @ ''strategy='' @ pa_strategy p
      in (\<lparr>ra_files = [(''service.yaml'', rendered)], ra_manifest_sha = sha rendered, ra_notes = []\<rparr>, None))"

definition cloudrun_deploy :: "runtime \<Rightarrow> params \<Rightarrow> command" where
  "cloudrun_deploy r p =
     (let args = [''run'', ''deploy'', ''--platform'', ''managed'', ''--region'', cloudrun_region r,
                  ''--project'', rn_project_id r]
      in (''gcloud'', if pa_strategy p = ''canary'' \<or> pa_strategy p = ''blue_green''
                      then args @ [''--no-traffic'', ''--tag'', ''candidate''] else args))"

definition cloudrun_split :: "runtime \<Rightarrow> params \<Rightarrow> command" where
  "cloudrun_split r p =
     (let percent = (if pa_canary_percent p \<le> 0 then 10 else pa_canary_percent p)
      in (''gcloud'', [''run'', ''services'', ''update-traffic'', ''--to-tags'',
            ''candidate='' @ show_int percent, ''--project'', rn_project_id r, ''--region'', cloudrun_region r]))"

definition cloudrun_latest :: "runtime \<Rightarrow> command" where
  "cloudrun_latest r = (''gcloud'', [''run'', ''services'', ''update-traffic'', ''--to-latest'',
     ''--project'', rn_project_id r, ''--region'', cloudrun_region r])"

definition cloudrun_apply ::
  "runner \<Rightarrow> runtime \<Rightarrow> rendered_artifacts \<Rightarrow> params \<Rightarrow> command list
    \<Rightarrow> (apply_result \<times> string option) \<times> command list" where
  "cloudrun_apply run r art p log =
     (case run_command run (cloudrun_deploy r p) log of
        (Inl e, log1) \<Rightarrow> (apply_failed e, log1)
      | (Inr _, log1) \<Rightarrow>
          (let after_split =
             (if pa_strategy p = ''canary''
              then (case run_command run (cloudrun_split r p) log1 of
                      (Inl e, log2) \<Rightarrow> (Some e, log2)
                    | (Inr _, log2) \<Rightarrow> (None, log2))
              else (None, log1))
           in case after_split of
                (Some e, log2) \<Rightarrow> (apply_failed e, log2)
              | (None, log2) \<Rightarrow>
                  (let after_latest =
                     (if pa_strategy p = ''rolling'' \<or> pa_strategy p = []
                      then (case run_command run (cloudrun_latest r) log2 of
                              (Inl e, log3) \<Rightarrow> (Some e, log3)
                            | (Inr _, log3) \<Rightarrow> (None, log3))
                      else (None, log2))
                   in case after_latest of
                        (Some e, log3) \<Rightarrow> (apply_failed e, log3)
                      | (None, log3) \<Rightarrow>
                          (apply_ok p [(''strategy'', VString (pa_strategy p))], log3))))"

definition cloudrun_verify ::
  "runner \<Rightarrow> runtime \<Rightarrow> manifest \<Rightarrow> params \<Rightarrow> command list
    \<Rightarrow> (verify_result \<times> string option) \<times> command list" where
  "cloudrun_verify run r m p log =
     (case run_command run (''gcloud'', [''run'', ''services'', ''describe'', mf_app_name m,
              ''--project'', rn_project_id r, ''--region'', cloudrun_region r, ''--format'',
              ''value(status.conditions[?(@.type==Ready)].status)'']) log of
        (Inl e, log1) \<Rightarrow> (verify_failed ''describe_failed'' (err_detail e) (Some e), log1)
      | (Inr out, log1) \<Rightarrow>
          if \<not> contains_str out ''True'' \<and> out \<noteq> []
          then (verify_failed ''service_not_ready'' [(''status'', VString out)] None, log1)
          else (verify_ok [(''status'', VString out)], log1))"

definition cloudrun_rollback ::
  "runner \<Rightarrow> runtime \<Rightarrow> manifest \<Rightarrow> params \<Rightarrow> command list
    \<Rightarrow> (rollback_result \<times> string option) \<times> command list" where
  "cloudrun_rollback run r prev p log =
     (case run_command run (''gcloud'', [''run'', ''services'', ''update-traffic'', mf_app_name prev,
              ''--to-revisions'', pa_prev_revision_id p @ ''=100'', ''--project'', rn_project_id r,
              ''--region'', cloudrun_region r]) log of
        (Inl e, log1) \<Rightarrow> (rollback_failed e, log1)
      | (Inr _, log1) \<Rightarrow> (rollback_ok p, log1))"

definition cloudrun :: "runner \<Rightarrow> (string \<Rightarrow> string) \<Rightarrow> deployer" where
  "cloudrun run sha =
     \<lparr>dy_type = TypeCloudRun, dy_capabilities = default_capabilities TypeCloudRun,
      dy_preflight = cloudrun_preflight run, dy_render = cloudrun_render sha, dy_apply = cloudrun_apply run,
      dy_verify = cloudrun_verify run, dy_rollback = cloudrun_rollback run\<rparr>"

section \<open>Minikube\<close>

definition minikube_preflight :: "runner \<Rightarrow> runtime \<Rightarrow> command list \<Rightarrow> preflight_result \<times> command list" where
  "minikube_preflight run r log =
     (case run_command run (''kubectl'', [''version'', ''--client=true'', ''--output=yaml'']) log of
        (Inl e, log1) \<Rightarrow> (preflight_failed ''kubectl_unavailable'' (err_detail e), log1)
      | (Inr out, log1) \<Rightarrow> (preflight_ok [(''client'', VString out)], log1))"

definition render_inline_yaml :: "manifest \<Rightarrow> params \<Rightarrow> string" where
  "render_inline_yaml m p =
     ''apiVersion: apps/v1'' @ newline @ ''kind: Deployment'' @ newline @ ''metadata:'' @ newline
     @ ''  name: '' @ mf_app_name m @ newline
     @ ''  namespace: '' @ deflt (mf_namespace m) ''default'' @ newline
     @ ''spec:'' @ newline @ ''  replicas: '' @ show_int (max_int (mf_replicas m) 1) @ newline
     @ ''  selector:'' @ newline @ ''    matchLabels:'' @ newline @ ''      app: '' @ mf_app_name m @ newline
     @ ''  template:'' @ newline @ ''    metadata:'' @ newline @ ''      labels:'' @ newline
     @ ''        app: '' @ mf_app_name m @ newline @ ''    spec:'' @ newline @ ''      containers:'' @ newline
     @ ''      - name: app'' @ newline @ ''        image: '' @ mf_image m @ newline"

definition minikube_render :: "(string \<Rightarrow> string) \<Rightarrow> manifest \<Rightarrow> params \<Rightarrow> rendered_artifacts \<times> string option" where
  "minikube_render sha m p =
     (let yaml = (if mf_k8s_yaml m = [] then render_inline_yaml m p else mf_k8s_yaml m)
      in (\<lparr>ra_files = [(''deployment.yaml'', yaml)], ra_manifest_sha = sha yaml, ra_notes = []\<rparr>, None))"

definition minikube_apply ::
  "runner \<Rightarrow> runtime \<Rightarrow> rendered_artifacts \<Rightarrow> params \<Rightarrow> command list
    \<Rightarrow> (apply_result \<times> string option) \<times> command list" where
  "minikube_apply run r art p log =
     (case run_command run (''kubectl'', [''apply'', ''-f'', ''-'']) log of
        (Inl e, log1) \<Rightarrow> (apply_failed e, log1)
      | (Inr _, log1) \<Rightarrow>
          (case run_command run (''kubectl'', [''rollout'', ''status'', ''deployment'', ''-n'', ''default'',
                   ''--timeout=120s'']) log1 of
             (Inl e, log2) \<Rightarrow> (apply_failed e, log2)
           | (Inr _, log2) \<Rightarrow>
               (apply_ok p [(''manifest_sha'', VString (ra_manifest_sha art))], log2)))"

definition minikube_verify ::
  "runner \<Rightarrow> runtime \<Rightarrow> manifest \<Rightarrow> params \<Rightarrow> command list
    \<Rightarrow> (verify_result \<times> string option) \<times> command list" where
  "minikube_verify run r m p log =
     (case run_command run (''kubectl'', [''rollout'', ''status'', ''deployment'', mf_app_name m, ''-n'',
              deflt (mf_namespace m) ''default'']) log of
        (Inl e, log1) \<Rightarrow> (verify_failed ''rollout_failed'' (err_detail e) (Some e), log1)
      | (Inr out, log1) \<Rightarrow> (verify_ok [(''rollout'', VString out)], log1))"

definition minikube_rollback ::
  "runner \<Rightarrow> runtime \<Rightarrow> manifest \<Rightarrow> params \<Rightarrow> command list
    \<Rightarrow> (rollback_result \<times> string option) \<times> command list" where
  "minikube_rollback run r prev p log =
     (case run_command run (''kubectl'', [''rollout'', ''undo'', ''deployment'', mf_app_name prev, ''-n'',
              deflt (mf_namespace prev) ''default'']) log of
        (Inl e, log1) \<Rightarrow> (rollback_failed e, log1)
      | (Inr _, log1) \<Rightarrow> (rollback_ok p, log1))"

definition minikube :: "runner \<Rightarrow> (string \<Rightarrow> string) \<Rightarrow> deployer" where
  "minikube run sha =
     \<lparr>dy_type = TypeMinikube, dy_capabilities = default_capabilities TypeMinikube,
      dy_preflight = minikube_preflight run, dy_render = minikube_render sha, dy_apply = minikube_apply run,
      dy_verify = minikube_verify run, dy_rollback = minikube_rollback run\<rparr>"

section \<open>Image signatures\<close>

datatype fail_reason =
    ReasonIdentityMismatch | ReasonRekorMissing | ReasonDigestMismatch | ReasonUnsigned
  | ReasonAttestationBad

record image_metadata =
  im_image :: string
  im_digest :: string
  im_signed :: bool
  im_oidc_issuer :: string
  im_oidc_identity :: string
  im_rekor_log_index :: int
  im_has_rekor_entry :: bool
  im_attestation_type :: string
  im_attestation_valid :: bool

text \<open>The compiled regular expression of a rule is its matching function.\<close>

record identity_rule =
  ir_issuer_exact :: string
  ir_identity_matches :: "(string \<Rightarrow> bool) option"
  ir_data_classification :: string

record verifier =
  vf_identities :: "(string \<times> identity_rule) list"
  vf_registry :: "(string \<Rightarrow> string + string) option"

text \<open>\<open>OutcomeFailed\<close> comes with a reason, \<open>OutcomeSuccess\<close> without one.\<close>

record cosign_result =
  cr_failed :: "fail_reason option"
  cr_detail :: string
  cr_identity :: string
  cr_rekor_index :: int
  cr_digest :: string

definition configure_identity :: "string \<Rightarrow> identity_rule \<Rightarrow> (string \<times> identity_rule) list \<Rightarrow> (string \<times> identity_rule) list" where
  "configure_identity ws rule ws_rules = AList.update ws rule ws_rules"

definition new_verifier :: "(string \<times> identity_rule) list option \<Rightarrow> (string \<Rightarrow> string + string) option \<Rightarrow> verifier" where
  "new_verifier identities reg =
     \<lparr>vf_identities = (case identities of Some m \<Rightarrow> m | None \<Rightarrow> []), vf_registry = reg\<rparr>"

definition cosign_fail :: "fail_reason \<Rightarrow> string \<Rightarrow> string \<Rightarrow> string \<Rightarrow> cosign_result" where
  "cosign_fail reason detail identity digest =
     \<lparr>cr_failed = Some reason, cr_detail = detail, cr_identity = identity, cr_rekor_index = 0, cr_digest = digest\<rparr>"

definition check_identity :: "identity_rule \<Rightarrow> image_metadata \<Rightarrow> cosign_result option" where
  "check_identity rule m =
     (if ir_issuer_exact rule \<noteq> [] \<and> ir_issuer_exact rule \<noteq> im_oidc_issuer m
        then Some (cosign_fail ReasonIdentityMismatch ''issuer mismatch'' (im_oidc_identity m) [])
      else case ir_identity_matches rule of
        Some f \<Rightarrow> (if f (im_oidc_identity m) then None
                  else Some (cosign_fail ReasonIdentityMismatch ''identity does not match expected pattern''
                               (im_oidc_identity m) []))
      | None \<Rightarrow> None)"

definition cosign_verify :: "verifier \<Rightarrow> string \<Rightarrow> image_metadata \<Rightarrow> cosign_result" where
  "cosign_verify v ws m =
     (if \<not> im_signed m then cosign_fail ReasonUnsigned ''image is unsigned'' [] []
      else case (case map_of (vf_identities v) ws of Some rule \<Rightarrow> check_identity rule m | None \<Rightarrow> None) of
        Some r \<Rightarrow> r
      | None \<Rightarrow>
          if \<not> im_has_rekor_entry m then cosign_fail ReasonRekorMissing ''missing rekor entry'' [] []
          else \<lparr>cr_failed = None, cr_detail = [], cr_identity = im_oidc_identity m,
                cr_rekor_index = im_rekor_log_index m, cr_digest = im_digest m\<rparr>)"

definition verify_attestation :: "verifier \<Rightarrow> image_metadata \<Rightarrow> cosign_result" where
  "verify_attestation v m =
     (let ok = \<lparr>cr_failed = None, cr_detail = [], cr_identity = [], cr_rekor_index = 0, cr_digest = im_digest m\<rparr> in
      if im_attestation_type m \<noteq> ''slsaprovenance''
        then cosign_fail ReasonAttestationBad (''attestation_type='' @ im_attestation_type m) [] []
      else if \<not> im_attestation_valid m then cosign_fail ReasonAttestationBad ''attestation invalid'' [] []
      else case vf_registry v of
        None \<Rightarrow> ok
      | Some reg \<Rightarrow>
          (case reg (im_image m) of
             Inl e \<Rightarrow> cosign_fail ReasonAttestationBad (''registry lookup: '' @ e) [] []
           | Inr expected \<Rightarrow>
               if expected \<noteq> [] \<and> \<not> equal_fold expected (im_digest m)
               then cosign_fail ReasonDigestMismatch
                      (''registry expected '' @ expected @ '' got '' @ im_digest m) [] (im_digest m)
               else ok))"

definition cosign_combined :: "verifier \<Rightarrow> string \<Rightarrow> image_metadata \<Rightarrow> cosign_result" where
  "cosign_combined v ws m =
     (let r = cosign_verify v ws m in if cr_failed r \<noteq> None then r else verify_attestation v m)"

section \<open>Properties\<close>

text \<open>Commands run in order until one fails.\<close>

fun run_all :: "runner \<Rightarrow> command list \<Rightarrow> command list \<Rightarrow> string option \<times> command list" where
  "run_all run [] log = (None, log)"
| "run_all run (c # cs) log =
     (case run_command run c log of
        (Inl e, log1) \<Rightarrow> (Some e, log1)
      | (Inr _, log1) \<Rightarrow> run_all run cs log1)"

definition cloudrun_plan :: "runtime \<Rightarrow> params \<Rightarrow> command list" where
  "cloudrun_plan r p =
     cloudrun_deploy r p
     # (if pa_strategy p = ''canary'' then [cloudrun_split r p] else [])
     @ (if pa_strategy p = ''rolling'' \<or> pa_strategy p = [] then [cloudrun_latest r] else [])"

lemma run_all_log: "\<exists>cs'. snd (run_all run cs log) = log @ cs' \<and> set cs' \<subseteq> set cs"
proof (induction cs arbitrary: log)
  case Nil
  show ?case by simp
next
  case (Cons c cs)
  show ?case
  proof (cases "run (length log) c")
    case (Inl e)
    then show ?thesis by (auto simp: run_command_def)
  next
    case (Inr out)
    obtain cs' where "snd (run_all run cs (log @ [c])) = (log @ [c]) @ cs'" "set cs' \<subseteq> set cs"
      using Cons.IH by blast
    then show ?thesis using Inr by (intro exI [of _ "c # cs'"]) (auto simp: run_command_def)
  qed
qed

lemma cloudrun_apply_plan:
  "cloudrun_apply run r art p log =
     (case run_all run (cloudrun_plan r p) log of
        (Some e, log') \<Rightarrow> (apply_failed e, log')
      | (None, log') \<Rightarrow> (apply_ok p [(''strategy'', VString (pa_strategy p))], log'))"
  by (simp add: cloudrun_apply_def cloudrun_plan_def run_command_def Let_def split: sum.split prod.split)

text \<open>Cloud Run's \<open>Apply\<close> runs the commands its strategy plans until the first failure and reports
  \<open>ok\<close> exactly when all succeed; under the canary and blue/green strategies the new revision is
  deployed without traffic and no command of the session sends all traffic to it.\<close>

theorem cloudrun_gradual:
  "(let (res, log') = cloudrun_apply run r art p log in
      (\<exists>cs. log' = log @ cs \<and> set cs \<subseteq> set (cloudrun_plan r p))
      \<and> (ar_outcome (fst res) = ''ok'' \<longleftrightarrow> fst (run_all run (cloudrun_plan r p) log) = None)
      \<and> (snd res = None \<longleftrightarrow> ar_outcome (fst res) = ''ok''))
   \<and> (pa_strategy p \<in> {''canary'', ''blue_green''} \<longrightarrow>
        ''--no-traffic'' \<in> set (snd (cloudrun_deploy r p)) \<and> cloudrun_latest r \<notin> set (cloudrun_plan r p))"
proof -
  obtain cs where cs: "snd (run_all run (cloudrun_plan r p) log) = log @ cs" "set cs \<subseteq> set (cloudrun_plan r p)"
    using run_all_log by blast
  have "(let (res, log') = cloudrun_apply run r art p log in
      (\<exists>cs. log' = log @ cs \<and> set cs \<subseteq> set (cloudrun_plan r p))
      \<and> (ar_outcome (fst res) = ''ok'' \<longleftrightarrow> fst (run_all run (cloudrun_plan r p) log) = None)
      \<and> (snd res = None \<longleftrightarrow> ar_outcome (fst res) = ''ok''))"
    using cs unfolding cloudrun_apply_plan
    by (cases "run_all run (cloudrun_plan r p) log"; cases "fst (run_all run (cloudrun_plan r p) log)")
      (auto simp: apply_failed_def apply_ok_def)
  moreover have "''--no-traffic'' \<in> set (snd (cloudrun_deploy r p)) \<and> cloudrun_latest r \<notin> set (cloudrun_plan r p)"
    if "pa_strategy p \<in> {''canary'', ''blue_green''}"
    using that by (auto simp: cloudrun_deploy_def cloudrun_plan_def cloudrun_latest_def cloudrun_split_def Let_def)
  ultimately show ?thesis by blast
qed

definition rule_accepts :: "verifier \<Rightarrow> string \<Rightarrow> image_metadata \<Rightarrow> bool" where
  "rule_accepts v ws m =
     (case map_of (vf_identities v) ws of
        None \<Rightarrow> True
      | Some rule \<Rightarrow>
          (ir_issuer_exact rule = [] \<or> ir_issuer_exact rule = im_oidc_issuer m)
          \<and> (case ir_identity_matches rule of Some f \<Rightarrow> f (im_oidc_identity m) | None \<Rightarrow> True))"

definition digest_accepted :: "verifier \<Rightarrow> image_metadata \<Rightarrow> bool" where
  "digest_accepted v m =
     (case vf_registry v of
        None \<Rightarrow> True
      | Some reg \<Rightarrow>
          (case reg (im_image m) of
             Inl e \<Rightarrow> False
           | Inr expected \<Rightarrow> expected = [] \<or> equal_fold expected (im_digest m)))"

lemma cosign_fail_failed [simp]: "cr_failed (cosign_fail reason d i g) = Some reason"
  by (simp add: cosign_fail_def)

lemma verify_accepts:
  "cr_failed (cosign_verify v ws m) = None \<longleftrightarrow> im_signed m \<and> rule_accepts v ws m \<and> im_has_rekor_entry m"
  by (auto simp: cosign_verify_def check_identity_def rule_accepts_def split: option.split if_split_asm)

lemma attestation_accepts:
  "cr_failed (verify_attestation v m) = None \<longleftrightarrow>
     im_attestation_type m = ''slsaprovenance'' \<and> im_attestation_valid m \<and> digest_accepted v m"
  by (simp add: verify_attestation_def digest_accepted_def Let_def split: option.split sum.split)

lemma attestation_no_identity: "cr_identity (verify_attestation v m) = []"
  by (simp add: verify_attestation_def cosign_fail_def Let_def split: option.split sum.split)

text \<open>An image passes the combined check exactly when it is signed by an identity the workspace's
  rule accepts, has a transparency log entry and a valid SLSA attestation, and its digest is the one
  the registry expects; the result of a passed check carries the digest but never the identity.\<close>

theorem image_verified_iff:
  "(cr_failed (cosign_combined v ws m) = None \<longleftrightarrow>
      im_signed m \<and> rule_accepts v ws m \<and> im_has_rekor_entry m
      \<and> im_attestation_type m = ''slsaprovenance'' \<and> im_attestation_valid m \<and> digest_accepted v m)
   \<and> (cr_failed (cosign_combined v ws m) \<noteq> None \<or> cr_identity (cosign_combined v ws m) = [])"
  using verify_accepts [of v ws m] attestation_accepts [of v m] attestation_no_identity [of v m]
  by (auto simp: cosign_combined_def Let_def)

section \<open>Witnesses\<close>

definition demo_runtime :: "runtime_type \<Rightarrow> runtime" where
  "demo_runtime t =
     \<lparr>rn_id = ''rt'', rn_workspace_id = ''w'', rn_tenant_id = ''t'', rn_type = t, rn_mode = ''byo'',
      rn_visibility = VisibilityWorkspace, rn_name = [], rn_region = [], rn_gke_mode = [], rn_project_id = ''p'',
      rn_cluster_name = [], rn_endpoint = ''e'', rn_service_account_email = [], rn_namespace = [],
      rn_credential_kms_key_ref = [], rn_credential_cipher_b64 = [], rn_labels = [],
      rn_capabilities = default_capabilities t, rn_status = [], rn_revoked = False, rn_created_at = 0,
      rn_updated_at = 0\<rparr>"

definition demo_params :: "string \<Rightarrow> params" where
  "demo_params strategy =
     \<lparr>pa_strategy = strategy, pa_canary_percent = 0, pa_rollback_plan = [], pa_openspec_ids = [], pa_pr_sha = [],
      pa_revision_id = ''r2'', pa_prev_revision_id = ''r1''\<rparr>"

theorem cloudrun_gradual_witness:
  "''--no-traffic'' \<in> set (snd (cloudrun_deploy (demo_runtime TypeCloudRun) (demo_params ''canary'')))
   \<and> cloudrun_latest (demo_runtime TypeCloudRun)
       \<notin> set (cloudrun_plan (demo_runtime TypeCloudRun) (demo_params ''canary''))"
  using conjunct2 [OF cloudrun_gradual [of "\<lambda>_ _. Inr []" "demo_runtime TypeCloudRun"
      "\<lparr>ra_files = [], ra_manifest_sha = [], ra_notes = []\<rparr>" "demo_params ''canary''" "[]"]]
  by (simp add: demo_params_def)

end
