(* ===== verification/Deploy_Policy.thy ===== *)
theory Deploy_Policy
  imports Deploy_Connectors
begin

text \<open>
  The deployment policies, \<open>services/deploy-orchestrator/internal/deploy/policy.go\<close>: the built-in
  templates, freeze windows, the combination of decisions and the approvals. The policy engine
  behind HTTP is a parameter of the service. A deployment strategy is its string.
\<close>

section \<open>Requests\<close>

record deploy_request =
  dq_request_id :: string
  dq_workspace_id :: string
  dq_tenant_id :: string
  dq_asset_id :: string
  dq_runtime_id :: string
  dq_env :: string
  dq_criticality :: string
  dq_data_classification :: string
  dq_image :: string
  dq_image_digest :: string
  dq_openspec_ids :: "string list"
  dq_pr_sha :: string
  dq_strategy :: string
  dq_canary_percent :: int
  dq_rollback_plan :: string
  dq_auto_rollback :: bool
  dq_actor :: string
  dq_manifest :: manifest

section \<open>Decisions\<close>

text \<open>A decision is a string; the external engine may answer any.\<close>

datatype decision =
    DecisionAllow | DecisionRequiresApproval | DecisionDeny | DecisionOther string

record policy_decision =
  pd_policy_id :: string
  pd_decision :: decision
  pd_rationale :: string
  pd_reason :: string
  pd_required_approvers :: "string list"

record freeze_window =
  fw_env :: string
  fw_start_dow :: int
  fw_start_hour :: int
  fw_end_dow :: int
  fw_end_hour :: int

record policy_context =
  pc_has_approval :: bool
  pc_approval_revision_id :: string
  pc_approval_expires_at :: gotime
  pc_now :: gotime
  pc_freeze_windows :: "freeze_window list"
  pc_override_ttl :: gotime
  pc_override_active :: bool

definition day_hour :: "int \<Rightarrow> int \<Rightarrow> int" where
  "day_hour d h = wrap64 (wrap64 (d * 24) + h)"

definition freeze_in :: "freeze_window \<Rightarrow> gotime \<Rightarrow> bool" where
  "freeze_in f now =
     (let current = day_hour (time_weekday now) (time_hour now);
          start = day_hour (fw_start_dow f) (fw_start_hour f);
          end_h = day_hour (fw_end_dow f) (fw_end_hour f)
      in if start \<le> end_h then current \<ge> start \<and> current < end_h
         else current \<ge> start \<or> current < end_h)"

section \<open>Built-in policies\<close>

definition allow_by :: "string \<Rightarrow> string \<Rightarrow> policy_decision" where
  "allow_by i why =
     \<lparr>pd_policy_id = i, pd_decision = DecisionAllow, pd_rationale = why, pd_reason = [],
      pd_required_approvers = []\<rparr>"

definition deny_by :: "string \<Rightarrow> string \<Rightarrow> string \<Rightarrow> policy_decision" where
  "deny_by i reason why =
     \<lparr>pd_policy_id = i, pd_decision = DecisionDeny, pd_rationale = why, pd_reason = reason,
      pd_required_approvers = []\<rparr>"

datatype policy =
    RequireSignedImage | RequireApprovalProd | FreezeWindowPolicy | RequireCanary | RequireRollbackPlan

definition is_high_criticality :: "string \<Rightarrow> bool" where
  "is_high_criticality c \<longleftrightarrow> to_lower c = ''high'' \<or> to_lower c = ''critical''"

definition eval_signed_image :: "deploy_request \<Rightarrow> policy_context \<Rightarrow> policy_decision" where
  "eval_signed_image req ctx =
     (if pc_override_active ctx \<and> pc_now ctx < pc_override_ttl ctx then allow_by ''require-signed-image'' ''override-allow-unsigned-image active''
      else allow_by ''require-signed-image'' ''active by default'')"

definition eval_approval_prod :: "deploy_request \<Rightarrow> policy_context \<Rightarrow> policy_decision" where
  "eval_approval_prod req ctx =
     (if \<not> equal_fold (dq_env req) ''prod'' then allow_by ''require-approval-prod'' ''env not prod''
      else if \<not> pc_has_approval ctx then
        \<lparr>pd_policy_id = ''require-approval-prod'', pd_decision = DecisionRequiresApproval,
         pd_rationale = ''production deploys require release-manager approval tied to revision'',
         pd_reason = ''pending_approval'', pd_required_approvers = [''release-manager'']\<rparr>
      else if pc_approval_revision_id ctx \<noteq> [] \<and> dq_image_digest req \<noteq> []
              \<and> \<not> equal_fold (pc_approval_revision_id ctx) (dq_image_digest req)
        then deny_by ''require-approval-prod'' ''approval_revision_mismatch'' ''approval is bound to a different revision''
      else if pc_approval_expires_at ctx \<noteq> 0 \<and> pc_now ctx > pc_approval_expires_at ctx
        then deny_by ''require-approval-prod'' ''approval_expired'' ''approval TTL exceeded (max 8h)''
      else allow_by ''require-approval-prod'' ''approval valid'')"

definition eval_freeze_window :: "deploy_request \<Rightarrow> policy_context \<Rightarrow> policy_decision" where
  "eval_freeze_window req ctx =
     (if list_ex (\<lambda>w. (fw_env w = [] \<or> equal_fold (fw_env w) (dq_env req)) \<and> freeze_in w (pc_now ctx))
           (pc_freeze_windows ctx)
      then deny_by ''freeze-window'' ''freeze_window_active'' (''freeze window in effect for env='' @ dq_env req)
      else allow_by ''freeze-window'' ''no freeze window active'')"

definition eval_canary :: "deploy_request \<Rightarrow> policy_context \<Rightarrow> policy_decision" where
  "eval_canary req ctx =
     (if \<not> equal_fold (dq_env req) ''prod'' \<or> \<not> is_high_criticality (dq_criticality req)
        then allow_by ''require-canary'' ''policy not applicable''
      else if dq_strategy req = ''canary'' \<or> dq_strategy req = ''blue_green'' then allow_by ''require-canary'' ''canary or blue/green selected''
      else deny_by ''require-canary'' ''strategy_not_allowed_for_criticality''
        (''criticality='' @ dq_criticality req @ '' and env=prod require canary or blue/green strategy''))"

definition eval_rollback_plan :: "deploy_request \<Rightarrow> policy_context \<Rightarrow> policy_decision" where
  "eval_rollback_plan req ctx =
     (if \<not> is_high_criticality (dq_criticality req) then allow_by ''require-rollback-plan'' ''criticality below high''
      else if trim_space (dq_rollback_plan req) = []
        then deny_by ''require-rollback-plan'' ''rollback_plan_missing''
        (''criticality='' @ dq_criticality req @ '' requires explicit rollback plan'')
      else allow_by ''require-rollback-plan'' ''rollback plan present'')"

fun evaluate_policy :: "policy \<Rightarrow> deploy_request \<Rightarrow> policy_context \<Rightarrow> policy_decision" where
  "evaluate_policy RequireSignedImage req ctx = eval_signed_image req ctx"
| "evaluate_policy RequireApprovalProd req ctx = eval_approval_prod req ctx"
| "evaluate_policy FreezeWindowPolicy req ctx = eval_freeze_window req ctx"
| "evaluate_policy RequireCanary req ctx = eval_canary req ctx"
| "evaluate_policy RequireRollbackPlan req ctx = eval_rollback_plan req ctx"

definition default_deployment_policies :: "policy list" where
  "default_deployment_policies =
     [RequireSignedImage, RequireApprovalProd, FreezeWindowPolicy, RequireCanary, RequireRollbackPlan]"

section \<open>Combining decisions\<close>

type_synonym first_seen = "policy_decision option \<times> policy_decision option"

text \<open>The first denial and the first request for approval.\<close>

definition note_decision :: "policy_decision \<Rightarrow> first_seen \<Rightarrow> first_seen" where
  "note_decision d seen =
     (case pd_decision d of
        DecisionDeny \<Rightarrow> (if fst seen = None then (Some d, snd seen) else seen)
      | DecisionRequiresApproval \<Rightarrow> (if snd seen = None then (fst seen, Some d) else seen)
      | _ \<Rightarrow> seen)"

definition pick_decision :: "first_seen \<Rightarrow> policy_decision" where
  "pick_decision seen =
     (case fst seen of
        Some d \<Rightarrow> d
      | None \<Rightarrow> (case snd seen of
                   Some d \<Rightarrow> d
                 | None \<Rightarrow> allow_by [] ''all policies allowed''))"

definition most_restrictive_policy_decision :: "policy_decision list \<Rightarrow> policy_decision" where
  "most_restrictive_policy_decision ds = pick_decision (fold note_decision ds (None, None))"

definition evaluate_policies ::
  "policy list \<Rightarrow> deploy_request \<Rightarrow> policy_context \<Rightarrow> policy_decision \<times> policy_decision list" where
  "evaluate_policies ps req ctx =
     (let (seen, all_ds) = fold (\<lambda>p (seen, acc). let d = evaluate_policy p req ctx
                                  in (note_decision d seen, acc @ [d])) ps ((None, None), [])
      in (pick_decision seen, all_ds))"

section \<open>Approvals\<close>

record approval =
  ap_expires_at :: gotime
  ap_revision_id :: string

type_synonym approvals = "(string \<times> approval) list"

definition approval_key :: "string \<Rightarrow> string \<Rightarrow> string \<Rightarrow> string" where
  "approval_key ws asset_id e = ws @ ''/'' @ asset_id @ ''/'' @ e"

definition approve :: "string \<Rightarrow> string \<Rightarrow> string \<Rightarrow> string \<Rightarrow> gotime \<Rightarrow> approvals \<Rightarrow> approvals" where
  "approve ws asset_id e rev_id expires_at as =
     AList.update (approval_key ws asset_id e) \<lparr>ap_expires_at = expires_at, ap_revision_id = rev_id\<rparr> as"

definition has_approval ::
  "approvals \<Rightarrow> string \<Rightarrow> string \<Rightarrow> string \<Rightarrow> string \<Rightarrow> bool \<times> gotime \<times> string" where
  "has_approval as ws asset_id e rev_id =
     (case map_of as (approval_key ws asset_id e) of
        None \<Rightarrow> (False, 0, [])
      | Some v \<Rightarrow> (True, ap_expires_at v, ap_revision_id v))"

section \<open>Lemmas\<close>

lemma decisions_by [simp]:
  "pd_decision (allow_by i w) = DecisionAllow" "pd_decision (deny_by i r w) = DecisionDeny"
  by (simp_all add: allow_by_def deny_by_def)

definition restrictive :: "decision \<Rightarrow> policy_decision list \<Rightarrow> policy_decision option" where
  "restrictive k ds = List.find (\<lambda>d. pd_decision d = k) ds"

lemma find_append_Some:
  "List.find P (xs @ ys) = (case List.find P xs of Some x \<Rightarrow> Some x | None \<Rightarrow> List.find P ys)"
  by (induction xs) auto

lemma fold_note:
  "fold note_decision ds seen =
     ((case fst seen of Some d \<Rightarrow> Some d | None \<Rightarrow> restrictive DecisionDeny ds),
      (case snd seen of Some d \<Rightarrow> Some d | None \<Rightarrow> restrictive DecisionRequiresApproval ds))"
  by (induction ds arbitrary: seen)
    (auto simp: note_decision_def restrictive_def split: decision.splits option.splits)

lemma most_restrictive_alt:
  "most_restrictive_policy_decision ds =
     (case restrictive DecisionDeny ds of
        Some d \<Rightarrow> d
      | None \<Rightarrow> (case restrictive DecisionRequiresApproval ds of Some d \<Rightarrow> d | None \<Rightarrow> allow_by [] ''all policies allowed''))"
  by (simp add: most_restrictive_policy_decision_def fold_note pick_decision_def split: option.split)

lemma restrictive_None: "restrictive k ds = None \<longleftrightarrow> (\<forall>d\<in>set ds. pd_decision d \<noteq> k)"
  by (induction ds) (auto simp: restrictive_def)

lemma restrictive_Some: "restrictive k ds = Some d \<Longrightarrow> d \<in> set ds \<and> pd_decision d = k"
  by (induction ds) (auto simp: restrictive_def split: if_splits)

text \<open>How restrictive a decision is; one the service does not know restricts nothing.\<close>

fun restriction :: "decision \<Rightarrow> nat" where
  "restriction DecisionDeny = 2"
| "restriction DecisionRequiresApproval = 1"
| "restriction _ = 0"

lemma restriction_le2: "restriction k \<le> 2"
  by (cases k) auto

lemma restriction_deny [simp]: "restriction k = 2 \<longleftrightarrow> k = DecisionDeny"
  by (cases k) auto

lemma restriction_approval [simp]: "restriction k = Suc 0 \<longleftrightarrow> k = DecisionRequiresApproval"
  by (cases k) auto

lemma restriction_zero: "restriction k = 0 \<longleftrightarrow> k \<noteq> DecisionDeny \<and> k \<noteq> DecisionRequiresApproval"
  by (cases k) auto

lemma most_restrictive_bound:
  assumes "d \<in> set ds"
  shows "restriction (pd_decision d) \<le> restriction (pd_decision (most_restrictive_policy_decision ds))"
proof (cases "restrictive DecisionDeny ds")
  case (Some e)
  then show ?thesis
    using restrictive_Some [OF Some] restriction_le2 by (simp add: most_restrictive_alt)
next
  case None
  then have deny: "pd_decision d \<noteq> DecisionDeny" using assms by (simp add: restrictive_None)
  show ?thesis
  proof (cases "restrictive DecisionRequiresApproval ds")
    case (Some e)
    then show ?thesis
      using restrictive_Some [OF Some] deny None by (cases "pd_decision d") (simp_all add: most_restrictive_alt)
  next
    case none2: None
    then have "pd_decision d \<noteq> DecisionRequiresApproval" using assms by (simp add: restrictive_None)
    then show ?thesis using deny by (cases "pd_decision d") simp_all
  qed
qed

lemma most_restrictive_cases:
  "most_restrictive_policy_decision ds \<in> set ds
   \<or> restriction (pd_decision (most_restrictive_policy_decision ds)) = 0
     \<and> pd_decision (most_restrictive_policy_decision ds) = DecisionAllow"
  using restrictive_Some [of DecisionDeny ds] restrictive_Some [of DecisionRequiresApproval ds]
  unfolding most_restrictive_alt by (auto split: option.split)

lemma most_restrictive_allow:
  "pd_decision (most_restrictive_policy_decision ds) = DecisionAllow
     \<longleftrightarrow> (\<forall>d\<in>set ds. restriction (pd_decision d) = 0)"
proof
  assume "pd_decision (most_restrictive_policy_decision ds) = DecisionAllow"
  then show "\<forall>d\<in>set ds. restriction (pd_decision d) = 0"
    using most_restrictive_bound by fastforce
next
  assume a: "\<forall>d\<in>set ds. restriction (pd_decision d) = 0"
  then have "restrictive DecisionDeny ds = None" "restrictive DecisionRequiresApproval ds = None"
    by (auto simp: restrictive_None)
  then show "pd_decision (most_restrictive_policy_decision ds) = DecisionAllow"
    by (simp add: most_restrictive_alt)
qed

lemma evaluate_fold:
  "fold (\<lambda>p (seen, acc). let d = evaluate_policy p req ctx in (note_decision d seen, acc @ [d])) ps (seen, acc)
     = (fold note_decision (map (\<lambda>p. evaluate_policy p req ctx) ps) seen,
        acc @ map (\<lambda>p. evaluate_policy p req ctx) ps)"
  by (induction ps arbitrary: seen acc) (auto simp: Let_def)

lemma evaluate_policies_alt:
  "evaluate_policies ps req ctx =
     (most_restrictive_policy_decision (map (\<lambda>p. evaluate_policy p req ctx) ps),
      map (\<lambda>p. evaluate_policy p req ctx) ps)"
  by (simp add: evaluate_policies_def evaluate_fold most_restrictive_policy_decision_def)

text \<open>The hour of the week.\<close>

definition week_hour :: "gotime \<Rightarrow> int" where
  "week_hour t = 24 * time_weekday t + time_hour t"

lemma week_hour_range: "0 \<le> week_hour t" "week_hour t < 168"
proof -
  have "0 \<le> time_weekday t" "time_weekday t < 7" "0 \<le> time_hour t" "time_hour t < 24"
    by (simp_all add: time_weekday_def time_hour_def)
  then show "0 \<le> week_hour t" "week_hour t < 168" by (simp_all add: week_hour_def)
qed

lemma day_hour_small:
  assumes "0 \<le> d" "d < 7" "0 \<le> h" "h < 24"
  shows "day_hour d h = 24 * d + h"
proof -
  have "wrap64 (d * 24) = d * 24" using assms by (intro wrap64_id) auto
  moreover have "wrap64 (d * 24 + h) = d * 24 + h" using assms by (intro wrap64_id) auto
  ultimately show ?thesis by (simp add: day_hour_def)
qed

lemma day_hour_now: "day_hour (time_weekday t) (time_hour t) = week_hour t"
  by (simp add: day_hour_small time_weekday_def time_hour_def week_hour_def)

text \<open>A window whose fields are a day of the week and an hour of the day.\<close>

definition window_in_range :: "freeze_window \<Rightarrow> bool" where
  "window_in_range f \<longleftrightarrow>
     0 \<le> fw_start_dow f \<and> fw_start_dow f < 7 \<and> 0 \<le> fw_start_hour f \<and> fw_start_hour f < 24
     \<and> 0 \<le> fw_end_dow f \<and> fw_end_dow f < 7 \<and> 0 \<le> fw_end_hour f \<and> fw_end_hour f < 24"

definition window_start :: "freeze_window \<Rightarrow> int" where
  "window_start f = 24 * fw_start_dow f + fw_start_hour f"

definition window_end :: "freeze_window \<Rightarrow> int" where
  "window_end f = 24 * fw_end_dow f + fw_end_hour f"

lemma window_bounds:
  assumes "window_in_range f"
  shows "0 \<le> window_start f" "window_start f < 168" "0 \<le> window_end f" "window_end f < 168"
  using assms by (auto simp: window_in_range_def window_start_def window_end_def)

lemma freeze_in_alt:
  assumes "window_in_range f"
  shows "freeze_in f now \<longleftrightarrow>
    (if window_start f \<le> window_end f
     then window_start f \<le> week_hour now \<and> week_hour now < window_end f
     else window_start f \<le> week_hour now \<or> week_hour now < window_end f)"
  using assms
  by (simp add: freeze_in_def day_hour_now day_hour_small window_in_range_def window_start_def
      window_end_def Let_def)

lemma mod_week:
  fixes a b :: int
  assumes "0 \<le> a" "a < 168" "0 \<le> b" "b < 168"
  shows "(a - b) mod 168 = (if b \<le> a then a - b else a - b + 168)"
proof (cases "b \<le> a")
  case True
  then show ?thesis using assms by (simp add: mod_pos_pos_trivial)
next
  case False
  then have "(a - b + 168) mod 168 = a - b + 168" using assms by (intro mod_pos_pos_trivial) auto
  moreover have "(a - b + 168) mod 168 = (a - b) mod 168" by (rule mod_add_self2)
  ultimately show ?thesis using False by simp
qed

section \<open>Properties\<close>

text \<open>The combined decision is as restrictive as the most restrictive evaluation, every evaluation
  is returned for the audit in the order of the policies, and the combination is the one
  \<open>MostRestrictivePolicyDecision\<close> computes.\<close>

theorem policies_combine:
  "restriction (pd_decision (fst (evaluate_policies ps req ctx)))
     = Max (insert 0 ((\<lambda>d. restriction (pd_decision d)) ` set (snd (evaluate_policies ps req ctx))))
   \<and> snd (evaluate_policies ps req ctx) = map (\<lambda>p. evaluate_policy p req ctx) ps
   \<and> fst (evaluate_policies ps req ctx)
       = most_restrictive_policy_decision (snd (evaluate_policies ps req ctx))"
proof -
  define ds where "ds = map (\<lambda>p. evaluate_policy p req ctx) ps"
  define m where "m = most_restrictive_policy_decision ds"
  define R :: "policy_decision \<Rightarrow> nat" where "R = (\<lambda>d. restriction (pd_decision d))"
  have bound: "\<forall>d\<in>set ds. R d \<le> R m" using most_restrictive_bound by (simp add: R_def m_def)
  have mem: "R m \<in> insert 0 (R ` set ds)"
    using most_restrictive_cases [of ds] by (auto simp: R_def m_def)
  have "Max (insert 0 (R ` set ds)) = R m" by (rule Max_eqI) (use bound mem in auto)
  then show ?thesis by (simp add: evaluate_policies_alt R_def ds_def m_def)
qed

text \<open>The shipped policies let a deployment through exactly when a production deployment carries
  an unexpired approval for its image, no freeze window of its environment is active, a critical
  production deployment is a canary or blue/green one, and a critical deployment has a rollback
  plan.\<close>

theorem default_policies_allow:
  "pd_decision (fst (evaluate_policies default_deployment_policies req ctx)) = DecisionAllow \<longleftrightarrow>
     (equal_fold (dq_env req) ''prod'' \<longrightarrow>
        pc_has_approval ctx
        \<and> (pc_approval_revision_id ctx = [] \<or> dq_image_digest req = []
           \<or> equal_fold (pc_approval_revision_id ctx) (dq_image_digest req))
        \<and> (pc_approval_expires_at ctx = 0 \<or> pc_now ctx \<le> pc_approval_expires_at ctx)
        \<and> (is_high_criticality (dq_criticality req) \<longrightarrow>
             dq_strategy req = ''canary'' \<or> dq_strategy req = ''blue_green''))
     \<and> (is_high_criticality (dq_criticality req) \<longrightarrow> trim_space (dq_rollback_plan req) \<noteq> [])
     \<and> (\<forall>w\<in>set (pc_freeze_windows ctx).
          fw_env w = [] \<or> equal_fold (fw_env w) (dq_env req) \<longrightarrow> \<not> freeze_in w (pc_now ctx))"
proof -
  have signed: "restriction (pd_decision (eval_signed_image req ctx)) = 0"
    by (simp add: eval_signed_image_def)
  have approval: "restriction (pd_decision (eval_approval_prod req ctx)) = 0 \<longleftrightarrow>
      \<not> equal_fold (dq_env req) ''prod''
      \<or> pc_has_approval ctx
        \<and> (pc_approval_revision_id ctx = [] \<or> dq_image_digest req = []
           \<or> equal_fold (pc_approval_revision_id ctx) (dq_image_digest req))
        \<and> (pc_approval_expires_at ctx = 0 \<or> pc_now ctx \<le> pc_approval_expires_at ctx)"
    by (simp add: eval_approval_prod_def not_le)
  have freeze: "restriction (pd_decision (eval_freeze_window req ctx)) = 0 \<longleftrightarrow>
      (\<forall>w\<in>set (pc_freeze_windows ctx).
          fw_env w = [] \<or> equal_fold (fw_env w) (dq_env req) \<longrightarrow> \<not> freeze_in w (pc_now ctx))"
    by (auto simp: eval_freeze_window_def list_ex_iff)
  have canary: "restriction (pd_decision (eval_canary req ctx)) = 0 \<longleftrightarrow>
      \<not> equal_fold (dq_env req) ''prod'' \<or> \<not> is_high_criticality (dq_criticality req)
      \<or> dq_strategy req = ''canary'' \<or> dq_strategy req = ''blue_green''"
    by (auto simp: eval_canary_def)
  have plan: "restriction (pd_decision (eval_rollback_plan req ctx)) = 0 \<longleftrightarrow>
      \<not> is_high_criticality (dq_criticality req) \<or> trim_space (dq_rollback_plan req) \<noteq> []"
    by (simp add: eval_rollback_plan_def)
  have "pd_decision (fst (evaluate_policies default_deployment_policies req ctx)) = DecisionAllow \<longleftrightarrow>
      (\<forall>p\<in>set default_deployment_policies. restriction (pd_decision (evaluate_policy p req ctx)) = 0)"
    by (simp add: evaluate_policies_alt most_restrictive_allow)
  then show ?thesis
    unfolding default_deployment_policies_def
    by (cases "equal_fold (dq_env req) ''prod''"; cases "is_high_criticality (dq_criticality req)")
      (simp_all add: signed approval freeze canary plan conj_ac del: restriction.simps)
qed

text \<open>A freeze window with in-range fields covers exactly the hours of the week from its start
  up to its end, across the end of the week when the end comes first.\<close>

theorem freeze_window_cyclic:
  assumes "window_in_range f"
  shows "freeze_in f now \<longleftrightarrow>
    (week_hour now - window_start f) mod 168 < (window_end f - window_start f) mod 168"
proof -
  note b = window_bounds [OF assms] week_hour_range [of now]
  have d1: "(week_hour now - window_start f) mod 168
      = (if window_start f \<le> week_hour now then week_hour now - window_start f
         else week_hour now - window_start f + 168)"
    using b by (intro mod_week) auto
  have d2: "(window_end f - window_start f) mod 168
      = (if window_start f \<le> window_end f then window_end f - window_start f
         else window_end f - window_start f + 168)"
    using b by (intro mod_week) auto
  show ?thesis unfolding freeze_in_alt [OF assms] d1 d2 using b by auto
qed

section \<open>Witnesses\<close>

text \<open>A weekend freeze, Friday 18:00 to Monday 08:00, on Saturday and on Tuesday.\<close>

definition weekend :: freeze_window where
  "weekend = \<lparr>fw_env = ''prod'', fw_start_dow = 5, fw_start_hour = 18, fw_end_dow = 1, fw_end_hour = 8\<rparr>"

theorem freeze_window_cyclic_witness:
  "freeze_in weekend (5 * 24 * hour_ns) \<and> \<not> freeze_in weekend (24 * hour_ns)"
proof
  have r: "window_in_range weekend" by (simp add: window_in_range_def weekend_def)
  show "freeze_in weekend (5 * 24 * hour_ns)"
    unfolding freeze_window_cyclic [OF r]
    by (simp add: window_start_def window_end_def weekend_def week_hour_def time_weekday_def
        time_hour_def hour_ns_def)
  show "\<not> freeze_in weekend (24 * hour_ns)"
    unfolding freeze_window_cyclic [OF r]
    by (simp add: window_start_def window_end_def weekend_def week_hour_def time_weekday_def
        time_hour_def hour_ns_def)
qed

definition demo_deploy :: deploy_request where
  "demo_deploy =
     \<lparr>dq_request_id = ''r1'', dq_workspace_id = ''w'', dq_tenant_id = ''t'', dq_asset_id = ''a'',
      dq_runtime_id = ''k8s'', dq_env = ''prod'', dq_criticality = ''high'', dq_data_classification = [],
      dq_image = ''img'', dq_image_digest = ''d1'', dq_openspec_ids = [], dq_pr_sha = [],
      dq_strategy = ''canary'', dq_canary_percent = 10, dq_rollback_plan = ''redeploy'',
      dq_auto_rollback = True, dq_actor = ''u'', dq_manifest = zero_manifest\<rparr>"

definition demo_policy_context :: "bool \<Rightarrow> policy_context" where
  "demo_policy_context ok =
     \<lparr>pc_has_approval = ok, pc_approval_revision_id = ''D1'', pc_approval_expires_at = 0, pc_now = 24 * hour_ns,
      pc_freeze_windows = [weekend], pc_override_ttl = 0, pc_override_active = False\<rparr>"

theorem default_policies_allow_witness:
  "pd_decision (fst (evaluate_policies default_deployment_policies demo_deploy (demo_policy_context True)))
     = DecisionAllow
   \<and> pd_decision (fst (evaluate_policies default_deployment_policies demo_deploy (demo_policy_context False)))
     \<noteq> DecisionAllow"
proof
  have tuesday: "\<not> freeze_in weekend (24 * hour_ns)"
    by (simp add: freeze_in_def day_hour_def wrap64_def weekend_def time_weekday_def time_hour_def hour_ns_def)
  have "equal_fold ''D1'' ''d1''" "trim_space ''redeploy'' \<noteq> []" by code_simp+
  then show "pd_decision (fst (evaluate_policies default_deployment_policies demo_deploy (demo_policy_context True)))
     = DecisionAllow"
    unfolding default_policies_allow using tuesday by (simp add: demo_deploy_def demo_policy_context_def)
  have "equal_fold ''prod'' ''prod''" by (simp add: equal_fold_def)
  then show "pd_decision (fst (evaluate_policies default_deployment_policies demo_deploy (demo_policy_context False)))
     \<noteq> DecisionAllow"
    unfolding default_policies_allow by (simp add: demo_deploy_def demo_policy_context_def)
qed

end
