(* ===== verification/Deploy_Store.thy ===== *)
theory Deploy_Store
  imports Deploy_Policy
begin

text \<open>
  Deployments and their in-memory store, \<open>services/deploy-orchestrator/internal/deploy/types.go\<close>.
  The code shares one \<open>*Deployment\<close> between the map by identifier and the revision lists and
  updates it in place; the model keeps the structs in a heap and stores addresses. Fresh
  identifiers and readings of the wall clock are arguments of the operations that use them.
  Operations are atomic, as under the store's lock.
\<close>

section \<open>Data\<close>

datatype status =
    StPending | StRunning | StCompleted | StFailed | StRolledBack | StPendingApproval | StBlocked

datatype stage =
    StageRequested | StagePreflight | StagePolicy | StageImageVerify | StageRender | StageApply
  | StageVerify | StageNotify | StageRollback

datatype stage_outcome =
    OutcomeStarted | OutcomeCompleted | OutcomeFailed | OutcomeDenied | OutcomeSkipped

record deployment =
  de_id :: string
  de_request_id :: string
  de_workspace_id :: string
  de_tenant_id :: string
  de_asset_id :: string
  de_env :: string
  de_criticality :: string
  de_data_classification :: string
  de_runtime_id :: string
  de_image :: string
  de_image_digest :: string
  de_manifest_sha :: string
  de_revision_id :: string
  de_source_revision_id :: string
  de_rollback_of :: string
  de_openspec_ids :: "string list"
  de_pr_sha :: string
  de_strategy :: string
  de_canary_percent :: int
  de_rollback_plan :: string
  de_auto_rollback :: bool
  de_status :: status
  de_status_reason :: string
  de_verified_signature :: bool
  de_verified_attestation :: bool
  de_correlation_id :: string
  de_actor :: string
  de_created_at :: gotime
  de_completed_at :: "gotime option"

record deployment_event =
  ev_id :: string
  ev_deployment_id :: string
  ev_stage :: stage
  ev_outcome :: stage_outcome
  ev_reason :: string
  ev_detail :: obj
  ev_started_at :: gotime
  ev_ended_at :: gotime
  ev_duration_ms :: int

record policy_eval_result =
  pe_id :: string
  pe_deployment_id :: string
  pe_policy_id :: string
  pe_outcome :: decision
  pe_reason :: string
  pe_detail :: obj
  pe_evaluated_at :: gotime

record image_verification_result =
  iv_id :: string
  iv_deployment_id :: string
  iv_outcome :: string
  iv_reason :: string
  iv_identity :: string
  iv_digest :: string
  iv_signature_verified :: bool
  iv_attestation_verified :: bool
  iv_override_id :: string
  iv_created_at :: gotime

record rollback_record =
  rb_id :: string
  rb_deployment_id :: string
  rb_source_rev_id :: string
  rb_restored_rev_id :: string
  rb_reason :: string
  rb_trigger :: string
  rb_approved :: bool
  rb_created_at :: gotime
  rb_completed_at :: "gotime option"

text \<open>A subscriber's channel of capacity 64: what it buffers and whether it is closed.\<close>

record event_channel =
  ch_buffer :: "deployment_event list"
  ch_closed :: bool

record deploy_store =
  ds_heap :: "deployment list"
  ds_deployments :: "(string \<times> nat) list"
  ds_by_request :: "(string \<times> string) list"
  ds_events :: "(string \<times> deployment_event list) list"
  ds_policy_evals :: "(string \<times> policy_eval_result list) list"
  ds_image_results :: "(string \<times> image_verification_result list) list"
  ds_rollbacks :: "(string \<times> rollback_record list) list"
  ds_revisions :: "(string \<times> nat list) list"
  ds_listeners :: "(string \<times> nat list) list"
  ds_channels :: "event_channel list"

definition new_deploy_store :: deploy_store where
  "new_deploy_store =
     \<lparr>ds_heap = [], ds_deployments = [], ds_by_request = [], ds_events = [], ds_policy_evals = [],
      ds_image_results = [], ds_rollbacks = [], ds_revisions = [], ds_listeners = [], ds_channels = []\<rparr>"

section \<open>Operations\<close>

definition revision_key :: "string \<Rightarrow> string \<Rightarrow> string" where
  "revision_key asset_id e = asset_id @ ''|'' @ e"

text \<open>The struct a pointer of the map points to.\<close>

definition deployment_at :: "deploy_store \<Rightarrow> string \<Rightarrow> deployment option" where
  "deployment_at s i = map_option (\<lambda>a. ds_heap s ! a) (map_of (ds_deployments s) i)"

definition with_defaults :: "string \<Rightarrow> string \<Rightarrow> gotime \<Rightarrow> deployment \<Rightarrow> deployment" where
  "with_defaults id1 id2 wall d =
     (let d1 = (if de_id d = [] then d\<lparr>de_id := id1\<rparr> else d);
          d2 = (if de_correlation_id d1 = [] then d1\<lparr>de_correlation_id := id2\<rparr> else d1)
      in if de_created_at d2 = 0 then d2\<lparr>de_created_at := wall\<rparr> else d2)"

definition insert_deployment ::
  "string \<Rightarrow> string \<Rightarrow> gotime \<Rightarrow> deployment \<Rightarrow> deploy_store \<Rightarrow> deployment option \<times> bool \<times> deploy_store" where
  "insert_deployment id1 id2 wall d s =
     (case map_of (ds_by_request s) (de_request_id d) of
        Some existing \<Rightarrow> (deployment_at s existing, False, s)
      | None \<Rightarrow>
          let d' = with_defaults id1 id2 wall d; a = length (ds_heap s)
          in (Some d', True,
              s\<lparr>ds_heap := ds_heap s @ [d'],
                ds_deployments := AList.update (de_id d') a (ds_deployments s),
                ds_by_request := AList.update (de_request_id d') (de_id d') (ds_by_request s),
                ds_revisions := push_at (revision_key (de_asset_id d') (de_env d')) a (ds_revisions s)\<rparr>))"

definition get_deployment :: "string \<Rightarrow> deploy_store \<Rightarrow> deployment option" where
  "get_deployment i s = deployment_at s i"

definition newer :: "deployment \<Rightarrow> deployment \<Rightarrow> bool" where
  "newer a b \<longleftrightarrow> de_created_at a > de_created_at b"

definition list_deployments :: "string \<Rightarrow> string \<Rightarrow> deploy_store \<Rightarrow> deployment list" where
  "list_deployments ws e s =
     sort_slice newer
       (filter (\<lambda>d. (ws = [] \<or> de_workspace_id d = ws) \<and> (e = [] \<or> de_env d = e))
          (map (\<lambda>(_, a). ds_heap s ! a) (ds_deployments s)))"

definition update_deployment :: "string \<Rightarrow> (deployment \<Rightarrow> deployment) \<Rightarrow> deploy_store \<Rightarrow> deploy_store" where
  "update_deployment i f s =
     (case map_of (ds_deployments s) i of
        None \<Rightarrow> s
      | Some a \<Rightarrow> s\<lparr>ds_heap := (ds_heap s)[a := f (ds_heap s ! a)]\<rparr>)"

definition set_deploy_status :: "string \<Rightarrow> status \<Rightarrow> string \<Rightarrow> gotime \<Rightarrow> deploy_store \<Rightarrow> deploy_store" where
  "set_deploy_status i st reason wall =
     update_deployment i (\<lambda>d.
       let d' = d\<lparr>de_status := st, de_status_reason := reason\<rparr>
       in if st = StCompleted \<or> st = StFailed \<or> st = StRolledBack
          then d'\<lparr>de_completed_at := Some wall\<rparr> else d')"

definition set_verified :: "string \<Rightarrow> bool \<Rightarrow> bool \<Rightarrow> deploy_store \<Rightarrow> deploy_store" where
  "set_verified i sig att =
     update_deployment i (\<lambda>d. d\<lparr>de_verified_signature := sig, de_verified_attestation := att\<rparr>)"

definition set_manifest_sha :: "string \<Rightarrow> string \<Rightarrow> deploy_store \<Rightarrow> deploy_store" where
  "set_manifest_sha i sha = update_deployment i (\<lambda>d. d\<lparr>de_manifest_sha := sha\<rparr>)"

text \<open>A non-blocking send to a channel of capacity 64.\<close>

definition try_send :: "deployment_event \<Rightarrow> event_channel \<Rightarrow> event_channel" where
  "try_send ev c = (if length (ch_buffer c) < 64 then c\<lparr>ch_buffer := ch_buffer c @ [ev]\<rparr> else c)"

definition append_event :: "string \<Rightarrow> deployment_event \<Rightarrow> deploy_store \<Rightarrow> deploy_store" where
  "append_event new_id ev0 s =
     (let ev = (if ev_id ev0 = [] then ev0\<lparr>ev_id := new_id\<rparr> else ev0);
          ls = list_at (ds_listeners s) (ev_deployment_id ev)
      in s\<lparr>ds_events := push_at (ev_deployment_id ev) ev (ds_events s),
           ds_channels := fold (\<lambda>a cs. cs[a := try_send ev (cs ! a)]) ls (ds_channels s)\<rparr>)"

definition deploy_events :: "string \<Rightarrow> deploy_store \<Rightarrow> deployment_event list" where
  "deploy_events i s = list_at (ds_events s) i"

definition append_policy_eval :: "string \<Rightarrow> gotime \<Rightarrow> policy_eval_result \<Rightarrow> deploy_store \<Rightarrow> deploy_store" where
  "append_policy_eval new_id wall r s =
     (let r1 = (if pe_id r = [] then r\<lparr>pe_id := new_id\<rparr> else r);
          r2 = (if pe_evaluated_at r1 = 0 then r1\<lparr>pe_evaluated_at := wall\<rparr> else r1)
      in s\<lparr>ds_policy_evals := push_at (pe_deployment_id r2) r2 (ds_policy_evals s)\<rparr>)"

definition policy_evals :: "string \<Rightarrow> deploy_store \<Rightarrow> policy_eval_result list" where
  "policy_evals i s = list_at (ds_policy_evals s) i"

definition append_image_verification ::
  "string \<Rightarrow> gotime \<Rightarrow> image_verification_result \<Rightarrow> deploy_store \<Rightarrow> deploy_store" where
  "append_image_verification new_id wall r s =
     (let r1 = (if iv_id r = [] then r\<lparr>iv_id := new_id\<rparr> else r);
          r2 = (if iv_created_at r1 = 0 then r1\<lparr>iv_created_at := wall\<rparr> else r1)
      in s\<lparr>ds_image_results := push_at (iv_deployment_id r2) r2 (ds_image_results s)\<rparr>)"

definition image_verifications :: "string \<Rightarrow> deploy_store \<Rightarrow> image_verification_result list" where
  "image_verifications i s = list_at (ds_image_results s) i"

definition append_rollback :: "string \<Rightarrow> gotime \<Rightarrow> rollback_record \<Rightarrow> deploy_store \<Rightarrow> deploy_store" where
  "append_rollback new_id wall r s =
     (let r1 = (if rb_id r = [] then r\<lparr>rb_id := new_id\<rparr> else r);
          r2 = (if rb_created_at r1 = 0 then r1\<lparr>rb_created_at := wall\<rparr> else r1)
      in s\<lparr>ds_rollbacks := push_at (rb_deployment_id r2) r2 (ds_rollbacks s)\<rparr>)"

definition rollback_records :: "string \<Rightarrow> deploy_store \<Rightarrow> rollback_record list" where
  "rollback_records i s = list_at (ds_rollbacks s) i"

definition revisions_of :: "string \<Rightarrow> string \<Rightarrow> deploy_store \<Rightarrow> deployment list" where
  "revisions_of asset_id e s = map (\<lambda>a. ds_heap s ! a) (list_at (ds_revisions s) (revision_key asset_id e))"

definition previous_revision :: "string \<Rightarrow> string \<Rightarrow> string \<Rightarrow> deploy_store \<Rightarrow> deployment option" where
  "previous_revision asset_id e current s =
     List.find (\<lambda>d. de_id d \<noteq> current \<and> de_status d = StCompleted) (rev (revisions_of asset_id e s))"

fun after_cursor :: "string \<Rightarrow> nat \<Rightarrow> deployment list \<Rightarrow> nat" where
  "after_cursor cur i [] = 0"
| "after_cursor cur i (d # ds) = (if de_id d = cur then Suc i else after_cursor cur (Suc i) ds)"

definition asset_deployments ::
  "string \<Rightarrow> string \<Rightarrow> int \<Rightarrow> string \<Rightarrow> deploy_store \<Rightarrow> deployment list \<times> string" where
  "asset_deployments asset_id e limit0 cursor s =
     (let all_ds = sort_slice newer (revisions_of asset_id e s);
          start = (if cursor \<noteq> [] then after_cursor cursor 0 all_ds else 0);
          limit = (if limit0 \<le> 0 \<or> limit0 > 100 then 20 else nat limit0);
          end_i = min (start + limit) (length all_ds);
          page = take (end_i - start) (drop start all_ds);
          next_c = (if end_i < length all_ds then de_id (all_ds ! (end_i - 1)) else [])
      in (page, next_c))"

definition subscribe :: "string \<Rightarrow> deploy_store \<Rightarrow> nat \<times> deploy_store" where
  "subscribe i s =
     (let a = length (ds_channels s)
      in (a, s\<lparr>ds_channels := ds_channels s @ [\<lparr>ch_buffer = [], ch_closed = False\<rparr>],
               ds_listeners := push_at i a (ds_listeners s)\<rparr>))"

text \<open>The clean-up function that \<open>Subscribe\<close> returns.\<close>

definition unsubscribe :: "string \<Rightarrow> nat \<Rightarrow> deploy_store \<Rightarrow> deploy_store" where
  "unsubscribe i a s =
     s\<lparr>ds_listeners := AList.update i (remove1 a (list_at (ds_listeners s) i)) (ds_listeners s),
       ds_channels := (ds_channels s)[a := (ds_channels s ! a)\<lparr>ch_closed := True\<rparr>]\<rparr>"

text \<open>The mutating operations as one step function.\<close>

datatype deploy_op =
    OpInsert string string gotime deployment
  | OpStatus string status string gotime
  | OpVerified string bool bool
  | OpManifest string string
  | OpEvent string deployment_event
  | OpPolicyEval string gotime policy_eval_result
  | OpImage string gotime image_verification_result
  | OpRollback string gotime rollback_record
  | OpSubscribe string
  | OpUnsubscribe string nat

fun deploy_step :: "deploy_op \<Rightarrow> deploy_store \<Rightarrow> deploy_store" where
  "deploy_step (OpInsert id1 id2 t d) s = snd (snd (insert_deployment id1 id2 t d s))"
| "deploy_step (OpStatus i st reason t) s = set_deploy_status i st reason t s"
| "deploy_step (OpVerified i sig att) s = set_verified i sig att s"
| "deploy_step (OpManifest i sha) s = set_manifest_sha i sha s"
| "deploy_step (OpEvent i ev) s = append_event i ev s"
| "deploy_step (OpPolicyEval i t r) s = append_policy_eval i t r s"
| "deploy_step (OpImage i t r) s = append_image_verification i t r s"
| "deploy_step (OpRollback i t r) s = append_rollback i t r s"
| "deploy_step (OpSubscribe i) s = snd (subscribe i s)"
| "deploy_step (OpUnsubscribe i a) s = unsubscribe i a s"

section \<open>What never changes\<close>

text \<open>The fields no operation writes after the insertion.\<close>

definition frozen :: "deployment \<Rightarrow> deployment" where
  "frozen d = d\<lparr>de_manifest_sha := [], de_status := StPending, de_status_reason := [],
     de_verified_signature := False, de_verified_attestation := False, de_completed_at := None\<rparr>"

definition revision_history :: "string \<Rightarrow> string \<Rightarrow> deploy_store \<Rightarrow> deployment list" where
  "revision_history asset_id e s = map frozen (revisions_of asset_id e s)"

definition store_ok :: "deploy_store \<Rightarrow> bool" where
  "store_ok s \<longleftrightarrow>
     (\<forall>i a. map_of (ds_deployments s) i = Some a \<longrightarrow> a < length (ds_heap s) \<and> de_id (ds_heap s ! a) = i)
     \<and> (\<forall>k. \<forall>a\<in>set (list_at (ds_revisions s) k). a < length (ds_heap s))
     \<and> (\<forall>r i. map_of (ds_by_request s) r = Some i \<longrightarrow> map_of (ds_deployments s) i \<noteq> None)"

definition heap_below :: "deploy_store \<Rightarrow> deploy_store \<Rightarrow> bool" where
  "heap_below s t \<longleftrightarrow>
     length (ds_heap s) \<le> length (ds_heap t)
     \<and> (\<forall>a < length (ds_heap s). frozen (ds_heap t ! a) = frozen (ds_heap s ! a))"

definition maps_below :: "deploy_store \<Rightarrow> deploy_store \<Rightarrow> bool" where
  "maps_below s t \<longleftrightarrow>
     (\<forall>k. extends (list_at (ds_revisions s) k) (list_at (ds_revisions t) k))
     \<and> (\<forall>r i. map_of (ds_by_request s) r = Some i \<longrightarrow> map_of (ds_by_request t) r = Some i)"

definition logs_below :: "deploy_store \<Rightarrow> deploy_store \<Rightarrow> bool" where
  "logs_below s t \<longleftrightarrow>
     (\<forall>i. extends (deploy_events i s) (deploy_events i t))
     \<and> (\<forall>i. extends (policy_evals i s) (policy_evals i t))
     \<and> (\<forall>i. extends (image_verifications i s) (image_verifications i t))
     \<and> (\<forall>i. extends (rollback_records i s) (rollback_records i t))"

definition store_below :: "deploy_store \<Rightarrow> deploy_store \<Rightarrow> bool" where
  "store_below s t \<longleftrightarrow> heap_below s t \<and> maps_below s t \<and> logs_below s t"

lemmas log_defs = deploy_events_def policy_evals_def image_verifications_def rollback_records_def

lemma below_refl: "store_below s s"
  by (simp add: store_below_def heap_below_def maps_below_def logs_below_def)

lemma below_trans: "store_below s t \<Longrightarrow> store_below t u \<Longrightarrow> store_below s u"
  by (auto simp: store_below_def heap_below_def maps_below_def logs_below_def intro: extends_trans)

text \<open>In-place updates.\<close>

lemma update_deployment_frame [frame_simps]:
  "ds_deployments (update_deployment i f s) = ds_deployments s"
  "ds_by_request (update_deployment i f s) = ds_by_request s"
  "ds_events (update_deployment i f s) = ds_events s"
  "ds_policy_evals (update_deployment i f s) = ds_policy_evals s"
  "ds_image_results (update_deployment i f s) = ds_image_results s"
  "ds_rollbacks (update_deployment i f s) = ds_rollbacks s"
  "ds_revisions (update_deployment i f s) = ds_revisions s"
  "length (ds_heap (update_deployment i f s)) = length (ds_heap s)"
  by (simp_all add: update_deployment_def split: option.split)

lemma update_deployment_at:
  assumes "store_ok s"
  shows "deployment_at (update_deployment i f s) j
     = (if j = i then map_option f (deployment_at s i) else deployment_at s j)"
proof (cases "map_of (ds_deployments s) i")
  case None
  then show ?thesis by (simp add: update_deployment_def deployment_at_def)
next
  case (Some a)
  have other: "b \<noteq> a" if "map_of (ds_deployments s) j = Some b" "j \<noteq> i" for b
    using assms Some that unfolding store_ok_def by metis
  show ?thesis
  proof (cases "map_of (ds_deployments s) j")
    case None
    then show ?thesis using Some by (auto simp: update_deployment_def deployment_at_def)
  next
    case inner: (Some b)
    then show ?thesis using Some assms other
      by (auto simp: update_deployment_def deployment_at_def store_ok_def nth_list_update)
  qed
qed

lemma update_deployment_step:
  assumes "store_ok s" "\<And>d. frozen (f d) = frozen d"
  shows "store_ok (update_deployment i f s)" "store_below s (update_deployment i f s)"
proof -
  have f_id: "de_id (f d) = de_id d" for d
  proof -
    have "de_id (frozen (f d)) = de_id (frozen d)" by (simp add: assms(2))
    then show ?thesis by (simp add: frozen_def)
  qed
  have heap: "frozen (ds_heap (update_deployment i f s) ! a) = frozen (ds_heap s ! a)
      \<and> de_id (ds_heap (update_deployment i f s) ! a) = de_id (ds_heap s ! a)"
    if "a < length (ds_heap s)" for a
  proof (cases "map_of (ds_deployments s) i")
    case None
    then show ?thesis by (simp add: update_deployment_def)
  next
    case (Some b)
    then show ?thesis using that by (cases "b = a") (simp_all add: update_deployment_def assms(2) f_id)
  qed
  show "store_ok (update_deployment i f s)"
    using assms(1) heap by (auto simp: store_ok_def frame_simps)
  show "store_below s (update_deployment i f s)"
    using heap by (simp add: store_below_def heap_below_def maps_below_def logs_below_def log_defs frame_simps)
qed

lemma frozen_updates [simp]:
  "frozen (d\<lparr>de_manifest_sha := x\<rparr>) = frozen d"
  "frozen (d\<lparr>de_status := st, de_status_reason := y\<rparr>) = frozen d"
  "frozen (d\<lparr>de_status := st, de_status_reason := y, de_completed_at := z\<rparr>) = frozen d"
  "frozen (d\<lparr>de_verified_signature := b, de_verified_attestation := c\<rparr>) = frozen d"
  by (simp_all add: frozen_def)

text \<open>The appending operations leave the heap and the maps alone.\<close>

lemma appends_only:
  assumes "ds_heap t = ds_heap s" "ds_deployments t = ds_deployments s" "ds_by_request t = ds_by_request s"
    "ds_revisions t = ds_revisions s" "logs_below s t" "store_ok s"
  shows "store_ok t" "store_below s t"
  using assms by (simp_all add: store_ok_def store_below_def heap_below_def maps_below_def)

lemma insert_step:
  assumes "store_ok s"
  shows "store_ok (snd (snd (insert_deployment id1 id2 t d s)))"
    "store_below s (snd (snd (insert_deployment id1 id2 t d s)))"
proof -
  define d' where "d' = with_defaults id1 id2 t d"
  show "store_ok (snd (snd (insert_deployment id1 id2 t d s)))"
    using assms
    by (auto simp: insert_deployment_def Let_def store_ok_def store_simps nth_append less_SucI
        split: option.split if_splits)
  show "store_below s (snd (snd (insert_deployment id1 id2 t d s)))"
    using assms
    by (auto simp: insert_deployment_def Let_def store_below_def heap_below_def maps_below_def
        logs_below_def log_defs store_simps nth_append with_defaults_def split: option.split)
qed

lemma logs_below_push:
  "logs_below s (s\<lparr>ds_policy_evals := push_at i x (ds_policy_evals s)\<rparr>)"
  "logs_below s (s\<lparr>ds_image_results := push_at i y (ds_image_results s)\<rparr>)"
  "logs_below s (s\<lparr>ds_rollbacks := push_at i z (ds_rollbacks s)\<rparr>)"
  "logs_below s (s\<lparr>ds_events := push_at i w (ds_events s), ds_channels := c\<rparr>)"
  "logs_below s (s\<lparr>ds_channels := c, ds_listeners := l\<rparr>)"
  by (auto simp: logs_below_def log_defs store_simps)

lemma deploy_step_ok:
  assumes "store_ok s"
  shows "store_ok (deploy_step op s) \<and> store_below s (deploy_step op s)"
proof (cases op)
  case (OpInsert id1 id2 t d)
  then show ?thesis using insert_step [OF assms] by simp
next
  case (OpStatus i st reason t)
  then show ?thesis using update_deployment_step [OF assms] by (simp add: set_deploy_status_def Let_def)
next
  case (OpVerified i sig att)
  then show ?thesis using update_deployment_step [OF assms] by (simp add: set_verified_def)
next
  case (OpManifest i sha)
  then show ?thesis using update_deployment_step [OF assms] by (simp add: set_manifest_sha_def)
next
  case (OpEvent i ev)
  then show ?thesis
    by (simp, intro conjI appends_only [OF _ _ _ _ _ assms])
      (simp_all add: append_event_def Let_def logs_below_push)
next
  case (OpPolicyEval i t r)
  then show ?thesis
    by (simp, intro conjI appends_only [OF _ _ _ _ _ assms])
      (simp_all add: append_policy_eval_def Let_def logs_below_push)
next
  case (OpImage i t r)
  then show ?thesis
    by (simp, intro conjI appends_only [OF _ _ _ _ _ assms])
      (simp_all add: append_image_verification_def Let_def logs_below_push)
next
  case (OpRollback i t r)
  then show ?thesis
    by (simp, intro conjI appends_only [OF _ _ _ _ _ assms])
      (simp_all add: append_rollback_def Let_def logs_below_push)
next
  case (OpSubscribe i)
  then show ?thesis
    by (simp, intro conjI appends_only [OF _ _ _ _ _ assms])
      (simp_all add: subscribe_def Let_def logs_below_push)
next
  case (OpUnsubscribe i a)
  then show ?thesis
    by (simp, intro conjI appends_only [OF _ _ _ _ _ assms])
      (simp_all add: unsubscribe_def logs_below_def log_defs)
qed

interpretation deploy_log: monotone_machine deploy_step store_ok store_below
  by unfold_locales (use deploy_step_ok below_refl below_trans in blast)+

lemma new_store_ok: "store_ok new_deploy_store"
  by (simp add: store_ok_def new_deploy_store_def)

lemma reachable_ok: "store_ok (fold deploy_step ops new_deploy_store)"
  by (rule deploy_log.run_inv) (rule new_store_ok)

lemma history_below:
  assumes "store_ok s" "store_below s t"
  shows "extends (revision_history asset_id e s) (revision_history asset_id e t)"
proof -
  define k where "k = revision_key asset_id e"
  have "extends (list_at (ds_revisions s) k) (list_at (ds_revisions t) k)"
    using assms(2) by (simp add: store_below_def maps_below_def)
  then obtain zs where z: "list_at (ds_revisions t) k = list_at (ds_revisions s) k @ zs" by (rule extendsE)
  have "frozen (ds_heap t ! a) = frozen (ds_heap s ! a)" if "a \<in> set (list_at (ds_revisions s) k)" for a
    using assms that by (simp add: store_below_def heap_below_def store_ok_def)
  then show ?thesis by (simp add: revision_history_def revisions_of_def k_def [symmetric] z extends_def)
qed

section \<open>Pages\<close>

definition page_size :: "int \<Rightarrow> nat" where
  "page_size limit = (if limit \<le> 0 \<or> limit > 100 then 20 else nat limit)"

definition page_start :: "string \<Rightarrow> deployment list \<Rightarrow> nat" where
  "page_start cursor ds = (if cursor \<noteq> [] then after_cursor cursor 0 ds else 0)"

lemma page_size_pos: "0 < page_size limit"
  by (simp add: page_size_def)

lemma after_cursor_at:
  "distinct (map de_id ds) \<Longrightarrow> k < length ds \<Longrightarrow> after_cursor (de_id (ds ! k)) i ds = Suc (i + k)"
proof (induction ds arbitrary: i k)
  case Nil
  then show ?case by simp
next
  case (Cons d ds)
  show ?case
  proof (cases k)
    case 0
    then show ?thesis by simp
  next
    case (Suc j)
    then have j: "j < length ds" using Cons.prems(2) by simp
    then have "de_id (ds ! j) \<in> set (map de_id ds)" by simp
    then have "de_id d \<noteq> de_id (ds ! j)" using Cons.prems(1) by auto
    then show ?thesis using Suc Cons.IH [OF _ j, of "Suc i"] Cons.prems(1) by simp
  qed
qed

lemma after_cursor_le: "after_cursor c i ds \<le> i + length ds"
proof (induction ds arbitrary: i)
  case Nil
  then show ?case by simp
next
  case (Cons d ds)
  then show ?case using Cons.IH [of "Suc i"] by simp
qed

lemma asset_deployments_alt:
  assumes "L = sort_slice newer (revisions_of asset_id e s)" "k = page_start cursor L"
  shows "asset_deployments asset_id e limit cursor s =
    (take (page_size limit) (drop k L),
     if k + page_size limit < length L then de_id (L ! (k + page_size limit - 1)) else [])"
proof -
  have k: "k \<le> length L" using after_cursor_le [of cursor 0 L] by (simp add: assms(2) page_start_def)
  show ?thesis
  proof (cases "k + page_size limit < length L")
    case True
    then show ?thesis
      unfolding asset_deployments_def Let_def assms(1) [symmetric] page_start_def [symmetric]
        page_size_def [symmetric] assms(2) [symmetric]
      by simp
  next
    case False
    then show ?thesis using k
      unfolding asset_deployments_def Let_def assms(1) [symmetric] page_start_def [symmetric]
        page_size_def [symmetric] assms(2) [symmetric]
      by simp
  qed
qed

text \<open>A client that follows the cursors, for at most so many pages.\<close>

fun walk_pages :: "nat \<Rightarrow> string \<Rightarrow> string \<Rightarrow> int \<Rightarrow> string \<Rightarrow> deploy_store \<Rightarrow> deployment list" where
  "walk_pages 0 asset_id e limit cursor s = []"
| "walk_pages (Suc n) asset_id e limit cursor s =
     (case asset_deployments asset_id e limit cursor s of
        (page, next_c) \<Rightarrow> page @ (if next_c = [] then [] else walk_pages n asset_id e limit next_c s))"

lemma walk_from:
  assumes L: "L = sort_slice newer (revisions_of asset_id e s)"
    and d: "distinct (map de_id L)" "\<forall>x\<in>set L. de_id x \<noteq> []"
  shows "page_start cursor L = k \<Longrightarrow> length L - k < n
    \<Longrightarrow> walk_pages n asset_id e limit cursor s = drop k L"
proof (induction n arbitrary: cursor k)
  case 0
  then show ?case by simp
next
  case (Suc n)
  let ?p = "page_size limit"
  note page = asset_deployments_alt [OF L Suc.prems(1) [symmetric], of limit]
  show ?case
  proof (cases "k + ?p < length L")
    case False
    then show ?thesis by (simp add: page)
  next
    case True
    define j where "j = k + ?p - 1"
    have j: "j < length L" using True by (simp add: j_def)
    then have ne: "de_id (L ! j) \<noteq> []" using d(2) by simp
    have "page_start (de_id (L ! j)) L = Suc j"
      using ne after_cursor_at [OF d(1) j, of 0] by (simp add: page_start_def)
    moreover have "Suc j = k + ?p" using page_size_pos [of limit] by (simp add: j_def)
    ultimately have "walk_pages n asset_id e limit (de_id (L ! j)) s = drop (k + ?p) L"
      using Suc.prems(2) True page_size_pos [of limit] by (intro Suc.IH) auto
    moreover have "asset_deployments asset_id e limit cursor s = (take ?p (drop k L), de_id (L ! j))"
      using page True by (simp add: j_def)
    moreover have "take ?p (drop k L) @ drop (k + ?p) L = drop k L"
      by (metis append_take_drop_id drop_drop add.commute)
    ultimately show ?thesis using ne by simp
  qed
qed

section \<open>Properties\<close>

text \<open>The revision history of an asset in an environment is immutable: whatever operations
  follow, it is only extended, with the descriptive fields of every earlier deployment as they were
  inserted, and so are the events, policy evaluations, image verifications and rollback records of
  every deployment.\<close>

theorem revision_history_immutable:
  "extends (revision_history asset_id e (fold deploy_step ops new_deploy_store))
     (revision_history asset_id e (fold deploy_step (ops @ later) new_deploy_store))
   \<and> logs_below (fold deploy_step ops new_deploy_store) (fold deploy_step (ops @ later) new_deploy_store)"
proof -
  have ok: "store_ok (fold deploy_step ops new_deploy_store)" by (rule reachable_ok)
  then have "store_below (fold deploy_step ops new_deploy_store)
      (fold deploy_step later (fold deploy_step ops new_deploy_store))"
    by (rule deploy_log.run_below)
  then show ?thesis using history_below [OF ok] by (simp add: store_below_def)
qed

text \<open>A deployment request is stored once: after an insertion, and whatever operations follow, an
  insertion with the same request identifier creates nothing, changes nothing and returns the
  deployment of the first one.\<close>

theorem insert_idempotent:
  "\<exists>d0 d1. fst (insert_deployment id1 id2 t d (fold deploy_step ops new_deploy_store)) = Some d0
     \<and> insert_deployment j1 j2 t2 (d2\<lparr>de_request_id := de_request_id d\<rparr>)
          (fold deploy_step (ops @ OpInsert id1 id2 t d # later) new_deploy_store)
        = (Some d1, False, fold deploy_step (ops @ OpInsert id1 id2 t d # later) new_deploy_store)
     \<and> de_id d1 = de_id d0"
proof -
  define s where "s = fold deploy_step ops new_deploy_store"
  define s1 where "s1 = deploy_step (OpInsert id1 id2 t d) s"
  define s2 where "s2 = fold deploy_step later s1"
  define r where "r = de_request_id d"
  have ok: "store_ok s" unfolding s_def by (rule reachable_ok)
  have ok1: "store_ok s1" unfolding s1_def using ok by (rule deploy_log.step_inv)
  have ok2: "store_ok s2" unfolding s2_def using ok1 by (rule deploy_log.run_inv)
  have by_id: "\<exists>d'. deployment_at u i = Some d' \<and> de_id d' = i"
    if "store_ok u" "map_of (ds_by_request u) r = Some i" for u i
    using that by (fastforce simp: store_ok_def deployment_at_def)
  have "\<exists>d0. fst (insert_deployment id1 id2 t d s) = Some d0
      \<and> map_of (ds_by_request s1) r = Some (de_id d0)"
  proof (cases "map_of (ds_by_request s) r")
    case (Some i)
    with by_id [OF ok Some] show ?thesis by (auto simp: insert_deployment_def r_def s1_def)
  next
    case None
    then show ?thesis
      by (simp add: insert_deployment_def r_def s1_def Let_def store_simps with_defaults_def)
  qed
  then obtain d0 where d0: "fst (insert_deployment id1 id2 t d s) = Some d0"
      "map_of (ds_by_request s1) r = Some (de_id d0)" by blast
  have "store_below s1 s2" unfolding s2_def using ok1 by (rule deploy_log.run_below)
  with d0(2) have now: "map_of (ds_by_request s2) r = Some (de_id d0)"
    by (simp add: store_below_def maps_below_def)
  with by_id [OF ok2] obtain d1 where "deployment_at s2 (de_id d0) = Some d1" "de_id d1 = de_id d0"
    by blast
  with now d0(1) show ?thesis
    by (auto simp: insert_deployment_def r_def s_def s1_def s2_def)
qed

text \<open>A client that follows the cursors of \<open>AssetDeployments\<close> sees every deployment of the asset
  in the environment exactly once, newest first, after at most one page more than there are
  deployments, for any limit.\<close>

theorem pages_complete:
  assumes "distinct (map de_id (revisions_of asset_id e s))" "\<forall>d\<in>set (revisions_of asset_id e s). de_id d \<noteq> []"
    and "length (revisions_of asset_id e s) < n"
  shows "walk_pages n asset_id e limit [] s = sort_slice newer (revisions_of asset_id e s)"
proof -
  define L where "L = sort_slice newer (revisions_of asset_id e s)"
  have m: "mset L = mset (revisions_of asset_id e s)" by (simp add: L_def)
  then have "mset (map de_id L) = mset (map de_id (revisions_of asset_id e s))" by simp
  then have "distinct (map de_id L)" using assms(1) by (rule mset_eq_imp_distinct_iff [THEN iffD2])
  moreover have "\<forall>x\<in>set L. de_id x \<noteq> []" using assms(2) by (simp add: L_def)
  moreover have "length L < n" using assms(3) m mset_eq_length by fastforce
  ultimately have "walk_pages n asset_id e limit [] s = drop 0 L"
    by (intro walk_from) (simp_all add: L_def page_start_def)
  then show ?thesis by (simp add: L_def)
qed

section \<open>Witnesses\<close>

definition demo_deployment :: "string \<Rightarrow> gotime \<Rightarrow> deployment" where
  "demo_deployment i t =
     \<lparr>de_id = i, de_request_id = i, de_workspace_id = [], de_tenant_id = [], de_asset_id = ''a'', de_env = ''dev'',
      de_criticality = [], de_data_classification = [], de_runtime_id = [], de_image = [], de_image_digest = [],
      de_manifest_sha = [], de_revision_id = [], de_source_revision_id = [], de_rollback_of = [],
      de_openspec_ids = [], de_pr_sha = [], de_strategy = [], de_canary_percent = 0, de_rollback_plan = [],
      de_auto_rollback = False, de_status = StPending, de_status_reason = [], de_verified_signature = False,
      de_verified_attestation = False, de_correlation_id = [], de_actor = [], de_created_at = t,
      de_completed_at = None\<rparr>"

definition demo_store :: deploy_store where
  "demo_store = fold deploy_step
     [OpInsert [] ''c'' 5 (demo_deployment ''x'' 1), OpInsert [] ''c'' 6 (demo_deployment ''y'' 2),
      OpInsert [] ''c'' 7 (demo_deployment ''z'' 3)] new_deploy_store"

lemma demo_revisions: "map de_id (revisions_of ''a'' ''dev'' demo_store) = [''x'', ''y'', ''z'']"
  by code_simp

theorem pages_complete_witness:
  "walk_pages 4 ''a'' ''dev'' 2 [] demo_store = sort_slice newer (revisions_of ''a'' ''dev'' demo_store)
   \<and> map de_id (sort_slice newer (revisions_of ''a'' ''dev'' demo_store)) = [''z'', ''y'', ''x'']"
proof
  have "set (map de_id (revisions_of ''a'' ''dev'' demo_store)) = {''x'', ''y'', ''z''}"
    by (simp add: demo_revisions)
  then have "\<forall>d\<in>set (revisions_of ''a'' ''dev'' demo_store). de_id d \<noteq> []" by force
  moreover have "length (revisions_of ''a'' ''dev'' demo_store) < 4"
    using arg_cong [OF demo_revisions, of length] by simp
  ultimately show "walk_pages 4 ''a'' ''dev'' 2 [] demo_store = sort_slice newer (revisions_of ''a'' ''dev'' demo_store)"
    by (intro pages_complete) (simp_all add: demo_revisions)
  show "map de_id (sort_slice newer (revisions_of ''a'' ''dev'' demo_store)) = [''z'', ''y'', ''x'']"
    by code_simp
qed

end
