(* ===== verification/Deploy_Service.thy ===== *)
theory Deploy_Service
  imports Deploy_Store
begin

text \<open>
  The stages of a deployment and of a rollback,
  \<open>services/deploy-orchestrator/internal/deploy/service.go\<close>, and the in-process runtime provider of
  \<open>runtime_provider.go\<close>. The collaborators of the service are fields of an environment; those whose
  answers may change while the service runs take the number of clock readings so far. Errors that
  only end up in a status reason are their texts. A deployment struct handed from stage to stage is
  the one inserted: the fields the stages read are never written after the insertion.
\<close>

section \<open>Collaborators\<close>

text \<open>\<open>RuntimeProvider\<close>: \<open>CheckUsableBy\<close> answers an error text or \<open>None\<close>, \<open>Get\<close> an error text or a
  runtime that may be nil.\<close>

record runtime_provider =
  rp_get :: "nat \<Rightarrow> string \<Rightarrow> string + runtime option"
  rp_check_usable_by :: "nat \<Rightarrow> string \<Rightarrow> string \<Rightarrow> string option"

record deploy_env =
  se_uuid :: "nat \<Rightarrow> string"
  se_now :: "nat \<Rightarrow> gotime"
  se_wall :: "nat \<Rightarrow> gotime"
  se_runtimes :: "runtime_provider option"
  se_deployers :: deployer_registry
  se_cosign :: verifier
  se_image_metadata :: "(string \<Rightarrow> string \<Rightarrow> string + image_metadata) option"
  se_approvals :: "(nat \<Rightarrow> string \<Rightarrow> string \<Rightarrow> string \<Rightarrow> string \<Rightarrow> bool \<times> gotime \<times> string) option"
  se_has_inbox :: bool
  se_policy_engine :: "(nat \<Rightarrow> deploy_request \<Rightarrow> string + policy_decision) option"
  se_policies :: "policy list"
  se_freeze_windows :: "freeze_window list"
  se_auto_rollback_by_env :: "(string \<times> bool) list"
  se_override_allow_unsigned :: "(nat \<Rightarrow> string \<Rightarrow> string \<Rightarrow> bool \<times> gotime) option"
  se_has_recorder :: bool

text \<open>The in-process runtime provider.\<close>

definition err_runtime_not_found :: string where
  "err_runtime_not_found = ''runtime_not_found''"

definition err_runtime_revoked :: string where
  "err_runtime_revoked = ''runtime_revoked''"

definition err_cross_workspace :: string where
  "err_cross_workspace = ''cross_workspace_denied''"

definition runtime_store_get :: "(string \<times> runtime) list \<Rightarrow> string \<Rightarrow> string + runtime option" where
  "runtime_store_get rs i =
     (case map_of rs i of None \<Rightarrow> Inl err_runtime_not_found | Some r \<Rightarrow> Inr (Some r))"

definition check_usable_by :: "(string \<times> runtime) list \<Rightarrow> string \<Rightarrow> string \<Rightarrow> string option" where
  "check_usable_by rs i ws =
     (case map_of rs i of
        None \<Rightarrow> Some err_runtime_not_found
      | Some r \<Rightarrow>
          if rn_revoked r then Some err_runtime_revoked
          else if rn_workspace_id r = ws then None
          else if rn_visibility r = VisibilityTenant then None
          else Some err_cross_workspace)"

section \<open>State\<close>

record cloud_event =
  ce_id :: string
  ce_type :: string
  ce_subject :: string
  ce_time :: gotime
  ce_tenant_id :: string
  ce_workspace_id :: string
  ce_actor :: string
  ce_correlation_id :: string
  ce_data :: obj

record approval_inbox_item =
  ai_deployment_id :: string
  ai_workspace_id :: string
  ai_asset_id :: string
  ai_env :: string
  ai_runtime_id :: string
  ai_image_digest :: string
  ai_revision_id :: string
  ai_rollback_plan_summary :: string
  ai_risk_summary :: string
  ai_openspec_ids :: "string list"

text \<open>The store, what was emitted, requested from approvers, recorded with the asset registry and run
  by connectors, and how many identifiers and clock readings were taken.\<close>

record service =
  sv_store :: deploy_store
  sv_sink :: "cloud_event list"
  sv_inbox :: "approval_inbox_item list"
  sv_recorded :: "deployment list"
  sv_commands :: "command list"
  sv_uuid :: nat
  sv_clock :: nat

definition new_deploy_service :: service where
  "new_deploy_service =
     \<lparr>sv_store = new_deploy_store, sv_sink = [], sv_inbox = [], sv_recorded = [], sv_commands = [],
      sv_uuid = 0, sv_clock = 0\<rparr>"

definition new_id :: "deploy_env \<Rightarrow> service \<Rightarrow> string \<times> service" where
  "new_id ev s = (se_uuid ev (sv_uuid s), s\<lparr>sv_uuid := Suc (sv_uuid s)\<rparr>)"

definition read_now :: "deploy_env \<Rightarrow> service \<Rightarrow> gotime \<times> service" where
  "read_now ev s = (se_now ev (sv_clock s), s\<lparr>sv_clock := Suc (sv_clock s)\<rparr>)"

definition read_wall :: "deploy_env \<Rightarrow> service \<Rightarrow> gotime \<times> service" where
  "read_wall ev s = (se_wall ev (sv_clock s), s\<lparr>sv_clock := Suc (sv_clock s)\<rparr>)"

definition on_store :: "(deploy_store \<Rightarrow> deploy_store) \<Rightarrow> service \<Rightarrow> service" where
  "on_store f s = s\<lparr>sv_store := f (sv_store s)\<rparr>"

datatype deploy_error =
    ErrRuntimeRequired | ErrDeploymentNotFound | ErrPreviousRevision | ErrNonReversible
  | PanicNilDeployment

record deploy_response =
  dr_deployment :: "deployment option"
  dr_status :: status
  dr_reason :: string
  dr_created :: bool

section \<open>Events\<close>

definition nanos_per_milli :: int where
  "nanos_per_milli = 1000000"

text \<open>\<open>Time.Sub\<close> saturates at the 64-bit bounds; \<open>Milliseconds\<close> truncates towards zero.\<close>

definition time_sub :: "gotime \<Rightarrow> gotime \<Rightarrow> int" where
  "time_sub a b = max (- (2 ^ 63)) (min (2 ^ 63 - 1) (a - b))"

definition milliseconds :: "int \<Rightarrow> int" where
  "milliseconds d = (if 0 \<le> d then d div nanos_per_milli else - ((- d) div nanos_per_milli))"

definition emit_stage_event ::
  "deploy_env \<Rightarrow> deployment \<Rightarrow> stage \<Rightarrow> stage_outcome \<Rightarrow> string \<Rightarrow> obj \<Rightarrow> gotime \<Rightarrow> gotime \<Rightarrow> service \<Rightarrow> service" where
  "emit_stage_event ev d st oc reason detail start fin s =
     (let (i, s1) = new_id ev s
      in on_store (append_event i
           \<lparr>ev_id = [], ev_deployment_id = de_id d, ev_stage = st, ev_outcome = oc, ev_reason = reason,
            ev_detail = detail, ev_started_at = start, ev_ended_at = fin,
            ev_duration_ms = milliseconds (time_sub fin start)\<rparr>) s1)"

definition emit_cloud :: "deploy_env \<Rightarrow> deployment \<Rightarrow> string \<Rightarrow> obj \<Rightarrow> service \<Rightarrow> service" where
  "emit_cloud ev d ty data s =
     (let (i, s1) = new_id ev s; (t, s2) = read_wall ev s1
      in s2\<lparr>sv_sink := sv_sink s2 @
           [\<lparr>ce_id = i, ce_type = ty, ce_subject = ''deployment/'' @ de_id d, ce_time = t,
             ce_tenant_id = de_tenant_id d, ce_workspace_id = de_workspace_id d, ce_actor = de_actor d,
             ce_correlation_id = de_correlation_id d, ce_data = data\<rparr>]\<rparr>)"

definition set_service_status :: "deploy_env \<Rightarrow> string \<Rightarrow> status \<Rightarrow> string \<Rightarrow> service \<Rightarrow> service" where
  "set_service_status ev i st reason s =
     (let (t, s1) = read_wall ev s in on_store (set_deploy_status i st reason t) s1)"

fun stage_string :: "stage \<Rightarrow> string" where
  "stage_string StageRequested = ''requested''"
| "stage_string StagePreflight = ''preflight''"
| "stage_string StagePolicy = ''policy''"
| "stage_string StageImageVerify = ''image_verify''"
| "stage_string StageRender = ''render''"
| "stage_string StageApply = ''apply''"
| "stage_string StageVerify = ''verify''"
| "stage_string StageNotify = ''notify''"
| "stage_string StageRollback = ''rollback''"

definition must_get :: "string \<Rightarrow> service \<Rightarrow> deployment option" where
  "must_get i s = get_deployment i (sv_store s)"

definition fmt_err :: "string option \<Rightarrow> string \<Rightarrow> string" where
  "fmt_err err fallback = (case err of Some e \<Rightarrow> e | None \<Rightarrow> fallback)"

definition fail_deploy :: "deploy_env \<Rightarrow> deployment \<Rightarrow> stage \<Rightarrow> string \<Rightarrow> service \<Rightarrow> deploy_response \<times> service" where
  "fail_deploy ev d st err s =
     (let (now, s1) = read_now ev s;
          s2 = set_service_status ev (de_id d) StFailed (stage_string st @ '':'' @ err) s1;
          s3 = emit_stage_event ev d st OutcomeFailed err [] now now s2;
          s4 = emit_cloud ev d ''deployment.failed.v1''
                 [(''deployment_id'', VString (de_id d)), (''stage'', VString (stage_string st)),
                  (''reason'', VString err)] s3
      in (\<lparr>dr_deployment = must_get (de_id d) s4, dr_status = StFailed, dr_reason = err, dr_created = False\<rparr>, s4))"

section \<open>Preflight\<close>

definition err_no_runtimes :: string where
  "err_no_runtimes = ''runtime provider not configured''"

definition runtime_preflight :: "deploy_env \<Rightarrow> deployment \<Rightarrow> service \<Rightarrow> string + runtime" where
  "runtime_preflight ev d s =
     (case se_runtimes ev of
        None \<Rightarrow> Inl err_no_runtimes
      | Some p \<Rightarrow>
          (case rp_check_usable_by p (sv_clock s) (de_runtime_id d) (de_workspace_id d) of
             Some e \<Rightarrow> Inl e
           | None \<Rightarrow>
               (case rp_get p (sv_clock s) (de_runtime_id d) of
                  Inl e \<Rightarrow> Inl e
                | Inr None \<Rightarrow> Inl err_runtime_not_found
                | Inr (Some r) \<Rightarrow> Inr r)))"

fun runtime_type_string :: "runtime_type \<Rightarrow> string" where
  "runtime_type_string TypeGKE = ''gke''"
| "runtime_type_string TypeCloudRun = ''cloudrun''"
| "runtime_type_string TypeMinikube = ''minikube''"
| "runtime_type_string (TypeOther s) = s"

definition no_deployer :: "runtime_type \<Rightarrow> string" where
  "no_deployer t = ''no deployer registered for type='' @ runtime_type_string t"

text \<open>The left result ends the deployment.\<close>

definition preflight_stage ::
  "deploy_env \<Rightarrow> deployment \<Rightarrow> service \<Rightarrow> (deploy_response + runtime \<times> deployer) \<times> service" where
  "preflight_stage ev d s =
     (let stop = (\<lambda>e s'. let (r, s1) = fail_deploy ev d StagePreflight e s' in (Inl r, s1)) in
      case runtime_preflight ev d s of
        Inl e \<Rightarrow> stop e s
      | Inr r \<Rightarrow>
          (case deployer_for (se_deployers ev) (rn_type r) of
             None \<Rightarrow> stop (''deployer_missing: '' @ no_deployer (rn_type r)) s
           | Some c \<Rightarrow>
               let (pre, cmds) = dy_preflight c r (sv_commands s);
                   s1 = s\<lparr>sv_commands := cmds\<rparr>
               in if \<not> pf_passed pre then stop (''preflight failed: '' @ pf_reason pre) s1
                  else let (t1, s2) = read_now ev s1; (t2, s3) = read_now ev s2
                       in (Inr (r, c), emit_stage_event ev d StagePreflight OutcomeCompleted []
                             [(''runtime_id'', VString (rn_id r))] t1 t2 s3)))"

section \<open>Policies\<close>

fun decision_string :: "decision \<Rightarrow> string" where
  "decision_string DecisionAllow = ''allow''"
| "decision_string DecisionRequiresApproval = ''requires_approval''"
| "decision_string DecisionDeny = ''deny''"
| "decision_string (DecisionOther s) = s"

definition decision_val :: "policy_decision \<Rightarrow> val" where
  "decision_val d = VMap
     [(''policy_id'', VString (pd_policy_id d)), (''decision'', VString (decision_string (pd_decision d))),
      (''rationale'', VString (pd_rationale d)), (''reason'', VString (pd_reason d)),
      (''required_approvers'', VList (map VString (pd_required_approvers d)))]"

definition deploy_policy_context :: "deploy_env \<Rightarrow> deployment \<Rightarrow> gotime \<Rightarrow> service \<Rightarrow> policy_context" where
  "deploy_policy_context ev d now s =
     (let (ok, expires, rev_id) =
            (case se_approvals ev of
               None \<Rightarrow> (False, 0, [])
             | Some f \<Rightarrow> f (sv_clock s) (de_workspace_id d) (de_asset_id d) (de_env d) (de_image_digest d));
          (active, ttl) =
            (case se_override_allow_unsigned ev of
               None \<Rightarrow> (False, 0)
             | Some f \<Rightarrow> f (sv_clock s) (de_workspace_id d) (de_id d))
      in \<lparr>pc_has_approval = ok, pc_approval_revision_id = rev_id, pc_approval_expires_at = expires,
          pc_now = now, pc_freeze_windows = se_freeze_windows ev, pc_override_ttl = ttl,
          pc_override_active = active\<rparr>)"

definition record_evaluation :: "deploy_env \<Rightarrow> deployment \<Rightarrow> policy_decision \<Rightarrow> service \<Rightarrow> service" where
  "record_evaluation ev d e s =
     (let (i, s1) = new_id ev s; (t, s2) = read_wall ev s1
      in on_store (append_policy_eval i t
           \<lparr>pe_id = [], pe_deployment_id = de_id d, pe_policy_id = pd_policy_id e, pe_outcome = pd_decision e,
            pe_reason = pd_reason e,
            pe_detail = [(''rationale'', VString (pd_rationale e)),
                         (''required_approvers'', VList (map VString (pd_required_approvers e)))],
            pe_evaluated_at = 0\<rparr>) s2)"

text \<open>All decisions with the combined one: the embedded policies, then the external engine.\<close>

definition combined_decision ::
  "deploy_env \<Rightarrow> deployment \<Rightarrow> deploy_request \<Rightarrow> gotime \<Rightarrow> service \<Rightarrow> policy_decision \<times> policy_decision list" where
  "combined_decision ev d req now s =
     (let (dec, all_ds) = evaluate_policies (se_policies ev) req (deploy_policy_context ev d now s)
      in case se_policy_engine ev of
           None \<Rightarrow> (dec, all_ds)
         | Some f \<Rightarrow>
             (case f (sv_clock s) req of
                Inl err \<Rightarrow>
                  let ds = all_ds @ [deny_by ''policy-engine'' ''policy_engine_unavailable'' err]
                  in (most_restrictive_policy_decision ds, ds)
              | Inr external \<Rightarrow>
                  let ds = external # all_ds in (most_restrictive_policy_decision ds, ds)))"

definition run_policies ::
  "deploy_env \<Rightarrow> deployment \<Rightarrow> deploy_request \<Rightarrow> service \<Rightarrow> (policy_decision \<times> bool) \<times> service" where
  "run_policies ev d req s =
     (let (start, s1) = read_now ev s;
          (dec, all_ds) = combined_decision ev d req start s1;
          s2 = fold (record_evaluation ev d) all_ds s1;
          s3 = emit_cloud ev d ''deployment.policy_evaluated.v1''
                 [(''deployment_id'', VString (de_id d)), (''outcome'', VString (decision_string (pd_decision dec))),
                  (''reason'', VString (pd_reason dec)), (''rationale'', VString (pd_rationale dec)),
                  (''evaluations'', VList (map decision_val all_ds))] s2
      in if pd_decision dec = DecisionAllow
         then let (t, s4) = read_now ev s3
              in ((dec, True), emit_stage_event ev d StagePolicy OutcomeCompleted []
                    [(''policy_id'', VString (pd_policy_id dec))] start t s4)
         else ((dec, False), s3))"

definition policy_outcome ::
  "deploy_env \<Rightarrow> deployment \<Rightarrow> policy_decision \<Rightarrow> service \<Rightarrow> deploy_response \<times> service" where
  "policy_outcome ev d dec s =
     (let (now, s1) = read_now ev s;
          detail = [(''policy_id'', VString (pd_policy_id dec))]
      in if pd_decision dec = DecisionRequiresApproval
         then let s2 = set_service_status ev (de_id d) StPendingApproval (pd_reason dec) s1;
                  s3 = emit_stage_event ev d StagePolicy OutcomeDenied (pd_reason dec) detail now now s2;
                  s4 = (if se_has_inbox ev
                        then s3\<lparr>sv_inbox := sv_inbox s3 @
                          [\<lparr>ai_deployment_id = de_id d, ai_workspace_id = de_workspace_id d,
                            ai_asset_id = de_asset_id d, ai_env = de_env d, ai_runtime_id = de_runtime_id d,
                            ai_image_digest = de_image_digest d, ai_revision_id = de_revision_id d,
                            ai_rollback_plan_summary = de_rollback_plan d, ai_risk_summary = pd_reason dec,
                            ai_openspec_ids = de_openspec_ids d\<rparr>]\<rparr> else s3)
              in (\<lparr>dr_deployment = must_get (de_id d) s4, dr_status = StPendingApproval,
                   dr_reason = pd_reason dec, dr_created = False\<rparr>, s4)
         else let s2 = set_service_status ev (de_id d) StBlocked (pd_reason dec) s1;
                  s3 = emit_stage_event ev d StagePolicy OutcomeDenied (pd_reason dec) detail now now s2
              in (\<lparr>dr_deployment = must_get (de_id d) s3, dr_status = StBlocked,
                   dr_reason = pd_reason dec, dr_created = False\<rparr>, s3))"

section \<open>Image verification\<close>

fun fail_reason_string :: "fail_reason \<Rightarrow> string" where
  "fail_reason_string ReasonIdentityMismatch = ''identity_mismatch''"
| "fail_reason_string ReasonRekorMissing = ''rekor_entry_missing''"
| "fail_reason_string ReasonDigestMismatch = ''digest_mismatch''"
| "fail_reason_string ReasonUnsigned = ''unsigned_image''"
| "fail_reason_string ReasonAttestationBad = ''attestation_invalid''"

definition success_outcome :: string where
  "success_outcome = ''success''"

definition failed_outcome :: string where
  "failed_outcome = ''failed''"

definition skipped_outcome :: string where
  "skipped_outcome = ''skipped''"

definition record_image ::
  "deploy_env \<Rightarrow> deployment \<Rightarrow> string \<Rightarrow> string \<Rightarrow> string \<Rightarrow> string \<Rightarrow> bool \<Rightarrow> service \<Rightarrow> service" where
  "record_image ev d outcome reason identity digest ok s =
     (let (i, s1) = new_id ev s; (t, s2) = read_wall ev s1
      in on_store (append_image_verification i t
           \<lparr>iv_id = [], iv_deployment_id = de_id d, iv_outcome = outcome, iv_reason = reason,
            iv_identity = identity, iv_digest = digest, iv_signature_verified = ok,
            iv_attestation_verified = ok, iv_override_id = [], iv_created_at = 0\<rparr>) s2)"

definition override_active :: "deploy_env \<Rightarrow> deployment \<Rightarrow> gotime \<Rightarrow> service \<Rightarrow> bool" where
  "override_active ev d now s =
     (case se_override_allow_unsigned ev of
        None \<Rightarrow> False
      | Some f \<Rightarrow> (case f (sv_clock s) (de_workspace_id d) (de_id d) of (active, ttl) \<Rightarrow> active \<and> now < ttl))"

definition override_reason :: string where
  "override_reason = ''override_allow_unsigned_active''"

definition resolve_metadata :: "deploy_env \<Rightarrow> deployment \<Rightarrow> string + image_metadata" where
  "resolve_metadata ev d =
     (case se_image_metadata ev of
        None \<Rightarrow> Inr \<lparr>im_image = de_image d, im_digest = de_image_digest d, im_signed = False, im_oidc_issuer = [],
                     im_oidc_identity = [], im_rekor_log_index = 0, im_has_rekor_entry = False,
                     im_attestation_type = [], im_attestation_valid = False\<rparr>
      | Some f \<Rightarrow> (case f (de_image d) (de_image_digest d) of
                    Inl e \<Rightarrow> Inl (''metadata: '' @ e)
                  | Inr m \<Rightarrow> Inr m))"

text \<open>The error text, or \<open>None\<close> when the image may be deployed.\<close>

definition run_image_verify :: "deploy_env \<Rightarrow> deployment \<Rightarrow> service \<Rightarrow> string option \<times> service" where
  "run_image_verify ev d s =
     (let (start, s1) = read_now ev s in
      if override_active ev d start s1
      then let s2 = on_store (set_verified (de_id d) False False) s1;
               s3 = record_image ev d skipped_outcome override_reason [] (de_image_digest d) False s2;
               (t, s4) = read_now ev s3;
               s5 = emit_stage_event ev d StageImageVerify OutcomeSkipped override_reason [] start t s4
           in (None, emit_cloud ev d ''policy.override.consumed.v1''
                 [(''deployment_id'', VString (de_id d)), (''override'', VString ''allow-unsigned-image'')] s5)
      else case resolve_metadata ev d of
        Inl e \<Rightarrow> (Some e, s1)
      | Inr meta \<Rightarrow>
          let res = cosign_combined (se_cosign ev) (de_workspace_id d) meta;
              sig = (cr_failed res = None);
              s2 = on_store (set_verified (de_id d) sig sig) s1
          in (case cr_failed res of
                Some reason \<Rightarrow>
                  let why = fail_reason_string reason;
                      s3 = record_image ev d failed_outcome why (cr_identity res) (cr_digest res) False s2;
                      s4 = emit_cloud ev d ''deployment.image_verified.v1''
                             [(''deployment_id'', VString (de_id d)), (''outcome'', VString ''failed''),
                              (''reason'', VString why)] s3;
                      (t, s5) = read_now ev s4
                  in (Some (''image_verification_failed: '' @ why),
                      emit_stage_event ev d StageImageVerify OutcomeFailed why [] start t s5)
              | None \<Rightarrow>
                  let s3 = record_image ev d success_outcome [] (cr_identity res) (cr_digest res) True s2;
                      s4 = emit_cloud ev d ''deployment.image_verified.v1''
                             [(''deployment_id'', VString (de_id d)), (''outcome'', VString ''success''),
                              (''identity'', VString (cr_identity res)), (''digest'', VString (cr_digest res))] s3;
                      (t, s5) = read_now ev s4
                  in (None, emit_stage_event ev d StageImageVerify OutcomeCompleted []
                        [(''identity'', VString (cr_identity res))] start t s5)))"

section \<open>Rollback\<close>

record rollback_request =
  rq_reason :: string
  rq_approved :: bool
  rq_actor :: string
  rq_manual :: bool

definition trigger_or_manual :: "bool \<Rightarrow> string" where
  "trigger_or_manual manual = (if manual then ''manual'' else ''auto'')"

definition non_reversible :: string where
  "non_reversible = ''non-reversible''"

text \<open>The struct of the rollback's own deployment.\<close>

definition rollback_deployment ::
  "deployment \<Rightarrow> deployment \<Rightarrow> rollback_request \<Rightarrow> string \<Rightarrow> string \<Rightarrow> deployment" where
  "rollback_deployment d prev req request_id revision_id =
     \<lparr>de_id = [], de_request_id = request_id, de_workspace_id = de_workspace_id d, de_tenant_id = de_tenant_id d,
      de_asset_id = de_asset_id d, de_env = de_env d, de_criticality = de_criticality d,
      de_data_classification = de_data_classification d, de_runtime_id = de_runtime_id d,
      de_image = de_image prev, de_image_digest = de_image_digest prev, de_manifest_sha = [],
      de_revision_id = revision_id, de_source_revision_id = de_revision_id prev, de_rollback_of = de_id d,
      de_openspec_ids = de_openspec_ids d, de_pr_sha = [], de_strategy = de_strategy d, de_canary_percent = 0,
      de_rollback_plan = [], de_auto_rollback = False, de_status = StRunning, de_status_reason = [],
      de_verified_signature = False, de_verified_attestation = False, de_correlation_id = de_correlation_id d,
      de_actor = rq_actor req, de_created_at = 0, de_completed_at = None\<rparr>"

definition insert_service ::
  "deploy_env \<Rightarrow> deployment \<Rightarrow> service \<Rightarrow> (deployment option \<times> bool) \<times> service" where
  "insert_service ev d s =
     (let (i1, s1) = new_id ev s; (i2, s2) = new_id ev s1; (t, s3) = read_wall ev s2;
          (r, created, st) = insert_deployment i1 i2 t d (sv_store s3)
      in ((r, created), s3\<lparr>sv_store := st\<rparr>))"

definition record_rollback ::
  "deploy_env \<Rightarrow> deployment \<Rightarrow> deployment \<Rightarrow> rollback_request \<Rightarrow> service \<Rightarrow> service" where
  "record_rollback ev d prev req s =
     (let (i, s1) = new_id ev s; (t, s2) = read_wall ev s1
      in on_store (append_rollback i t
           \<lparr>rb_id = [], rb_deployment_id = de_id d, rb_source_rev_id = de_revision_id d,
            rb_restored_rev_id = de_revision_id prev, rb_reason = rq_reason req,
            rb_trigger = trigger_or_manual (rq_manual req), rb_approved = rq_approved req,
            rb_created_at = 0, rb_completed_at = None\<rparr>) s2)"

definition record_asset :: "deploy_env \<Rightarrow> string \<Rightarrow> service \<Rightarrow> service" where
  "record_asset ev i s =
     (if se_has_recorder ev
      then (case must_get i s of Some d \<Rightarrow> s\<lparr>sv_recorded := sv_recorded s @ [d]\<rparr> | None \<Rightarrow> s)
      else s)"

text \<open>What follows the insertion of the rollback's deployment \<open>r\<close>.\<close>

definition reapply ::
  "deploy_env \<Rightarrow> deployment \<Rightarrow> deployment \<Rightarrow> deployment \<Rightarrow> rollback_request \<Rightarrow> service
    \<Rightarrow> deploy_response \<times> service" where
  "reapply ev d prev r req s =
     (let (now, s1) = read_now ev s;
          s2 = emit_stage_event ev r StageRollback OutcomeStarted (rq_reason req)
                 [(''rollback_of'', VString (de_id d)), (''restored_rev'', VString (de_revision_id prev))] now now s1
      in case runtime_preflight ev r s2 of
        Inl e \<Rightarrow> fail_deploy ev r StageRollback e s2
      | Inr rtm \<Rightarrow>
          (case deployer_for (se_deployers ev) (rn_type rtm) of
             None \<Rightarrow> fail_deploy ev r StageRollback (no_deployer (rn_type rtm)) s2
           | Some c \<Rightarrow>
               let mf = zero_manifest\<lparr>mf_app_name := de_asset_id prev, mf_image := de_image prev,
                          mf_image_digest := de_image_digest prev\<rparr>;
                   pa = \<lparr>pa_strategy = de_strategy r, pa_canary_percent = 0, pa_rollback_plan = [],
                         pa_openspec_ids = [], pa_pr_sha = [], pa_revision_id = de_revision_id r,
                         pa_prev_revision_id = de_revision_id prev\<rparr>;
                   ((res, err), cmds) = dy_rollback c rtm mf pa (sv_commands s2);
                   s3 = s2\<lparr>sv_commands := cmds\<rparr>
               in if err \<noteq> None \<or> rr_outcome res \<noteq> ''ok''
                  then fail_deploy ev r StageRollback (fmt_err err ''rollback_failed'') s3
                  else let (t, s4) = read_now ev s3;
                           s5 = emit_stage_event ev r StageRollback OutcomeCompleted []
                                  [(''restored_revision_id'', VString (de_revision_id prev))] now t s4;
                           s6 = set_service_status ev (de_id d) StRolledBack (rq_reason req) s5;
                           s7 = set_service_status ev (de_id r) StCompleted ''rollback_complete'' s6;
                           s8 = emit_cloud ev r ''deployment.rolled_back.v1''
                                  [(''deployment_id'', VString (de_id r)), (''rolled_back_id'', VString (de_id d)),
                                   (''restored_revision_id'', VString (de_revision_id prev)),
                                   (''reason'', VString (rq_reason req)),
                                   (''trigger'', VString (trigger_or_manual (rq_manual req)))] s7;
                           s9 = record_asset ev (de_id r) s8
                       in (\<lparr>dr_deployment = must_get (de_id r) s9, dr_status = StCompleted, dr_reason = [],
                            dr_created = False\<rparr>, s9)))"

definition rollback_internal ::
  "deploy_env \<Rightarrow> deployment \<Rightarrow> rollback_request \<Rightarrow> service \<Rightarrow> (deploy_error + deploy_response) \<times> service" where
  "rollback_internal ev d req s =
     (case previous_revision (de_asset_id d) (de_env d) (de_id d) (sv_store s) of
        None \<Rightarrow> (Inl ErrPreviousRevision, s)
      | Some prev \<Rightarrow>
          if is_high_criticality (de_criticality d) \<and> \<not> rq_approved req
             \<and> contains_str (to_lower (de_rollback_plan d)) non_reversible
          then (Inl ErrNonReversible, s)
          else let s1 = record_rollback ev d prev req s;
                   (request_id, s2) = new_id ev s1;
                   (revision_id, s3) = new_id ev s2;
                   ((ins, _), s4) = insert_service ev (rollback_deployment d prev req request_id revision_id) s3
               in (case ins of
                     None \<Rightarrow> (Inl PanicNilDeployment, s4)
                   | Some r \<Rightarrow> (let (resp, s5) = reapply ev d prev r req s4 in (Inr resp, s5))))"

definition rollback :: "deploy_env \<Rightarrow> string \<Rightarrow> rollback_request \<Rightarrow> service \<Rightarrow> (deploy_error + deploy_response) \<times> service" where
  "rollback ev i req s =
     (case get_deployment i (sv_store s) of
        None \<Rightarrow> (Inl ErrDeploymentNotFound, s)
      | Some d \<Rightarrow> rollback_internal ev d req s)"

section \<open>Deployment\<close>

definition default_strategy :: "string \<Rightarrow> string" where
  "default_strategy s = (if s = [] then ''rolling'' else s)"

definition requested_deployment ::
  "deploy_env \<Rightarrow> deploy_request \<Rightarrow> string \<Rightarrow> string \<Rightarrow> gotime \<Rightarrow> deployment" where
  "requested_deployment ev req request_id revision_id now =
     \<lparr>de_id = [], de_request_id = request_id, de_workspace_id = dq_workspace_id req,
      de_tenant_id = dq_tenant_id req, de_asset_id = dq_asset_id req, de_env = dq_env req,
      de_criticality = dq_criticality req, de_data_classification = dq_data_classification req,
      de_runtime_id = dq_runtime_id req, de_image = dq_image req, de_image_digest = dq_image_digest req,
      de_manifest_sha = [], de_revision_id = revision_id, de_source_revision_id = [], de_rollback_of = [],
      de_openspec_ids = dq_openspec_ids req, de_pr_sha = dq_pr_sha req,
      de_strategy = default_strategy (dq_strategy req), de_canary_percent = dq_canary_percent req,
      de_rollback_plan = dq_rollback_plan req,
      de_auto_rollback = (dq_auto_rollback req
                          \<or> map_of (se_auto_rollback_by_env ev) (dq_env req) = Some True),
      de_status = StPending, de_status_reason = [], de_verified_signature = False,
      de_verified_attestation = False, de_correlation_id = [], de_actor = dq_actor req, de_created_at = now,
      de_completed_at = None\<rparr>"

definition deploy_manifest :: "deployment \<Rightarrow> deploy_request \<Rightarrow> manifest" where
  "deploy_manifest d req =
     (let m0 = dq_manifest req;
          m1 = (if mf_app_name m0 = [] then m0\<lparr>mf_app_name := de_asset_id d\<rparr> else m0);
          m2 = (if mf_image m1 = [] then m1\<lparr>mf_image := de_image d\<rparr> else m1)
      in m2\<lparr>mf_image_digest := de_image_digest d\<rparr>)"

definition deploy_params :: "deployment \<Rightarrow> params" where
  "deploy_params d =
     \<lparr>pa_strategy = de_strategy d, pa_canary_percent = de_canary_percent d,
      pa_rollback_plan = de_rollback_plan d, pa_openspec_ids = de_openspec_ids d, pa_pr_sha = de_pr_sha d,
      pa_revision_id = de_revision_id d, pa_prev_revision_id = []\<rparr>"

definition render_stage ::
  "deploy_env \<Rightarrow> deployment \<Rightarrow> manifest \<Rightarrow> deployer \<Rightarrow> service
    \<Rightarrow> (deploy_response + rendered_artifacts) \<times> service" where
  "render_stage ev d mf c s =
     (let (start, s1) = read_now ev s;
          (art, err) = dy_render c mf (deploy_params d)
      in case err of
           Some e \<Rightarrow> (let (r, s2) = fail_deploy ev d StageRender e s1 in (Inl r, s2))
         | None \<Rightarrow>
             let s2 = on_store (set_manifest_sha (de_id d) (ra_manifest_sha art)) s1;
                 (t, s3) = read_now ev s2
             in (Inr art, emit_stage_event ev d StageRender OutcomeCompleted []
                   [(''manifest_sha'', VString (ra_manifest_sha art))] start t s3))"

definition apply_stage ::
  "deploy_env \<Rightarrow> deployment \<Rightarrow> runtime \<Rightarrow> rendered_artifacts \<Rightarrow> deployer \<Rightarrow> service
    \<Rightarrow> deploy_response option \<times> service" where
  "apply_stage ev d rtm art c s =
     (let (start, s1) = read_now ev s;
          ((res, err), cmds) = dy_apply c rtm art (deploy_params d) (sv_commands s1);
          s2 = s1\<lparr>sv_commands := cmds\<rparr>
      in if err \<noteq> None \<or> ar_outcome res \<noteq> ''ok''
         then let (_, s3) = fail_deploy ev d StageApply (fmt_err err ''apply_failed'') s2
              in (Some \<lparr>dr_deployment = must_get (de_id d) s3, dr_status = StFailed,
                        dr_reason = ''apply_failed'', dr_created = False\<rparr>, s3)
         else let (t, s3) = read_now ev s2;
                  s4 = emit_stage_event ev d StageApply OutcomeCompleted []
                         [(''revision_id'', VString (de_revision_id d))] start t s3
              in (None, emit_cloud ev d ''deployment.applied.v1''
                    [(''deployment_id'', VString (de_id d)), (''revision_id'', VString (de_revision_id d)),
                     (''manifest_sha'', VString (ra_manifest_sha art))] s4))"

definition rolled_back_reason :: string where
  "rolled_back_reason = ''rolled_back_after_verify_failure''"

text \<open>The verification failed: the deployment has failed, and is rolled back if it asks for it.\<close>

definition verify_failure ::
  "deploy_env \<Rightarrow> deployment \<Rightarrow> verify_result \<Rightarrow> gotime \<Rightarrow> service \<Rightarrow> deploy_response \<times> service" where
  "verify_failure ev d res start s =
     (let (t, s1) = read_now ev s;
          s2 = emit_stage_event ev d StageVerify OutcomeFailed (vr_fail_reason res) (vr_detail res) start t s1;
          s3 = emit_cloud ev d ''deployment.failed.v1''
                 [(''deployment_id'', VString (de_id d)), (''stage'', VString ''verify''),
                  (''reason'', VString (vr_fail_reason res))] s2;
          s4 = set_service_status ev (de_id d) StFailed (''verify_failed:'' @ vr_fail_reason res) s3;
          give_up = (\<lambda>s'. (\<lparr>dr_deployment = must_get (de_id d) s', dr_status = StFailed,
                             dr_reason = vr_fail_reason res, dr_created = True\<rparr>, s'))
      in if de_auto_rollback d
         then (case rollback_internal ev d
                      \<lparr>rq_reason = ''auto:verify_failed'', rq_approved = True, rq_actor = [], rq_manual = False\<rparr> s4 of
                 (Inl _, s5) \<Rightarrow> give_up s5
               | (Inr rb, s5) \<Rightarrow>
                   (\<lparr>dr_deployment = dr_deployment rb, dr_status = dr_status rb,
                     dr_reason = rolled_back_reason, dr_created = False\<rparr>, s5))
         else give_up s4)"

definition verify_stage ::
  "deploy_env \<Rightarrow> deployment \<Rightarrow> runtime \<Rightarrow> manifest \<Rightarrow> deployer \<Rightarrow> service
    \<Rightarrow> deploy_response option \<times> service" where
  "verify_stage ev d rtm mf c s =
     (let (start, s1) = read_now ev s;
          ((res, err), cmds) = dy_verify c rtm mf (deploy_params d) (sv_commands s1);
          s2 = s1\<lparr>sv_commands := cmds\<rparr>
      in if err \<noteq> None \<or> \<not> vr_healthy res
         then let (r, s3) = verify_failure ev d res start s2 in (Some r, s3)
         else let (t, s3) = read_now ev s2;
                  s4 = emit_stage_event ev d StageVerify OutcomeCompleted [] (vr_detail res) start t s3
              in (None, emit_cloud ev d ''deployment.verified.v1''
                    [(''deployment_id'', VString (de_id d)), (''revision_id'', VString (de_revision_id d))] s4))"

definition notify_stage :: "deploy_env \<Rightarrow> deployment \<Rightarrow> service \<Rightarrow> deploy_response \<times> service" where
  "notify_stage ev d s =
     (let (t1, s1) = read_now ev s; (t2, s2) = read_now ev s1;
          s3 = emit_stage_event ev d StageNotify OutcomeCompleted [] [] t1 t2 s2;
          s4 = set_service_status ev (de_id d) StCompleted [] s3;
          s5 = record_asset ev (de_id d) s4
      in (\<lparr>dr_deployment = must_get (de_id d) s4, dr_status = StCompleted, dr_reason = [],
           dr_created = True\<rparr>, s5))"

text \<open>The stages of a deployment just inserted.\<close>

definition release_stages ::
  "deploy_env \<Rightarrow> deployment \<Rightarrow> deploy_request \<Rightarrow> runtime \<Rightarrow> deployer \<Rightarrow> service \<Rightarrow> deploy_response \<times> service" where
  "release_stages ev d req rtm c s =
     (let mf = deploy_manifest d req in
      case render_stage ev d mf c s of
        (Inl r, s1) \<Rightarrow> (r, s1)
      | (Inr art, s1) \<Rightarrow>
          (case apply_stage ev d rtm art c s1 of
             (Some r, s2) \<Rightarrow> (r, s2)
           | (None, s2) \<Rightarrow>
               (case verify_stage ev d rtm mf c s2 of
                  (Some r, s3) \<Rightarrow> (r, s3)
                | (None, s3) \<Rightarrow> notify_stage ev d s3)))"

definition deploy_stages ::
  "deploy_env \<Rightarrow> deployment \<Rightarrow> deploy_request \<Rightarrow> service \<Rightarrow> deploy_response \<times> service" where
  "deploy_stages ev d req s =
     (case preflight_stage ev d s of
        (Inl r, s1) \<Rightarrow> (r, s1)
      | (Inr (rtm, c), s1) \<Rightarrow>
          (case run_policies ev d req s1 of
             ((dec, False), s2) \<Rightarrow> policy_outcome ev d dec s2
           | ((dec, True), s2) \<Rightarrow>
               (case run_image_verify ev d s2 of
                  (Some e, s3) \<Rightarrow> fail_deploy ev d StageImageVerify e s3
                | (None, s3) \<Rightarrow> release_stages ev d req rtm c s3)))"

definition announce :: "deploy_env \<Rightarrow> deployment \<Rightarrow> gotime \<Rightarrow> service \<Rightarrow> service" where
  "announce ev d now s =
     emit_cloud ev d ''deployment.requested.v1''
       [(''deployment_id'', VString (de_id d)), (''asset_id'', VString (de_asset_id d)), (''env'', VString (de_env d)),
        (''image'', VString (de_image d)), (''request_id'', VString (de_request_id d))]
       (emit_stage_event ev d StageRequested OutcomeStarted [] [] now now s)"

definition deploy :: "deploy_env \<Rightarrow> deploy_request \<Rightarrow> service \<Rightarrow> (deploy_error + deploy_response) \<times> service" where
  "deploy ev req0 s =
     (if dq_runtime_id req0 = [] then (Inl ErrRuntimeRequired, s)
      else
        let (req, s1) = (if dq_request_id req0 = []
                         then (let (i, s') = new_id ev s in (req0\<lparr>dq_request_id := i\<rparr>, s')) else (req0, s));
            (now, s2) = read_now ev s1;
            (revision_id, s3) = new_id ev s2;
            ((ins, created), s4) =
              insert_service ev (requested_deployment ev req (dq_request_id req) revision_id now) s3
        in case ins of
             None \<Rightarrow> (Inl PanicNilDeployment, s4)
           | Some d \<Rightarrow>
               if \<not> created
               then (Inr \<lparr>dr_deployment = Some d, dr_status = de_status d, dr_reason = de_status_reason d,
                          dr_created = False\<rparr>, s4)
               else (let (r, s5) = deploy_stages ev d req (announce ev d now s4) in (Inr r, s5)))"

end
