(* ===== verification/Deploy_Flow.thy ===== *)
theory Deploy_Flow
  imports Deploy_Service
begin

text \<open>
  What the stages of \<open>Deploy\<close> and \<open>Rollback\<close> guarantee: the order of the recorded stages, what
  gates the application of manifests, which status a deployment ends in, and that every operation
  of the service is a sequence of store operations.
\<close>

section \<open>The audit trail of a deployment\<close>

type_synonym trace = "(stage \<times> stage_outcome) list"

definition trace :: "string \<Rightarrow> service \<Rightarrow> trace" where
  "trace i s = map (\<lambda>e. (ev_stage e, ev_outcome e)) (deploy_events i (sv_store s))"

definition evals :: "string \<Rightarrow> service \<Rightarrow> decision list" where
  "evals i s = map pe_outcome (policy_evals i (sv_store s))"

definition images :: "string \<Rightarrow> service \<Rightarrow> string list" where
  "images i s = map iv_outcome (image_verifications i (sv_store s))"

lemmas audit_defs = trace_def evals_def images_def log_defs

lemmas draws = new_id_def read_now_def read_wall_def

lemma audit_fields [simp]:
  "trace i (s\<lparr>sv_clock := n\<rparr>) = trace i s" "evals i (s\<lparr>sv_clock := n\<rparr>) = evals i s" "images i (s\<lparr>sv_clock := n\<rparr>) = images i s"
  "trace i (s\<lparr>sv_uuid := n\<rparr>) = trace i s" "evals i (s\<lparr>sv_uuid := n\<rparr>) = evals i s" "images i (s\<lparr>sv_uuid := n\<rparr>) = images i s"
  "trace i (s\<lparr>sv_commands := c\<rparr>) = trace i s" "evals i (s\<lparr>sv_commands := c\<rparr>) = evals i s"
  "images i (s\<lparr>sv_commands := c\<rparr>) = images i s"
  "trace i (s\<lparr>sv_inbox := b\<rparr>) = trace i s" "evals i (s\<lparr>sv_inbox := b\<rparr>) = evals i s" "images i (s\<lparr>sv_inbox := b\<rparr>) = images i s"
  by (simp_all add: audit_defs)

lemma emit_stage_audit [simp]:
  "trace i (emit_stage_event ev d st oc r dt a b s) = trace i s @ (if de_id d = i then [(st, oc)] else [])"
  "evals i (emit_stage_event ev d st oc r dt a b s) = evals i s"
  "images i (emit_stage_event ev d st oc r dt a b s) = images i s"
  by (simp_all add: emit_stage_event_def draws on_store_def append_event_def audit_defs store_simps Let_def)

lemma emit_cloud_audit [simp]:
  "trace i (emit_cloud ev d ty data s) = trace i s" "evals i (emit_cloud ev d ty data s) = evals i s"
  "images i (emit_cloud ev d ty data s) = images i s"
  by (simp_all add: emit_cloud_def draws audit_defs)

lemma set_status_audit [simp]:
  "trace i (set_service_status ev j st r s) = trace i s" "evals i (set_service_status ev j st r s) = evals i s"
  "images i (set_service_status ev j st r s) = images i s"
  by (simp_all add: set_service_status_def draws on_store_def set_deploy_status_def audit_defs frame_simps)

lemma store_update_audit [simp]:
  "trace i (on_store (set_verified j x y) s) = trace i s" "evals i (on_store (set_verified j x y) s) = evals i s"
  "images i (on_store (set_verified j x y) s) = images i s"
  "trace i (on_store (set_manifest_sha j h) s) = trace i s" "evals i (on_store (set_manifest_sha j h) s) = evals i s"
  "images i (on_store (set_manifest_sha j h) s) = images i s"
  by (simp_all add: on_store_def set_verified_def set_manifest_sha_def audit_defs frame_simps)

lemma record_asset_audit [simp]:
  "trace i (record_asset ev j s) = trace i s" "evals i (record_asset ev j s) = evals i s"
  "images i (record_asset ev j s) = images i s"
  by (simp_all add: record_asset_def audit_defs split: option.split)

lemma record_evaluation_audit [simp]:
  "trace i (record_evaluation ev d e s) = trace i s"
  "evals i (record_evaluation ev d e s) = evals i s @ (if de_id d = i then [pd_decision e] else [])"
  "images i (record_evaluation ev d e s) = images i s"
  by (simp_all add: record_evaluation_def draws on_store_def append_policy_eval_def audit_defs store_simps Let_def)

lemma record_evaluations_audit [simp]:
  "trace i (fold (record_evaluation ev d) es s) = trace i s"
  "evals i (fold (record_evaluation ev d) es s) = evals i s @ (if de_id d = i then map pd_decision es else [])"
  "images i (fold (record_evaluation ev d) es s) = images i s"
  by (induction es arbitrary: s) simp_all

lemma record_image_audit [simp]:
  "trace i (record_image ev d oc r idn dg ok s) = trace i s"
  "evals i (record_image ev d oc r idn dg ok s) = evals i s"
  "images i (record_image ev d oc r idn dg ok s) = images i s @ (if de_id d = i then [oc] else [])"
  by (simp_all add: record_image_def draws on_store_def append_image_verification_def audit_defs store_simps
      Let_def)

lemma record_rollback_audit [simp]:
  "trace i (record_rollback ev d p q s) = trace i s" "evals i (record_rollback ev d p q s) = evals i s"
  "images i (record_rollback ev d p q s) = images i s"
  by (simp_all add: record_rollback_def draws on_store_def append_rollback_def audit_defs Let_def)

lemma insert_logs [simp]:
  "ds_events (snd (snd (insert_deployment i1 i2 t d s))) = ds_events s"
  "ds_policy_evals (snd (snd (insert_deployment i1 i2 t d s))) = ds_policy_evals s"
  "ds_image_results (snd (snd (insert_deployment i1 i2 t d s))) = ds_image_results s"
  by (simp_all add: insert_deployment_def Let_def split: option.split)

lemma insert_service_audit [simp]:
  "trace i (snd (insert_service ev d s)) = trace i s" "evals i (snd (insert_service ev d s)) = evals i s"
  "images i (snd (insert_service ev d s)) = images i s"
  by (simp_all add: insert_service_def draws audit_defs Let_def case_prod_beta)

text \<open>The identifiers in use change only by an insertion.\<close>

definition in_use :: "service \<Rightarrow> (string \<times> string) list \<times> (string \<times> nat) list" where
  "in_use s = (ds_by_request (sv_store s), ds_deployments (sv_store s))"

lemma in_use_frame [simp]:
  "in_use (s\<lparr>sv_clock := n\<rparr>) = in_use s" "in_use (s\<lparr>sv_uuid := n\<rparr>) = in_use s"
  "in_use (s\<lparr>sv_commands := c\<rparr>) = in_use s" "in_use (s\<lparr>sv_inbox := b\<rparr>) = in_use s"
  "in_use (emit_stage_event ev d st oc r dt x y s) = in_use s"
  "in_use (emit_cloud ev d ty data s) = in_use s"
  "in_use (set_service_status ev j stt r s) = in_use s"
  "in_use (on_store (set_verified j v w) s) = in_use s"
  "in_use (on_store (set_manifest_sha j h) s) = in_use s"
  "in_use (record_asset ev j s) = in_use s"
  "in_use (record_evaluation ev d e s) = in_use s"
  "in_use (record_image ev d iv r idn dg ok s) = in_use s"
  "in_use (record_rollback ev d p q s) = in_use s"
  by (simp_all add: in_use_def emit_stage_event_def emit_cloud_def set_service_status_def record_asset_def
      record_evaluation_def record_image_def record_rollback_def draws on_store_def append_event_def
      append_policy_eval_def append_image_verification_def append_rollback_def set_deploy_status_def
      set_verified_def set_manifest_sha_def frame_simps Let_def split: option.split)

lemma in_use_evaluations [simp]: "in_use (fold (record_evaluation ev d) es s) = in_use s"
  by (induction es arbitrary: s) simp_all

lemma in_use_fail [simp]: "in_use (snd (fail_deploy ev d st e s)) = in_use s"
  by (simp add: fail_deploy_def draws Let_def)

section \<open>Service steps are store steps\<close>

text \<open>From \<open>s\<close> to \<open>t\<close> only the deployment \<open>i\<close> gets audit entries, no identifier or clock reading is given
  back, and the store moves by its own operations.\<close>

definition flows :: "string set \<Rightarrow> service \<Rightarrow> service \<Rightarrow> bool" where
  "flows I s t \<longleftrightarrow>
     (\<forall>j. j \<notin> I \<longrightarrow> trace j t = trace j s \<and> evals j t = evals j s \<and> images j t = images j s)
     \<and> sv_uuid s \<le> sv_uuid t \<and> sv_clock s \<le> sv_clock t
     \<and> (\<exists>ops. sv_store t = fold deploy_step ops (sv_store s))"

named_theorems flow_intros "service steps that are store steps"

lemma flows_refl [flow_intros]: "flows I s s"
  by (auto simp: flows_def intro: exI [of _ "[]"])

lemma flows_trans:
  assumes "flows I s t" "flows I t u"
  shows "flows I s u"
proof -
  from assms obtain o1 o2 where "sv_store t = fold deploy_step o1 (sv_store s)"
    "sv_store u = fold deploy_step o2 (sv_store t)" unfolding flows_def by blast
  then have "sv_store u = fold deploy_step (o1 @ o2) (sv_store s)" by simp
  then show ?thesis using assms unfolding flows_def by (metis order_trans)
qed

lemma flows_mono: "flows I s t \<Longrightarrow> I \<subseteq> J \<Longrightarrow> flows J s t"
  unfolding flows_def by blast

lemma flows_op:
  assumes "\<exists>op. sv_store u = deploy_step op (sv_store t)" "sv_uuid t \<le> sv_uuid u \<and> sv_clock t \<le> sv_clock u"
    "\<And>j. j \<notin> I \<Longrightarrow> trace j u = trace j t \<and> evals j u = evals j t \<and> images j u = images j t"
  shows "flows I t u"
proof -
  from assms(1) obtain op where "sv_store u = deploy_step op (sv_store t)" by blast
  then have "sv_store u = fold deploy_step [op] (sv_store t)" by simp
  then show ?thesis using assms(2,3) unfolding flows_def by blast
qed

lemma flows_same:
  assumes "sv_store u = sv_store t" "sv_uuid t \<le> sv_uuid u \<and> sv_clock t \<le> sv_clock u"
  shows "flows I t u"
proof -
  have "\<exists>ops. sv_store u = fold deploy_step ops (sv_store t)"
    using assms(1) by (intro exI [of _ "[]"]) simp
  then show ?thesis using assms unfolding flows_def by (simp add: audit_defs)
qed

lemma flows_fields [flow_intros]:
  "flows I s t \<Longrightarrow> sv_clock t \<le> n \<Longrightarrow> flows I s (t\<lparr>sv_clock := n\<rparr>)"
  "flows I s t \<Longrightarrow> flows I s (t\<lparr>sv_commands := c\<rparr>)"
  "flows I s t \<Longrightarrow> flows I s (t\<lparr>sv_inbox := b\<rparr>)"
  "flows I s t \<Longrightarrow> flows I s (t\<lparr>sv_uuid := Suc (sv_uuid t)\<rparr>)"
  by (erule flows_trans, rule flows_same; simp)+

lemma flows_stage [flow_intros]:
  assumes "flows I s t" "de_id d \<in> I"
  shows "flows I s (emit_stage_event ev d st oc r dt a b t)"
  using assms(1)
proof (rule flows_trans)
  show "flows I t (emit_stage_event ev d st oc r dt a b t)"
  proof (rule flows_op)
    show "\<exists>op. sv_store (emit_stage_event ev d st oc r dt a b t) = deploy_step op (sv_store t)"
      by (simp add: emit_stage_event_def draws on_store_def) (metis deploy_step.simps(5))
    show "sv_uuid t \<le> sv_uuid (emit_stage_event ev d st oc r dt a b t)
        \<and> sv_clock t \<le> sv_clock (emit_stage_event ev d st oc r dt a b t)"
      by (simp add: emit_stage_event_def draws on_store_def)
  qed (use assms in auto)
qed

lemma flows_cloud [flow_intros]: "flows I s t \<Longrightarrow> flows I s (emit_cloud ev d ty data t)"
  by (erule flows_trans, rule flows_same) (simp_all add: emit_cloud_def draws)

lemma flows_status [flow_intros]:
  assumes "flows I s t"
  shows "flows I s (set_service_status ev j st r t)"
  using assms(1)
proof (rule flows_trans)
  show "flows I t (set_service_status ev j st r t)"
  proof (rule flows_op)
    show "\<exists>op. sv_store (set_service_status ev j st r t) = deploy_step op (sv_store t)"
      by (simp add: set_service_status_def draws on_store_def) (metis deploy_step.simps(2))
    show "sv_uuid t \<le> sv_uuid (set_service_status ev j st r t)
        \<and> sv_clock t \<le> sv_clock (set_service_status ev j st r t)"
      by (simp add: set_service_status_def draws on_store_def)
  qed (use assms in auto)
qed

lemma flows_verified [flow_intros]:
  assumes "flows I s t"
  shows "flows I s (on_store (set_verified j x y) t)"
  using assms(1)
proof (rule flows_trans)
  show "flows I t (on_store (set_verified j x y) t)"
  proof (rule flows_op)
    show "\<exists>op. sv_store (on_store (set_verified j x y) t) = deploy_step op (sv_store t)"
      by (simp add: on_store_def) (metis deploy_step.simps(3))
    show "sv_uuid t \<le> sv_uuid (on_store (set_verified j x y) t)
        \<and> sv_clock t \<le> sv_clock (on_store (set_verified j x y) t)"
      by (simp add: on_store_def)
  qed (use assms in auto)
qed

lemma flows_manifest [flow_intros]:
  assumes "flows I s t"
  shows "flows I s (on_store (set_manifest_sha j h) t)"
  using assms(1)
proof (rule flows_trans)
  show "flows I t (on_store (set_manifest_sha j h) t)"
  proof (rule flows_op)
    show "\<exists>op. sv_store (on_store (set_manifest_sha j h) t) = deploy_step op (sv_store t)"
      by (simp add: on_store_def) (metis deploy_step.simps(4))
    show "sv_uuid t \<le> sv_uuid (on_store (set_manifest_sha j h) t)
        \<and> sv_clock t \<le> sv_clock (on_store (set_manifest_sha j h) t)"
      by (simp add: on_store_def)
  qed (use assms in auto)
qed

lemma flows_asset [flow_intros]: "flows I s t \<Longrightarrow> flows I s (record_asset ev j t)"
  by (erule flows_trans, rule flows_same) (simp_all add: record_asset_def split: option.split)

lemma flows_evaluation [flow_intros]:
  assumes "flows I s t" "de_id d \<in> I"
  shows "flows I s (record_evaluation ev d e t)"
  using assms(1)
proof (rule flows_trans)
  show "flows I t (record_evaluation ev d e t)"
  proof (rule flows_op)
    show "\<exists>op. sv_store (record_evaluation ev d e t) = deploy_step op (sv_store t)"
      by (simp add: record_evaluation_def draws on_store_def) (metis deploy_step.simps(6))
    show "sv_uuid t \<le> sv_uuid (record_evaluation ev d e t)
        \<and> sv_clock t \<le> sv_clock (record_evaluation ev d e t)"
      by (simp add: record_evaluation_def draws on_store_def)
  qed (use assms in auto)
qed

lemma flows_evaluations [flow_intros]:
  "flows I s t \<Longrightarrow> de_id d \<in> I \<Longrightarrow> flows I s (fold (record_evaluation ev d) es t)"
  by (induction es arbitrary: t) (simp_all add: flows_evaluation)

lemma flows_image [flow_intros]:
  assumes "flows I s t" "de_id d \<in> I"
  shows "flows I s (record_image ev d oc r idn dg ok t)"
  using assms(1)
proof (rule flows_trans)
  show "flows I t (record_image ev d oc r idn dg ok t)"
  proof (rule flows_op)
    show "\<exists>op. sv_store (record_image ev d oc r idn dg ok t) = deploy_step op (sv_store t)"
      by (simp add: record_image_def draws on_store_def) (metis deploy_step.simps(7))
    show "sv_uuid t \<le> sv_uuid (record_image ev d oc r idn dg ok t)
        \<and> sv_clock t \<le> sv_clock (record_image ev d oc r idn dg ok t)"
      by (simp add: record_image_def draws on_store_def)
  qed (use assms in auto)
qed

lemma flows_rollback_record [flow_intros]:
  assumes "flows I s t"
  shows "flows I s (record_rollback ev d p q t)"
  using assms(1)
proof (rule flows_trans)
  show "flows I t (record_rollback ev d p q t)"
  proof (rule flows_op)
    show "\<exists>op. sv_store (record_rollback ev d p q t) = deploy_step op (sv_store t)"
      by (simp add: record_rollback_def draws on_store_def) (metis deploy_step.simps(8))
    show "sv_uuid t \<le> sv_uuid (record_rollback ev d p q t)
        \<and> sv_clock t \<le> sv_clock (record_rollback ev d p q t)"
      by (simp add: record_rollback_def draws on_store_def)
  qed (use assms in auto)
qed

lemma flows_insert [flow_intros]:
  assumes "flows I s t"
  shows "flows I s (snd (insert_service ev d t))"
  using assms(1)
proof (rule flows_trans)
  show "flows I t (snd (insert_service ev d t))"
  proof (rule flows_op)
    show "\<exists>op. sv_store (snd (insert_service ev d t)) = deploy_step op (sv_store t)"
      by (simp add: insert_service_def draws case_prod_beta Let_def) (metis deploy_step.simps(1))
    show "sv_uuid t \<le> sv_uuid (snd (insert_service ev d t))
        \<and> sv_clock t \<le> sv_clock (snd (insert_service ev d t))"
      by (simp add: insert_service_def draws case_prod_beta Let_def)
  qed (use assms in auto)
qed

section \<open>Stage by stage\<close>

text \<open>The stages of a list in their order; nothing but repetitions follows a failed or denied one.\<close>

definition passed :: "stage_outcome \<Rightarrow> bool" where
  "passed oc \<longleftrightarrow> oc \<noteq> OutcomeFailed \<and> oc \<noteq> OutcomeDenied"

fun follows :: "stage list \<Rightarrow> trace \<Rightarrow> bool" where
  "follows sts [] = True"
| "follows [] (e # es) = False"
| "follows (st # sts) ((st', oc) # es) =
     (st' = st \<and> (if passed oc then follows sts es else list_all (\<lambda>e. e = (st, oc)) es))"

lemma passed_simps [simp]:
  "passed OutcomeStarted" "passed OutcomeCompleted" "passed OutcomeSkipped" "\<not> passed OutcomeFailed"
  "\<not> passed OutcomeDenied"
  by (simp_all add: passed_def)

definition release_pipeline :: "stage list" where
  "release_pipeline = [StageRender, StageApply, StageVerify, StageNotify]"

definition deploy_pipeline :: "stage list" where
  "deploy_pipeline = [StageRequested, StagePreflight, StagePolicy, StageImageVerify] @ release_pipeline"

definition rollback_pipeline :: "stage list" where
  "rollback_pipeline = [StageRollback, StageRollback]"

text \<open>Failing.\<close>

lemma fail_audit [simp]:
  "trace i (snd (fail_deploy ev d st e s)) = trace i s @ (if de_id d = i then [(st, OutcomeFailed)] else [])"
  "evals i (snd (fail_deploy ev d st e s)) = evals i s" "images i (snd (fail_deploy ev d st e s)) = images i s"
  "dr_status (fst (fail_deploy ev d st e s)) = StFailed"
  by (simp_all add: fail_deploy_def draws Let_def)

lemma flows_fail [flow_intros]:
  "flows I s t \<Longrightarrow> de_id d \<in> I \<Longrightarrow> flows I s (snd (fail_deploy ev d st e t))"
  by (simp add: fail_deploy_def draws Let_def flow_intros)

text \<open>Each stage: where it leads and what it adds to the trail of its deployment.\<close>

definition leads :: "deployment \<Rightarrow> service \<Rightarrow> trace \<Rightarrow> decision list \<Rightarrow> string list \<Rightarrow> service \<Rightarrow> bool" where
  "leads d s tr es is t \<longleftrightarrow>
     flows {de_id d} s t \<and> in_use t = in_use s \<and> trace (de_id d) t = trace (de_id d) s @ tr
     \<and> evals (de_id d) t = evals (de_id d) s @ es \<and> images (de_id d) t = images (de_id d) s @ is"

lemma leads_trans:
  "leads d s tr es is t \<Longrightarrow> leads d t tr' es' is' u \<Longrightarrow> leads d s (tr @ tr') (es @ es') (is @ is') u"
  by (auto simp: leads_def intro: flows_trans)

lemma fail_leads: "leads d s [(st, OutcomeFailed)] [] [] (snd (fail_deploy ev d st e s))"
  by (simp add: leads_def flow_intros)

lemma preflight_leads:
  assumes "preflight_stage ev d s = (res, t)"
  shows "leads d s [(StagePreflight, if isl res then OutcomeFailed else OutcomeCompleted)] [] [] t"
  using assms
  by (auto simp: preflight_stage_def leads_def draws Let_def case_prod_beta flow_intros
      split: sum.splits option.splits prod.splits if_splits)

lemma combined_allow:
  assumes "combined_decision ev d req now s = (dec, ds)" "pd_decision dec = DecisionAllow"
  shows "\<forall>e\<in>set (map pd_decision ds). restriction e = 0"
proof -
  have "pd_decision (most_restrictive_policy_decision ds) = DecisionAllow"
    using assms by (auto simp: combined_decision_def evaluate_policies_alt Let_def split: option.splits sum.splits)
  then show ?thesis by (simp add: most_restrictive_allow)
qed

lemma policies_lead:
  assumes "run_policies ev d req s = ((dec, ok), t)"
  shows "\<exists>es. leads d s (if ok then [(StagePolicy, OutcomeCompleted)] else []) es [] t
           \<and> (ok \<longrightarrow> (\<forall>e\<in>set es. restriction e = 0))"
proof -
  obtain dec' ds where c: "combined_decision ev d req (se_now ev (sv_clock s))
      (s\<lparr>sv_clock := Suc (sv_clock s)\<rparr>) = (dec', ds)"
    by fastforce
  have "leads d s (if ok then [(StagePolicy, OutcomeCompleted)] else []) (map pd_decision ds) [] t"
    using assms c by (auto simp: run_policies_def leads_def draws Let_def flow_intros split: if_splits)
  moreover have "dec' = dec \<and> (ok \<longrightarrow> pd_decision dec = DecisionAllow)"
    using assms c by (auto simp: run_policies_def draws Let_def split: if_splits)
  ultimately show ?thesis using combined_allow [OF c] by blast
qed

lemma policy_outcome_leads:
  "leads d s [(StagePolicy, OutcomeDenied)] [] [] (snd (policy_outcome ev d dec s))"
  by (simp add: policy_outcome_def leads_def draws Let_def flow_intros)

text \<open>An image verification lets the deployment pass only with a successful or skipped record.\<close>

definition image_cleared :: "string list \<Rightarrow> bool" where
  "image_cleared is \<longleftrightarrow> success_outcome \<in> set is \<or> skipped_outcome \<in> set is"

lemma image_leads:
  assumes "run_image_verify ev d s = (res, t)"
  shows "\<exists>tr is. leads d s tr [] is t
    \<and> (case res of
         None \<Rightarrow> image_cleared is
           \<and> (tr = [(StageImageVerify, OutcomeSkipped)] \<or> tr = [(StageImageVerify, OutcomeCompleted)])
       | Some _ \<Rightarrow> tr = [] \<or> tr = [(StageImageVerify, OutcomeFailed)])"
proof (cases "override_active ev d (se_now ev (sv_clock s)) (s\<lparr>sv_clock := Suc (sv_clock s)\<rparr>)")
  case True
  with assms have "res = None" "leads d s [(StageImageVerify, OutcomeSkipped)] [] [skipped_outcome] t"
    by (auto simp: run_image_verify_def leads_def draws Let_def flow_intros)
  then show ?thesis
    by (intro exI [of _ "[(StageImageVerify, OutcomeSkipped)]"] exI [of _ "[skipped_outcome]"])
      (simp add: image_cleared_def)
next
  case no_override: False
  show ?thesis
  proof (cases "resolve_metadata ev d")
    case (Inl e)
    with assms no_override have "res = Some e" "leads d s [] [] [] t"
      by (auto simp: run_image_verify_def leads_def draws Let_def flow_intros)
    then show ?thesis by auto
  next
    case (Inr meta)
    show ?thesis
    proof (cases "cr_failed (cosign_combined (se_cosign ev) (de_workspace_id d) meta)")
      case None
      with assms no_override Inr have "res = None"
        "leads d s [(StageImageVerify, OutcomeCompleted)] [] [success_outcome] t"
        by (auto simp: run_image_verify_def leads_def draws Let_def flow_intros)
      then show ?thesis
        by (intro exI [of _ "[(StageImageVerify, OutcomeCompleted)]"] exI [of _ "[success_outcome]"])
          (simp add: image_cleared_def)
    next
      case (Some reason)
      with assms no_override Inr have "res \<noteq> None"
        "leads d s [(StageImageVerify, OutcomeFailed)] [] [failed_outcome] t"
        by (auto simp: run_image_verify_def leads_def draws Let_def flow_intros)
      then show ?thesis by (auto split: option.split)
    qed
  qed
qed

lemma render_leads:
  assumes "render_stage ev d mf c s = (res, t)"
  shows "leads d s [(StageRender, if isl res then OutcomeFailed else OutcomeCompleted)] [] [] t"
  using assms
  by (auto simp: render_stage_def leads_def draws Let_def case_prod_beta flow_intros split: option.splits)

lemma apply_leads:
  assumes "apply_stage ev d rtm art c s = (res, t)"
  shows "leads d s [(StageApply, if res = None then OutcomeCompleted else OutcomeFailed)] [] [] t"
  using assms
  by (auto simp: apply_stage_def leads_def draws Let_def case_prod_beta flow_intros split: if_splits prod.splits)

lemma notify_leads:
  "leads d s [(StageNotify, OutcomeCompleted)] [] [] (snd (notify_stage ev d s))"
  by (simp add: notify_stage_def leads_def draws Let_def flow_intros)

text \<open>A stage that ends with the verification of the release, and the stages as a whole: the trail of
  the deployment, and possibly a rollback from there.\<close>

definition ends_at :: "deploy_env \<Rightarrow> deployment \<Rightarrow> service \<Rightarrow> service \<Rightarrow> bool" where
  "ends_at ev d u t \<longleftrightarrow> t = u \<or> (\<exists>q r. rollback_internal ev d q u = (r, t))"

lemma verify_failure_ends:
  "\<exists>u. leads d s [(StageVerify, OutcomeFailed)] [] [] u \<and> ends_at ev d u (snd (verify_failure ev d res start s))"
proof -
  define u where "u = set_service_status ev (de_id d) StFailed (''verify_failed:'' @ vr_fail_reason res)
    (emit_cloud ev d ''deployment.failed.v1''
      [(''deployment_id'', VString (de_id d)), (''stage'', VString ''verify''),
       (''reason'', VString (vr_fail_reason res))]
      (emit_stage_event ev d StageVerify OutcomeFailed (vr_fail_reason res) (vr_detail res) start
        (se_now ev (sv_clock s)) (s\<lparr>sv_clock := Suc (sv_clock s)\<rparr>)))"
  have "leads d s [(StageVerify, OutcomeFailed)] [] [] u" by (simp add: u_def leads_def flow_intros)
  moreover have "ends_at ev d u (snd (verify_failure ev d res start s))"
    unfolding verify_failure_def draws Let_def prod.case u_def [symmetric] ends_at_def
    by (auto split: prod.split sum.split)
  ultimately show ?thesis by blast
qed

lemma verify_leads:
  assumes "verify_stage ev d rtm mf c s = (res, t)"
  shows "case res of
      None \<Rightarrow> leads d s [(StageVerify, OutcomeCompleted)] [] [] t
    | Some _ \<Rightarrow> (\<exists>u. leads d s [(StageVerify, OutcomeFailed)] [] [] u \<and> ends_at ev d u t)"
proof -
  define s1 where "s1 = s\<lparr>sv_clock := Suc (sv_clock s)\<rparr>"
  obtain v err cmds where v: "dy_verify c rtm mf (deploy_params d) (sv_commands s1) = ((v, err), cmds)"
    by (metis prod.exhaust)
  define s2 where "s2 = s1\<lparr>sv_commands := cmds\<rparr>"
  have s2: "leads d s [] [] [] s2" by (simp add: s2_def s1_def leads_def flow_intros)
  have clock: "sv_clock s2 = sv_clock s1" by (simp add: s2_def)
  show ?thesis
  proof (cases "err \<noteq> None \<or> \<not> vr_healthy v")
    case True
    obtain u where u: "leads d s2 [(StageVerify, OutcomeFailed)] [] [] u"
        "ends_at ev d u (snd (verify_failure ev d v (se_now ev (sv_clock s)) s2))"
      using verify_failure_ends by blast
    have "res \<noteq> None" "t = snd (verify_failure ev d v (se_now ev (sv_clock s)) s2)"
      using assms v True
      by (auto simp: verify_stage_def draws Let_def s1_def [symmetric] s2_def [symmetric] split: prod.splits)
    with u leads_trans [OF s2 u(1)] show ?thesis by (auto split: option.split)
  next
    case False
    then have "res = None" "leads d s2 [(StageVerify, OutcomeCompleted)] [] [] t"
      using assms v
      by (auto simp: verify_stage_def draws Let_def s1_def [symmetric] s2_def [symmetric] leads_def clock
          flow_intros)
    with leads_trans [OF s2] show ?thesis by fastforce
  qed
qed

lemma release_ends:
  "\<exists>u tr. leads d s tr [] [] u \<and> follows release_pipeline tr
     \<and> ends_at ev d u (snd (release_stages ev d req rtm c s))"
proof -
  let ?mf = "deploy_manifest d req"
  obtain r1 s1 where r1: "render_stage ev d ?mf c s = (r1, s1)" by fastforce
  note l1 = render_leads [OF r1]
  show ?thesis
  proof (cases r1)
    case (Inl r)
    then show ?thesis using l1 r1
      by (intro exI [of _ s1] exI [of _ "[(StageRender, OutcomeFailed)]"])
        (simp add: release_stages_def release_pipeline_def ends_at_def)
  next
    case art: (Inr art)
    obtain r2 s2 where r2: "apply_stage ev d rtm art c s1 = (r2, s2)" by fastforce
    note l2 = leads_trans [OF l1 apply_leads [OF r2]]
    show ?thesis
    proof (cases r2)
      case (Some r)
      then show ?thesis using l2 r1 r2 art
        by (intro exI [of _ s2] exI [of _ "[(StageRender, OutcomeCompleted), (StageApply, OutcomeFailed)]"])
          (simp add: release_stages_def release_pipeline_def ends_at_def)
    next
      case None
      obtain r3 s3 where r3: "verify_stage ev d rtm ?mf c s2 = (r3, s3)" by fastforce
      note l3 = verify_leads [OF r3]
      show ?thesis
      proof (cases r3)
        case none3: None
        then have "leads d s2 [(StageVerify, OutcomeCompleted)] [] [] s3" using l3 by simp
        from leads_trans [OF leads_trans [OF l2 this] notify_leads [of d s3 ev]]
        show ?thesis using r1 r2 r3 art None none3
          by (intro exI [of _ "snd (notify_stage ev d s3)"]
              exI [of _ "[(StageRender, OutcomeCompleted), (StageApply, OutcomeCompleted),
                          (StageVerify, OutcomeCompleted), (StageNotify, OutcomeCompleted)]"])
            (simp add: release_stages_def release_pipeline_def ends_at_def)
      next
        case (Some r)
        then obtain u where u: "leads d s2 [(StageVerify, OutcomeFailed)] [] [] u" "ends_at ev d u s3"
          using l3 by auto
        from leads_trans [OF l2 u(1)] show ?thesis using r1 r2 r3 art None Some u(2)
          by (intro exI [of _ u]
              exI [of _ "[(StageRender, OutcomeCompleted), (StageApply, OutcomeCompleted),
                          (StageVerify, OutcomeFailed)]"])
            (simp add: release_stages_def release_pipeline_def)
      qed
    qed
  qed
qed

text \<open>Manifests are applied only after every policy evaluation let the deployment pass and the image was
  verified, or its verification overridden.\<close>

definition gated :: "trace \<Rightarrow> decision list \<Rightarrow> string list \<Rightarrow> bool" where
  "gated tr es is \<longleftrightarrow>
     StageApply \<notin> fst ` set tr \<or> (\<forall>e\<in>set es. restriction e = 0) \<and> image_cleared is"

lemma stages_end:
  "\<exists>u tr es is. leads d s tr es is u \<and> follows (tl deploy_pipeline) tr \<and> gated tr es is
     \<and> ends_at ev d u (snd (deploy_stages ev d req s))"
proof -
  obtain r1 s1 where r1: "preflight_stage ev d s = (r1, s1)" by fastforce
  note l1 = preflight_leads [OF r1]
  show ?thesis
  proof (cases r1)
    case (Inl r)
    then show ?thesis using l1 r1
      by (intro exI [of _ s1] exI [of _ "[(StagePreflight, OutcomeFailed)]"] exI [of _ "[]"])
        (simp add: deploy_stages_def deploy_pipeline_def ends_at_def gated_def)
  next
    case run: (Inr rc)
    obtain rtm c where rc: "rc = (rtm, c)" by fastforce
    obtain dec ok s2 where r2: "run_policies ev d req s1 = ((dec, ok), s2)" by (metis prod.exhaust)
    obtain es where es: "leads d s1 (if ok then [(StagePolicy, OutcomeCompleted)] else []) es [] s2"
        "ok \<longrightarrow> (\<forall>e\<in>set es. restriction e = 0)"
      using policies_lead [OF r2] by blast
    note l2 = leads_trans [OF l1 es(1)]
    show ?thesis
    proof (cases ok)
      case False
      from leads_trans [OF l2 policy_outcome_leads [of d s2 ev dec]] show ?thesis using False r1 r2 run rc
        by (intro exI [of _ "snd (policy_outcome ev d dec s2)"]
            exI [of _ "[(StagePreflight, OutcomeCompleted), (StagePolicy, OutcomeDenied)]"]
            exI [of _ "es"] exI [of _ "[]"])
          (simp add: deploy_stages_def deploy_pipeline_def ends_at_def gated_def)
    next
      case True
      obtain r3 s3 where r3: "run_image_verify ev d s2 = (r3, s3)" by fastforce
      obtain tr iv where im: "leads d s2 tr [] iv s3"
          "case r3 of
             None \<Rightarrow> image_cleared iv
               \<and> (tr = [(StageImageVerify, OutcomeSkipped)] \<or> tr = [(StageImageVerify, OutcomeCompleted)])
           | Some _ \<Rightarrow> tr = [] \<or> tr = [(StageImageVerify, OutcomeFailed)]"
        using image_leads [OF r3] by blast
      note l3 = leads_trans [OF l2 im(1)]
      show ?thesis
      proof (cases r3)
        case (Some e)
        from leads_trans [OF l3 fail_leads [of d s3 StageImageVerify ev e]]
        show ?thesis using Some True r1 r2 r3 run rc im(2)
          by (intro exI [of _ "snd (fail_deploy ev d StageImageVerify e s3)"]
              exI [of _ "[(StagePreflight, OutcomeCompleted), (StagePolicy, OutcomeCompleted)] @ tr
                         @ [(StageImageVerify, OutcomeFailed)]"]
              exI [of _ es] exI [of _ "iv"])
            (auto simp add: deploy_stages_def deploy_pipeline_def ends_at_def gated_def)
      next
        case None
        obtain u tr' where u: "leads d s3 tr' [] [] u" "follows release_pipeline tr'"
            "ends_at ev d u (snd (release_stages ev d req rtm c s3))"
          using release_ends by blast
        from leads_trans [OF l3 u(1)] show ?thesis using None True r1 r2 r3 run rc im(2) es(2) u(2,3)
          by (intro exI [of _ u]
              exI [of _ "[(StagePreflight, OutcomeCompleted), (StagePolicy, OutcomeCompleted)] @ tr @ tr'"]
              exI [of _ es] exI [of _ "iv"])
            (auto simp add: deploy_stages_def deploy_pipeline_def gated_def)
      qed
    qed
  qed
qed

section \<open>The invariant of the service\<close>

text \<open>The trail of one deployment: its stages in order, and its application gated.\<close>

definition lawful :: "string \<Rightarrow> service \<Rightarrow> bool" where
  "lawful i s \<longleftrightarrow>
     (follows deploy_pipeline (trace i s) \<or> follows rollback_pipeline (trace i s))
     \<and> gated (trace i s) (evals i s) (images i s)"

text \<open>No identifier still to be drawn has been used.\<close>

definition unused :: "deploy_env \<Rightarrow> service \<Rightarrow> bool" where
  "unused ev s \<longleftrightarrow>
     (\<forall>n \<ge> sv_uuid s. trace (se_uuid ev n) s = [] \<and> evals (se_uuid ev n) s = [] \<and> images (se_uuid ev n) s = []
        \<and> map_of (ds_by_request (sv_store s)) (se_uuid ev n) = None)"

definition service_ok :: "deploy_env \<Rightarrow> service \<Rightarrow> bool" where
  "service_ok ev s \<longleftrightarrow> store_ok (sv_store s) \<and> unused ev s \<and> (\<forall>i. lawful i s)"

text \<open>The same while the deployment \<open>d\<close> is in progress.\<close>

definition in_progress :: "deploy_env \<Rightarrow> deployment \<Rightarrow> service \<Rightarrow> bool" where
  "in_progress ev d s \<longleftrightarrow>
     store_ok (sv_store s) \<and> unused ev s \<and> (\<forall>i. i \<noteq> de_id d \<longrightarrow> lawful i s)
     \<and> (\<forall>n \<ge> sv_uuid s. se_uuid ev n \<noteq> de_id d)"

lemma flows_store_ok: "flows I s t \<Longrightarrow> store_ok (sv_store s) \<Longrightarrow> store_ok (sv_store t)"
  unfolding flows_def using deploy_log.run_inv by metis

lemma lawful_same: "trace i t = trace i s \<Longrightarrow> evals i t = evals i s \<Longrightarrow> images i t = images i s
    \<Longrightarrow> lawful i t = lawful i s"
  by (simp add: lawful_def)

lemma leads_in_progress:
  assumes "in_progress ev d s" "leads d s tr es is t"
  shows "in_progress ev d t"
proof -
  have f: "flows {de_id d} s t" and u: "in_use t = in_use s" using assms(2) by (auto simp: leads_def)
  have le: "sv_uuid s \<le> sv_uuid t" using f by (simp add: flows_def)
  have other: "trace j t = trace j s \<and> evals j t = evals j s \<and> images j t = images j s" if "j \<noteq> de_id d" for j
    using f that by (simp add: flows_def)
  have "store_ok (sv_store t)" using flows_store_ok [OF f] assms(1) by (simp add: in_progress_def)
  moreover have "unused ev t"
    using assms(1) le other u by (auto simp: in_progress_def unused_def in_use_def)
  moreover have "lawful i t" if "i \<noteq> de_id d" for i
    using assms(1) other [OF that] that lawful_same unfolding in_progress_def by metis
  ultimately show ?thesis using assms(1) le by (simp add: in_progress_def)
qed

lemma progress_done: "in_progress ev d s \<Longrightarrow> lawful (de_id d) s \<Longrightarrow> service_ok ev s"
  unfolding in_progress_def service_ok_def by metis

text \<open>An insertion of a deployment without identifier whose request is new.\<close>

lemma insert_new:
  assumes "service_ok ev s" "inj (se_uuid ev)" "de_id d = []"
    and "map_of (ds_by_request (sv_store s)) (de_request_id d) = None"
    and "\<forall>n \<ge> Suc (sv_uuid s). de_request_id d \<noteq> se_uuid ev n"
  obtains d' t where "insert_service ev d s = ((Some d', True), t)" "de_id d' = se_uuid ev (sv_uuid s)"
    "in_progress ev d' t" "trace (de_id d') t = []" "evals (de_id d') t = []" "images (de_id d') t = []"
    "sv_uuid t = Suc (Suc (sv_uuid s))"
proof -
  define d' where "d' = with_defaults (se_uuid ev (sv_uuid s)) (se_uuid ev (Suc (sv_uuid s))) (se_wall ev (sv_clock s)) d"
  define t where "t = snd (insert_service ev d s)"
  have ins: "insert_service ev d s = ((Some d', True), t)"
    using assms(4) by (simp add: t_def insert_service_def draws insert_deployment_def Let_def d'_def)
  have i: "de_id d' = se_uuid ev (sv_uuid s)" "de_request_id d' = de_request_id d"
    using assms(3) by (simp_all add: d'_def with_defaults_def Let_def)
  have flow: "flows {} s t" unfolding t_def by (intro flow_intros)
  have uuid: "sv_uuid t = Suc (Suc (sv_uuid s))"
    by (simp add: t_def insert_service_def draws case_prod_beta Let_def)
  have req: "map_of (ds_by_request (sv_store t)) r
      = (if r = de_request_id d then Some (de_id d') else map_of (ds_by_request (sv_store s)) r)" for r
    using assms(4) i(2)
    by (simp add: t_def insert_service_def draws insert_deployment_def Let_def d'_def store_simps)
  have same: "trace j t = trace j s \<and> evals j t = evals j s \<and> images j t = images j s" for j
    using flow by (simp add: flows_def)
  have ok: "store_ok (sv_store t)" using flows_store_ok [OF flow] assms(1) by (simp add: service_ok_def)
  have fresh_req: "se_uuid ev n \<noteq> de_request_id d" if "n \<ge> sv_uuid t" for n
    using assms(5) uuid that by (metis Suc_leD)
  have unused: "unused ev t"
    unfolding unused_def
  proof (intro allI impI)
    fix n assume n: "sv_uuid t \<le> n"
    then have "sv_uuid s \<le> n" using uuid by simp
    then show "trace (se_uuid ev n) t = [] \<and> evals (se_uuid ev n) t = [] \<and> images (se_uuid ev n) t = []
        \<and> map_of (ds_by_request (sv_store t)) (se_uuid ev n) = None"
      using assms(1) same req fresh_req [OF n] by (simp add: service_ok_def unused_def)
  qed
  have "lawful j t" for j using assms(1) same lawful_same unfolding service_ok_def by metis
  moreover have "se_uuid ev n \<noteq> de_id d'" if "n \<ge> sv_uuid t" for n
    using that uuid i(1) assms(2) by (simp add: inj_eq)
  ultimately have prog: "in_progress ev d' t" using ok unused by (simp add: in_progress_def)
  have empty: "trace (de_id d') t = [] \<and> evals (de_id d') t = [] \<and> images (de_id d') t = []"
    using assms(1) same i(1) by (simp add: service_ok_def unused_def)
  show ?thesis using that [OF ins i(1) prog _ _ _ uuid] empty by blast
qed

text \<open>Rolling back.\<close>

lemma reapply_leads:
  "\<exists>tr. leads r s tr [] [] (snd (reapply ev d prev r req s)) \<and> follows rollback_pipeline tr
     \<and> StageApply \<notin> fst ` set tr"
proof -
  define s2 where "s2 = emit_stage_event ev r StageRollback OutcomeStarted (rq_reason req)
    [(''rollback_of'', VString (de_id d)), (''restored_rev'', VString (de_revision_id prev))]
    (se_now ev (sv_clock s)) (se_now ev (sv_clock s)) (s\<lparr>sv_clock := Suc (sv_clock s)\<rparr>)"
  have l: "leads r s [(StageRollback, OutcomeStarted)] [] [] s2"
    by (simp add: s2_def leads_def flow_intros)
  note unfolds = reapply_def draws Let_def prod.case s2_def [symmetric]
  have failed: ?thesis if "snd (reapply ev d prev r req s) = snd (fail_deploy ev r StageRollback e s3)"
      "leads r s2 [] [] [] s3" for e s3
    using leads_trans [OF l leads_trans [OF that(2) fail_leads [of r s3 StageRollback ev e]]] that(1)
    by (intro exI [of _ "[(StageRollback, OutcomeStarted), (StageRollback, OutcomeFailed)]"])
      (simp add: rollback_pipeline_def)
  have here: "leads r s2 [] [] [] s2" by (simp add: leads_def flow_intros)
  show ?thesis
  proof (cases "runtime_preflight ev r s2")
    case (Inl e)
    then show ?thesis by (intro failed [OF _ here]) (simp add: unfolds)
  next
    case rtm: (Inr rtm)
    show ?thesis
    proof (cases "deployer_for (se_deployers ev) (rn_type rtm)")
      case None
      then show ?thesis using rtm by (intro failed [OF _ here]) (simp add: unfolds)
    next
      case c: (Some c)
      define mf where "mf = zero_manifest\<lparr>mf_app_name := de_asset_id prev, mf_image := de_image prev,
        mf_image_digest := de_image_digest prev\<rparr>"
      define pa where "pa = \<lparr>pa_strategy = de_strategy r, pa_canary_percent = 0, pa_rollback_plan = [],
        pa_openspec_ids = [], pa_pr_sha = [], pa_revision_id = de_revision_id r,
        pa_prev_revision_id = de_revision_id prev\<rparr>"
      obtain res err cmds where v: "dy_rollback c rtm mf pa (sv_commands s2) = ((res, err), cmds)"
        by (metis prod.exhaust)
      define s3 where "s3 = s2\<lparr>sv_commands := cmds\<rparr>"
      have l3: "leads r s2 [] [] [] s3" by (simp add: s3_def leads_def flow_intros)
      have clock: "sv_clock s3 = sv_clock s2" by (simp add: s3_def)
      show ?thesis
      proof (cases "err \<noteq> None \<or> rr_outcome res \<noteq> ''ok''")
        case True
        then show ?thesis using rtm c v
          by (intro failed [OF _ l3]) (simp add: unfolds mf_def [symmetric] pa_def [symmetric] s3_def)
      next
        case False
        then have "leads r s3 [(StageRollback, OutcomeCompleted)] [] [] (snd (reapply ev d prev r req s))"
          using rtm c v
          by (simp add: unfolds mf_def [symmetric] pa_def [symmetric] s3_def [symmetric])
            (simp add: leads_def flow_intros clock)
        from leads_trans [OF l leads_trans [OF l3 this]] show ?thesis
          by (intro exI [of _ "[(StageRollback, OutcomeStarted), (StageRollback, OutcomeCompleted)]"])
            (simp add: rollback_pipeline_def)
      qed
    qed
  qed
qed

lemma flows_empty_ok:
  assumes "service_ok ev s" "flows {} s t" "in_use t = in_use s"
  shows "service_ok ev t"
proof -
  have same: "trace j t = trace j s \<and> evals j t = evals j s \<and> images j t = images j s" for j
    using assms(2) by (simp add: flows_def)
  have "lawful j t" for j using assms(1) same lawful_same unfolding service_ok_def by metis
  moreover have "unused ev t"
    using assms same by (auto simp: service_ok_def unused_def flows_def in_use_def)
  ultimately show ?thesis using assms flows_store_ok by (auto simp: service_ok_def)
qed

lemma rollback_internal_ok:
  assumes "service_ok ev s" "inj (se_uuid ev)"
  shows "service_ok ev (snd (rollback_internal ev d req s))"
proof (cases "previous_revision (de_asset_id d) (de_env d) (de_id d) (sv_store s)")
  case None
  then show ?thesis using assms by (simp add: rollback_internal_def)
next
  case (Some prev)
  show ?thesis
  proof (cases "is_high_criticality (de_criticality d) \<and> \<not> rq_approved req
      \<and> contains_str (to_lower (de_rollback_plan d)) non_reversible")
    case True
    then show ?thesis using Some assms by (simp add: rollback_internal_def)
  next
    case False
    define s1 where "s1 = record_rollback ev d prev req s"
    define s3 where "s3 = s1\<lparr>sv_uuid := Suc (Suc (sv_uuid s1))\<rparr>"
    define new where "new = rollback_deployment d prev req (se_uuid ev (sv_uuid s1)) (se_uuid ev (Suc (sv_uuid s1)))"
    have ok1: "service_ok ev s1"
      by (rule flows_empty_ok [OF assms(1)]) (simp_all add: s1_def flow_intros)
    have f3: "flows {} s1 s3"
      using flows_fields(4) [OF flows_fields(4) [OF flows_refl [of "{}" s1]]] by (simp add: s3_def)
    have ok3: "service_ok ev s3" by (rule flows_empty_ok [OF ok1 f3]) (simp add: s3_def)
    have id: "de_id new = []" "de_request_id new = se_uuid ev (sv_uuid s1)"
      by (simp_all add: new_def rollback_deployment_def)
    have free: "map_of (ds_by_request (sv_store s3)) (de_request_id new) = None"
      using ok1 id by (simp add: s3_def service_ok_def unused_def)
    have later: "\<forall>n \<ge> Suc (sv_uuid s3). de_request_id new \<noteq> se_uuid ev n"
      using assms(2) id by (auto simp: s3_def dest: injD)
    obtain r t where ins: "insert_service ev new s3 = ((Some r, True), t)" "in_progress ev r t"
        "trace (de_id r) t = []" "evals (de_id r) t = []" "images (de_id r) t = []"
      using insert_new [OF ok3 assms(2) id(1) free later] by metis
    obtain tr where tr: "leads r t tr [] [] (snd (reapply ev d prev r req t))" "follows rollback_pipeline tr"
        "StageApply \<notin> fst ` set tr"
      using reapply_leads by blast
    have "lawful (de_id r) (snd (reapply ev d prev r req t))"
      using tr ins(3-5) by (simp add: leads_def lawful_def gated_def)
    then have "service_ok ev (snd (reapply ev d prev r req t))"
      using leads_in_progress [OF ins(2) tr(1)] progress_done by blast
    moreover have "snd (rollback_internal ev d req s) = snd (reapply ev d prev r req t)"
      using Some False ins(1)
      by (auto simp: rollback_internal_def draws Let_def s1_def [symmetric] new_def [symmetric]
          s3_def [symmetric] case_prod_beta)
    ultimately show ?thesis by simp
  qed
qed

lemma rollback_ok: "service_ok ev s \<Longrightarrow> inj (se_uuid ev) \<Longrightarrow> service_ok ev (snd (rollback ev i req s))"
  by (simp add: rollback_def rollback_internal_ok split: option.split)

text \<open>Deploying.\<close>

lemma announce_leads: "leads d s [(StageRequested, OutcomeStarted)] [] [] (announce ev d now s)"
  by (simp add: announce_def leads_def flow_intros)

lemma stages_ok:
  assumes "in_progress ev d s" "trace (de_id d) s = []" "evals (de_id d) s = []" "images (de_id d) s = []"
    and "inj (se_uuid ev)"
  shows "service_ok ev (snd (deploy_stages ev d req (announce ev d now s)))"
proof -
  obtain u tr es iv where u: "leads d (announce ev d now s) tr es iv u" "follows (tl deploy_pipeline) tr"
      "gated tr es iv" "ends_at ev d u (snd (deploy_stages ev d req (announce ev d now s)))"
    using stages_end by blast
  have l: "leads d s ((StageRequested, OutcomeStarted) # tr) es iv u"
    using leads_trans [OF announce_leads u(1)] by simp
  have "lawful (de_id d) u"
    using l u(2,3) assms(2-4) by (simp add: leads_def lawful_def gated_def deploy_pipeline_def)
  then have "service_ok ev u" using leads_in_progress [OF assms(1) l] progress_done by blast
  then show ?thesis using u(4) rollback_internal_ok [OF _ assms(5)] unfolding ends_at_def by (metis snd_conv)
qed

text \<open>A client does not guess an identifier the service is still to draw.\<close>

definition unguessed :: "deploy_env \<Rightarrow> deploy_request \<Rightarrow> bool" where
  "unguessed ev req \<longleftrightarrow> dq_request_id req \<notin> range (se_uuid ev)"

lemma deploy_ok:
  assumes "service_ok ev s" "inj (se_uuid ev)" "unguessed ev req0"
  shows "service_ok ev (snd (deploy ev req0 s))"
proof (cases "dq_runtime_id req0 = []")
  case True
  then show ?thesis using assms by (simp add: deploy_def)
next
  case runtime: False
  define req where "req = (if dq_request_id req0 = [] then req0\<lparr>dq_request_id := se_uuid ev (sv_uuid s)\<rparr> else req0)"
  define s1 where "s1 = (if dq_request_id req0 = [] then s\<lparr>sv_uuid := Suc (sv_uuid s)\<rparr> else s)"
  define s3 where "s3 = s1\<lparr>sv_clock := Suc (sv_clock s1), sv_uuid := Suc (sv_uuid s1)\<rparr>"
  define d0 where "d0 = requested_deployment ev req (dq_request_id req) (se_uuid ev (sv_uuid s1)) (se_now ev (sv_clock s1))"
  have f1: "flows {} s s1" by (simp add: s1_def flow_intros)
  have f3: "flows {} s s3"
    using flows_fields(4) [OF flows_fields(1) [OF f1, of "Suc (sv_clock s1)"]] by (simp add: s3_def)
  have ok3: "service_ok ev s3" by (rule flows_empty_ok [OF assms(1) f3]) (simp add: s3_def s1_def)
  have id: "de_id d0 = []" "de_request_id d0 = dq_request_id req"
    by (simp_all add: d0_def requested_deployment_def)
  define res where "res = insert_service ev d0 s3"
  have unfold_deploy: "snd (deploy ev req0 s) =
      (case res of
         ((None, c), t) \<Rightarrow> t
       | ((Some d, c), t) \<Rightarrow>
           if \<not> c then t
           else snd (deploy_stages ev d req (announce ev d (se_now ev (sv_clock s1)) t)))"
    using runtime
    by (auto simp: deploy_def draws Let_def req_def s1_def s3_def d0_def res_def case_prod_beta
        split: option.split)
  show ?thesis
  proof (cases "map_of (ds_by_request (sv_store s3)) (dq_request_id req)")
    case (Some existing)
    then have "snd (fst res) = False" "in_use (snd res) = in_use s3"
      by (simp_all add: res_def insert_service_def insert_deployment_def draws id in_use_def)
    moreover have "service_ok ev (snd res)"
      using flows_empty_ok [OF ok3 flows_insert [OF flows_refl], of ev d0] calculation(2) by (simp add: res_def)
    ultimately show ?thesis unfolding unfold_deploy by (auto split: prod.split option.split)
  next
    case None
    have later: "\<forall>n \<ge> Suc (sv_uuid s3). de_request_id d0 \<noteq> se_uuid ev n"
    proof (cases "dq_request_id req0 = []")
      case True
      then have "dq_request_id req = se_uuid ev (sv_uuid s)" "sv_uuid s < sv_uuid s3"
        by (simp_all add: req_def s3_def s1_def)
      then show ?thesis using assms(2) id(2) by (auto dest: injD)
    next
      case False
      then show ?thesis using assms(3) id(2) by (auto simp: req_def unguessed_def)
    qed
    have free: "map_of (ds_by_request (sv_store s3)) (de_request_id d0) = None" using None id(2) by simp
    obtain d t where ins: "res = ((Some d, True), t)" "in_progress ev d t" "trace (de_id d) t = []"
        "evals (de_id d) t = []" "images (de_id d) t = []"
      using insert_new [OF ok3 assms(2) id(1) free later] unfolding res_def by metis
    from stages_ok [OF ins(2-5) assms(2)] show ?thesis unfolding unfold_deploy by (simp add: ins(1))
  qed
qed

section \<open>The service as a machine\<close>

datatype service_op =
    SvDeploy deploy_request
  | SvRollback string rollback_request

fun service_step :: "deploy_env \<Rightarrow> service_op \<Rightarrow> service \<Rightarrow> service" where
  "service_step ev (SvDeploy req) s = (if unguessed ev req then snd (deploy ev req s) else s)"
| "service_step ev (SvRollback i req) s = snd (rollback ev i req s)"

lemma new_service_ok: "service_ok ev new_deploy_service"
proof -
  have "store_ok (sv_store new_deploy_service)" by (simp add: new_deploy_service_def new_store_ok)
  then show ?thesis
    by (simp add: service_ok_def unused_def lawful_def gated_def audit_defs new_deploy_service_def
        new_deploy_store_def)
qed

interpretation service: op_machine "service_step ev" "\<lambda>s. inj (se_uuid ev) \<longrightarrow> service_ok ev s" for ev
proof
  fix s op
  assume "inj (se_uuid ev) \<longrightarrow> service_ok ev s"
  then show "inj (se_uuid ev) \<longrightarrow> service_ok ev (service_step ev op s)"
    by (cases op) (auto simp: deploy_ok rollback_ok)
qed

text \<open>Without any assumption, every operation moves the store by store operations.\<close>

lemma leads_flows: "leads d s tr es iv t \<Longrightarrow> flows UNIV s t"
  unfolding leads_def using flows_mono by blast

lemma rollback_internal_flows: "flows UNIV s (snd (rollback_internal ev d req s))"
proof (cases "previous_revision (de_asset_id d) (de_env d) (de_id d) (sv_store s)")
  case None
  then show ?thesis by (simp add: rollback_internal_def flow_intros)
next
  case (Some prev)
  define s1 where "s1 = record_rollback ev d prev req s"
  define s3 where "s3 = s1\<lparr>sv_uuid := Suc (Suc (sv_uuid s1))\<rparr>"
  define new where "new = rollback_deployment d prev req (se_uuid ev (sv_uuid s1)) (se_uuid ev (Suc (sv_uuid s1)))"
  have f1: "flows UNIV s s1" unfolding s1_def by (intro flow_intros)
  have "flows UNIV s s3"
    using flows_fields(4) [OF flows_fields(4) [OF f1]] by (simp add: s3_def)
  then have f4: "flows UNIV s (snd (insert_service ev new s3))" by (rule flows_insert)
  have "flows UNIV s (snd (reapply ev d prev r req (snd (insert_service ev new s3))))" for r
    using reapply_leads leads_flows flows_trans [OF f4] by blast
  then show ?thesis using Some f4
    by (auto simp: rollback_internal_def draws Let_def s1_def [symmetric] new_def [symmetric]
        s3_def [symmetric] case_prod_beta flow_intros split: option.split)
qed

lemma stages_flows: "flows UNIV s (snd (deploy_stages ev d req s))"
proof -
  obtain u tr es iv where u: "leads d s tr es iv u" "ends_at ev d u (snd (deploy_stages ev d req s))"
    using stages_end by blast
  have "flows UNIV u (snd (deploy_stages ev d req s))"
    using u(2) rollback_internal_flows flows_refl unfolding ends_at_def by (metis snd_conv)
  then show ?thesis using leads_flows [OF u(1)] flows_trans by blast
qed

lemma deploy_flows: "flows UNIV s (snd (deploy ev req0 s))"
proof (cases "dq_runtime_id req0 = []")
  case True
  then show ?thesis by (simp add: deploy_def flow_intros)
next
  case runtime: False
  define req where "req = (if dq_request_id req0 = [] then req0\<lparr>dq_request_id := se_uuid ev (sv_uuid s)\<rparr> else req0)"
  define s1 where "s1 = (if dq_request_id req0 = [] then s\<lparr>sv_uuid := Suc (sv_uuid s)\<rparr> else s)"
  define s3 where "s3 = s1\<lparr>sv_clock := Suc (sv_clock s1), sv_uuid := Suc (sv_uuid s1)\<rparr>"
  define d0 where "d0 = requested_deployment ev req (dq_request_id req) (se_uuid ev (sv_uuid s1)) (se_now ev (sv_clock s1))"
  have f1: "flows UNIV s s1" by (simp add: s1_def flow_intros)
  have "flows UNIV s s3"
    using flows_fields(4) [OF flows_fields(1) [OF f1, of "Suc (sv_clock s1)"]] by (simp add: s3_def)
  then have f4: "flows UNIV s (snd (insert_service ev d0 s3))" by (rule flows_insert)
  have "flows UNIV s (snd (deploy_stages ev d req (announce ev d now (snd (insert_service ev d0 s3)))))" for d now
    using flows_trans [OF f4 leads_flows [OF announce_leads]] stages_flows flows_trans by blast
  then show ?thesis using runtime f4
    by (auto simp: deploy_def draws Let_def req_def s1_def s3_def d0_def case_prod_beta split: option.split)
qed

lemma service_step_flows: "flows UNIV s (service_step ev op s)"
  by (cases op) (auto simp: deploy_flows rollback_def rollback_internal_flows flow_intros split: option.split)

interpretation service_sim: simulation "service_step ev" "\<lambda>_. True" sv_store "\<lambda>s t. \<exists>ops. t = fold deploy_step ops s"
  for ev
  by unfold_locales (use service_step_flows in \<open>auto simp: flows_def\<close>)

lemma store_path:
  "(\<lambda>s t. \<exists>ops. t = fold deploy_step ops s)\<^sup>*\<^sup>* s t \<Longrightarrow> \<exists>ops. t = fold deploy_step ops s"
proof (induction rule: rtranclp_induct)
  case base
  show ?case by (intro exI [of _ "[]"]) simp
next
  case (step t u)
  then obtain o1 o2 where "t = fold deploy_step o1 s" "u = fold deploy_step o2 t" by blast
  then have "u = fold deploy_step (o1 @ o2) s" by simp
  then show ?case by blast
qed

section \<open>Properties\<close>

text \<open>C1: The recorded stages of every deployment are, in every reachable state of the service, the
  stages of the deployment pipeline or of a rollback in their order, each at most once, and nothing
  but a repetition of the failure follows a failed or denied stage.\<close>

theorem stages_in_order:
  assumes "inj (se_uuid ev)"
  shows "follows deploy_pipeline (trace i (fold (service_step ev) ops new_deploy_service))
    \<or> follows rollback_pipeline (trace i (fold (service_step ev) ops new_deploy_service))"
  using service.run_inv [of ev new_deploy_service ops] assms new_service_ok
  by (simp add: service_ok_def lawful_def)

text \<open>C6: No deployment reaches the application of its manifests unless every recorded policy evaluation
  of it lets it pass and an image verification of it succeeded or was overridden.\<close>

theorem apply_gated:
  assumes "inj (se_uuid ev)"
    and "(StageApply, oc) \<in> set (trace i (fold (service_step ev) ops new_deploy_service))"
  shows "(\<forall>e\<in>set (evals i (fold (service_step ev) ops new_deploy_service)). restriction e = 0)
    \<and> image_cleared (images i (fold (service_step ev) ops new_deploy_service))"
proof -
  define s where "s = fold (service_step ev) ops new_deploy_service"
  have "gated (trace i s) (evals i s) (images i s)"
    using service.run_inv [of ev new_deploy_service ops] assms(1) new_service_ok
    by (simp add: s_def service_ok_def lawful_def)
  moreover have "StageApply \<in> fst ` set (trace i s)"
    using assms(2) unfolding s_def by (rule image_eqI [rotated]) simp
  ultimately show ?thesis unfolding s_def gated_def by blast
qed

text \<open>C21: The service implements the store's contract: whatever deployments and rollbacks it performs, the
  store moves by a sequence of its own operations, so the revision history of every asset stays
  immutable.\<close>

theorem service_refines_store:
  "(\<exists>store_ops. sv_store (fold (service_step ev) ops s) = fold deploy_step store_ops (sv_store s))
   \<and> extends
       (revision_history asset_id e (sv_store (fold (service_step ev) ops new_deploy_service)))
       (revision_history asset_id e (sv_store (fold (service_step ev) (ops @ later) new_deploy_service)))"
proof
  show "\<exists>store_ops. sv_store (fold (service_step ev) ops s) = fold deploy_step store_ops (sv_store s)"
    using service_sim.run_path store_path by blast
  define t where "t = fold (service_step ev) ops new_deploy_service"
  obtain o1 where o1: "sv_store t = fold deploy_step o1 (sv_store new_deploy_service)"
    using service_sim.run_path store_path unfolding t_def by blast
  have ok: "store_ok (sv_store t)" unfolding o1 by (simp add: new_deploy_service_def reachable_ok)
  obtain o2 where "sv_store (fold (service_step ev) later t) = fold deploy_step o2 (sv_store t)"
    using service_sim.run_path store_path by blast
  then have "store_below (sv_store t) (sv_store (fold (service_step ev) later t))"
    using deploy_log.run_below [OF ok] by simp
  then show "extends
       (revision_history asset_id e (sv_store (fold (service_step ev) ops new_deploy_service)))
       (revision_history asset_id e (sv_store (fold (service_step ev) (ops @ later) new_deploy_service)))"
    using history_below [OF ok] by (simp add: t_def)
qed

text \<open>What a rollback finds to restore does not depend on the status of the deployment rolled back.\<close>

lemma find_map_cong:
  "(\<And>x. x \<in> set xs \<Longrightarrow> f x = g x \<or> \<not> P (f x) \<and> \<not> P (g x)) \<Longrightarrow> List.find P (map f xs) = List.find P (map g xs)"
proof (induction xs)
  case Nil
  show ?case by simp
next
  case (Cons a xs)
  have rest: "List.find P (map f xs) = List.find P (map g xs)" by (rule Cons.IH) (simp add: Cons.prems)
  have "f a = g a \<or> \<not> P (f a) \<and> \<not> P (g a)" by (rule Cons.prems) simp
  then show ?case by (elim disjE) (simp_all add: rest)
qed

lemma previous_revision_status:
  assumes "store_ok s"
  shows "previous_revision a e i (set_deploy_status i st r t s) = previous_revision a e i s"
proof (cases "map_of (ds_deployments s) i")
  case None
  then show ?thesis by (simp add: set_deploy_status_def update_deployment_def)
next
  case (Some b)
  define h where "h = ds_heap (set_deploy_status i st r t s)"
  have revs: "ds_revisions (set_deploy_status i st r t s) = ds_revisions s"
    by (simp add: set_deploy_status_def frame_simps)
  have b: "b < length (ds_heap s)" "de_id (ds_heap s ! b) = i" using assms Some by (auto simp: store_ok_def)
  have at_b: "de_id (h ! b) = i"
    using Some b by (simp add: h_def set_deploy_status_def update_deployment_def Let_def)
  have other: "h ! c = ds_heap s ! c" if "c \<noteq> b" for c
    using Some that by (simp add: h_def set_deploy_status_def update_deployment_def)
  show ?thesis
    unfolding previous_revision_def revisions_of_def revs h_def [symmetric] rev_map
    by (rule find_map_cong) (use at_b b(2) other in metis)
qed

lemma insert_service_some:
  assumes "store_ok (sv_store s)"
  shows "\<exists>r c t. insert_service ev d s = ((Some r, c), t)"
proof (cases "map_of (ds_by_request (sv_store s)) (de_request_id d)")
  case None
  then show ?thesis by (auto simp: insert_service_def draws insert_deployment_def Let_def)
next
  case (Some i)
  then have "\<exists>r. deployment_at (sv_store s) i = Some r"
    using assms by (auto simp: store_ok_def deployment_at_def)
  then show ?thesis using Some by (auto simp: insert_service_def draws insert_deployment_def)
qed

text \<open>A rollback that fails is reported as done: when the verification of a deployment with automatic
  rollback fails and the runtime can no longer be used, the rollback fails too, yet the response gives
  the reason \<open>rolled_back_after_verify_failure\<close>, because a failed rollback returns no error.\<close>

theorem failed_rollback_reported_done:
  assumes "store_ok (sv_store s)" "de_auto_rollback d" "se_runtimes ev = Some p"
    and "\<forall>k \<ge> sv_clock s. \<forall>i w. rp_check_usable_by p k i w = Some why"
    and "previous_revision (de_asset_id d) (de_env d) (de_id d) (sv_store s) = Some prev"
  shows "dr_status (fst (verify_failure ev d res start s)) = StFailed
    \<and> dr_reason (fst (verify_failure ev d res start s)) = rolled_back_reason"
proof -
  define q where "q = \<lparr>rq_reason = ''auto:verify_failed'', rq_approved = True, rq_actor = [], rq_manual = False\<rparr>"
  define v where "v = emit_cloud ev d ''deployment.failed.v1''
      [(''deployment_id'', VString (de_id d)), (''stage'', VString ''verify''),
       (''reason'', VString (vr_fail_reason res))]
      (emit_stage_event ev d StageVerify OutcomeFailed (vr_fail_reason res) (vr_detail res) start
        (se_now ev (sv_clock s)) (s\<lparr>sv_clock := Suc (sv_clock s)\<rparr>))"
  define u where "u = set_service_status ev (de_id d) StFailed (''verify_failed:'' @ vr_fail_reason res) v"
  have fv: "flows {de_id d} s v" by (simp add: v_def flow_intros)
  have fu: "flows {de_id d} s u" by (simp add: u_def v_def flow_intros)
  have same: "previous_revision (de_asset_id d) (de_env d) (de_id d) (sv_store v)
      = previous_revision (de_asset_id d) (de_env d) (de_id d) (sv_store s)"
    by (simp add: v_def emit_cloud_def emit_stage_event_def draws on_store_def append_event_def Let_def
        previous_revision_def revisions_of_def)
  have prev: "previous_revision (de_asset_id d) (de_env d) (de_id d) (sv_store u) = Some prev"
    using previous_revision_status [OF flows_store_ok [OF fv assms(1)]] same assms(5)
    by (simp add: u_def set_service_status_def draws on_store_def)
  define s1 where "s1 = record_rollback ev d prev q u"
  define s3 where "s3 = s1\<lparr>sv_uuid := Suc (Suc (sv_uuid s1))\<rparr>"
  define new where "new = rollback_deployment d prev q (se_uuid ev (sv_uuid s1)) (se_uuid ev (Suc (sv_uuid s1)))"
  have f1: "flows {de_id d} s s1" unfolding s1_def by (rule flows_rollback_record [OF fu])
  have f3: "flows {de_id d} s s3"
    using flows_fields(4) [OF flows_fields(4) [OF f1]] by (simp add: s3_def)
  obtain r c t where ins: "insert_service ev new s3 = ((Some r, c), t)"
    using insert_service_some [OF flows_store_ok [OF f3 assms(1)]] by blast
  have ft: "flows {de_id d} s t" using flows_insert [OF f3, of ev new] by (simp add: ins)
  have unusable: "runtime_preflight ev r x = Inl why" if "sv_clock s \<le> sv_clock x" for x
    using assms(3,4) that by (simp add: runtime_preflight_def)
  define s2 where "s2 = emit_stage_event ev r StageRollback OutcomeStarted (rq_reason q)
    [(''rollback_of'', VString (de_id d)), (''restored_rev'', VString (de_revision_id prev))]
    (se_now ev (sv_clock t)) (se_now ev (sv_clock t)) (t\<lparr>sv_clock := Suc (sv_clock t)\<rparr>)"
  have "sv_clock s \<le> sv_clock s2"
    using ft by (simp add: s2_def flows_def emit_stage_event_def draws on_store_def)
  then have "runtime_preflight ev r s2 = Inl why" by (rule unusable)
  then have "fst (reapply ev d prev r q t) = fst (fail_deploy ev r StageRollback why s2)"
    by (simp add: reapply_def draws Let_def s2_def [symmetric])
  then have failed: "dr_status (fst (reapply ev d prev r q t)) = StFailed" by simp
  have "rollback_internal ev d q u = (Inr (fst (reapply ev d prev r q t)), snd (reapply ev d prev r q t))"
    using prev ins
    by (simp add: rollback_internal_def draws Let_def s1_def [symmetric] s3_def [symmetric] new_def [symmetric]
        case_prod_beta) (simp add: q_def)
  then show ?thesis using assms(2) failed
    unfolding verify_failure_def draws Let_def prod.case v_def [symmetric] u_def [symmetric] q_def [symmetric]
    by simp
qed

section \<open>Witnesses\<close>

text \<open>A service with the shipped policies and a Minikube runtime; the runner fails from its n-th command on.\<close>

definition demo_meta :: image_metadata where
  "demo_meta =
     \<lparr>im_image = ''img'', im_digest = ''d1'', im_signed = True, im_oidc_issuer = [], im_oidc_identity = [],
      im_rekor_log_index = 1, im_has_rekor_entry = True, im_attestation_type = ''slsaprovenance'',
      im_attestation_valid = True\<rparr>"

definition demo_deploy_env :: "nat \<Rightarrow> deploy_env" where
  "demo_deploy_env n =
     \<lparr>se_uuid = (\<lambda>k. replicate (Suc k) (CHR ''u'')), se_now = (\<lambda>k. 1), se_wall = (\<lambda>k. 1),
      se_runtimes = Some \<lparr>rp_get = (\<lambda>_. runtime_store_get [(''k8s'', demo_runtime TypeMinikube)]),
                          rp_check_usable_by = (\<lambda>_. check_usable_by [(''k8s'', demo_runtime TypeMinikube)])\<rparr>,
      se_deployers = new_deployer_registry
        [minikube (\<lambda>k _. if k < n then Inr [] else Inl ''boom'') (\<lambda>_. ''sha'')],
      se_cosign = new_verifier None None,
      se_image_metadata = Some (\<lambda>_ _. Inr demo_meta),
      se_approvals = Some (\<lambda>_. has_approval []), se_has_inbox = False, se_policy_engine = None,
      se_policies = default_deployment_policies, se_freeze_windows = [], se_auto_rollback_by_env = [],
      se_override_allow_unsigned = None, se_has_recorder = False\<rparr>"

definition demo_request :: "string \<Rightarrow> deploy_request" where
  "demo_request i = demo_deploy\<lparr>dq_request_id := i, dq_env := ''dev''\<rparr>"

definition demo_id :: string where
  "demo_id = replicate 2 (CHR ''u'')"

lemma demo_inj: "inj (se_uuid (demo_deploy_env n))"
  by (auto simp: inj_def demo_deploy_env_def dest: arg_cong [where f = length])

lemma demo_unguessed: "unguessed (demo_deploy_env n) (demo_request (CHR ''r'' # i))"
  by (auto simp: unguessed_def demo_request_def demo_deploy_env_def)

text \<open>In the demonstration every stage up to the application succeeds.\<close>

lemma demo_preflight:
  assumes "de_runtime_id d = ''k8s''" "de_workspace_id d = ''w''" "length (sv_commands s) < n"
  shows "\<exists>t. preflight_stage (demo_deploy_env n) d s =
    (Inr (demo_runtime TypeMinikube, minikube (\<lambda>k _. if k < n then Inr [] else Inl ''boom'') (\<lambda>_. ''sha'')), t)"
  using assms
  by (simp add: preflight_stage_def runtime_preflight_def demo_deploy_env_def runtime_store_get_def
      check_usable_by_def deployer_for_def new_deployer_registry_def minikube_def minikube_preflight_def
      run_command_def draws Let_def demo_runtime_def preflight_ok_def)

lemma demo_policies:
  "\<exists>dec t. run_policies (demo_deploy_env n) d (demo_request i) s = ((dec, True), t)"
proof -
  have facts: "\<not> equal_fold ''dev'' ''prod''" "trim_space ''redeploy'' \<noteq> []" by code_simp+
  have "pd_decision (fst (combined_decision (demo_deploy_env n) d (demo_request i) now u)) = DecisionAllow" for now u
    using facts
    by (simp add: combined_decision_def demo_deploy_env_def evaluate_policies_alt most_restrictive_allow
        default_deployment_policies_def eval_signed_image_def eval_approval_prod_def eval_freeze_window_def
        eval_canary_def eval_rollback_plan_def deploy_policy_context_def demo_request_def demo_deploy_def
        has_approval_def Let_def)
  then show ?thesis by (simp add: run_policies_def draws Let_def case_prod_beta)
qed

lemma demo_image: "\<exists>t. run_image_verify (demo_deploy_env n) d s = (None, t)"
  by (simp add: run_image_verify_def draws Let_def override_active_def resolve_metadata_def demo_deploy_env_def
      demo_meta_def cosign_combined_def cosign_verify_def verify_attestation_def new_verifier_def)

lemma demo_render:
  "\<exists>art t. render_stage ev d mf (minikube run sha) s = (Inr art, t)"
  by (simp add: render_stage_def draws Let_def minikube_def minikube_render_def)

lemma stages_keep: "store_ok (sv_store s) \<Longrightarrow> flows UNIV s t \<Longrightarrow> set (trace i s) \<subseteq> set (trace i t)"
proof -
  assume ok: "store_ok (sv_store s)" and "flows UNIV s t"
  then obtain ops where "sv_store t = fold deploy_step ops (sv_store s)" unfolding flows_def by blast
  then have "store_below (sv_store s) (sv_store t)" using deploy_log.run_below [OF ok] by simp
  then have "extends (deploy_events i (sv_store s)) (deploy_events i (sv_store t))"
    by (simp add: store_below_def logs_below_def)
  then show "set (trace i s) \<subseteq> set (trace i t)" unfolding trace_def by (intro extends_set extends_map)
qed

lemma release_keeps:
  assumes "store_ok (sv_store s)"
    and "render_stage ev d (deploy_manifest d req) c s = (Inr art, s1)"
  shows "\<exists>oc. (StageApply, oc) \<in> set (trace (de_id d) (snd (release_stages ev d req rtm c s)))"
proof -
  obtain r s2 where r: "apply_stage ev d rtm art c s1 = (r, s2)" by fastforce
  have l: "leads d s ([(StageRender, OutcomeCompleted)]
      @ [(StageApply, if r = None then OutcomeCompleted else OutcomeFailed)]) [] [] s2"
    using leads_trans [OF render_leads [OF assms(2)] apply_leads [OF r]] by simp
  then have "flows {de_id d} s s2" by (simp add: leads_def)
  from flows_store_ok [OF this assms(1)] have ok: "store_ok (sv_store s2)" .
  have "flows UNIV s2 (snd (release_stages ev d req rtm c s))"
  proof (cases r)
    case (Some x)
    then show ?thesis using assms(2) r by (simp add: release_stages_def flow_intros)
  next
    case None
    obtain v s3 where v: "verify_stage ev d rtm (deploy_manifest d req) c s2 = (v, s3)" by fastforce
    have "flows UNIV s2 s3"
    proof (cases v)
      case none3: None
      then show ?thesis using verify_leads [OF v] leads_flows by simp
    next
      case (Some x)
      then obtain u where "leads d s2 [(StageVerify, OutcomeFailed)] [] [] u" "ends_at ev d u s3"
        using verify_leads [OF v] by auto
      then show ?thesis using leads_flows flows_trans rollback_internal_flows unfolding ends_at_def
        by (metis snd_conv)
    qed
    moreover have "flows UNIV s3 (snd (notify_stage ev d s3))" using notify_leads leads_flows by blast
    ultimately have "flows UNIV s2 s3 \<and> flows UNIV s2 (snd (notify_stage ev d s3))" using flows_trans by blast
    then show ?thesis using assms(2) r v None by (auto simp: release_stages_def split: option.split)
  qed
  from stages_keep [OF ok this, of "de_id d"]
  have "(StageApply, if r = None then OutcomeCompleted else OutcomeFailed)
      \<in> set (trace (de_id d) (snd (release_stages ev d req rtm c s)))"
    using l by (auto simp: leads_def)
  then show ?thesis by blast
qed

lemma demo_env: "se_now (demo_deploy_env n) k = 1" "se_wall (demo_deploy_env n) k = 1"
  by (simp_all add: demo_deploy_env_def)

lemma demo_request_fields:
  "dq_request_id (demo_request i) = i" "dq_runtime_id (demo_request i) = ''k8s''"
  by (simp_all add: demo_request_def demo_deploy_def)

lemma announce_commands: "sv_commands (announce ev d now s) = sv_commands s"
  by (simp add: announce_def emit_cloud_def emit_stage_event_def draws on_store_def)

lemma demo_applies:
  "\<exists>oc. (StageApply, oc) \<in> set (trace demo_id (fold (service_step (demo_deploy_env 4))
       [SvDeploy (demo_request ''r1'')] new_deploy_service))"
proof -
  let ?ev = "demo_deploy_env 4" and ?req = "demo_request ''r1''"
  define s3 where "s3 = new_deploy_service\<lparr>sv_clock := 1, sv_uuid := 1\<rparr>"
  define d0 where "d0 = requested_deployment ?ev ?req ''r1'' (se_uuid ?ev 0) 1"
  define d where "d = with_defaults (se_uuid ?ev 1) (se_uuid ?ev 2) 1 d0"
  define t where "t = snd (insert_service ?ev d0 s3)"
  define s where "s = announce ?ev d 1 t"
  have ins: "insert_service ?ev d0 s3 = ((Some d, True), t)"
    by (simp add: t_def insert_service_def draws s3_def insert_deployment_def Let_def d_def demo_deploy_env_def
        new_deploy_service_def new_deploy_store_def numeral_2_eq_2)
  have d: "de_id d = demo_id" "de_runtime_id d = ''k8s''" "de_workspace_id d = ''w''"
    by (simp_all add: d_def d0_def with_defaults_def requested_deployment_def Let_def demo_id_def
        demo_deploy_env_def demo_request_def demo_deploy_def numeral_2_eq_2)
  have run: "snd (deploy ?ev ?req new_deploy_service) = snd (deploy_stages ?ev d ?req s)"
    using ins
    by (simp add: deploy_def draws Let_def s3_def d0_def s_def case_prod_beta demo_env demo_request_fields
        new_deploy_service_def)
  have "flows UNIV new_deploy_service s3"
    using flows_fields(4) [OF flows_fields(1) [OF flows_refl [of UNIV new_deploy_service], of 1]]
    by (simp add: s3_def new_deploy_service_def)
  from flows_insert [OF this, of ?ev d0] have "flows UNIV new_deploy_service t" by (simp add: t_def)
  from flows_trans [OF this leads_flows [OF announce_leads]] have fs: "flows UNIV new_deploy_service s"
    by (simp add: s_def)
  have "length (sv_commands s) < 4"
    by (simp add: s_def announce_commands t_def s3_def insert_service_def draws case_prod_beta Let_def
        new_deploy_service_def)
  from demo_preflight [OF d(2,3) this] obtain rtm c s1 where
    p: "preflight_stage ?ev d s = (Inr (rtm, c), s1)" "c = minikube (\<lambda>k _. if k < 4 then Inr [] else Inl ''boom'') (\<lambda>_. ''sha'')"
    by blast
  obtain dec s2 where q: "run_policies ?ev d ?req s1 = ((dec, True), s2)" using demo_policies by blast
  obtain s4 where i: "run_image_verify ?ev d s2 = (None, s4)" using demo_image by blast
  obtain art s5 where r: "render_stage ?ev d (deploy_manifest d ?req) c s4 = (Inr art, s5)"
    using demo_render unfolding p(2) by blast
  have "flows UNIV new_deploy_service s4"
    using flows_trans [OF flows_trans [OF flows_trans [OF fs leads_flows [OF preflight_leads [OF p(1)]]]]]
      policies_lead [OF q] image_leads [OF i] leads_flows by blast
  from flows_store_ok [OF this] have ok: "store_ok (sv_store s4)"
    by (simp add: new_deploy_service_def new_store_ok)
  have "deploy_stages ?ev d ?req s = release_stages ?ev d ?req rtm c s4"
    by (simp add: deploy_stages_def p(1) q i)
  then show ?thesis
    using release_keeps [OF ok r] run d(1) demo_unguessed [of 4 "''1''"] by simp
qed

theorem stages_in_order_witness:
  "\<exists>oc. (StageApply, oc) \<in> set (trace demo_id (fold (service_step (demo_deploy_env 4))
       [SvDeploy (demo_request ''r1'')] new_deploy_service))
     \<and> (follows deploy_pipeline (trace demo_id (fold (service_step (demo_deploy_env 4))
            [SvDeploy (demo_request ''r1'')] new_deploy_service))
        \<or> follows rollback_pipeline (trace demo_id (fold (service_step (demo_deploy_env 4))
            [SvDeploy (demo_request ''r1'')] new_deploy_service)))"
  using demo_applies stages_in_order [OF demo_inj, of demo_id 4] by blast

theorem apply_gated_witness:
  "image_cleared (images demo_id (fold (service_step (demo_deploy_env 4))
      [SvDeploy (demo_request ''r1'')] new_deploy_service))"
  using demo_applies apply_gated [OF demo_inj] by blast

definition demo_before :: service where
  "demo_before = new_deploy_service\<lparr>sv_store := fold deploy_step
     [OpInsert [] ''c'' 5 (demo_deployment ''x'' 1), OpStatus ''x'' StCompleted [] 6,
      OpInsert [] ''c'' 7 ((demo_deployment ''y'' 2)\<lparr>de_auto_rollback := True\<rparr>)] new_deploy_store\<rparr>"

lemma demo_previous:
  "map_option de_id (previous_revision ''a'' ''dev'' ''y'' (sv_store demo_before)) = Some ''x''"
  by code_simp

definition demo_revoked :: runtime_provider where
  "demo_revoked = \<lparr>rp_get = (\<lambda>_ _. Inr None), rp_check_usable_by = (\<lambda>_ _ _. Some ''revoked'')\<rparr>"

theorem failed_rollback_reported_done_witness:
  "dr_reason (fst (verify_failure
      (demo_deploy_env 0\<lparr>se_runtimes := Some demo_revoked\<rparr>)
      ((demo_deployment ''y'' 2)\<lparr>de_auto_rollback := True\<rparr>)
      \<lparr>vr_healthy = False, vr_detail = [], vr_fail_reason = ''unhealthy''\<rparr> 1 demo_before)) = rolled_back_reason"
proof -
  obtain prev where prev: "previous_revision ''a'' ''dev'' ''y'' (sv_store demo_before) = Some prev"
    using demo_previous by auto
  have ok: "store_ok (sv_store demo_before)"
    using reachable_ok [of "[OpInsert [] ''c'' 5 (demo_deployment ''x'' 1), OpStatus ''x'' StCompleted [] 6,
      OpInsert [] ''c'' 7 ((demo_deployment ''y'' 2)\<lparr>de_auto_rollback := True\<rparr>)]"]
    by (simp add: demo_before_def)
  show ?thesis
    by (rule conjunct2 [OF failed_rollback_reported_done 
          [where why = "''revoked''" and p = demo_revoked, OF ok]])
      (use prev in \<open>simp_all add: demo_deployment_def demo_revoked_def\<close>)
qed

end
