(* ===== verification/Sdlc.thy ===== *)
theory Sdlc
  imports Fabric_Prelude
begin

text \<open>
  The SDLC orchestrator (\<open>services/sdlc-orchestrator/internal/sdlc\<close>): an initiative walks through
  the ordered phases of a delivery plan, and leaves a phase when the gates of the phase are met,
  overridden by a release manager, or optional. The types and the plan (\<open>types.go\<close>), the gates
  (\<open>gates.go\<close>), the store (\<open>store.go\<close>), the event envelope (\<open>events.go\<close>) and every operation of
  the service (\<open>service.go\<close>).

  The store keeps copies of initiatives, but a copy shares the map of targets with the original, with
  the copies handed out and, without an override, with the request. Nothing under \<open>src\<close> writes to that
  map once the initiative is stored, so it is a value here; the one write before that, to the map of the
  caller, is \<open>caller_targets\<close>. The gate evaluator is a field of the
  environment, as it is an interface of the code; \<open>evidence_evaluate\<close> models the one the code
  installs. Identifiers and clock readings come from the environment, indexed by one counter of
  draws. Events go to a list, as in \<open>MemorySink\<close>, whose \<open>Emit\<close> never fails.
\<close>

section \<open>Phases\<close>

datatype phase =
    PhProduct | PhArchitecture | PhDesign | PhDevelopment | PhQA | PhSecurity | PhDevOps
  | PhInfrastructure | PhSRE | PhFinOps | PhObservability | PhDone | PhOther string

fun phase_string :: "phase \<Rightarrow> string" where
  "phase_string PhProduct = ''product''"
| "phase_string PhArchitecture = ''architecture''"
| "phase_string PhDesign = ''design''"
| "phase_string PhDevelopment = ''development''"
| "phase_string PhQA = ''qa''"
| "phase_string PhSecurity = ''security''"
| "phase_string PhDevOps = ''devops''"
| "phase_string PhInfrastructure = ''iac''"
| "phase_string PhSRE = ''sre''"
| "phase_string PhFinOps = ''finops''"
| "phase_string PhObservability = ''observability''"
| "phase_string PhDone = ''done''"
| "phase_string (PhOther s) = s"

definition ordered_phases :: "phase list" where
  "ordered_phases =
     [PhProduct, PhArchitecture, PhDesign, PhDevelopment, PhQA, PhSecurity, PhDevOps,
      PhInfrastructure, PhSRE, PhFinOps, PhObservability]"

text \<open>The conversion \<open>Phase(s)\<close>: the constant with that text, if there is one.\<close>

definition phase_of :: "string \<Rightarrow> phase" where
  "phase_of s =
     (case List.find (\<lambda>p. phase_string p = s) (ordered_phases @ [PhDone]) of
        Some p \<Rightarrow> p
      | None \<Rightarrow> PhOther s)"

fun phase_after :: "phase \<Rightarrow> phase list \<Rightarrow> phase option" where
  "phase_after p [] = None"
| "phase_after p (q # qs) =
     (if q = p then Some (case qs of [] \<Rightarrow> PhDone | r # _ \<Rightarrow> r) else phase_after p qs)"

definition next_phase :: "phase \<Rightarrow> phase option" where
  "next_phase p = phase_after p ordered_phases"

fun phase_position :: "phase \<Rightarrow> phase list \<Rightarrow> int \<Rightarrow> int" where
  "phase_position p [] i = -1"
| "phase_position p (q # qs) i = (if q = p then i else phase_position p qs (i + 1))"

definition phase_index :: "phase \<Rightarrow> int" where
  "phase_index p =
     (if p = PhDone then int (length ordered_phases) else phase_position p ordered_phases 0)"

section \<open>Targets\<close>

datatype target_policy = TgtRequired | TgtOptional | TgtOptIn | TgtSkipped | TgtOther string

fun target_string :: "target_policy \<Rightarrow> string" where
  "target_string TgtRequired = ''required''"
| "target_string TgtOptional = ''optional''"
| "target_string TgtOptIn = ''opt-in''"
| "target_string TgtSkipped = ''skipped''"
| "target_string (TgtOther s) = s"

type_synonym targets = "(phase \<times> target_policy) list"

text \<open>\<open>targets[p]\<close>, the zero value \<open>""\<close> when the key is missing.\<close>

definition target_of :: "targets \<Rightarrow> phase \<Rightarrow> target_policy" where
  "target_of ts p = (case map_of ts p of Some t \<Rightarrow> t | None \<Rightarrow> TgtOther [])"

definition default_targets :: targets where
  "default_targets =
     [(PhArchitecture, TgtRequired), (PhDesign, TgtOptional), (PhDevelopment, TgtRequired),
      (PhQA, TgtRequired), (PhSecurity, TgtRequired), (PhDevOps, TgtRequired),
      (PhInfrastructure, TgtOptIn), (PhSRE, TgtOptional), (PhFinOps, TgtOptIn),
      (PhObservability, TgtOptIn)]"

fun target_rank :: "target_policy \<Rightarrow> int" where
  "target_rank TgtSkipped = 0"
| "target_rank TgtOptIn = 1"
| "target_rank TgtOptional = 2"
| "target_rank TgtRequired = 3"
| "target_rank (TgtOther s) = 0"

datatype sdlc_error =
    ErrInitiativeNotFound | ErrInvalidPhase | ErrPhaseMismatch phase phase | ErrMissingOpenSpec
  | ErrMissingWorkspace | ErrInvalidOverride
  | ErrCannotRelaxRequired phase target_policy target_policy
  | ErrInitiativeIdRequired | ErrEvaluator string

text \<open>The loop over the override visits the map in some order, here the order of the list.\<close>

fun merge_overrides :: "targets \<Rightarrow> targets \<Rightarrow> sdlc_error + targets" where
  "merge_overrides merged [] = Inr merged"
| "merge_overrides merged ((ph, ov) # rest) =
     (let current = target_of merged ph
      in if target_rank ov < target_rank current then Inl (ErrCannotRelaxRequired ph current ov)
         else merge_overrides (AList.update ph ov merged) rest)"

definition merge_targets :: "targets \<Rightarrow> targets \<Rightarrow> sdlc_error + targets" where
  "merge_targets app override = merge_overrides app override"

section \<open>Initiatives\<close>

datatype phase_status =
    NotStarted | PhaseInProgress | GatePending | PhasePassed | PhaseFailed | PhaseSkipped
  | PhaseOverridden | PhaseBlocked

datatype gate_outcome = GatePassed | GateFailed | GateSkipped

fun gate_outcome_string :: "gate_outcome \<Rightarrow> string" where
  "gate_outcome_string GatePassed = ''passed''"
| "gate_outcome_string GateFailed = ''failed''"
| "gate_outcome_string GateSkipped = ''skipped''"

record gate_result =
  gr_id :: string
  gr_initiative_id :: string
  gr_phase :: phase
  gr_gate :: string
  gr_outcome :: gate_outcome
  gr_reason :: string
  gr_evaluated_at :: gotime
  gr_detail :: obj

record blocker =
  bl_id :: string
  bl_initiative_id :: string
  bl_phase :: phase
  bl_gate :: string
  bl_reason :: string
  bl_created_at :: gotime
  bl_resolved_at :: "gotime option"

record phase_state =
  ps_initiative_id :: string
  ps_phase :: phase
  ps_status :: phase_status
  ps_entered_at :: "gotime option"
  ps_completed_at :: "gotime option"
  ps_gates :: "gate_result list"
  ps_blockers :: "blocker list"

text \<open>A nil map of targets is \<open>None\<close>.\<close>

record initiative =
  it_id :: string
  it_workspace_id :: string
  it_openspec_root :: string
  it_jira_epic_key :: string
  it_criticality :: string
  it_current :: phase
  it_states :: "phase_state list"
  it_targets :: "targets option"
  it_created_at :: gotime
  it_updated_at :: gotime

record create_initiative_request =
  ci_workspace_id :: string
  ci_openspec_root :: string
  ci_jira_epic_key :: string
  ci_criticality :: string
  ci_actor :: string
  ci_tenant_id :: string
  ci_correlation_id :: string
  ci_targets :: "targets option"
  ci_targets_override :: "targets option"
  ci_include :: "phase list"

record override_input =
  oi_id :: string
  oi_approved :: bool
  oi_approved_by :: string
  oi_approver_role :: string
  oi_reason :: string
  oi_ttl_seconds :: int

record complete_request =
  cp_actor :: string
  cp_tenant_id :: string
  cp_correlation_id :: string
  cp_evidence :: obj
  cp_override :: "override_input option"

record bus_event =
  be_type :: string
  be_subject :: string
  be_tenant_id :: string
  be_workspace_id :: string
  be_actor :: string
  be_correlation_id :: string
  be_data :: obj

section \<open>Gates\<close>

record gate_definition =
  gd_name :: string
  gd_min_criticality :: string

definition gate :: "string \<Rightarrow> gate_definition" where
  "gate n = \<lparr>gd_name = n, gd_min_criticality = []\<rparr>"

definition gate_from :: "string \<Rightarrow> string \<Rightarrow> gate_definition" where
  "gate_from n c = \<lparr>gd_name = n, gd_min_criticality = c\<rparr>"

fun all_gates :: "phase \<Rightarrow> gate_definition list" where
  "all_gates PhProduct = [gate ''acceptance_criteria_present'', gate ''story_size_estimated'']"
| "all_gates PhArchitecture =
     [gate ''adrs_published'', gate ''api_contract_published'', gate ''data_model_documented'',
      gate_from ''threat_model_present'' ''medium'', gate ''security_review_passed'',
      gate ''openspec_updated'']"
| "all_gates PhDesign =
     [gate ''ui_blueprint_present'', gate ''component_stubs_committed'',
      gate ''accessibility_audit_passed'']"
| "all_gates PhDevelopment =
     [gate ''code_complete'', gate ''lint_clean'', gate ''unit_tests_passing'', gate ''coverage'']"
| "all_gates PhQA =
     [gate ''integration_tests_passing'', gate ''e2e_tests_passing'',
      gate_from ''perf_budget_met'' ''high'']"
| "all_gates PhSecurity =
     [gate ''sast_clean'', gate ''sca_clean'', gate_from ''dast_passed'' ''high'',
      gate ''secrets_clean'']"
| "all_gates PhDevOps =
     [gate ''pipelines_green'', gate ''image_signed'', gate ''deploy_to_stage_successful'',
      gate ''rollback_plan_present'']"
| "all_gates PhInfrastructure = [gate ''iac_generated'', gate ''iac_validated'', gate ''iac_applied'']"
| "all_gates PhSRE =
     [gate ''slos_defined'', gate ''runbook_published'', gate ''alerts_configured'',
      gate ''on_call_assigned'']"
| "all_gates PhFinOps = [gate ''cost_estimate_within_budget'', gate ''llm_budget_within_limit'']"
| "all_gates PhObservability =
     [gate ''dashboards_provisioned'', gate ''log_pipeline_active'', gate ''tracing_enabled'']"
| "all_gates PhDone = []"
| "all_gates (PhOther s) = []"

definition criticality_rank :: "string \<Rightarrow> int" where
  "criticality_rank c =
     (if c = ''low'' then 1 else if c = ''medium'' then 2 else if c = ''high'' then 3
      else if c = ''critical'' then 4 else 0)"

definition criticality_at_least :: "string \<Rightarrow> string \<Rightarrow> bool" where
  "criticality_at_least value minimum =
     (let v = criticality_rank (to_lower value);
          v' = (if v = 0 then criticality_rank ''medium'' else v)
      in v' \<ge> criticality_rank minimum)"

definition required_gates :: "phase \<Rightarrow> string \<Rightarrow> gate_definition list" where
  "required_gates p criticality =
     filter (\<lambda>d. gd_min_criticality d = [] \<or> criticality_at_least criticality (gd_min_criticality d))
       (all_gates p)"

text \<open>
  \<open>fmt.Sprint\<close> of a decoded value. A map prints its entries in the order of its keys; numbers are
  integral and below the size at which the exponent form starts. (\<^const>\<open>VUnbound\<close> belongs to the
  workflow runtime and does not occur here.)
\<close>

fun spaced :: "string list \<Rightarrow> string" where
  "spaced [] = []"
| "spaced [s] = s"
| "spaced (s # ss) = s @ '' '' @ spaced ss"

fun sprint :: "val \<Rightarrow> string" and sprint_entry :: "string \<times> val \<Rightarrow> string \<times> string" where
  "sprint VNil = ''<nil>''"
| "sprint (VBool b) = (if b then ''true'' else ''false'')"
| "sprint (VInt i) = show_int i"
| "sprint (VString s) = s"
| "sprint (VList vs) = ''['' @ spaced (map sprint vs) @ '']''"
| "sprint (VMap m) =
     ''map['' @ spaced (map snd (sort_slice (\<lambda>a b. str_compare (fst a) (fst b) < 0)
       (map sprint_entry m))) @ '']''"
| "sprint (VUnbound s) = s"
| "sprint_entry (k, v) = (k, k @ '':'' @ sprint v)"

definition is_pass_word :: "string \<Rightarrow> bool" where
  "is_pass_word s \<longleftrightarrow> s = ''passed'' \<or> s = ''pass'' \<or> s = ''true'' \<or> s = ''ok''"

definition evidence_source :: obj where
  "evidence_source = [(''source'', VString ''evidence'')]"

definition object_key :: "obj \<Rightarrow> string \<Rightarrow> val" where
  "object_key m k = (case map_of m k of Some v \<Rightarrow> v | None \<Rightarrow> VNil)"

fun evaluate_evidence :: "string \<Rightarrow> val \<Rightarrow> gate_outcome \<times> string \<times> obj" where
  "evaluate_evidence g (VBool b) =
     (if b then (GatePassed, [], evidence_source)
      else (GateFailed, g @ ''_failed'', evidence_source))"
| "evaluate_evidence g (VString s) =
     (let normalized = to_lower (trim_space s);
          detail = evidence_source @ [(''value'', VString s)]
      in if is_pass_word normalized then (GatePassed, [], detail) else (GateFailed, s, detail))"
| "evaluate_evidence g (VMap m) =
     (let outcome = to_lower (sprint (object_key m ''outcome''));
          reason = sprint (object_key m ''reason'')
      in if is_pass_word outcome then (GatePassed, [], m)
         else (GateFailed, if reason = [] \<or> reason = ''<nil>'' then g @ ''_failed'' else reason, m))"
| "evaluate_evidence g _ = (GateFailed, ''gate_evidence_missing'', evidence_source)"

section \<open>State and environment\<close>

record sdlc_event =
  xe_id :: string
  xe_type :: string
  xe_subject :: string
  xe_time :: gotime
  xe_tenant_id :: string
  xe_workspace_id :: string
  xe_actor :: string
  xe_correlation_id :: string
  xe_data :: obj

text \<open>
  The evaluator answers from the initiative, the phase and the evidence; it may draw identifiers
  and times, so it takes the number of draws and returns it.
\<close>

record sdlc_env =
  xn_uuid :: "nat \<Rightarrow> string"
  xn_now :: "nat \<Rightarrow> gotime"
  xn_evaluate :: "initiative \<Rightarrow> phase \<Rightarrow> obj \<Rightarrow> nat \<Rightarrow> (string + gate_result list) \<times> nat"

record sdlc_state =
  sd_initiatives :: "(string \<times> initiative) list"
  sd_events :: "sdlc_event list"
  sd_draws :: nat

definition new_sdlc :: sdlc_state where
  "new_sdlc = \<lparr>sd_initiatives = [], sd_events = [], sd_draws = 0\<rparr>"

text \<open>\<open>EvidenceGateEvaluator.Evaluate\<close>: one clock reading, then one identifier for each gate.\<close>

fun evidence_results ::
  "(nat \<Rightarrow> string) \<Rightarrow> gotime \<Rightarrow> initiative \<Rightarrow> phase \<Rightarrow> obj \<Rightarrow> gate_definition list \<Rightarrow> nat \<Rightarrow> gate_result list" where
  "evidence_results uuid t it p evidence [] n = []"
| "evidence_results uuid t it p evidence (d # ds) n =
     (let (outcome, reason, detail) = evaluate_evidence (gd_name d) (object_key evidence (gd_name d))
      in \<lparr>gr_id = uuid n, gr_initiative_id = it_id it, gr_phase = p, gr_gate = gd_name d,
          gr_outcome = outcome, gr_reason = reason, gr_evaluated_at = t, gr_detail = detail\<rparr>
         # evidence_results uuid t it p evidence ds (Suc n))"

definition evidence_evaluate ::
  "(nat \<Rightarrow> string) \<Rightarrow> (nat \<Rightarrow> gotime) \<Rightarrow> initiative \<Rightarrow> phase \<Rightarrow> obj \<Rightarrow> nat \<Rightarrow> (string + gate_result list) \<times> nat" where
  "evidence_evaluate uuid now it p evidence n =
     (let defs = required_gates p (it_criticality it)
      in (Inr (evidence_results uuid (now n) it p evidence defs (Suc n)), Suc n + length defs))"

definition sdlc_id :: "sdlc_env \<Rightarrow> sdlc_state \<Rightarrow> string \<times> sdlc_state" where
  "sdlc_id env s = (xn_uuid env (sd_draws s), s\<lparr>sd_draws := Suc (sd_draws s)\<rparr>)"

definition sdlc_now :: "sdlc_env \<Rightarrow> sdlc_state \<Rightarrow> gotime \<times> sdlc_state" where
  "sdlc_now env s = (xn_now env (sd_draws s), s\<lparr>sd_draws := Suc (sd_draws s)\<rparr>)"

section \<open>Store\<close>

definition find_initiative :: "string \<Rightarrow> sdlc_state \<Rightarrow> initiative option" where
  "find_initiative i s = map_of (sd_initiatives s) i"

definition put_initiative :: "initiative \<Rightarrow> sdlc_state \<Rightarrow> sdlc_state" where
  "put_initiative it s = s\<lparr>sd_initiatives := AList.update (it_id it) it (sd_initiatives s)\<rparr>"

definition insert_initiative :: "sdlc_env \<Rightarrow> initiative \<Rightarrow> sdlc_state \<Rightarrow> initiative \<times> sdlc_state" where
  "insert_initiative env it s =
     (let (it1, s1) = (if it_id it = [] then let (i, s1) = sdlc_id env s in (it\<lparr>it_id := i\<rparr>, s1)
                       else (it, s));
          (now, s2) = sdlc_now env s1;
          it2 = (if it_created_at it1 = 0 then it1\<lparr>it_created_at := now\<rparr> else it1);
          it3 = it2\<lparr>it_updated_at := now\<rparr>
      in (it3, put_initiative it3 s2))"

definition update_initiative :: "sdlc_env \<Rightarrow> initiative \<Rightarrow> sdlc_state \<Rightarrow> initiative \<times> sdlc_state" where
  "update_initiative env it s =
     (let (now, s1) = sdlc_now env s; it1 = it\<lparr>it_updated_at := now\<rparr>
      in (it1, put_initiative it1 s1))"

definition list_initiatives :: "string \<Rightarrow> sdlc_state \<Rightarrow> initiative list" where
  "list_initiatives ws s =
     sort_slice (\<lambda>a b. it_created_at a > it_created_at b)
       (filter (\<lambda>it. ws = [] \<or> it_workspace_id it = ws)
         (map snd (AList.clearjunk (sd_initiatives s))))"

definition get_initiative :: "string \<Rightarrow> sdlc_state \<Rightarrow> sdlc_error + initiative" where
  "get_initiative i s =
     (case find_initiative i s of None \<Rightarrow> Inl ErrInitiativeNotFound | Some it \<Rightarrow> Inr it)"

text \<open>\<open>phaseState\<close> returns a pointer to the first state of a phase; a write through it is
  \<open>set_phase_state\<close>.\<close>

definition find_phase_state :: "initiative \<Rightarrow> phase \<Rightarrow> phase_state option" where
  "find_phase_state it p = List.find (\<lambda>st. ps_phase st = p) (it_states it)"

fun change_first :: "('a \<Rightarrow> bool) \<Rightarrow> ('a \<Rightarrow> 'a) \<Rightarrow> 'a list \<Rightarrow> 'a list" where
  "change_first P f [] = []"
| "change_first P f (x # xs) = (if P x then f x # xs else x # change_first P f xs)"

definition set_phase_state :: "phase \<Rightarrow> (phase_state \<Rightarrow> phase_state) \<Rightarrow> initiative \<Rightarrow> initiative" where
  "set_phase_state p f it = it\<lparr>it_states := change_first (\<lambda>st. ps_phase st = p) f (it_states it)\<rparr>"

section \<open>Events\<close>

record event_context =
  ec_tenant_id :: string
  ec_actor :: string
  ec_correlation_id :: string

definition value_or :: "string \<Rightarrow> string \<Rightarrow> string" where
  "value_or v fallback = (if v = [] then fallback else v)"

definition from_create :: "create_initiative_request \<Rightarrow> event_context" where
  "from_create r =
     \<lparr>ec_tenant_id = ci_tenant_id r, ec_actor = value_or (ci_actor r) ''alfred'',
      ec_correlation_id = ci_correlation_id r\<rparr>"

definition from_complete :: "complete_request \<Rightarrow> event_context" where
  "from_complete r =
     \<lparr>ec_tenant_id = cp_tenant_id r, ec_actor = value_or (cp_actor r) ''alfred'',
      ec_correlation_id = cp_correlation_id r\<rparr>"

definition ev_entered :: string where "ev_entered = ''sdlc.phase.entered.v1''"
definition ev_gate_evaluated :: string where "ev_gate_evaluated = ''sdlc.phase.gate_evaluated.v1''"
definition ev_progressed :: string where "ev_progressed = ''sdlc.phase.progressed.v1''"
definition ev_blocked :: string where "ev_blocked = ''sdlc.phase.blocked.v1''"
definition ev_skipped :: string where "ev_skipped = ''sdlc.phase.skipped.v1''"
definition ev_warning :: string where "ev_warning = ''sdlc.phase.warning.v1''"
definition ev_regressed :: string where "ev_regressed = ''sdlc.phase.regressed.v1''"
definition ev_override_consumed :: string where "ev_override_consumed = ''policy.override.consumed.v1''"

text \<open>\<open>Sink.Emit(newEvent(...))\<close>.\<close>

definition emit_sdlc :: "sdlc_env \<Rightarrow> initiative \<Rightarrow> event_context \<Rightarrow> string \<Rightarrow> obj \<Rightarrow> sdlc_state \<Rightarrow> sdlc_state" where
  "emit_sdlc env it ec ty data s =
     (let (i, s1) = sdlc_id env s; (t, s2) = sdlc_now env s1
      in s2\<lparr>sd_events := sd_events s2 @
           [\<lparr>xe_id = i, xe_type = ty, xe_subject = ''sdlc-initiative/'' @ it_id it, xe_time = t,
             xe_tenant_id = ec_tenant_id ec, xe_workspace_id = it_workspace_id it,
             xe_actor = ec_actor ec, xe_correlation_id = ec_correlation_id ec, xe_data = data\<rparr>]\<rparr>)"

section \<open>Creating an initiative\<close>

text \<open>
  The effective targets. Without an override the code works on the caller's own map, so the
  promotion of included phases writes to it; the second component is the caller's map afterwards.
\<close>

definition promote :: "phase list \<Rightarrow> targets \<Rightarrow> targets" where
  "promote include ts =
     fold (\<lambda>p m. if target_of m p = TgtOptIn then AList.update p TgtRequired m else m) include ts"

definition effective_targets ::
  "create_initiative_request \<Rightarrow> sdlc_error + (targets \<times> targets option)" where
  "effective_targets r =
     (let app = (case ci_targets r of None \<Rightarrow> default_targets | Some ts \<Rightarrow> ts)
      in case ci_targets_override r of
           Some ov \<Rightarrow>
             (case merge_targets app ov of
                Inl e \<Rightarrow> Inl e
              | Inr merged \<Rightarrow> Inr (promote (ci_include r) merged, ci_targets r))
         | None \<Rightarrow>
             (let ts = promote (ci_include r) app
              in Inr (ts, case ci_targets r of None \<Rightarrow> None | Some _ \<Rightarrow> Some ts)))"

text \<open>What the map of targets of the request holds when \<^verbatim>\<open>CreateInitiative\<close> has returned.\<close>

definition caller_targets :: "create_initiative_request \<Rightarrow> targets option" where
  "caller_targets r =
     (if ci_workspace_id r = [] \<or> ci_openspec_root r = [] then ci_targets r
      else case effective_targets r of Inl e \<Rightarrow> ci_targets r | Inr (ts, written) \<Rightarrow> written)"

definition initial_state :: "targets \<Rightarrow> gotime \<Rightarrow> phase \<Rightarrow> phase_state" where
  "initial_state ts now p =
     (let policy = target_of ts p
      in \<lparr>ps_initiative_id = [], ps_phase = p,
          ps_status =
            (if p = PhProduct then PhaseInProgress
             else if policy = TgtSkipped then PhaseSkipped
             else if policy = TgtOptIn then PhaseSkipped
             else NotStarted),
          ps_entered_at = (if p = PhProduct then Some now else None), ps_completed_at = None,
          ps_gates = [], ps_blockers = []\<rparr>)"

definition emit_skipped :: "sdlc_env \<Rightarrow> initiative \<Rightarrow> event_context \<Rightarrow> targets \<Rightarrow> phase \<Rightarrow> sdlc_state \<Rightarrow> sdlc_state" where
  "emit_skipped env it ec ts p s =
     (let policy = target_of ts p
      in if p = PhProduct then s
         else if policy = TgtSkipped \<or> policy = TgtOptIn
         then emit_sdlc env it ec ev_skipped
                [(''initiative_id'', VString (it_id it)), (''phase'', VString (phase_string p)),
                 (''target'', VString (target_string policy))] s
         else s)"

definition create_initiative ::
  "sdlc_env \<Rightarrow> create_initiative_request \<Rightarrow> sdlc_state \<Rightarrow> (sdlc_error + initiative) \<times> sdlc_state" where
  "create_initiative env r s =
     (if ci_workspace_id r = [] then (Inl ErrMissingWorkspace, s)
      else if ci_openspec_root r = [] then (Inl ErrMissingOpenSpec, s)
      else let lowered = to_lower (ci_criticality r);
               criticality = (if lowered = [] then ''medium'' else lowered)
      in case effective_targets r of
           Inl e \<Rightarrow> (Inl e, s)
         | Inr (ts, _) \<Rightarrow>
             (let (now, s1) = sdlc_now env s;
                  it = \<lparr>it_id = [], it_workspace_id = ci_workspace_id r,
                        it_openspec_root = ci_openspec_root r, it_jira_epic_key = ci_jira_epic_key r,
                        it_criticality = criticality, it_current = PhProduct,
                        it_states = map (initial_state ts now) ordered_phases,
                        it_targets = Some ts, it_created_at = now, it_updated_at = now\<rparr>;
                  ec = from_create r;
                  (it1, s2) = insert_initiative env it s1;
                  it2 = it1\<lparr>it_states := map (\<lambda>st. st\<lparr>ps_initiative_id := it_id it1\<rparr>) (it_states it1)\<rparr>;
                  (it3, s3) = update_initiative env it2 s2;
                  s4 = emit_sdlc env it3 ec ev_entered
                         [(''initiative_id'', VString (it_id it3)),
                          (''phase'', VString (phase_string PhProduct)),
                          (''openspec_root'', VString (it_openspec_root it3))] s3
              in (Inr it3, fold (emit_skipped env it3 ec ts) ordered_phases s4)))"

section \<open>Completing a phase\<close>

definition failed_gates :: "gate_result list \<Rightarrow> gate_result list" where
  "failed_gates rs = filter (\<lambda>g. gr_outcome g = GateFailed) rs"

definition gate_names :: "gate_result list \<Rightarrow> val" where
  "gate_names rs = VList (map (\<lambda>g. VString (gr_gate g)) rs)"

text \<open>The flag and the error of \<open>validateOverride\<close>; with an error the flag is false.\<close>

definition validate_override :: "override_input option \<Rightarrow> sdlc_error + bool" where
  "validate_override o1 =
     (case o1 of
        None \<Rightarrow> Inr False
      | Some i \<Rightarrow>
          if \<not> oi_approved i then Inr False
          else if oi_approver_role i \<noteq> ''release-manager'' \<or> oi_reason i = [] \<or> oi_ttl_seconds i \<le> 0
            \<or> oi_ttl_seconds i > 86400 then Inl ErrInvalidOverride
          else Inr True)"

definition effective_policy :: "initiative \<Rightarrow> phase \<Rightarrow> target_policy" where
  "effective_policy it p =
     (case it_targets it of
        None \<Rightarrow> TgtRequired
      | Some ts \<Rightarrow> (case map_of ts p of None \<Rightarrow> TgtRequired | Some t \<Rightarrow> t))"

definition phase_data :: "initiative \<Rightarrow> phase \<Rightarrow> obj" where
  "phase_data it p = [(''initiative_id'', VString (it_id it)), (''phase'', VString (phase_string p))]"

definition emit_gate :: "sdlc_env \<Rightarrow> initiative \<Rightarrow> event_context \<Rightarrow> phase \<Rightarrow> gate_result \<Rightarrow> sdlc_state \<Rightarrow> sdlc_state" where
  "emit_gate env it ec p g =
     emit_sdlc env it ec ev_gate_evaluated
       (phase_data it p @ [(''gate'', VString (gr_gate g)),
         (''outcome'', VString (gate_outcome_string (gr_outcome g))), (''reason'', VString (gr_reason g))])"

fun make_blockers :: "sdlc_env \<Rightarrow> initiative \<Rightarrow> phase \<Rightarrow> gotime \<Rightarrow> gate_result list \<Rightarrow> nat \<Rightarrow> blocker list" where
  "make_blockers env it p now [] n = []"
| "make_blockers env it p now (g # gs) n =
     \<lparr>bl_id = xn_uuid env n, bl_initiative_id = it_id it, bl_phase = p, bl_gate = gr_gate g,
      bl_reason = gr_reason g, bl_created_at = now, bl_resolved_at = None\<rparr>
     # make_blockers env it p now gs (Suc n)"

definition block_phase ::
  "sdlc_env \<Rightarrow> initiative \<Rightarrow> phase \<Rightarrow> event_context \<Rightarrow> gate_result list \<Rightarrow> sdlc_state \<Rightarrow> initiative \<times> sdlc_state" where
  "block_phase env it p ec failed s =
     (let (now, s1) = sdlc_now env s;
          bs = make_blockers env it p now failed (sd_draws s1);
          s2 = s1\<lparr>sd_draws := sd_draws s1 + length failed\<rparr>;
          it1 = set_phase_state p
                  (\<lambda>st. st\<lparr>ps_status := PhaseBlocked, ps_blockers := ps_blockers st @ bs\<rparr>) it;
          (it2, s3) = update_initiative env it1 s2
      in (it2, emit_sdlc env it2 ec ev_blocked
                 (phase_data it2 p @ [(''failed_gates'', gate_names failed),
                   (''target'', VString (target_string (effective_policy it p)))]) s3))"

lemma next_phase_index: "next_phase p = Some q \<Longrightarrow> phase_index p < phase_index q \<and> phase_index q \<le> 11"
  by (cases p) (auto simp: next_phase_def ordered_phases_def phase_index_def)

text \<open>The loop past the phases that the plan leaves out. \<open>NextPhase\<close> always moves on, so it ends.\<close>

function auto_skip ::
  "sdlc_env \<Rightarrow> initiative \<Rightarrow> event_context \<Rightarrow> phase \<Rightarrow> sdlc_state \<Rightarrow> phase \<times> sdlc_state" where
  "auto_skip env it ec nxt s =
     (if nxt = PhDone then (nxt, s)
      else case it_targets it of
        None \<Rightarrow> (nxt, s)
      | Some ts \<Rightarrow>
          (case map_of ts nxt of
             None \<Rightarrow> (nxt, s)
           | Some t \<Rightarrow>
               if t \<noteq> TgtSkipped \<and> t \<noteq> TgtOptIn then (nxt, s)
               else let s1 = emit_sdlc env it ec ev_skipped
                               (phase_data it nxt @ [(''target'', VString (target_string t))]) s
                    in case next_phase nxt of
                         None \<Rightarrow> (PhOther [], s1)
                       | Some q \<Rightarrow> auto_skip env it ec q s1))"
  by pat_completeness auto

termination
  by (relation "measure (\<lambda>(env, it, ec, nxt, s). nat (11 - phase_index nxt))")
    (auto dest: next_phase_index)

declare auto_skip.simps [simp del]

definition mark_completed :: "phase \<Rightarrow> gotime \<Rightarrow> bool \<Rightarrow> initiative \<Rightarrow> initiative" where
  "mark_completed p now overridden it =
     set_phase_state p
       (\<lambda>st. st\<lparr>ps_completed_at := Some now,
          ps_status := (if overridden then PhaseOverridden else PhasePassed)\<rparr>) it"

definition consume_override ::
  "sdlc_env \<Rightarrow> initiative \<Rightarrow> phase \<Rightarrow> complete_request \<Rightarrow> bool \<Rightarrow> sdlc_state \<Rightarrow> sdlc_state" where
  "consume_override env it p r overridden s =
     (if overridden then
        (case cp_override r of
           Some o1 \<Rightarrow>
             emit_sdlc env it (from_complete r) ev_override_consumed
               (phase_data it p @ [(''override'', VString ''phase-progression-bypass''),
                 (''override_id'', VString (oi_id o1)), (''reason'', VString (oi_reason o1))]) s
         | None \<Rightarrow> s)
      else s)"

definition enter_phase :: "phase \<Rightarrow> gotime \<Rightarrow> initiative \<Rightarrow> initiative" where
  "enter_phase nxt now it =
     (let it1 = it\<lparr>it_current := nxt\<rparr>
      in if nxt \<noteq> PhDone then
           set_phase_state nxt (\<lambda>st. st\<lparr>ps_status := PhaseInProgress, ps_entered_at := Some now\<rparr>) it1
         else it1)"

definition pass_phase ::
  "sdlc_env \<Rightarrow> initiative \<Rightarrow> phase \<Rightarrow> complete_request \<Rightarrow> bool \<Rightarrow> sdlc_state \<Rightarrow> (sdlc_error + initiative) \<times> sdlc_state" where
  "pass_phase env it p r overridden s =
     (let ec = from_complete r;
          (now, s1) = sdlc_now env s;
          it1 = mark_completed p now overridden it;
          s2 = consume_override env it1 p r overridden s1
      in case next_phase p of
           None \<Rightarrow> (Inl ErrInvalidPhase, s2)
         | Some nxt0 \<Rightarrow>
             (let from = it_current it1;
                  (nxt, s3) = auto_skip env it1 ec nxt0 s2;
                  (it2, s4) = update_initiative env (enter_phase nxt now it1) s3;
                  s5 = emit_sdlc env it2 ec ev_progressed
                         [(''initiative_id'', VString (it_id it2)), (''from'', VString (phase_string from)),
                          (''to'', VString (phase_string nxt)), (''override'', VBool overridden)] s4;
                  s6 = (if nxt \<noteq> PhDone then emit_sdlc env it2 ec ev_entered (phase_data it2 nxt) s5 else s5)
              in (Inr it2, s6)))"

definition conclude_phase ::
  "sdlc_env \<Rightarrow> initiative \<Rightarrow> phase \<Rightarrow> complete_request \<Rightarrow> gate_result list \<Rightarrow> sdlc_state \<Rightarrow>
   (sdlc_error + initiative) \<times> sdlc_state" where
  "conclude_phase env it p r results s =
     (let failed = failed_gates results;
          checked = validate_override (cp_override r);
          overridden = (checked = Inr True);
          ec = from_complete r;
          policy = effective_policy it p
      in if failed \<noteq> [] \<and> \<not> overridden then
           (case checked of
              Inl e \<Rightarrow> (Inl e, s)
            | Inr _ \<Rightarrow>
                if policy = TgtOptional then
                  pass_phase env it p r overridden
                    (emit_sdlc env it ec ev_warning
                       (phase_data it p @ [(''failed_gates'', gate_names failed),
                         (''target'', VString (target_string policy))]) s)
                else let (it1, s1) = block_phase env it p ec failed s in (Inr it1, s1))
         else pass_phase env it p r overridden s)"

definition complete_phase ::
  "sdlc_env \<Rightarrow> string \<Rightarrow> phase \<Rightarrow> complete_request \<Rightarrow> sdlc_state \<Rightarrow> (sdlc_error + initiative) \<times> sdlc_state" where
  "complete_phase env i p r s =
     (if phase_index p < 0 then (Inl ErrInvalidPhase, s)
      else case find_initiative i s of
        None \<Rightarrow> (Inl ErrInitiativeNotFound, s)
      | Some it \<Rightarrow>
          if phase_index p < phase_index (it_current it) then (Inr it, s)
          else if it_current it \<noteq> p then (Inl (ErrPhaseMismatch (it_current it) p), s)
          else case find_phase_state it p of
            None \<Rightarrow> (Inl ErrInvalidPhase, s)
          | Some _ \<Rightarrow>
              (let it1 = set_phase_state p (\<lambda>st. st\<lparr>ps_status := GatePending\<rparr>) it;
                   (res, n) = xn_evaluate env it1 p (cp_evidence r) (sd_draws s);
                   s1 = s\<lparr>sd_draws := n\<rparr>
               in case res of
                    Inl e \<Rightarrow> (Inl (ErrEvaluator e), s1)
                  | Inr results \<Rightarrow>
                      let it2 = set_phase_state p (\<lambda>st. st\<lparr>ps_gates := ps_gates st @ results\<rparr>) it1
                      in conclude_phase env it2 p r results
                           (fold (emit_gate env it2 (from_complete r) p) results s1)))"

section \<open>Going back, and events of the bus\<close>

definition regress :: "sdlc_env \<Rightarrow> string \<Rightarrow> phase \<Rightarrow> complete_request \<Rightarrow> sdlc_state \<Rightarrow> (sdlc_error + initiative) \<times> sdlc_state" where
  "regress env i to r s =
     (if phase_index to < 0 then (Inl ErrInvalidPhase, s)
      else case find_initiative i s of
        None \<Rightarrow> (Inl ErrInitiativeNotFound, s)
      | Some it \<Rightarrow>
          (let from = it_current it;
               it1 = it\<lparr>it_current := to\<rparr>;
               (it2, s1) =
                 (case find_phase_state it1 to of
                    None \<Rightarrow> (it1, s)
                  | Some _ \<Rightarrow>
                      let (now, s1) = sdlc_now env s
                      in (set_phase_state to
                            (\<lambda>st. st\<lparr>ps_status := PhaseInProgress, ps_entered_at := Some now\<rparr>) it1, s1));
               (it3, s2) = update_initiative env it2 s1
           in (Inr it3, emit_sdlc env it3 (from_complete r) ev_regressed
                 [(''initiative_id'', VString (it_id it3)), (''from'', VString (phase_string from)),
                  (''to'', VString (phase_string to))] s2)))"

definition string_from :: "obj \<Rightarrow> string \<Rightarrow> string" where
  "string_from m k = val_string (map_of m k)"

definition map_from :: "obj \<Rightarrow> string \<Rightarrow> obj" where
  "map_from m k = (case map_of m k of Some (VMap x) \<Rightarrow> x | _ \<Rightarrow> [])"

definition bus_request :: "bus_event \<Rightarrow> obj \<Rightarrow> complete_request" where
  "bus_request e evidence =
     \<lparr>cp_actor = be_actor e, cp_tenant_id = be_tenant_id e, cp_correlation_id = be_correlation_id e,
      cp_evidence = evidence, cp_override = None\<rparr>"

definition sdlc_handle_event :: "sdlc_env \<Rightarrow> bus_event \<Rightarrow> sdlc_state \<Rightarrow> (sdlc_error + initiative) \<times> sdlc_state" where
  "sdlc_handle_event env e s =
     (let i = string_from (be_data e) ''initiative_id''; named = string_from (be_data e) ''phase''
      in if i = [] then (Inl ErrInitiativeIdRequired, s)
         else case (if named = [] then map_sum (\<lambda>x. x) it_current (get_initiative i s)
                    else Inr (phase_of named)) of
           Inl err \<Rightarrow> (Inl err, s)
         | Inr p \<Rightarrow>
             if be_type e = ''sdlc.phase.regress_requested.v1''
             then regress env i (phase_of (string_from (be_data e) ''to_phase'')) (bus_request e []) s
             else complete_phase env i p (bus_request e (map_from (be_data e) ''evidence'')) s)"

end
