(* ===== verification/Sdlc_Flow.thy ===== *)
theory Sdlc_Flow
  imports Sdlc
begin

text \<open>
  What the operations of the SDLC orchestrator guarantee: how phases follow one another, what gates
  the progress of an initiative, what merging targets may do, and that an initiative with passing
  gates reaches its end.
\<close>

section \<open>Frame lemmas\<close>

lemma emit_sdlc_frame [simp]:
  "sd_initiatives (emit_sdlc env it ec ty d s) = sd_initiatives s"
  "find_initiative i (emit_sdlc env it ec ty d s) = find_initiative i s"
  "sd_draws (emit_sdlc env it ec ty d s) = sd_draws s + 2"
  by (simp_all add: emit_sdlc_def sdlc_id_def sdlc_now_def find_initiative_def)

lemma emit_gates_frame [simp]:
  "sd_initiatives (fold (emit_gate env it ec p) gs s) = sd_initiatives s"
  "sd_draws (fold (emit_gate env it ec p) gs s) = sd_draws s + 2 * length gs"
  by (induction gs arbitrary: s) (simp_all add: emit_gate_def)

lemma emit_skipped_frame:
  "sd_initiatives (emit_skipped env it ec ts p s) = sd_initiatives s"
  "sd_draws s \<le> sd_draws (emit_skipped env it ec ts p s)"
  by (simp_all add: emit_skipped_def Let_def)

lemma emit_skipped_all_frame [simp]:
  "sd_initiatives (fold (emit_skipped env it ec ts) ps s) = sd_initiatives s"
  by (induction ps arbitrary: s) (simp_all add: emit_skipped_frame)

lemma emit_skipped_draws [simp]: "sd_draws s \<le> sd_draws (fold (emit_skipped env it ec ts) ps s)"
proof (induction ps arbitrary: s)
  case (Cons p ps)
  show ?case by (simp, rule le_trans [OF emit_skipped_frame(2) Cons.IH])
qed simp

lemma auto_skip_inv:
  assumes "\<And>d s. P s \<Longrightarrow> P (emit_sdlc env it ec ev_skipped d s)"
  shows "P s \<Longrightarrow> P (snd (auto_skip env it ec nxt s))"
  using assms
proof (induction env it ec nxt s rule: auto_skip.induct)
  case (1 env it ec nxt s)
  show ?case
  proof (cases "\<exists>ts t q. nxt \<noteq> PhDone \<and> it_targets it = Some ts \<and> map_of ts nxt = Some t \<and>
      t \<in> {TgtSkipped, TgtOptIn} \<and> next_phase nxt = Some q")
    case True
    then obtain ts t q where t: "nxt \<noteq> PhDone" "it_targets it = Some ts" "map_of ts nxt = Some t"
      "\<not> (t \<noteq> TgtSkipped \<and> t \<noteq> TgtOptIn)" "next_phase nxt = Some q" by auto
    show ?thesis
      using "1.IH" [OF t(1-4) refl t(5)] "1.prems" t by (subst auto_skip.simps) auto
  next
    case False
    then show ?thesis using "1.prems" by (subst auto_skip.simps) (auto simp: Let_def split: option.split)
  qed
qed

lemma auto_skip_frame [simp]: "sd_initiatives (snd (auto_skip env it ec p s)) = sd_initiatives s"
  by (rule auto_skip_inv) simp_all

lemma auto_skip_draws [simp]: "sd_draws s \<le> sd_draws (snd (auto_skip env it ec p s))"
  by (rule auto_skip_inv) simp_all

interpretation initiatives: keyed_store "\<lambda>s i. find_initiative i s" put_initiative it_id
  by unfold_locales (simp add: find_initiative_def put_initiative_def map_of_update)

section \<open>The states of the phases\<close>

definition status_of :: "initiative \<Rightarrow> phase \<Rightarrow> phase_status option" where
  "status_of it p = map_option ps_status (find_phase_state it p)"

definition phases_of :: "initiative \<Rightarrow> phase list" where
  "phases_of it = map ps_phase (it_states it)"

lemma map_change_first: "(\<And>x. P x \<Longrightarrow> g (f x) = g x) \<Longrightarrow> map g (change_first P f xs) = map g xs"
  by (induction xs) auto

lemma find_change_first:
  "(\<And>x. h (f x) = h x) \<Longrightarrow>
   List.find (\<lambda>x. h x = b) (change_first (\<lambda>x. h x = a) f xs) =
     (if a = b then map_option f (List.find (\<lambda>x. h x = b) xs) else List.find (\<lambda>x. h x = b) xs)"
  by (induction xs) auto

lemma find_phase_None: "find_phase_state it p = None \<longleftrightarrow> p \<notin> set (phases_of it)"
  by (auto simp: find_phase_state_def phases_of_def find_None_iff)

lemma status_None: "status_of it p = None \<longleftrightarrow> p \<notin> set (phases_of it)"
  by (simp add: status_of_def find_phase_None)

lemma set_phase_state_frame [simp]:
  "it_id (set_phase_state p f it) = it_id it" "it_current (set_phase_state p f it) = it_current it"
  "it_targets (set_phase_state p f it) = it_targets it"
  "it_criticality (set_phase_state p f it) = it_criticality it"
  by (simp_all add: set_phase_state_def)

lemma set_phase_state_phases:
  "(\<And>x. ps_phase (f x) = ps_phase x) \<Longrightarrow> phases_of (set_phase_state p f it) = phases_of it"
  by (simp add: phases_of_def set_phase_state_def map_change_first)

lemma find_set_phase_state:
  "(\<And>x. ps_phase (f x) = ps_phase x) \<Longrightarrow>
   find_phase_state (set_phase_state p f it) q =
     (if p = q then map_option f (find_phase_state it q) else find_phase_state it q)"
  by (simp add: find_phase_state_def set_phase_state_def find_change_first)

lemma find_phase_fields [simp]:
  "find_phase_state (it\<lparr>it_current := q\<rparr>) p = find_phase_state it p"
  "find_phase_state (it\<lparr>it_updated_at := t\<rparr>) p = find_phase_state it p"
  "phases_of (it\<lparr>it_current := q\<rparr>) = phases_of it" "phases_of (it\<lparr>it_updated_at := t\<rparr>) = phases_of it"
  by (simp_all add: find_phase_state_def phases_of_def)

section \<open>The plan\<close>

text \<open>The plan of an initiative: its phases in order, without the ones its targets leave out.\<close>

definition left_out :: "targets option \<Rightarrow> phase \<Rightarrow> bool" where
  "left_out ts p \<longleftrightarrow> (\<exists>m. ts = Some m \<and> map_of m p \<in> {Some TgtSkipped, Some TgtOptIn})"

definition plan_from :: "targets option \<Rightarrow> phase list \<Rightarrow> phase" where
  "plan_from ts ps = (case filter (\<lambda>p. \<not> left_out ts p) ps of [] \<Rightarrow> PhDone | q # _ \<Rightarrow> q)"

text \<open>The phase after \<open>p\<close>: the first later one that is in the plan.\<close>

definition plan_after :: "targets option \<Rightarrow> phase \<Rightarrow> phase" where
  "plan_after ts p = plan_from ts (tl (dropWhile (\<lambda>q. q \<noteq> p) ordered_phases))"

lemma next_phase_tail:
  assumes "next_phase p = Some q"
  shows "tl (dropWhile (\<lambda>x. x \<noteq> p) ordered_phases) =
    (if q = PhDone then [] else q # tl (dropWhile (\<lambda>x. x \<noteq> q) ordered_phases))"
  using assms by (cases p) (auto simp: next_phase_def ordered_phases_def)

lemma phase_index_range: "p \<in> set ordered_phases \<Longrightarrow> 0 \<le> phase_index p \<and> phase_index p < phase_index PhDone"
  by (auto simp: ordered_phases_def phase_index_def)

lemma next_phase_ordered: "p \<in> set ordered_phases \<Longrightarrow> \<exists>q. next_phase p = Some q"
  by (auto simp: next_phase_def ordered_phases_def)

lemma next_phase_valid: "next_phase p = Some q \<Longrightarrow> q = PhDone \<or> next_phase q \<noteq> None"
  by (cases p) (auto simp: next_phase_def ordered_phases_def)

lemma auto_skip_plan:
  "nxt = PhDone \<or> next_phase nxt \<noteq> None \<Longrightarrow>
   fst (auto_skip env it ec nxt s) =
     (if nxt = PhDone then PhDone
      else plan_from (it_targets it) (nxt # tl (dropWhile (\<lambda>q. q \<noteq> nxt) ordered_phases)))"
proof (induction env it ec nxt s rule: auto_skip.induct)
  case (1 env it ec nxt s)
  show ?case
  proof (cases "nxt \<noteq> PhDone \<and> left_out (it_targets it) nxt")
    case False
    then show ?thesis
      by (subst auto_skip.simps)
        (auto simp: left_out_def plan_from_def split: option.splits)
  next
    case True
    then obtain ts t where t: "it_targets it = Some ts" "map_of ts nxt = Some t" "t \<in> {TgtSkipped, TgtOptIn}"
      by (auto simp: left_out_def split: option.splits)
    obtain q where q: "next_phase nxt = Some q" using "1.prems" True by auto
    have "fst (auto_skip env it ec nxt s) =
        (if q = PhDone then PhDone else plan_from (it_targets it) (q # tl (dropWhile (\<lambda>x. x \<noteq> q) ordered_phases)))"
      using "1.IH" [OF _ t(1) t(2) _ refl q] next_phase_valid [OF q] True t q
      by (subst auto_skip.simps) auto
    also have "\<dots> = plan_from (it_targets it) (nxt # tl (dropWhile (\<lambda>x. x \<noteq> nxt) ordered_phases))"
      using True next_phase_tail [OF q] by (simp add: plan_from_def)
    finally show ?thesis using True by simp
  qed
qed

lemma auto_skip_after:
  "next_phase p = Some q \<Longrightarrow> fst (auto_skip env it ec q s) = plan_after (it_targets it) p"
  using auto_skip_plan [of q env it ec s] next_phase_valid [of p q] next_phase_tail [of p q]
  by (auto simp: plan_after_def plan_from_def)

section \<open>What the operations do to an initiative\<close>

definition same_plan :: "initiative \<Rightarrow> initiative \<Rightarrow> bool" where
  "same_plan it it' \<longleftrightarrow> it_id it' = it_id it \<and> it_criticality it' = it_criticality it \<and>
     it_targets it' = it_targets it \<and> phases_of it' = phases_of it"

definition blocked_at :: "initiative \<Rightarrow> initiative \<Rightarrow> bool" where
  "blocked_at it it' \<longleftrightarrow> same_plan it it' \<and> it_current it' = it_current it \<and>
     status_of it' = (status_of it)(it_current it \<mapsto> PhaseBlocked)"

definition enter :: "phase \<Rightarrow> (phase \<rightharpoonup> phase_status) \<Rightarrow> (phase \<rightharpoonup> phase_status)" where
  "enter p m = (if p = PhDone \<or> m p = None then m else m(p \<mapsto> PhaseInProgress))"

definition passed_to :: "initiative \<Rightarrow> initiative \<Rightarrow> bool" where
  "passed_to it it' \<longleftrightarrow> same_plan it it' \<and> it_current it' = plan_after (it_targets it) (it_current it) \<and>
     (\<exists>st \<in> {PhasePassed, PhaseOverridden}.
        status_of it' = enter (it_current it') ((status_of it)(it_current it \<mapsto> st)))"

definition regressed_to :: "initiative \<Rightarrow> phase \<Rightarrow> initiative \<Rightarrow> bool" where
  "regressed_to it p it' \<longleftrightarrow> same_plan it it' \<and> it_current it' = p \<and>
     status_of it' = (if status_of it p = None then status_of it
                      else (status_of it)(p \<mapsto> PhaseInProgress))"

text \<open>A phase may be left: no gate failed, or a valid override, or the phase is optional.\<close>

definition gate_open :: "initiative \<Rightarrow> phase \<Rightarrow> complete_request \<Rightarrow> gate_result list \<Rightarrow> bool" where
  "gate_open it p r results \<longleftrightarrow> failed_gates results = [] \<or> validate_override (cp_override r) = Inr True \<or>
     validate_override (cp_override r) = Inr False \<and> effective_policy it p = TgtOptional"

lemma status_set_phase_state:
  "(\<And>x. ps_phase (f x) = ps_phase x) \<Longrightarrow> find_phase_state it p = Some st \<Longrightarrow>
   status_of (set_phase_state p f it) = (status_of it)(p \<mapsto> ps_status (f st))"
  by (rule ext) (simp add: status_of_def find_set_phase_state)

lemma status_fields [simp]:
  "status_of (it\<lparr>it_current := q\<rparr>) = status_of it" "status_of (it\<lparr>it_updated_at := t\<rparr>) = status_of it"
  by (rule ext; simp add: status_of_def)+

lemma plan_targets:
  "it_targets it' = it_targets it \<Longrightarrow> effective_policy it' p = effective_policy it p"
  by (simp add: effective_policy_def)

lemma update_initiative_effect:
  "sd_initiatives (snd (update_initiative env it s)) =
     AList.update (it_id it) (fst (update_initiative env it s)) (sd_initiatives s)"
  "\<exists>t. fst (update_initiative env it s) = it\<lparr>it_updated_at := t\<rparr>"
  "sd_draws (snd (update_initiative env it s)) = Suc (sd_draws s)"
  by (auto simp: update_initiative_def sdlc_now_def put_initiative_def Let_def)

lemma block_phase_effect:
  assumes "find_phase_state it p = Some st" "it_current it = p"
  shows "\<exists>it'. fst (block_phase env it p ec failed s) = it' \<and> blocked_at it it' \<and>
    sd_initiatives (snd (block_phase env it p ec failed s)) = AList.update (it_id it) it' (sd_initiatives s) \<and>
    sd_draws s \<le> sd_draws (snd (block_phase env it p ec failed s))"
  using assms
  by (simp add: block_phase_def Let_def case_prod_beta sdlc_now_def update_initiative_def put_initiative_def
      blocked_at_def same_plan_def set_phase_state_phases status_set_phase_state)

lemma mark_completed_frame [simp]:
  "it_id (mark_completed p t b it) = it_id it" "it_current (mark_completed p t b it) = it_current it"
  "it_targets (mark_completed p t b it) = it_targets it"
  "it_criticality (mark_completed p t b it) = it_criticality it"
  "phases_of (mark_completed p t b it) = phases_of it"
  by (simp_all add: mark_completed_def set_phase_state_phases)

lemma status_mark_completed:
  "find_phase_state it p = Some st \<Longrightarrow>
   status_of (mark_completed p t b it) = (status_of it)(p \<mapsto> (if b then PhaseOverridden else PhasePassed))"
  by (simp add: mark_completed_def status_set_phase_state)

lemma enter_phase_frame [simp]:
  "it_id (enter_phase q t it) = it_id it" "it_current (enter_phase q t it) = q"
  "it_targets (enter_phase q t it) = it_targets it"
  "it_criticality (enter_phase q t it) = it_criticality it"
  "phases_of (enter_phase q t it) = phases_of it"
  by (simp_all add: enter_phase_def set_phase_state_phases Let_def)

lemma status_set_missing:
  "(\<And>x. ps_phase (f x) = ps_phase x) \<Longrightarrow> find_phase_state it p = None \<Longrightarrow>
   status_of (set_phase_state p f it) = status_of it"
  by (rule ext) (auto simp: status_of_def find_set_phase_state)

lemma status_enter_phase: "status_of (enter_phase q t it) = enter q (status_of it)"
proof (cases "find_phase_state it q")
  case None
  then show ?thesis
    by (auto simp: enter_phase_def enter_def status_of_def [of it q] status_set_missing Let_def)
next
  case (Some st)
  then show ?thesis
    by (simp add: enter_phase_def enter_def status_set_phase_state status_of_def [of it q] Let_def)
qed

lemma consume_override_frame [simp]:
  "sd_initiatives (consume_override env it p r b s) = sd_initiatives s"
  "sd_draws s \<le> sd_draws (consume_override env it p r b s)"
  by (simp_all add: consume_override_def split: option.split)

lemma pass_phase_effect:
  assumes st: "find_phase_state it p = Some st" and cur: "it_current it = p" and nx: "next_phase p = Some q"
  shows "\<exists>it'. fst (pass_phase env it p r b s) = Inr it' \<and> passed_to it it' \<and>
    sd_initiatives (snd (pass_phase env it p r b s)) = AList.update (it_id it) it' (sd_initiatives s) \<and>
    sd_draws s \<le> sd_draws (snd (pass_phase env it p r b s))"
proof -
  define s1 where "s1 = snd (sdlc_now env s)"
  define now where "now = fst (sdlc_now env s)"
  define it1 where "it1 = mark_completed p now b it"
  define s2 where "s2 = consume_override env it1 p r b s1"
  define s3 where "s3 = snd (auto_skip env it1 (from_complete r) q s2)"
  define it3 where "it3 = enter_phase (plan_after (it_targets it) p) now it1"
  define it4 where "it4 = fst (update_initiative env it3 s3)"
  have skip: "fst (auto_skip env it1 (from_complete r) q s2) = plan_after (it_targets it) p"
    using auto_skip_after [OF nx, of env it1 "from_complete r" s2] by (simp add: it1_def)
  have "sd_draws s \<le> sd_draws s1" by (simp add: s1_def sdlc_now_def)
  also have "\<dots> \<le> sd_draws s2" by (simp add: s2_def)
  also have "\<dots> \<le> sd_draws s3" by (simp add: s3_def)
  finally have s3: "sd_initiatives s3 = sd_initiatives s" "sd_draws s \<le> sd_draws s3"
    by (simp_all add: s3_def s2_def s1_def sdlc_now_def)
  have run: "fst (pass_phase env it p r b s) = Inr it4"
    "sd_initiatives (snd (pass_phase env it p r b s)) = AList.update (it_id it3) it4 (sd_initiatives s3)"
    "sd_draws s3 \<le> sd_draws (snd (pass_phase env it p r b s))"
    using nx skip
    by (simp_all add: pass_phase_def Let_def case_prod_beta s1_def s2_def s3_def it1_def now_def it3_def it4_def
        update_initiative_effect)
  obtain t where t: "it4 = it3\<lparr>it_updated_at := t\<rparr>"
    using update_initiative_effect(2) unfolding it4_def by blast
  have ids: "it_id it4 = it_id it" "it_criticality it4 = it_criticality it" "it_targets it4 = it_targets it"
    "phases_of it4 = phases_of it" "it_current it4 = plan_after (it_targets it) p"
    by (simp_all add: t it3_def it1_def)
  have "status_of it4 = enter (plan_after (it_targets it) p) ((status_of it)(p \<mapsto> (if b then PhaseOverridden else PhasePassed)))"
    using st by (simp add: t it3_def it1_def status_enter_phase status_mark_completed)
  then have "passed_to it it4" using ids cur by (auto simp: passed_to_def same_plan_def)
  moreover have "it_id it3 = it_id it" by (simp add: it3_def it1_def)
  ultimately show ?thesis using run s3 by auto
qed

lemma block_phase_effect':
  assumes "find_phase_state it p = Some st" "it_current it = p"
  shows "blocked_at it (fst (block_phase env it p ec failed s))"
    "sd_initiatives (snd (block_phase env it p ec failed s)) =
       AList.update (it_id it) (fst (block_phase env it p ec failed s)) (sd_initiatives s)"
    "sd_draws s \<le> sd_draws (snd (block_phase env it p ec failed s))"
  using block_phase_effect [OF assms] by auto

lemma conclude_phase_effect:
  assumes st: "find_phase_state it p = Some st" and cur: "it_current it = p" and nx: "next_phase p = Some q"
  shows "(sd_initiatives (snd (conclude_phase env it p r gs s)) = sd_initiatives s \<and>
            (\<exists>e. fst (conclude_phase env it p r gs s) = Inl e) \<and> \<not> gate_open it p r gs \<or>
          (\<exists>it'. fst (conclude_phase env it p r gs s) = Inr it' \<and>
            (blocked_at it it' \<and> \<not> gate_open it p r gs \<or> passed_to it it' \<and> gate_open it p r gs) \<and>
            sd_initiatives (snd (conclude_phase env it p r gs s)) = AList.update (it_id it) it' (sd_initiatives s))) \<and>
    sd_draws s \<le> sd_draws (snd (conclude_phase env it p r gs s))"
proof (cases "gate_open it p r gs")
  case True
  then have "conclude_phase env it p r gs s \<in> (\<lambda>(b, s1). pass_phase env it p r b s1) `
      {(b, s1). sd_initiatives s1 = sd_initiatives s \<and> sd_draws s \<le> sd_draws s1}"
    by (auto simp: conclude_phase_def gate_open_def Let_def split: sum.split)
  then obtain b s1 where run: "conclude_phase env it p r gs s = pass_phase env it p r b s1"
    "sd_initiatives s1 = sd_initiatives s" "sd_draws s \<le> sd_draws s1" by auto
  show ?thesis using pass_phase_effect [OF st cur nx, of env r b s1] True unfolding run(1)
    by (auto simp: run intro: le_trans [OF run(3)])
next
  case False
  then have "failed_gates gs \<noteq> []" "validate_override (cp_override r) \<noteq> Inr True" by (auto simp: gate_open_def)
  then show ?thesis
    using False block_phase_effect' [OF st cur, where env = env and ec = "from_complete r" and failed = "failed_gates gs" and s = s]
    by (auto simp: conclude_phase_def gate_open_def Let_def case_prod_beta split: sum.split)
qed

lemma emit_gates_find [simp]:
  "find_initiative i (fold (emit_gate env it ec p) gs s) = find_initiative i s"
  by (simp add: find_initiative_def)

text \<open>The initiative that the evaluator sees.\<close>

definition pending :: "phase \<Rightarrow> initiative \<Rightarrow> initiative" where
  "pending p it = set_phase_state p (\<lambda>st. st\<lparr>ps_status := GatePending\<rparr>) it"

definition with_gates :: "phase \<Rightarrow> gate_result list \<Rightarrow> initiative \<Rightarrow> initiative" where
  "with_gates p gs it = set_phase_state p (\<lambda>st. st\<lparr>ps_gates := ps_gates st @ gs\<rparr>) (pending p it)"

lemma with_gates_frame [simp]:
  "it_id (with_gates p gs it) = it_id it" "it_current (with_gates p gs it) = it_current it"
  "it_targets (with_gates p gs it) = it_targets it" "it_criticality (with_gates p gs it) = it_criticality it"
  "phases_of (with_gates p gs it) = phases_of it"
  by (simp_all add: with_gates_def pending_def set_phase_state_phases)

lemma with_gates_status:
  assumes "find_phase_state it p = Some st"
  shows "status_of (with_gates p gs it) = (status_of it)(p \<mapsto> GatePending)"
    "\<exists>st'. find_phase_state (with_gates p gs it) p = Some st'"
  using assms
  by (simp_all add: with_gates_def pending_def status_set_phase_state find_set_phase_state)

lemma with_gates_transfer:
  assumes "find_phase_state it p = Some st" "it_current it = p"
  shows "blocked_at (with_gates p gs it) it' \<longleftrightarrow> blocked_at it it'"
    "passed_to (with_gates p gs it) it' \<longleftrightarrow> passed_to it it'"
    "gate_open (with_gates p gs it) p r gs \<longleftrightarrow> gate_open it p r gs"
  using assms plan_targets [of "with_gates p gs it" it]
  by (simp_all add: blocked_at_def passed_to_def gate_open_def same_plan_def with_gates_status)

lemma complete_phase_run:
  assumes "find_initiative i s = Some it" "it_current it = p" "0 \<le> phase_index p"
    "find_phase_state it p = Some st"
    "xn_evaluate env (pending p it) p (cp_evidence r) (sd_draws s) = (Inr gs, n)"
  shows "complete_phase env i p r s =
    conclude_phase env (with_gates p gs it) p r gs
      (fold (emit_gate env (with_gates p gs it) (from_complete r) p) gs (s\<lparr>sd_draws := n\<rparr>))"
  using assms by (simp add: complete_phase_def pending_def with_gates_def Let_def)

lemma complete_phase_stop:
  assumes "\<And>it st gs n. find_initiative i s = Some it \<Longrightarrow> it_current it = p \<Longrightarrow> 0 \<le> phase_index p \<Longrightarrow>
    find_phase_state it p = Some st \<Longrightarrow>
    xn_evaluate env (pending p it) p (cp_evidence r) (sd_draws s) = (Inr gs, n) \<Longrightarrow> False"
  shows "sd_initiatives (snd (complete_phase env i p r s)) = sd_initiatives s \<and>
    (fst (complete_phase env i p r s) = Inr it' \<longrightarrow>
       find_initiative i s = Some it' \<and> phase_index p < phase_index (it_current it'))"
proof (cases "find_initiative i s")
  case None
  then show ?thesis by (simp add: complete_phase_def)
next
  case (Some it)
  show ?thesis
  proof (cases "it_current it = p \<and> 0 \<le> phase_index p \<and> find_phase_state it p \<noteq> None")
    case False
    with Some show ?thesis by (auto simp: complete_phase_def split: option.split)
  next
    case True
    then obtain st where "find_phase_state it p = Some st" by auto
    moreover from this obtain e n where
      "xn_evaluate env (pending p it) p (cp_evidence r) (sd_draws s) = (Inl e, n)"
      using assms [OF Some] True by (metis surj_pair sumE)
    ultimately show ?thesis using Some True by (simp add: complete_phase_def pending_def Let_def)
  qed
qed

lemma complete_phase_cases:
  assumes phases: "\<And>it. find_initiative i s = Some it \<Longrightarrow> phases_of it = ordered_phases"
  obtains (unchanged) "sd_initiatives (snd (complete_phase env i p r s)) = sd_initiatives s"
      "\<And>it. fst (complete_phase env i p r s) = Inr it \<Longrightarrow>
         find_initiative i s = Some it \<and> phase_index p < phase_index (it_current it)"
      "\<And>it gs n. find_initiative i s = Some it \<Longrightarrow> it_current it = p \<Longrightarrow> p \<in> set ordered_phases \<Longrightarrow>
         xn_evaluate env (pending p it) p (cp_evidence r) (sd_draws s) = (Inr gs, n) \<Longrightarrow> \<not> gate_open it p r gs"
  | (moved) it it' gs n where "find_initiative i s = Some it" "it_current it = p" "p \<in> set ordered_phases"
      "xn_evaluate env (pending p it) p (cp_evidence r) (sd_draws s) = (Inr gs, n)"
      "fst (complete_phase env i p r s) = Inr it'"
      "sd_initiatives (snd (complete_phase env i p r s)) = AList.update (it_id it) it' (sd_initiatives s)"
      "blocked_at it it' \<and> \<not> gate_open it p r gs \<or> passed_to it it' \<and> gate_open it p r gs"
proof (cases "\<exists>it st gs n. find_initiative i s = Some it \<and> it_current it = p \<and> 0 \<le> phase_index p \<and>
    find_phase_state it p = Some st \<and>
    xn_evaluate env (pending p it) p (cp_evidence r) (sd_draws s) = (Inr gs, n)")
  case False
  show thesis
  proof (rule unchanged)
    fix it gs n
    assume it: "find_initiative i s = Some it" "it_current it = p" "p \<in> set ordered_phases"
      "xn_evaluate env (pending p it) p (cp_evidence r) (sd_draws s) = (Inr gs, n)"
    then have "find_phase_state it p \<noteq> None" using phases [OF it(1)] find_phase_None [of it p] by simp
    with False it phase_index_range [OF it(3)] show "\<not> gate_open it p r gs" by auto
  qed (use False complete_phase_stop [of i s p env r] in blast)+
next
  case True
  then obtain it st gs n where it: "find_initiative i s = Some it" "it_current it = p" "0 \<le> phase_index p"
    "find_phase_state it p = Some st"
    "xn_evaluate env (pending p it) p (cp_evidence r) (sd_draws s) = (Inr gs, n)" by auto
  have p: "p \<in> set ordered_phases" using it(4) phases [OF it(1)] find_phase_None [of it p] by auto
  then obtain q where q: "next_phase p = Some q" using next_phase_ordered by auto
  let ?it = "with_gates p gs it" and ?s = "s\<lparr>sd_draws := n\<rparr>"
  let ?C = "complete_phase env i p r s"
  obtain st' where st': "find_phase_state ?it p = Some st'" using with_gates_status [OF it(4)] by auto
  have "(sd_initiatives (snd ?C) = sd_initiatives s \<and> (\<exists>e. fst ?C = Inl e) \<and> \<not> gate_open it p r gs) \<or>
    (\<exists>it'. fst ?C = Inr it' \<and>
      (blocked_at it it' \<and> \<not> gate_open it p r gs \<or> passed_to it it' \<and> gate_open it p r gs) \<and>
      sd_initiatives (snd ?C) = AList.update (it_id it) it' (sd_initiatives s))"
    using conclude_phase_effect [OF st' _ q, of env r gs "fold (emit_gate env ?it (from_complete r) p) gs ?s"]
    by (simp add: complete_phase_run [OF it] it(2) with_gates_transfer [OF it(4,2)])
  then show thesis using it p unchanged moved by fastforce
qed

lemma regress_effect:
  "(\<exists>e. fst (regress env i q r s) = Inl e) \<and> snd (regress env i q r s) = s \<or>
   (\<exists>it it'. find_initiative i s = Some it \<and> 0 \<le> phase_index q \<and> fst (regress env i q r s) = Inr it' \<and>
      regressed_to it q it' \<and>
      sd_initiatives (snd (regress env i q r s)) = AList.update (it_id it) it' (sd_initiatives s) \<and>
      sd_draws s \<le> sd_draws (snd (regress env i q r s)))"
proof (cases "phase_index q < 0 \<or> find_initiative i s = None")
  case True
  then show ?thesis by (auto simp: regress_def)
next
  case False
  then obtain it where it: "find_initiative i s = Some it" "0 \<le> phase_index q" by auto
  show ?thesis
    using it
    by (cases "find_phase_state it q"; intro disjI2)
      (simp_all add: regress_def regressed_to_def same_plan_def update_initiative_def put_initiative_def
        sdlc_now_def Let_def status_of_def [of it q] set_phase_state_phases status_set_phase_state)
qed

lemma initial_states_phases: "map (\<lambda>p. ps_phase (initial_state ts now p)) ps = ps"
  by (induction ps) (simp_all add: initial_state_def Let_def)

definition initial_status :: "targets \<Rightarrow> phase \<Rightarrow> phase_status" where
  "initial_status ts p =
     (if p = PhProduct then PhaseInProgress else if left_out (Some ts) p then PhaseSkipped else NotStarted)"

lemma initial_state_status: "ps_status (initial_state ts now p) = initial_status ts p"
  by (simp add: initial_state_def initial_status_def target_of_def left_out_def Let_def split: option.split)

lemma find_map_states:
  "(\<And>p. ps_phase (f p) = p) \<Longrightarrow>
   List.find (\<lambda>st. ps_phase st = p) (map f ps) = (if p \<in> set ps then Some (f p) else None)"
  by (induction ps) auto

definition fresh_initiative :: "sdlc_env \<Rightarrow> create_initiative_request \<Rightarrow> sdlc_state \<Rightarrow> initiative \<Rightarrow> bool" where
  "fresh_initiative env r s it \<longleftrightarrow>
     (\<exists>ts ts'. effective_targets r = Inr (ts, ts') \<and> it_id it = xn_uuid env (Suc (sd_draws s)) \<and>
        it_targets it = Some ts \<and> it_current it = PhProduct \<and> phases_of it = ordered_phases \<and>
        status_of it = (\<lambda>p. if p \<in> set ordered_phases then Some (initial_status ts p) else None))"

lemma create_initiative_effect:
  "(\<exists>e. fst (create_initiative env r s) = Inl e) \<and> snd (create_initiative env r s) = s \<or>
   (\<exists>it. fst (create_initiative env r s) = Inr it \<and> fresh_initiative env r s it \<and>
      sd_initiatives (snd (create_initiative env r s)) = AList.update (it_id it) it (sd_initiatives s) \<and>
      Suc (sd_draws s) < sd_draws (snd (create_initiative env r s)))"
proof (cases "ci_workspace_id r = [] \<or> ci_openspec_root r = [] \<or> (\<exists>e. effective_targets r = Inl e)")
  case True
  then show ?thesis by (auto simp: create_initiative_def Let_def)
next
  case False
  then obtain ts ts' where ts: "effective_targets r = Inr (ts, ts')" by (metis surj_pair sumE)
  define it where "it = projr (fst (create_initiative env r s))"
  define s4 where "s4 = snd (create_initiative env r s)"
  have st: "ps_phase ((initial_state ts now p)\<lparr>ps_initiative_id := x\<rparr>) = p" for now p x
    by (simp add: initial_state_def Let_def)
  have "fst (create_initiative env r s) = Inr it \<and> fresh_initiative env r s it \<and>
    sd_initiatives s4 = AList.update (it_id it) it (sd_initiatives s)"
    using False ts
    by (auto simp: it_def s4_def create_initiative_def Let_def case_prod_beta insert_initiative_def
        update_initiative_def put_initiative_def sdlc_now_def sdlc_id_def fresh_initiative_def phases_of_def
        initial_states_phases status_of_def find_phase_state_def find_map_states st initial_state_status
        comp_def fun_eq_iff)
  moreover have "Suc (sd_draws s) < sd_draws s4"
    using False ts
    by (auto simp: s4_def create_initiative_def Let_def case_prod_beta insert_initiative_def
        update_initiative_def put_initiative_def sdlc_now_def sdlc_id_def
        intro!: order.strict_trans2 [OF _ emit_skipped_draws])
  ultimately show ?thesis by (auto simp: s4_def)
qed

section \<open>Operations and their invariant\<close>

datatype sdlc_op =
    OpCreate create_initiative_request
  | OpComplete string phase complete_request
  | OpRegress string phase complete_request
  | OpEvent bus_event

fun sdlc_step :: "sdlc_env \<Rightarrow> sdlc_op \<Rightarrow> sdlc_state \<Rightarrow> sdlc_state" where
  "sdlc_step env (OpCreate r) s = snd (create_initiative env r s)"
| "sdlc_step env (OpComplete i p r) s = snd (complete_phase env i p r s)"
| "sdlc_step env (OpRegress i p r) s = snd (regress env i p r s)"
| "sdlc_step env (OpEvent e) s = snd (sdlc_handle_event env e s)"

text \<open>Identifiers are never drawn twice, and the evaluator does not return draws.\<close>

definition env_ok :: "sdlc_env \<Rightarrow> bool" where
  "env_ok env \<longleftrightarrow> inj (xn_uuid env) \<and> (\<forall>it p ev n. n \<le> snd (xn_evaluate env it p ev n))"

definition initiative_ok :: "initiative \<Rightarrow> bool" where
  "initiative_ok it \<longleftrightarrow> phases_of it = ordered_phases \<and> it_targets it \<noteq> None \<and>
     (it_current it = PhDone \<or>
      it_current it \<in> set ordered_phases \<and>
      status_of it (it_current it) \<in> {Some PhaseInProgress, Some PhaseBlocked})"

definition sdlc_ok :: "sdlc_env \<Rightarrow> sdlc_state \<Rightarrow> bool" where
  "sdlc_ok env s \<longleftrightarrow> (\<forall>i it. find_initiative i s = Some it \<longrightarrow>
     it_id it = i \<and> initiative_ok it \<and> (\<exists>n < sd_draws s. i = xn_uuid env n))"

lemma sdlc_okD:
  "sdlc_ok env s \<Longrightarrow> find_initiative i s = Some it \<Longrightarrow> it_id it = i"
  "sdlc_ok env s \<Longrightarrow> find_initiative i s = Some it \<Longrightarrow> initiative_ok it"
  "sdlc_ok env s \<Longrightarrow> find_initiative i s = Some it \<Longrightarrow> phases_of it = ordered_phases"
  by (auto simp: sdlc_ok_def initiative_ok_def)

lemma sdlc_ok_update:
  assumes "sdlc_ok env s" "sd_initiatives s' = AList.update (it_id it) it (sd_initiatives s)"
    "initiative_ok it" "sd_draws s \<le> sd_draws s'"
    "find_initiative (it_id it) s \<noteq> None \<or> (\<exists>n < sd_draws s'. it_id it = xn_uuid env n)"
  shows "sdlc_ok env s'"
  unfolding sdlc_ok_def
proof (intro allI impI)
  fix i it1 assume look: "find_initiative i s' = Some it1"
  show "it_id it1 = i \<and> initiative_ok it1 \<and> (\<exists>n<sd_draws s'. i = xn_uuid env n)"
  proof (cases "i = it_id it")
    case True
    then have "it1 = it" using look assms(2) by (simp add: find_initiative_def map_of_update)
    then show ?thesis using True assms(1,3,4,5) unfolding sdlc_ok_def by (metis less_le_trans not_None_eq)
  next
    case False
    then have "find_initiative i s = Some it1"
      using look assms(2) by (simp add: find_initiative_def map_of_update)
    then show ?thesis using assms(1,4) unfolding sdlc_ok_def by (meson less_le_trans)
  qed
qed

lemma sdlc_ok_same:
  assumes "sdlc_ok env s" "sd_initiatives s' = sd_initiatives s" "sd_draws s \<le> sd_draws s'"
  shows "sdlc_ok env s'"
  using assms unfolding sdlc_ok_def find_initiative_def by (metis less_le_trans)

lemma index_ordered: "0 \<le> phase_index q \<Longrightarrow> q = PhDone \<or> q \<in> set ordered_phases"
  by (cases q) (auto simp: phase_index_def ordered_phases_def)

lemma done_not_ordered [simp]: "PhDone \<notin> set ordered_phases"
  by (simp add: ordered_phases_def)

lemma plan_after_range: "plan_after ts p = PhDone \<or> plan_after ts p \<in> set ordered_phases"
proof -
  show ?thesis
  proof (cases "filter (\<lambda>q. \<not> left_out ts q) (tl (dropWhile (\<lambda>q. q \<noteq> p) ordered_phases))")
    case (Cons q qs)
    then have "q \<in> set (tl (dropWhile (\<lambda>q. q \<noteq> p) ordered_phases))"
      by (metis filter_is_subset list.set_intros(1) subsetD)
    then have "q \<in> set (dropWhile (\<lambda>q. q \<noteq> p) ordered_phases)"
      by (cases "dropWhile (\<lambda>q. q \<noteq> p) ordered_phases") simp_all
    then have "q \<in> set ordered_phases" by (rule set_dropWhileD)
    with Cons show ?thesis by (simp add: plan_after_def plan_from_def)
  qed (simp add: plan_after_def plan_from_def)
qed

lemma passed_ok:
  assumes "initiative_ok it" "passed_to it it'"
  shows "initiative_ok it'"
proof -
  obtain st where st: "status_of it' = enter (it_current it') ((status_of it)(it_current it \<mapsto> st))"
    using assms(2) by (auto simp: passed_to_def)
  have "it_current it' \<in> set ordered_phases \<Longrightarrow> status_of it' (it_current it') = Some PhaseInProgress"
    using assms st status_None [of it "it_current it'"]
    by (auto simp: enter_def passed_to_def same_plan_def initiative_ok_def)
  then show ?thesis
    using assms plan_after_range [of "it_targets it" "it_current it"]
    by (auto simp: initiative_ok_def passed_to_def same_plan_def)
qed

lemma blocked_ok: "initiative_ok it \<Longrightarrow> blocked_at it it' \<Longrightarrow> initiative_ok it'"
  by (auto simp: initiative_ok_def blocked_at_def same_plan_def)

lemma regressed_ok: "initiative_ok it \<Longrightarrow> 0 \<le> phase_index q \<Longrightarrow> regressed_to it q it' \<Longrightarrow> initiative_ok it'"
  using index_ordered [of q] status_None [of it q]
  by (auto simp: initiative_ok_def regressed_to_def same_plan_def split: if_splits)

lemma fresh_ok: "fresh_initiative env r s it \<Longrightarrow> initiative_ok it"
  by (auto simp: fresh_initiative_def initiative_ok_def initial_status_def ordered_phases_def)

lemma handle_event_cases:
  obtains (rejected) e1 where "sdlc_handle_event env e s = (Inl e1, s)"
  | (regresses) i q r where "sdlc_handle_event env e s = regress env i q r s"
      "be_type e = ''sdlc.phase.regress_requested.v1''"
  | (completes) i p r where "sdlc_handle_event env e s = complete_phase env i p r s"
proof -
  have "(\<exists>e1. sdlc_handle_event env e s = (Inl e1, s)) \<or>
    (\<exists>i q r. sdlc_handle_event env e s = regress env i q r s \<and>
       be_type e = ''sdlc.phase.regress_requested.v1'') \<or>
    (\<exists>i p r. sdlc_handle_event env e s = complete_phase env i p r s)"
    unfolding sdlc_handle_event_def Let_def by (auto split: sum.split)
  then show thesis using that by blast
qed

lemma complete_draws:
  assumes env: "env_ok env" and ok: "sdlc_ok env s"
  shows "sd_draws s \<le> sd_draws (snd (complete_phase env i p r s))"
proof (cases "\<exists>it st. find_initiative i s = Some it \<and> it_current it = p \<and> 0 \<le> phase_index p \<and>
    find_phase_state it p = Some st")
  case False
  then show ?thesis by (auto simp: complete_phase_def split: option.split)
next
  case True
  then obtain it st where it: "find_initiative i s = Some it" "it_current it = p" "0 \<le> phase_index p"
    "find_phase_state it p = Some st" by auto
  obtain res n where res: "xn_evaluate env (pending p it) p (cp_evidence r) (sd_draws s) = (res, n)" by force
  have n: "sd_draws s \<le> n" using env res by (metis env_ok_def snd_conv)
  show ?thesis
  proof (cases res)
    case (Inl e)
    then show ?thesis using it res n by (simp add: complete_phase_def pending_def Let_def)
  next
    case (Inr gs)
    have "p \<in> set ordered_phases" using it(4) sdlc_okD(3) [OF ok it(1)] find_phase_None [of it p] by auto
    then obtain q where q: "next_phase p = Some q" using next_phase_ordered by auto
    let ?it = "with_gates p gs it"
    obtain st' where st': "find_phase_state ?it p = Some st'" using with_gates_status [OF it(4)] by auto
    show ?thesis
      using conclude_phase_effect [OF st' _ q, of env r gs
          "fold (emit_gate env ?it (from_complete r) p) gs (s\<lparr>sd_draws := n\<rparr>)"] n it(2)
        complete_phase_run [OF it res [unfolded Inr]]
      by (auto intro: le_trans)
  qed
qed

lemma sdlc_step_ok:
  assumes "env_ok env" "sdlc_ok env s"
  shows "sdlc_ok env (sdlc_step env opn s)"
proof -
  have complete: "sdlc_ok env (snd (complete_phase env i p r s))" for i p r
    using assms(2)
  proof (rule complete_phase_cases [OF sdlc_okD(3)])
    assume "sd_initiatives (snd (complete_phase env i p r s)) = sd_initiatives s"
    then show ?thesis by (rule sdlc_ok_same [OF assms(2) _ complete_draws [OF assms]])
  next
    fix it it' gs n
    assume look: "find_initiative i s = Some it"
      and store: "sd_initiatives (snd (complete_phase env i p r s)) = AList.update (it_id it) it' (sd_initiatives s)"
      and move: "blocked_at it it' \<and> \<not> gate_open it p r gs \<or> passed_to it it' \<and> gate_open it p r gs"
    have ok: "initiative_ok it'" "it_id it' = it_id it"
      using move blocked_ok passed_ok sdlc_okD(2) [OF assms(2) look]
      by (blast, metis blocked_at_def passed_to_def same_plan_def)
    show ?thesis
      by (rule sdlc_ok_update [OF assms(2) _ ok(1) complete_draws [OF assms]])
        (simp_all add: store ok(2) look sdlc_okD(1) [OF assms(2) look])
  qed
  have goback: "sdlc_ok env (snd (regress env i q r s))" for i q r
    using regress_effect [of env i q r s]
  proof
    assume "(\<exists>e. fst (regress env i q r s) = Inl e) \<and> snd (regress env i q r s) = s"
    then show ?thesis using assms(2) by simp
  next
    assume "\<exists>it it'. find_initiative i s = Some it \<and> 0 \<le> phase_index q \<and>
      fst (regress env i q r s) = Inr it' \<and> regressed_to it q it' \<and>
      sd_initiatives (snd (regress env i q r s)) = AList.update (it_id it) it' (sd_initiatives s) \<and>
      sd_draws s \<le> sd_draws (snd (regress env i q r s))"
    then obtain it it' where eff: "find_initiative i s = Some it" "0 \<le> phase_index q" "regressed_to it q it'"
      "sd_initiatives (snd (regress env i q r s)) = AList.update (it_id it) it' (sd_initiatives s)"
      "sd_draws s \<le> sd_draws (snd (regress env i q r s))" by auto
    have "initiative_ok it'" "it_id it' = it_id it"
      using regressed_ok [OF sdlc_okD(2) [OF assms(2) eff(1)] eff(2,3)] eff(3)
      by (simp_all add: regressed_to_def same_plan_def)
    then show ?thesis
      using sdlc_ok_update [OF assms(2) _ _ eff(5), of it'] eff(1,4) sdlc_okD(1) [OF assms(2) eff(1)] by simp
  qed
  have make: "sdlc_ok env (snd (create_initiative env r s))" for r
    using create_initiative_effect [of env r s]
  proof (elim disjE exE conjE)
    fix it
    assume "fresh_initiative env r s it"
      "sd_initiatives (snd (create_initiative env r s)) = AList.update (it_id it) it (sd_initiatives s)"
      "Suc (sd_draws s) < sd_draws (snd (create_initiative env r s))"
    then show ?thesis
      using sdlc_ok_update [OF assms(2), of "snd (create_initiative env r s)" it] fresh_ok
      by (auto simp: fresh_initiative_def)
  qed (use assms(2) in simp)
  show ?thesis
  proof (cases opn)
    case (OpEvent e)
    then show ?thesis
      by (cases rule: handle_event_cases [of env e s]) (simp_all add: complete goback assms(2))
  qed (simp_all add: complete goback make)
qed

interpretation sdlc: op_machine "sdlc_step env" "\<lambda>s. env_ok env \<and> sdlc_ok env s" for env
  by unfold_locales (simp add: sdlc_step_ok)

lemma new_sdlc_ok: "sdlc_ok env new_sdlc"
  by (simp add: sdlc_ok_def new_sdlc_def find_initiative_def)

section \<open>Walking the plan\<close>

lemma phases_sorted: "sorted_wrt (\<lambda>a b. phase_index a < phase_index b) (ordered_phases @ [PhDone])"
  by (simp add: ordered_phases_def phase_index_def)

lemma dropWhile_to: "p \<notin> set xs \<Longrightarrow> dropWhile (\<lambda>q. q \<noteq> p) (xs @ p # ys) = p # ys"
  by (induction xs) auto

lemma plan_after_spec:
  assumes p: "p \<in> set ordered_phases"
  shows "phase_index p < phase_index (plan_after ts p)"
    "plan_after ts p = PhDone \<or> \<not> left_out ts (plan_after ts p)"
    "\<And>x. x \<in> set ordered_phases \<Longrightarrow> phase_index p < phase_index x \<Longrightarrow>
       phase_index x < phase_index (plan_after ts p) \<Longrightarrow> left_out ts x"
proof -
  obtain xs ys where split: "ordered_phases = xs @ p # ys" "p \<notin> set xs"
    using p by (meson split_list_first)
  have ys: "tl (dropWhile (\<lambda>q. q \<noteq> p) ordered_phases) = ys"
    unfolding split(1) using split(2) by (simp add: dropWhile_to)
  define q where "q = plan_after ts p"
  have "\<exists>as bs. ys @ [PhDone] = as @ q # bs \<and> (q = PhDone \<or> \<not> left_out ts q) \<and> (\<forall>x\<in>set as. left_out ts x)"
  proof (cases "filter (\<lambda>q. \<not> left_out ts q) ys")
    case Nil
    then show ?thesis
      by (intro exI [of _ ys] exI [of _ "[]"])
        (auto simp: q_def plan_after_def plan_from_def ys filter_empty_conv)
  next
    case (Cons q' qs)
    then obtain as bs where "ys = as @ q' # bs" "\<not> left_out ts q'" "\<forall>x\<in>set as. left_out ts x"
      by (auto simp: filter_eq_Cons_iff)
    moreover have "q = q'" using Cons by (simp add: q_def plan_after_def plan_from_def ys)
    ultimately show ?thesis by auto
  qed
  then obtain as bs where q: "ys @ [PhDone] = as @ q # bs" "q = PhDone \<or> \<not> left_out ts q"
    "\<forall>x\<in>set as. left_out ts x" by auto
  have all: "ordered_phases @ [PhDone] = xs @ p # as @ q # bs"
    by (metis split(1) q(1) append_Cons append_assoc)
  have sorted: "sorted_wrt (\<lambda>a b. phase_index a < phase_index b) (xs @ p # as @ q # bs)"
    using phases_sorted unfolding all .
  show "phase_index p < phase_index (plan_after ts p)" using sorted by (simp add: sorted_wrt_append q_def)
  show "plan_after ts p = PhDone \<or> \<not> left_out ts (plan_after ts p)" using q(2) by (simp add: q_def)
  fix x assume x: "x \<in> set ordered_phases" "phase_index p < phase_index x"
    "phase_index x < phase_index (plan_after ts p)"
  have "x \<in> set (xs @ p # as @ q # bs)" using x(1) unfolding all [symmetric] by simp
  then have "x \<in> set as" using sorted x(2,3) by (auto simp: sorted_wrt_append q_def)
  with q(3) show "left_out ts x" by simp
qed

text \<open>The first phase always runs; the others unless the targets leave them out.\<close>

definition planned :: "targets option \<Rightarrow> phase \<Rightarrow> bool" where
  "planned ts p \<longleftrightarrow> p = PhProduct \<or> \<not> left_out ts p"

definition expected_status :: "initiative \<Rightarrow> phase \<Rightarrow> phase_status set" where
  "expected_status it p =
     (if \<not> planned (it_targets it) p then {PhaseSkipped}
      else if phase_index p < phase_index (it_current it) then {PhasePassed, PhaseOverridden}
      else if p = it_current it then {PhaseInProgress, PhaseBlocked}
      else {NotStarted})"

definition walked :: "initiative \<Rightarrow> bool" where
  "walked it \<longleftrightarrow> (\<forall>p \<in> set ordered_phases. \<exists>st \<in> expected_status it p. status_of it p = Some st) \<and>
     (it_current it = PhDone \<or> it_current it \<in> set ordered_phases \<and> planned (it_targets it) (it_current it))"

lemma phase_index_inj:
  "p \<in> set ordered_phases \<Longrightarrow> q \<in> set ordered_phases \<Longrightarrow> phase_index p = phase_index q \<longleftrightarrow> p = q"
  by (auto simp: ordered_phases_def phase_index_def)

lemma phase_index_product: "p \<in> set ordered_phases \<Longrightarrow> \<not> phase_index p < phase_index PhProduct"
  by (auto simp: ordered_phases_def phase_index_def)

lemma walked_fresh:
  assumes "fresh_initiative env r s it"
  shows "walked it"
  unfolding walked_def
proof (intro conjI ballI)
  fix p assume "p \<in> set ordered_phases"
  then show "\<exists>st\<in>expected_status it p. status_of it p = Some st"
    using assms phase_index_product [of p]
    by (cases "p = PhProduct")
      (auto simp: fresh_initiative_def expected_status_def initial_status_def planned_def)
qed (use assms in \<open>auto simp: fresh_initiative_def planned_def ordered_phases_def\<close>)

lemma walked_blocked: "walked it \<Longrightarrow> blocked_at it it' \<Longrightarrow> walked it'"
proof -
  assume w: "walked it" and b: "blocked_at it it'"
  then have "it_targets it' = it_targets it" "it_current it' = it_current it"
    and st: "status_of it' = (status_of it)(it_current it \<mapsto> PhaseBlocked)"
    by (simp_all add: blocked_at_def same_plan_def)
  then have "expected_status it' p = expected_status it p" for p by (simp add: expected_status_def)
  moreover have "it_current it \<in> set ordered_phases \<Longrightarrow> PhaseBlocked \<in> expected_status it (it_current it)"
    using w by (metis (no_types) done_not_ordered expected_status_def insertCI less_irrefl walked_def)
  ultimately show "walked it'"
    using w st \<open>it_targets it' = it_targets it\<close> \<open>it_current it' = it_current it\<close>
    unfolding walked_def by (metis fun_upd_other fun_upd_same)
qed

lemma walked_passed:
  assumes w: "walked it" and cur: "it_current it \<in> set ordered_phases" and move: "passed_to it it'"
  shows "walked it'"
proof -
  let ?p = "it_current it" and ?q = "it_current it'"
  have q: "?q = plan_after (it_targets it) ?p" and ts: "it_targets it' = it_targets it"
    using move by (simp_all add: passed_to_def same_plan_def)
  note spec = plan_after_spec [OF cur, where ts = "it_targets it", folded q]
  obtain st where st: "st \<in> {PhasePassed, PhaseOverridden}"
    "status_of it' = enter ?q ((status_of it)(?p \<mapsto> st))"
    using move unfolding passed_to_def by blast
  have planned: "planned (it_targets it) ?p" using w cur by (auto simp: walked_def)
  have range: "?q = PhDone \<or> ?q \<in> set ordered_phases" unfolding q by (rule plan_after_range)
  have "\<exists>u \<in> expected_status it' x. status_of it' x = Some u" if x: "x \<in> set ordered_phases" for x
  proof -
    obtain u where u: "u \<in> expected_status it x" "status_of it x = Some u"
      using w x by (auto simp: walked_def)
    have "phase_index x = phase_index ?p \<Longrightarrow> x = ?p" "phase_index x = phase_index ?q \<Longrightarrow> x = ?q"
      using phase_index_inj [OF x cur] phase_index_inj [OF x, of ?q] range phase_index_range [OF x] by auto
    then consider "x = ?p" | "x = ?q" "x \<noteq> ?p" | "phase_index x < phase_index ?p" "x \<noteq> ?p" "x \<noteq> ?q"
      | "phase_index ?p < phase_index x" "phase_index x < phase_index ?q" "x \<noteq> ?p" "x \<noteq> ?q"
      | "phase_index ?q < phase_index x" "x \<noteq> ?p" "x \<noteq> ?q"
      by (metis linorder_cases)
    then show ?thesis
    proof cases
      case 1
      then have "x \<noteq> ?q" using spec(1) by auto
      then show ?thesis
        using 1 st planned spec(1) ts by (auto simp: enter_def expected_status_def)
    next
      case 2
      then show ?thesis using u st spec(2) x ts
        by (auto simp: enter_def expected_status_def planned_def)
    next
      case 3
      then show ?thesis using u st spec(1) ts by (auto simp: enter_def expected_status_def)
    next
      case 4
      then show ?thesis using u st spec(3) [OF x] ts phase_index_product [OF cur]
        by (auto simp: enter_def expected_status_def planned_def)
    next
      case 5
      then show ?thesis using u st spec(1) ts by (auto simp: enter_def expected_status_def)
    qed
  qed
  then show ?thesis using range spec(2) ts by (auto simp: walked_def planned_def)
qed

section \<open>One operation, seen through one initiative\<close>

fun forward :: "sdlc_op \<Rightarrow> bool" where
  "forward (OpRegress i p r) = False"
| "forward (OpEvent e) = (be_type e \<noteq> ''sdlc.phase.regress_requested.v1'')"
| "forward (OpCreate r) = True"
| "forward (OpComplete i p r) = True"

definition moves :: "bool \<Rightarrow> initiative \<Rightarrow> initiative \<Rightarrow> bool" where
  "moves fwd it it' \<longleftrightarrow> blocked_at it it' \<or> passed_to it it' \<and> it_current it \<in> set ordered_phases \<or>
     \<not> fwd \<and> (\<exists>q. 0 \<le> phase_index q \<and> regressed_to it q it')"

lemma find_after_update:
  "sd_initiatives s' = AList.update k v (sd_initiatives s) \<Longrightarrow>
   find_initiative i s' = (if i = k then Some v else find_initiative i s)"
  by (simp add: find_initiative_def map_of_update)

lemma complete_initiative:
  assumes ok: "sdlc_ok env s"
  shows "find_initiative j (snd (complete_phase env i p r s)) = find_initiative j s \<or>
    (\<exists>it it'. find_initiative j s = Some it \<and>
       find_initiative j (snd (complete_phase env i p r s)) = Some it' \<and> moves True it it')"
  using ok
proof (rule complete_phase_cases [OF sdlc_okD(3)])
  assume "sd_initiatives (snd (complete_phase env i p r s)) = sd_initiatives s"
  then show ?thesis by (simp add: find_initiative_def)
next
  fix it it' gs n
  assume look: "find_initiative i s = Some it" and cur: "it_current it = p" "p \<in> set ordered_phases"
    and store: "sd_initiatives (snd (complete_phase env i p r s)) = AList.update (it_id it) it' (sd_initiatives s)"
    and move: "blocked_at it it' \<and> \<not> gate_open it p r gs \<or> passed_to it it' \<and> gate_open it p r gs"
  from move have "moves True it it'" using cur by (auto simp: moves_def)
  then show ?thesis using look store sdlc_okD(1) [OF ok look] by (auto simp: find_after_update)
qed

lemma regress_initiative:
  assumes ok: "sdlc_ok env s"
  shows "find_initiative j (snd (regress env i q r s)) = find_initiative j s \<or>
    (\<exists>it it'. find_initiative j s = Some it \<and> find_initiative j (snd (regress env i q r s)) = Some it' \<and>
       moves False it it')"
  using regress_effect [of env i q r s]
proof (elim disjE exE conjE)
  fix it it'
  assume look: "find_initiative i s = Some it" and move: "0 \<le> phase_index q" "regressed_to it q it'"
    and store: "sd_initiatives (snd (regress env i q r s)) = AList.update (it_id it) it' (sd_initiatives s)"
  from move have "moves False it it'" by (auto simp: moves_def)
  then show ?thesis using look store sdlc_okD(1) [OF ok look] by (auto simp: find_after_update)
qed simp

lemma create_initiative_step:
  assumes env: "env_ok env" and ok: "sdlc_ok env s"
  shows "find_initiative j (snd (create_initiative env r s)) = find_initiative j s \<or>
    (\<exists>it. find_initiative j s = None \<and> find_initiative j (snd (create_initiative env r s)) = Some it \<and>
       fresh_initiative env r s it)"
  using create_initiative_effect [of env r s]
proof (elim disjE exE conjE)
  fix it
  assume fresh: "fresh_initiative env r s it"
    and store: "sd_initiatives (snd (create_initiative env r s)) = AList.update (it_id it) it (sd_initiatives s)"
  have "\<not> (\<exists>n < sd_draws s. it_id it = xn_uuid env n)"
    using env fresh by (auto simp: env_ok_def fresh_initiative_def inj_eq)
  then have "find_initiative (it_id it) s = None"
    using ok unfolding sdlc_ok_def by (cases "find_initiative (it_id it) s") auto
  then show ?thesis using store fresh by (auto simp: find_after_update)
qed simp

lemma moves_mono: "moves True it it' \<Longrightarrow> moves fwd it it'"
  by (auto simp: moves_def)

lemma step_initiative:
  assumes "env_ok env" "sdlc_ok env s"
  obtains (same) "find_initiative j (sdlc_step env opn s) = find_initiative j s"
  | (fresh) r it where "find_initiative j s = None" "find_initiative j (sdlc_step env opn s) = Some it"
      "fresh_initiative env r s it"
  | (moved) it it' where "find_initiative j s = Some it" "find_initiative j (sdlc_step env opn s) = Some it'"
      "moves (forward opn) it it'"
proof (cases opn)
  case (OpCreate r)
  then show thesis using create_initiative_step [OF assms, of j r] same fresh by auto
next
  case (OpComplete i p r)
  then show thesis using complete_initiative [OF assms(2), of j i p r] same moved by auto
next
  case (OpRegress i q r)
  then show thesis using regress_initiative [OF assms(2), of j i q r] same moved by auto
next
  case (OpEvent e)
  show thesis
  proof (cases rule: handle_event_cases [of env e s])
    case (rejected e1)
    then show thesis using same OpEvent by simp
  next
    case (regresses i q r)
    then show thesis using regress_initiative [OF assms(2), of j i q r] OpEvent same moved by auto
  next
    case (completes i p r)
    then show thesis using complete_initiative [OF assms(2), of j i p r] OpEvent same moved moves_mono by auto
  qed
qed

lemma walked_step:
  assumes "env_ok env" "sdlc_ok env s" "forward opn"
    "\<And>it. find_initiative j s = Some it \<Longrightarrow> walked it" "find_initiative j (sdlc_step env opn s) = Some it'"
  shows "walked it'"
  using assms(1,2)
proof (cases rule: step_initiative [where j = j and opn = opn])
  case same
  then show ?thesis using assms(4,5) by simp
next
  case (fresh r it)
  then show ?thesis using assms(5) walked_fresh by auto
next
  case (moved it it1)
  have "walked it" "it1 = it'" using moved(1,2) assms(4,5) by simp_all
  moreover have "blocked_at it it1 \<or> passed_to it it1 \<and> it_current it \<in> set ordered_phases"
    using moved(3) assms(3) by (simp add: moves_def)
  ultimately show ?thesis using walked_blocked walked_passed by blast
qed

lemma walked_run:
  assumes "env_ok env" "sdlc_ok env s" "\<forall>opn \<in> set ops. forward opn"
    "\<And>i it. find_initiative i s = Some it \<Longrightarrow> walked it"
    "find_initiative j (fold (sdlc_step env) ops s) = Some it'"
  shows "walked it'"
  using assms(2-5)
proof (induction ops arbitrary: s)
  case (Cons opn ops)
  show ?case
  proof (rule Cons.IH)
    show "sdlc_ok env (sdlc_step env opn s)" by (rule sdlc_step_ok [OF assms(1) Cons.prems(1)])
    show "walked it" if "find_initiative i (sdlc_step env opn s) = Some it" for i it
      by (rule walked_step [OF assms(1) Cons.prems(1) _ Cons.prems(3) that]) (use Cons.prems(2) in simp_all)
  qed (use Cons.prems in simp_all)
qed simp

section \<open>The evidence evaluator\<close>

definition with_evidence :: "(nat \<Rightarrow> string) \<Rightarrow> (nat \<Rightarrow> gotime) \<Rightarrow> sdlc_env" where
  "with_evidence uuid now = \<lparr>xn_uuid = uuid, xn_now = now, xn_evaluate = evidence_evaluate uuid now\<rparr>"

lemma with_evidence_ok: "inj uuid \<Longrightarrow> env_ok (with_evidence uuid now)"
  by (simp add: env_ok_def with_evidence_def evidence_evaluate_def Let_def)

definition gate_met :: "obj \<Rightarrow> gate_definition \<Rightarrow> bool" where
  "gate_met evidence d \<longleftrightarrow>
     fst (evaluate_evidence (gd_name d) (object_key evidence (gd_name d))) = GatePassed"

lemma evaluate_evidence_outcome: "fst (evaluate_evidence g v) \<in> {GatePassed, GateFailed}"
  by (cases v) (auto simp: Let_def)

lemma evidence_results_failed:
  "failed_gates (evidence_results uuid t it p evidence ds n) = [] \<longleftrightarrow> (\<forall>d \<in> set ds. gate_met evidence d)"
proof (induction ds arbitrary: n)
  case (Cons d ds)
  obtain out reason detail where e: "evaluate_evidence (gd_name d) (object_key evidence (gd_name d)) = (out, reason, detail)"
    by (metis prod_cases3)
  have "out = GatePassed \<or> out = GateFailed"
    using evaluate_evidence_outcome [of "gd_name d" "object_key evidence (gd_name d)"] e by simp
  then show ?case using Cons.IH [of "Suc n"] e by (auto simp: failed_gates_def gate_met_def)
qed (simp add: failed_gates_def)

lemma evidence_open:
  assumes "evidence_evaluate uuid now it' p evidence n = (Inr gs, m)" "it_criticality it' = it_criticality it"
  shows "failed_gates gs = [] \<longleftrightarrow> (\<forall>d \<in> set (required_gates p (it_criticality it)). gate_met evidence d)"
  using assms by (auto simp: evidence_evaluate_def Let_def evidence_results_failed)

section \<open>The abstract plan\<close>

text \<open>
  The abstract machine: a plan position has the targets, the current phase and the status of each phase,
  where an overridden phase counts as passed. It can be blocked where it is, pass on to the next phase of
  the plan, or be sent to a phase. Events of the bus are requests to complete a phase or to go back.
\<close>

type_synonym plan_position = "targets option \<times> phase \<times> (phase \<rightharpoonup> phase_status)"

datatype plan_label = PlanStay | PlanBlock | PlanPass | PlanSend phase

fun plan_move :: "plan_label \<Rightarrow> plan_position \<Rightarrow> plan_position" where
  "plan_move PlanStay v = v"
| "plan_move PlanBlock (ts, p, m) = (ts, p, m(p \<mapsto> PhaseBlocked))"
| "plan_move PlanPass (ts, p, m) =
     (ts, plan_after ts p, enter (plan_after ts p) (m(p \<mapsto> PhasePassed)))"
| "plan_move (PlanSend q) (ts, p, m) = (ts, q, if m q = None then m else m(q \<mapsto> PhaseInProgress))"

definition request_of :: "sdlc_op \<Rightarrow> sdlc_state \<Rightarrow> sdlc_op option" where
  "request_of opn s =
     (case opn of
        OpEvent e \<Rightarrow>
          (let i = string_from (be_data e) ''initiative_id''; named = string_from (be_data e) ''phase''
           in if i = [] \<or> named = [] \<and> find_initiative i s = None then None
              else if be_type e = ''sdlc.phase.regress_requested.v1''
              then Some (OpRegress i (phase_of (string_from (be_data e) ''to_phase'')) (bus_request e []))
              else Some (OpComplete i
                     (if named = [] then it_current (the (find_initiative i s)) else phase_of named)
                     (bus_request e (map_from (be_data e) ''evidence''))))
      | _ \<Rightarrow> Some opn)"

lemma request_runs:
  "sdlc_step env opn s = (case request_of opn s of None \<Rightarrow> s | Some o1 \<Rightarrow> sdlc_step env o1 s)"
  "request_of opn s \<noteq> Some (OpEvent e)"
  by (cases opn; auto simp: request_of_def sdlc_handle_event_def get_initiative_def Let_def split: option.splits)+

text \<open>When the current phase may be left: every required gate is met, or a release manager has overridden
  the gates, or the phase is optional and no override was attempted.\<close>

definition may_leave :: "initiative \<Rightarrow> complete_request \<Rightarrow> bool" where
  "may_leave it r \<longleftrightarrow>
     (\<forall>d \<in> set (required_gates (it_current it) (it_criticality it)). gate_met (cp_evidence r) d) \<or>
     validate_override (cp_override r) = Inr True \<or>
     validate_override (cp_override r) = Inr False \<and> effective_policy it (it_current it) = TgtOptional"

definition plan_label :: "string \<Rightarrow> sdlc_op \<Rightarrow> sdlc_state \<Rightarrow> plan_label" where
  "plan_label i opn s =
     (case (find_initiative i s, request_of opn s) of
        (Some it, Some (OpComplete j p r)) \<Rightarrow>
          if j \<noteq> i \<or> p \<noteq> it_current it \<or> p = PhDone then PlanStay
          else if may_leave it r then PlanPass
          else (case validate_override (cp_override r) of Inl e \<Rightarrow> PlanStay | Inr b \<Rightarrow> PlanBlock)
      | (Some it, Some (OpRegress j q r)) \<Rightarrow>
          if j \<noteq> i \<or> phase_index q < 0 then PlanStay else PlanSend q
      | _ \<Rightarrow> PlanStay)"

definition plan_view :: "string \<Rightarrow> sdlc_state \<Rightarrow> plan_position option" where
  "plan_view i s = map_option (\<lambda>it. (it_targets it, it_current it,
     \<lambda>p. map_option (\<lambda>st. if st = PhaseOverridden then PhasePassed else st) (status_of it p)))
     (find_initiative i s)"

text \<open>The position an operation creates under the identifier \<open>i\<close>.\<close>

definition plan_start :: "sdlc_env \<Rightarrow> string \<Rightarrow> sdlc_op \<Rightarrow> sdlc_state \<Rightarrow> plan_position option" where
  "plan_start env i opn s =
     (case opn of
        OpCreate r \<Rightarrow>
          if ci_workspace_id r = [] \<or> ci_openspec_root r = [] \<or> i \<noteq> xn_uuid env (Suc (sd_draws s)) then None
          else (case effective_targets r of
                  Inl e \<Rightarrow> None
                | Inr (ts, written) \<Rightarrow>
                    Some (Some ts, PhProduct,
                      \<lambda>p. if p \<in> set ordered_phases then Some (initial_status ts p) else None))
      | _ \<Rightarrow> None)"

lemma conclude_answer:
  "\<not> gate_open it p r gs \<Longrightarrow> isl (fst (conclude_phase env it p r gs s)) = isl (validate_override (cp_override r))"
  by (auto simp: conclude_phase_def gate_open_def Let_def case_prod_beta split: sum.split)

lemma complete_answer:
  assumes "find_initiative i s = Some it" "it_current it = p" "p \<in> set ordered_phases" "phases_of it = ordered_phases"
    "xn_evaluate env (pending p it) p (cp_evidence r) (sd_draws s) = (Inr gs, n)" "\<not> gate_open it p r gs"
  shows "isl (fst (complete_phase env i p r s)) = isl (validate_override (cp_override r))"
proof -
  obtain st where st: "find_phase_state it p = Some st"
    using assms(3,4) find_phase_None [of it p] by (cases "find_phase_state it p") auto
  have idx: "0 \<le> phase_index p" using phase_index_range [OF assms(3)] by simp
  have "\<not> gate_open (with_gates p gs it) p r gs" using assms(6) by (simp add: with_gates_transfer [OF st assms(2)])
  then show ?thesis unfolding complete_phase_run [OF assms(1,2) idx st assms(5)] by (rule conclude_answer)
qed

lemma gate_open_iff:
  assumes "xn_evaluate (with_evidence uuid now) (pending (it_current it) it) (it_current it) (cp_evidence r) d = (Inr gs, n)"
  shows "gate_open it (it_current it) r gs \<longleftrightarrow> may_leave it r"
  using assms evidence_open [of uuid now "pending (it_current it) it" "it_current it" "cp_evidence r" d gs n it]
  by (simp add: gate_open_def may_leave_def with_evidence_def pending_def)

lemma evaluates: "\<exists>gs n. xn_evaluate (with_evidence uuid now) it p e d = (Inr gs, n)"
  by (simp add: with_evidence_def evidence_evaluate_def Let_def)

text \<open>How the moves of an initiative look in its view.\<close>

abbreviation merged :: "phase_status \<Rightarrow> phase_status" where
  "merged st \<equiv> (if st = PhaseOverridden then PhasePassed else st)"

definition position :: "initiative \<Rightarrow> plan_position" where
  "position it = (it_targets it, it_current it, \<lambda>p. map_option merged (status_of it p))"

lemma plan_view_alt: "plan_view i s = map_option position (find_initiative i s)"
  by (cases "find_initiative i s") (simp_all add: plan_view_def position_def)

lemma move_blocked: "blocked_at it it' \<Longrightarrow> position it' = plan_move PlanBlock (position it)"
  by (auto simp: position_def blocked_at_def same_plan_def)

lemma move_passed: "passed_to it it' \<Longrightarrow> position it' = plan_move PlanPass (position it)"
  by (auto simp: position_def passed_to_def same_plan_def enter_def)

lemma move_sent: "regressed_to it q it' \<Longrightarrow> position it' = plan_move (PlanSend q) (position it)"
  by (auto simp: position_def regressed_to_def same_plan_def)

definition complete_label :: "string \<Rightarrow> string \<Rightarrow> phase \<Rightarrow> complete_request \<Rightarrow> initiative \<Rightarrow> plan_label" where
  "complete_label i j p r it =
     (if j \<noteq> i \<or> p \<noteq> it_current it \<or> p = PhDone then PlanStay
      else if may_leave it r then PlanPass
      else (case validate_override (cp_override r) of Inl e \<Rightarrow> PlanStay | Inr b \<Rightarrow> PlanBlock))"

lemma complete_moves:
  assumes env: "env = with_evidence uuid now" and ok: "sdlc_ok env s" and look: "find_initiative i s = Some it"
  shows "\<exists>it'. find_initiative i (snd (complete_phase env j p r s)) = Some it' \<and>
    position it' = plan_move (complete_label i j p r it) (position it)"
proof (rule complete_phase_cases [of j s env p r])
  assume same: "sd_initiatives (snd (complete_phase env j p r s)) = sd_initiatives s"
    and answer: "\<And>it1. fst (complete_phase env j p r s) = Inr it1 \<Longrightarrow>
      find_initiative j s = Some it1 \<and> phase_index p < phase_index (it_current it1)"
    and shut: "\<And>it1 gs n. find_initiative j s = Some it1 \<Longrightarrow> it_current it1 = p \<Longrightarrow> p \<in> set ordered_phases \<Longrightarrow>
      xn_evaluate env (pending p it1) p (cp_evidence r) (sd_draws s) = (Inr gs, n) \<Longrightarrow> \<not> gate_open it1 p r gs"
  have "complete_label i j p r it = PlanStay"
  proof (cases "j = i \<and> p = it_current it \<and> p \<noteq> PhDone")
    case True
    then have p: "p \<in> set ordered_phases" using sdlc_okD(2) [OF ok look] by (auto simp: initiative_ok_def)
    obtain gs n where eval: "xn_evaluate env (pending p it) p (cp_evidence r) (sd_draws s) = (Inr gs, n)"
      unfolding env using evaluates by blast
    have closed: "\<not> gate_open it p r gs" using shut [OF _ _ p eval] look True by simp
    then have "\<not> may_leave it r" using eval True gate_open_iff [of uuid now it r "sd_draws s" gs n] by (simp add: env)
    moreover have "isl (fst (complete_phase env j p r s))"
      using answer look True by (cases "fst (complete_phase env j p r s)") auto
    then have "isl (validate_override (cp_override r))"
      using complete_answer [OF _ _ p sdlc_okD(3) [OF ok look] eval closed, of j] look True by simp
    ultimately show ?thesis using True by (auto simp: complete_label_def split: sum.splits)
  qed (simp add: complete_label_def)
  then show ?thesis using same look by (simp add: find_initiative_def)
next
  fix it1 it' gs n
  assume look1: "find_initiative j s = Some it1" "it_current it1 = p" "p \<in> set ordered_phases"
    and eval: "xn_evaluate env (pending p it1) p (cp_evidence r) (sd_draws s) = (Inr gs, n)"
    and res: "fst (complete_phase env j p r s) = Inr it'"
    and store: "sd_initiatives (snd (complete_phase env j p r s)) = AList.update (it_id it1) it' (sd_initiatives s)"
    and move: "blocked_at it1 it' \<and> \<not> gate_open it1 p r gs \<or> passed_to it1 it' \<and> gate_open it1 p r gs"
  note after = find_after_update [OF store, of i, unfolded sdlc_okD(1) [OF ok look1(1)]]
  show ?thesis
  proof (cases "j = i")
    case False
    then show ?thesis using after look by (simp add: complete_label_def)
  next
    case True
    then have same: "it1 = it" using look look1(1) by simp
    have gate: "gate_open it p r gs \<longleftrightarrow> may_leave it r"
      using eval look1(2) gate_open_iff [of uuid now it r "sd_draws s" gs n] by (simp add: env same)
    have "\<not> gate_open it p r gs \<Longrightarrow> \<not> isl (validate_override (cp_override r))"
      using complete_answer [OF look1 sdlc_okD(3) [OF ok look1(1)] eval] res same by simp
    then have "position it' = plan_move (complete_label i j p r it) (position it)"
      using move gate True look1(2,3) same
      by (auto simp: complete_label_def dest: move_blocked move_passed split: sum.splits)
    then show ?thesis using after True by simp
  qed
qed (rule sdlc_okD(3) [OF ok])

lemma regress_moves:
  assumes ok: "sdlc_ok env s" and look: "find_initiative i s = Some it"
  shows "\<exists>it'. find_initiative i (snd (regress env j q r s)) = Some it' \<and>
    position it' = plan_move (if j \<noteq> i \<or> phase_index q < 0 then PlanStay else PlanSend q) (position it)"
proof (cases "0 \<le> phase_index q \<and> j = i")
  case False
  then show ?thesis
    using regress_effect [of env j q r s] look sdlc_okD(1) [OF ok] by (auto simp: find_after_update)
next
  case True
  have "fst (regress env j q r s) \<noteq> Inl e" for e
    using True look by (simp add: regress_def Let_def split_beta)
  then obtain it' where "regressed_to it q it'"
    "sd_initiatives (snd (regress env j q r s)) = AList.update (it_id it) it' (sd_initiatives s)"
    using regress_effect [of env j q r s] look True by auto
  then show ?thesis using True look sdlc_okD(1) [OF ok look] by (auto simp: find_after_update dest: move_sent)
qed

lemma step_moves:
  assumes env: "env = with_evidence uuid now" "env_ok env" and ok: "sdlc_ok env s" and look: "find_initiative i s = Some it"
  shows "\<exists>it'. find_initiative i (sdlc_step env opn s) = Some it' \<and>
    position it' = plan_move (plan_label i opn s) (position it)"
proof (cases "request_of opn s")
  case None
  then show ?thesis using look request_runs(1) [of env opn s] by (simp add: plan_label_def)
next
  case (Some o1)
  have run: "sdlc_step env opn s = sdlc_step env o1 s" using request_runs(1) [of env opn s] Some by simp
  have no_event: "o1 \<noteq> OpEvent e" for e using request_runs(2) [of opn s e] Some by simp
  show ?thesis
  proof (cases o1)
    case (OpCreate r)
    then have "find_initiative i (sdlc_step env o1 s) = Some it"
      using create_initiative_step [OF env(2) ok, of i r] look by auto
    then show ?thesis using look Some OpCreate run by (simp add: plan_label_def)
  next
    case (OpComplete j p r)
    then show ?thesis
      using complete_moves [OF env(1) ok look, of j p r] look Some run by (simp add: plan_label_def complete_label_def)
  next
    case (OpRegress j q r)
    then show ?thesis using regress_moves [OF ok look, of j q r] look Some run by (simp add: plan_label_def)
  qed (use no_event in blast)
qed

section \<open>Merging targets\<close>

lemma target_of_update: "target_of (AList.update p t m) q = (if q = p then t else target_of m q)"
  by (simp add: target_of_def map_of_update)

lemma merge_overrides_spec:
  "distinct (map fst ov) \<Longrightarrow>
   (case merge_overrides m ov of
      Inl e \<Rightarrow> (\<exists>(p, t) \<in> set ov. target_rank t < target_rank (target_of m p) \<and>
                 e = ErrCannotRelaxRequired p (target_of m p) t)
    | Inr m' \<Rightarrow> (\<forall>(p, t) \<in> set ov. target_rank (target_of m p) \<le> target_rank t) \<and>
        (\<forall>p. target_of m' p = (case map_of ov p of Some t \<Rightarrow> t | None \<Rightarrow> target_of m p)))"
proof (induction m ov rule: merge_overrides.induct)
  case (2 m p t ov)
  have fresh: "p \<notin> fst ` set ov" and rest: "distinct (map fst ov)" using "2.prems" by auto
  show ?case
  proof (cases "target_rank t < target_rank (target_of m p)")
    case False
    have other: "target_of (AList.update p t m) q = target_of m q" if "(q, u) \<in> set ov" for q u
      using fresh that by (force simp: target_of_update)
    have unbound: "map_of ov p = None" using fresh by (simp add: map_of_eq_None_iff)
    let ?m = "AList.update p t m"
    have run: "merge_overrides m ((p, t) # ov) = merge_overrides ?m ov" using False by (simp add: Let_def)
    note IH = "2.IH" [OF refl False rest]
    show ?thesis
    proof (cases "merge_overrides ?m ov")
      case (Inl e)
      then obtain q u where "(q, u) \<in> set ov" "target_rank u < target_rank (target_of m q)"
        "e = ErrCannotRelaxRequired q (target_of m q) u"
        using IH other by fastforce
      then show ?thesis unfolding run Inl by auto
    next
      case (Inr m')
      then have "\<forall>(q, u) \<in> set ov. target_rank (target_of m q) \<le> target_rank u"
        "\<forall>q. target_of m' q = (case map_of ov q of Some u \<Rightarrow> u | None \<Rightarrow> target_of ?m q)"
        using IH other by fastforce+
      then show ?thesis unfolding run Inr using False unbound by (simp add: target_of_update split: option.split)
    qed
  qed (simp add: Let_def)
qed simp

text \<open>Evidence that meets every gate.\<close>

definition full_evidence :: obj where
  "full_evidence = map (\<lambda>d. (gd_name d, VBool True)) (concat (map all_gates ordered_phases))"

lemma map_of_const: "k \<in> f ` set xs \<Longrightarrow> map_of (map (\<lambda>x. (f x, c)) xs) k = Some c"
  by (induction xs) auto

lemma full_evidence_met: "d \<in> set (required_gates p c) \<Longrightarrow> gate_met full_evidence d"
proof -
  assume "d \<in> set (required_gates p c)"
  then have "d \<in> set (all_gates p)" by (simp add: required_gates_def)
  moreover have "all_gates p \<noteq> [] \<Longrightarrow> p \<in> set ordered_phases" by (cases p) (simp_all add: ordered_phases_def)
  ultimately have "map_of full_evidence (gd_name d) = Some (VBool True)"
    unfolding full_evidence_def by (intro map_of_const) force
  then show ?thesis by (simp add: gate_met_def object_key_def)
qed

lemma pending_criticality [simp]: "it_criticality (pending p it) = it_criticality it"
  by (simp add: pending_def)

text \<open>Completing the current phase, again and again.\<close>

fun drive :: "sdlc_env \<Rightarrow> string \<Rightarrow> complete_request \<Rightarrow> nat \<Rightarrow> sdlc_state \<Rightarrow> sdlc_state" where
  "drive env i r 0 s = s"
| "drive env i r (Suc n) s =
     (case find_initiative i s of
        None \<Rightarrow> s
      | Some it \<Rightarrow> drive env i r n (sdlc_step env (OpComplete i (it_current it) r) s))"

lemma complete_done:
  assumes "find_initiative i s = Some it" "phases_of it = ordered_phases" "it_current it = PhDone"
  shows "complete_phase env i PhDone r s = (Inl ErrInvalidPhase, s)"
proof -
  have "find_phase_state it PhDone = None" using assms(2) by (simp add: find_phase_None)
  moreover have "\<not> phase_index PhDone < 0" by (simp add: phase_index_def)
  ultimately show ?thesis using assms by (simp add: complete_phase_def)
qed

lemma complete_progress:
  assumes ok: "sdlc_ok env s" and look: "find_initiative i s = Some it"
    and cur: "it_current it \<in> set ordered_phases"
    and pass: "\<exists>gs n. xn_evaluate env (pending (it_current it) it) (it_current it) (cp_evidence r) (sd_draws s) = (Inr gs, n)
      \<and> gate_open it (it_current it) r gs"
  shows "\<exists>it'. fst (complete_phase env i (it_current it) r s) = Inr it' \<and>
    find_initiative i (snd (complete_phase env i (it_current it) r s)) = Some it' \<and> passed_to it it'"
proof -
  have phases: "phases_of it1 = ordered_phases" if "find_initiative i s = Some it1" for it1
    by (rule sdlc_okD(3) [OF ok that])
  show ?thesis
  proof (rule complete_phase_cases [of i s env "it_current it" r])
    assume "\<And>it1 gs n. find_initiative i s = Some it1 \<Longrightarrow> it_current it1 = it_current it \<Longrightarrow>
      it_current it \<in> set ordered_phases \<Longrightarrow>
      xn_evaluate env (pending (it_current it) it1) (it_current it) (cp_evidence r) (sd_draws s) = (Inr gs, n) \<Longrightarrow>
      \<not> gate_open it1 (it_current it) r gs"
    then show ?thesis using look cur pass by blast
  next
    fix it1 it' gs n
    assume "find_initiative i s = Some it1" "fst (complete_phase env i (it_current it) r s) = Inr it'"
      "xn_evaluate env (pending (it_current it) it1) (it_current it) (cp_evidence r) (sd_draws s) = (Inr gs, n)"
      "sd_initiatives (snd (complete_phase env i (it_current it) r s)) = AList.update (it_id it1) it' (sd_initiatives s)"
      "blocked_at it1 it' \<and> \<not> gate_open it1 (it_current it) r gs \<or>
       passed_to it1 it' \<and> gate_open it1 (it_current it) r gs"
    then show ?thesis
      using look pass sdlc_okD(1) [OF ok look] by (auto simp: find_after_update)
  qed (use phases in blast)+
qed

lemma complete_passing:
  assumes "sdlc_ok env s" "find_initiative i s = Some it" "it_current it \<in> set ordered_phases"
    "\<exists>gs n. xn_evaluate env (pending (it_current it) it) (it_current it) (cp_evidence r) (sd_draws s) = (Inr gs, n)
      \<and> failed_gates gs = []"
  shows "\<exists>it'. fst (complete_phase env i (it_current it) r s) = Inr it' \<and>
    find_initiative i (snd (complete_phase env i (it_current it) r s)) = Some it' \<and> passed_to it it'"
  by (rule complete_progress [OF assms(1-3)]) (use assms(4) in \<open>auto simp: gate_open_def\<close>)

lemma drive_done:
  assumes ok: "env_ok env" and pass: "\<And>it p m. p \<in> set ordered_phases \<Longrightarrow>
      \<exists>gs k. xn_evaluate env it p (cp_evidence r) m = (Inr gs, k) \<and> failed_gates gs = []"
  shows "sdlc_ok env s \<Longrightarrow> find_initiative i s = Some it \<Longrightarrow>
    phase_index PhDone \<le> phase_index (it_current it) + int n \<Longrightarrow>
    \<exists>it'. find_initiative i (drive env i r n s) = Some it' \<and> it_current it' = PhDone"
proof (induction n arbitrary: s it)
  case 0
  then have "it_current it = PhDone"
    using sdlc_okD(2) phase_index_range [of "it_current it"] by (force simp: initiative_ok_def)
  with 0 show ?case by simp
next
  case (Suc n)
  have init: "initiative_ok it" by (rule sdlc_okD(2) [OF Suc.prems(1,2)])
  let ?s = "sdlc_step env (OpComplete i (it_current it) r) s"
  have ok': "sdlc_ok env ?s" by (rule sdlc_step_ok [OF ok Suc.prems(1)])
  show ?case
  proof (cases "it_current it = PhDone")
    case True
    then have "?s = s"
      using complete_done [OF Suc.prems(2) sdlc_okD(3) [OF Suc.prems(1,2)] True, of env r] by simp
    then show ?thesis using Suc.IH [OF Suc.prems(1,2)] True Suc.prems(2) by simp
  next
    case False
    then have cur: "it_current it \<in> set ordered_phases" using init by (simp add: initiative_ok_def)
    obtain it' where it': "find_initiative i ?s = Some it'" "passed_to it it'"
      using complete_passing [OF Suc.prems(1,2) cur pass [OF cur]] by auto
    have "phase_index (it_current it) < phase_index (it_current it')"
      using plan_after_spec(1) [OF cur] it'(2) by (simp add: passed_to_def)
    then show ?thesis using Suc.IH [OF ok' it'(1)] Suc.prems(2,3) by simp
  qed
qed

section \<open>A sample run\<close>

lemma create_succeeds:
  assumes "ci_workspace_id r \<noteq> []" "ci_openspec_root r \<noteq> []" "effective_targets r = Inr (ts, x)"
  shows "\<exists>it. fst (create_initiative env r s) = Inr it \<and> it_id it = xn_uuid env (Suc (sd_draws s)) \<and>
    find_initiative (xn_uuid env (Suc (sd_draws s))) (snd (create_initiative env r s)) = Some it \<and>
    fresh_initiative env r s it"
proof -
  have "\<nexists>e. fst (create_initiative env r s) = Inl e"
    using assms by (simp add: create_initiative_def Let_def case_prod_beta)
  then show ?thesis using create_initiative_effect [of env r s] by (auto simp: find_after_update fresh_initiative_def)
qed

definition demo_create :: create_initiative_request where
  "demo_create =
     \<lparr>ci_workspace_id = ''team'', ci_openspec_root = ''specs'', ci_jira_epic_key = [],
      ci_criticality = ''high'', ci_actor = [], ci_tenant_id = [], ci_correlation_id = [],
      ci_targets = None, ci_targets_override = None, ci_include = []\<rparr>"

definition demo_complete :: complete_request where
  "demo_complete =
     \<lparr>cp_actor = [], cp_tenant_id = [], cp_correlation_id = [], cp_evidence = full_evidence,
      cp_override = None\<rparr>"

definition demo_uuid :: "nat \<Rightarrow> string" where
  "demo_uuid n = replicate n (CHR ''a'')"

definition demo_env :: sdlc_env where
  "demo_env = with_evidence demo_uuid int"

definition demo_state :: sdlc_state where
  "demo_state = fold (sdlc_step demo_env) [OpCreate demo_create] new_sdlc"

lemma demo_uuid_inj: "inj demo_uuid"
  by (rule injI) (metis demo_uuid_def length_replicate)

lemma demo_ok: "sdlc_ok demo_env demo_state"
  unfolding demo_state_def
  using sdlc.run_inv [of demo_env new_sdlc] with_evidence_ok [OF demo_uuid_inj] new_sdlc_ok
  unfolding demo_env_def by blast

lemma demo_created:
  obtains it where "find_initiative (demo_uuid 1) demo_state = Some it" "it_current it = PhProduct"
    "it_targets it = Some default_targets"
proof -
  have "effective_targets demo_create = Inr (default_targets, None)"
    by (simp add: effective_targets_def demo_create_def promote_def)
  then show thesis
    using create_succeeds [of demo_create default_targets None demo_env new_sdlc] that
    by (auto simp: demo_state_def demo_create_def fresh_initiative_def demo_env_def with_evidence_def new_sdlc_def)
qed

lemma evidence_passes:
  assumes "cp_evidence r = full_evidence"
  shows "\<exists>gs k. xn_evaluate (with_evidence uuid now) it p (cp_evidence r) m = (Inr gs, k) \<and> failed_gates gs = []"
  using full_evidence_met
  by (simp add: assms with_evidence_def evidence_evaluate_def Let_def evidence_results_failed)

lemma demo_passed:
  obtains it it' s' where "find_initiative (demo_uuid 1) demo_state = Some it" "it_current it = PhProduct"
    "complete_phase demo_env (demo_uuid 1) PhProduct demo_complete demo_state = (Inr it', s')"
    "find_initiative (demo_uuid 1) s' = Some it'" "it_current it' \<noteq> PhProduct"
proof -
  obtain it where it: "find_initiative (demo_uuid 1) demo_state = Some it" "it_current it = PhProduct"
    by (rule demo_created)
  have cur: "it_current it \<in> set ordered_phases" using it(2) by (simp add: ordered_phases_def)
  have "\<exists>gs k. xn_evaluate demo_env (pending PhProduct it) PhProduct (cp_evidence demo_complete) m = (Inr gs, k) \<and>
      failed_gates gs = []" for m
    unfolding demo_env_def by (rule evidence_passes) (simp add: demo_complete_def)
  then obtain it' where it': "passed_to it it'"
    "fst (complete_phase demo_env (demo_uuid 1) PhProduct demo_complete demo_state) = Inr it'"
    "find_initiative (demo_uuid 1)
      (snd (complete_phase demo_env (demo_uuid 1) PhProduct demo_complete demo_state)) = Some it'"
    using complete_passing [OF demo_ok it(1) cur, where r = demo_complete] by (auto simp: it(2))
  have "phase_index PhProduct < phase_index (it_current it')"
    using plan_after_spec(1) [OF cur] it'(1) it(2) by (simp add: passed_to_def)
  then have "it_current it' \<noteq> PhProduct" by auto
  then show thesis using that it it' by (metis prod.collapse)
qed

section \<open>Properties\<close>

lemma reachable_sdlc:
  assumes "inj uuid" "env = with_evidence uuid now" "s = fold (sdlc_step env) ops new_sdlc"
  shows "env_ok env" "sdlc_ok env s"
proof -
  show env: "env_ok env" using assms(1,2) with_evidence_ok by simp
  then show "sdlc_ok env s" using sdlc.run_inv [of env new_sdlc ops] new_sdlc_ok assms(3) by simp
qed

text \<open>C2: In every reachable state there are two ways for an operation, a call or an event of the bus, to
  take an initiative out of its phase. A request to complete exactly that phase does, when every required
  gate has passing evidence, or a release manager's valid override was given, or the phase is optional
  and no override was attempted; and then the initiative moves to the next phase of its plan, never past
  one. Or a request to send it to a known phase does; that request needs no gate, and although it is
  called a regression the phase may lie ahead, or be the end.\<close>

theorem phase_left_only_when_gated:
  assumes "inj uuid" "env = with_evidence uuid now" "s = fold (sdlc_step env) ops new_sdlc"
    and before: "find_initiative i s = Some it"
    and after: "find_initiative i (sdlc_step env opn s) = Some it'"
    and moved: "it_current it' \<noteq> it_current it"
  shows "(\<exists>r. request_of opn s = Some (OpComplete i (it_current it) r) \<and>
      it_current it' = plan_after (it_targets it) (it_current it) \<and>
      ((\<forall>d \<in> set (required_gates (it_current it) (it_criticality it)). gate_met (cp_evidence r) d) \<or>
       validate_override (cp_override r) = Inr True \<or>
       validate_override (cp_override r) = Inr False \<and> effective_policy it (it_current it) = TgtOptional)) \<or>
    (\<exists>r. request_of opn s = Some (OpRegress i (it_current it') r) \<and> 0 \<le> phase_index (it_current it'))"
proof -
  note ok = reachable_sdlc [OF assms(1-3)]
  obtain it1 where "find_initiative i (sdlc_step env opn s) = Some it1"
    "position it1 = plan_move (plan_label i opn s) (position it)"
    using step_moves [OF assms(2) ok before] by blast
  with after have view: "position it' = plan_move (plan_label i opn s) (position it)" by simp
  show ?thesis
  proof (cases "plan_label i opn s")
    case PlanPass
    then obtain r where r: "request_of opn s = Some (OpComplete i (it_current it) r)" "may_leave it r"
      using before by (auto simp: plan_label_def split: option.splits sdlc_op.splits sum.splits if_splits)
    moreover have "it_current it' = plan_after (it_targets it) (it_current it)"
      using view PlanPass by (simp add: position_def)
    ultimately show ?thesis unfolding may_leave_def by blast
  next
    case (PlanSend q)
    then have "it_current it' = q" using view by (simp add: position_def)
    moreover obtain r where "request_of opn s = Some (OpRegress i q r)" "0 \<le> phase_index q"
      using before PlanSend by (auto simp: plan_label_def split: option.splits sdlc_op.splits sum.splits if_splits)
    ultimately show ?thesis by blast
  qed (use view moved in \<open>simp_all add: position_def\<close>)
qed

text \<open>An operation other than a creation brings up no initiative; a creation brings up the one it describes.\<close>

lemma absent_step:
  assumes ok: "sdlc_ok env s" and "\<And>r. opn \<noteq> OpCreate r" and none: "find_initiative i s = None"
  shows "find_initiative i (sdlc_step env opn s) = None"
proof (cases opn)
  case (OpComplete j p r)
  then show ?thesis using complete_initiative [OF ok, of i j p r] none by simp
next
  case (OpRegress j q r)
  then show ?thesis using regress_initiative [OF ok, of i j q r] none by simp
next
  case (OpEvent e)
  show ?thesis
  proof (cases rule: handle_event_cases [of env e s])
    case (rejected e1)
    then show ?thesis using none OpEvent by simp
  next
    case (regresses j q r)
    then show ?thesis using regress_initiative [OF ok, of i j q r] none OpEvent by simp
  next
    case (completes j p r)
    then show ?thesis using complete_initiative [OF ok, of i j p r] none OpEvent by simp
  qed
qed (use assms(2) in blast)

lemma start_view:
  assumes none: "find_initiative i s = None"
  shows "plan_view i (snd (create_initiative env r s)) = plan_start env i (OpCreate r) s"
proof (cases "ci_workspace_id r = [] \<or> ci_openspec_root r = [] \<or> (\<exists>e. effective_targets r = Inl e)")
  case True
  then have "snd (create_initiative env r s) = s" by (auto simp: create_initiative_def Let_def)
  then show ?thesis using True none by (auto simp: plan_view_alt plan_start_def)
next
  case False
  then obtain ts w where ts: "effective_targets r = Inr (ts, w)" by (metis surj_pair sumE)
  let ?C = "create_initiative env r s" and ?i = "xn_uuid env (Suc (sd_draws s))"
  obtain it where it: "fst ?C = Inr it" "it_id it = ?i" "find_initiative ?i (snd ?C) = Some it" "fresh_initiative env r s it"
    using create_succeeds [of r ts w env s] False ts by blast
  have store: "sd_initiatives (snd ?C) = AList.update (it_id it) it (sd_initiatives s)"
    using create_initiative_effect [of env r s] it(1) by auto
  have "position it = (Some ts, PhProduct, \<lambda>p. if p \<in> set ordered_phases then Some (initial_status ts p) else None)"
    using it(4) ts by (auto simp: fresh_initiative_def position_def initial_status_def)
  then show ?thesis
    using False ts it none find_after_update [OF store, of i] by (auto simp: plan_view_alt plan_start_def)
qed

text \<open>C5: Without requests to go back, the phases of every initiative are walked in order: those
  before the current one are passed or overridden, the current one is in progress or blocked, the
  later ones have not started, and the ones the targets leave out are skipped.\<close>

theorem phases_walked_in_order:
  assumes "inj uuid" "\<forall>opn \<in> set ops. forward opn"
    "find_initiative i (fold (sdlc_step (with_evidence uuid now)) ops new_sdlc) = Some it"
    "p \<in> set ordered_phases"
  shows "\<exists>st. status_of it p = Some st \<and>
    (if \<not> planned (it_targets it) p then st = PhaseSkipped
     else if phase_index p < phase_index (it_current it) then st \<in> {PhasePassed, PhaseOverridden}
     else if p = it_current it then st \<in> {PhaseInProgress, PhaseBlocked}
     else st = NotStarted)"
proof -
  have "walked it"
    using walked_run [OF with_evidence_ok [OF assms(1)] new_sdlc_ok assms(2) _ assms(3)]
    by (simp add: new_sdlc_def find_initiative_def)
  then obtain st where "st \<in> expected_status it p" "status_of it p = Some st"
    using assms(4) by (auto simp: walked_def)
  then show ?thesis by (intro exI [of _ st]) (auto simp: expected_status_def split: if_splits)
qed

text \<open>The map the caller passed in is written to exactly when no override is merged first; then it holds
  what the initiative got.\<close>

lemma caller_targets_alt:
  assumes "ci_workspace_id r \<noteq> []" "ci_openspec_root r \<noteq> []" "effective_targets r = Inr (ts, written)"
  shows "caller_targets r = (if ci_targets_override r = None \<and> ci_targets r \<noteq> None then Some ts else ci_targets r)"
  using assms by (auto simp: caller_targets_def effective_targets_def Let_def split: option.splits sum.splits)

text \<open>C8: The service implements the abstract plan machine exactly. In every reachable state the view of
  an initiative (targets, current phase, status of every phase) after an operation is the abstract move
  of the label the request determines: a completion of the current phase passes it on to the next phase
  of the plan when the gates, an override or an optional target allow it, blocks it when they do not, and
  changes nothing when the override is invalid; a regression sends it where it says; everything else
  leaves it as it is, its targets included. An initiative appears only when it is created, at the first
  phase, with the phases its effective targets leave out skipped.\<close>

theorem service_refines_plan:
  assumes "inj uuid" "env = with_evidence uuid now" "s = fold (sdlc_step env) ops new_sdlc"
  shows "plan_view i (sdlc_step env opn s) =
    (case plan_view i s of
       Some v \<Rightarrow> Some (plan_move (plan_label i opn s) v)
     | None \<Rightarrow> plan_start env i opn s)"
proof -
  note ok = reachable_sdlc [OF assms]
  show ?thesis
  proof (cases "find_initiative i s")
    case (Some it)
    then show ?thesis using step_moves [OF assms(2) ok Some, of opn] by (auto simp: plan_view_alt)
  next
    case None
    show ?thesis
    proof (cases "\<exists>r. opn = OpCreate r")
      case True
      then show ?thesis using None start_view [OF None] by (auto simp: plan_view_alt)
    next
      case False
      then show ?thesis
        using None absent_step [OF ok(2) _ None, of opn] by (auto simp: plan_view_alt plan_start_def split: sdlc_op.split)
    qed
  qed
qed

text \<open>C22: From every reachable state, completing the current phase with evidence for its gates at
  most eleven times brings an initiative to its end.\<close>

theorem initiative_completes:
  assumes "inj uuid" "env = with_evidence uuid now" "s = fold (sdlc_step env) ops new_sdlc"
    "find_initiative i s = Some it" "cp_evidence r = full_evidence"
  shows "\<exists>it'. find_initiative i (drive env i r 11 s) = Some it' \<and> it_current it' = PhDone"
proof -
  have env: "env_ok env" using assms(1,2) with_evidence_ok by simp
  have ok: "sdlc_ok env s" using sdlc.run_inv [of env new_sdlc ops] env new_sdlc_ok assms(3) by simp
  have "\<exists>gs k. xn_evaluate env it p (cp_evidence r) m = (Inr gs, k) \<and> failed_gates gs = []" for it p m
    unfolding assms(2) by (rule evidence_passes [OF assms(5)])
  moreover have "phase_index PhDone \<le> phase_index (it_current it) + int 11"
    using sdlc_okD(2) [OF ok assms(4)] phase_index_range [of "it_current it"]
    by (auto simp: initiative_ok_def phase_index_def ordered_phases_def)
  ultimately show ?thesis using drive_done [OF env _ ok assms(4)] by simp
qed

text \<open>A completion that has moved an initiative on can be repeated: the call answers with the
  same initiative and changes nothing.\<close>

theorem completion_idempotent:
  assumes "inj uuid" "env = with_evidence uuid now" "s = fold (sdlc_step env) ops new_sdlc"
    and run: "complete_phase env i p r s = (Inr it, s')" and on: "it_current it \<noteq> p"
  shows "complete_phase env i p r' s' = (Inr it, s')"
proof -
  have env: "env_ok env" using assms(1,2) with_evidence_ok by simp
  have ok: "sdlc_ok env s" using sdlc.run_inv [of env new_sdlc ops] env new_sdlc_ok assms(3) by simp
  have phases: "phases_of it1 = ordered_phases" if "find_initiative i s = Some it1" for it1
    by (rule sdlc_okD(3) [OF ok that])
  have p: "\<not> phase_index p < 0" using run by (auto simp: complete_phase_def)
  show ?thesis
  proof (rule complete_phase_cases [of i s env p r])
    assume "\<And>it1. fst (complete_phase env i p r s) = Inr it1 \<Longrightarrow>
      find_initiative i s = Some it1 \<and> phase_index p < phase_index (it_current it1)"
    then have *: "find_initiative i s = Some it" "phase_index p < phase_index (it_current it)"
      using run by auto
    then have "complete_phase env i p x s = (Inr it, s)" for x using p by (simp add: complete_phase_def)
    with run show ?thesis by simp
  next
    fix it1 it2 gs n
    assume it: "find_initiative i s = Some it1" "it_current it1 = p" "p \<in> set ordered_phases"
      "fst (complete_phase env i p r s) = Inr it2"
      "sd_initiatives (snd (complete_phase env i p r s)) = AList.update (it_id it1) it2 (sd_initiatives s)"
      "blocked_at it1 it2 \<and> \<not> gate_open it1 p r gs \<or> passed_to it1 it2 \<and> gate_open it1 p r gs"
    have "it2 = it" using it(4) run by simp
    with it(6,2) on have "passed_to it1 it" by (auto simp: blocked_at_def)
    then have "phase_index p < phase_index (it_current it)"
      using plan_after_spec(1) [OF it(3)] it(2) by (simp add: passed_to_def)
    moreover have "find_initiative i s' = Some it"
      using it(5) run \<open>it2 = it\<close> sdlc_okD(1) [OF ok it(1)] by (simp add: find_after_update)
    ultimately show ?thesis using p by (simp add: complete_phase_def)
  qed (use phases in blast)+
qed

text \<open>Merging an override succeeds exactly when no entry ranks below the target it replaces,
  whatever the order of the map; the result then is the override over the application's targets and
  ranks nowhere lower.\<close>

theorem merge_targets_tightens:
  assumes "distinct (map fst override)"
  shows "case merge_targets app override of
      Inl e \<Rightarrow> (\<exists>(p, t) \<in> set override. target_rank t < target_rank (target_of app p) \<and>
                 e = ErrCannotRelaxRequired p (target_of app p) t)
    | Inr m \<Rightarrow> (\<forall>p. target_of m p = (case map_of override p of Some t \<Rightarrow> t | None \<Rightarrow> target_of app p) \<and>
                 target_rank (target_of app p) \<le> target_rank (target_of m p))"
proof -
  have "target_rank (target_of app p) \<le> target_rank (case map_of override p of Some t \<Rightarrow> t | None \<Rightarrow> target_of app p)"
    if "\<forall>(p, t) \<in> set override. target_rank (target_of app p) \<le> target_rank t" for p
    using that map_of_SomeD [of override p] by (auto split: option.split)
  then show ?thesis
    using merge_overrides_spec [OF assms, of app] by (auto simp: merge_targets_def split: sum.splits)
qed

theorem phase_left_only_when_gated_witness:
  "\<exists>it it'. find_initiative (demo_uuid 1) demo_state = Some it \<and>
     find_initiative (demo_uuid 1)
       (sdlc_step demo_env (OpComplete (demo_uuid 1) PhProduct demo_complete) demo_state) = Some it' \<and>
     it_current it' = plan_after (it_targets it) PhProduct"
proof (rule demo_passed)
  fix it it' s'
  assume run: "find_initiative (demo_uuid 1) demo_state = Some it" "it_current it = PhProduct"
    "complete_phase demo_env (demo_uuid 1) PhProduct demo_complete demo_state = (Inr it', s')"
    "find_initiative (demo_uuid 1) s' = Some it'" "it_current it' \<noteq> PhProduct"
  have after: "find_initiative (demo_uuid 1)
      (sdlc_step demo_env (OpComplete (demo_uuid 1) PhProduct demo_complete) demo_state) = Some it'"
    using run(3,4) by simp
  have "it_current it' = plan_after (it_targets it) PhProduct"
    using phase_left_only_when_gated [OF demo_uuid_inj demo_env_def demo_state_def run(1) after] run(2,5)
    by (simp add: request_of_def)
  then show ?thesis using run(1) after by blast
qed

theorem phases_walked_in_order_witness:
  "\<exists>it st. find_initiative (demo_uuid 1) demo_state = Some it \<and> status_of it PhInfrastructure = Some st"
proof -
  obtain it where it: "find_initiative (demo_uuid 1) demo_state = Some it" by (rule demo_created)
  have fwd: "\<forall>opn \<in> set [OpCreate demo_create]. forward opn" by simp
  show ?thesis
    using phases_walked_in_order [OF demo_uuid_inj fwd it [unfolded demo_state_def demo_env_def], of PhInfrastructure]
      it by (auto simp: ordered_phases_def)
qed

theorem service_refines_plan_witness:
  "\<exists>v. plan_view (demo_uuid 1) (sdlc_step demo_env (OpRegress (demo_uuid 1) PhQA demo_complete) demo_state) = Some v \<and>
     fst (snd v) = PhQA"
proof -
  obtain it where it: "find_initiative (demo_uuid 1) demo_state = Some it" by (rule demo_created)
  have "plan_label (demo_uuid 1) (OpRegress (demo_uuid 1) PhQA demo_complete) demo_state = PlanSend PhQA"
    using it by (simp add: plan_label_def request_of_def phase_index_def ordered_phases_def)
  then show ?thesis
    using service_refines_plan [OF demo_uuid_inj demo_env_def demo_state_def, of "demo_uuid 1"
        "OpRegress (demo_uuid 1) PhQA demo_complete"] it
    by (auto simp: plan_view_alt position_def)
qed

theorem initiative_completes_witness:
  "\<exists>it'. find_initiative (demo_uuid 1) (drive demo_env (demo_uuid 1) demo_complete 11 demo_state) = Some it' \<and>
     it_current it' = PhDone"
proof -
  obtain it where it: "find_initiative (demo_uuid 1) demo_state = Some it" by (rule demo_created)
  show ?thesis
    by (rule initiative_completes [OF demo_uuid_inj demo_env_def demo_state_def it]) (simp add: demo_complete_def)
qed

theorem completion_idempotent_witness:
  "\<exists>it s'. complete_phase demo_env (demo_uuid 1) PhProduct demo_complete demo_state = (Inr it, s') \<and>
     complete_phase demo_env (demo_uuid 1) PhProduct demo_complete s' = (Inr it, s')"
proof (rule demo_passed)
  fix it it' s'
  assume run: "complete_phase demo_env (demo_uuid 1) PhProduct demo_complete demo_state = (Inr it', s')"
    "it_current it' \<noteq> PhProduct"
  show ?thesis using completion_idempotent [OF demo_uuid_inj demo_env_def demo_state_def run] run by blast
qed

theorem merge_targets_tightens_witness:
  "merge_targets default_targets [(PhArchitecture, TgtOptional)] =
     Inl (ErrCannotRelaxRequired PhArchitecture TgtRequired TgtOptional)"
  using merge_targets_tightens [of "[(PhArchitecture, TgtOptional)]" default_targets]
  by (auto simp: merge_targets_def target_of_def default_targets_def Let_def split: sum.splits)

text \<open>The targets of the application do not name the first phase, which counts as required but
  ranks below every override: an override can make it optional, and then the initiative leaves it
  whatever its evidence.\<close>

theorem override_relaxes_product:
  assumes "inj uuid" "env = with_evidence uuid now" "s = fold (sdlc_step env) ops new_sdlc"
    and r: "ci_workspace_id r \<noteq> []" "ci_openspec_root r \<noteq> []" "ci_targets r = None"
      "ci_targets_override r = Some [(PhProduct, TgtOptional)]" "ci_include r = []"
    and run: "create_initiative env r s = (Inr it, s')" and c: "cp_override c = None"
  shows "\<exists>it'. fst (complete_phase env (it_id it) PhProduct c s') = Inr it' \<and> it_current it' = PhArchitecture"
proof -
  have env: "env_ok env" using assms(1,2) with_evidence_ok by simp
  have ok: "sdlc_ok env s" using sdlc.run_inv [of env new_sdlc ops] env new_sdlc_ok assms(3) by simp
  have ok': "sdlc_ok env s'" using sdlc_step_ok [OF env ok, of "OpCreate r"] run by simp
  have ts: "effective_targets r = Inr (AList.update PhProduct TgtOptional default_targets, None)"
    using r by (simp add: effective_targets_def merge_targets_def target_of_def default_targets_def promote_def)
  obtain look: "find_initiative (it_id it) s' = Some it" and fresh: "fresh_initiative env r s it"
    using create_succeeds [OF r(1,2) ts, of env s] run by auto
  have it: "it_current it = PhProduct" "it_targets it = Some (AList.update PhProduct TgtOptional default_targets)"
    using fresh ts by (auto simp: fresh_initiative_def)
  have "effective_policy it PhProduct = TgtOptional" using it(2) by (simp add: effective_policy_def map_of_update)
  then have "gate_open it PhProduct c gs" for gs using c by (simp add: gate_open_def validate_override_def)
  moreover have "\<exists>gs n. xn_evaluate env i p e m = (Inr gs, n)" for i p e m
    using assms(2) by (simp add: with_evidence_def evidence_evaluate_def Let_def)
  ultimately obtain it' where "fst (complete_phase env (it_id it) PhProduct c s') = Inr it'" "passed_to it it'"
    using complete_progress [OF ok' look, where r = c] it(1) by (auto simp: ordered_phases_def)
  then show ?thesis
    using it by (auto simp: passed_to_def plan_after_def plan_from_def left_out_def ordered_phases_def
        default_targets_def map_of_update)
qed

theorem override_relaxes_product_witness:
  "\<exists>it it' s'. create_initiative demo_env (demo_create\<lparr>ci_targets_override := Some [(PhProduct, TgtOptional)]\<rparr>) new_sdlc
     = (Inr it, s') \<and>
     fst (complete_phase demo_env (it_id it) PhProduct (demo_complete\<lparr>cp_evidence := []\<rparr>) s') = Inr it' \<and>
     it_current it' = PhArchitecture"
proof -
  let ?r = "demo_create\<lparr>ci_targets_override := Some [(PhProduct, TgtOptional)]\<rparr>"
  have "effective_targets ?r = Inr (AList.update PhProduct TgtOptional default_targets, None)"
    by (simp add: effective_targets_def merge_targets_def target_of_def default_targets_def promote_def demo_create_def)
  then obtain it s' where run: "create_initiative demo_env ?r new_sdlc = (Inr it, s')"
    using create_succeeds [of ?r _ _ demo_env new_sdlc] by (force simp: demo_create_def prod_eq_iff)
  show ?thesis
    using override_relaxes_product [OF demo_uuid_inj demo_env_def, of new_sdlc "[]" ?r it s'
        "demo_complete\<lparr>cp_evidence := []\<rparr>"] run
    by (auto simp: demo_create_def demo_complete_def)
qed

end
