(* ===== verification/Policy_Engine.thy ===== *)
theory Policy_Engine
  imports Fabric_Prelude
begin

text \<open>
  The policy engine (\<open>services/policy-engine\<close>): prioritised rules and their combination
  (\<open>internal/policy/policy.go\<close>), the SDLC gate templates (\<open>internal/policy/sdlc.go\<close>) and the
  life cycle of policy overrides (\<open>internal/override/override.go\<close>).

  Conditions are expressions of the CEL library: the function \<open>cel\<close>, an argument of the
  definitions below, answers an error or whether the condition evaluates to true under the given
  bindings. Decoding YAML is likewise an argument.
\<close>

section \<open>Rules\<close>

datatype verdict = VerdictAllow | VerdictApproval | VerdictDeny | VerdictOther string

record evaluate_request =
  eq_principal :: string
  eq_action :: string
  eq_workspace_id :: string
  eq_openspec_id :: "string option"
  eq_asset_id :: "string option"
  eq_env :: string
  eq_criticality :: string
  eq_trust_level :: string
  eq_data_classification :: string
  eq_role :: string
  eq_responsible :: string
  eq_target :: obj

record evaluate_response =
  er_decision :: verdict
  er_rationale :: string
  er_policy_id :: string
  er_required_approvers :: "string list"

record rule =
  ru_id :: string
  ru_priority :: int
  ru_decision :: verdict
  ru_condition :: string
  ru_rationale :: string
  ru_required_approvers :: "string list"

type_synonym cel = "string \<Rightarrow> obj \<Rightarrow> string + bool"

datatype policy_error =
    ErrPolicy string string | ErrSdlcGate string string | ErrNoGateMatched | ErrDecode string

text \<open>Rules are kept by falling priority, rules of the same priority in their given order.\<close>

definition new_engine :: "rule list \<Rightarrow> rule list" where
  "new_engine rules = sort_slice (\<lambda>a b. ru_priority a > ru_priority b) rules"

definition load_yaml :: "(string \<Rightarrow> string + rule list) \<Rightarrow> string \<Rightarrow> policy_error + rule list" where
  "load_yaml decode data =
     (case decode data of Inl e \<Rightarrow> Inl (ErrDecode e) | Inr rules \<Rightarrow> Inr (new_engine rules))"

definition default_rules :: "rule list" where
  "default_rules =
     [\<lparr>ru_id = ''deploy-prod-requires-approval'', ru_priority = 100, ru_decision = VerdictApproval,
       ru_condition = ''action == \"deploy:prod\" || env == \"prod\"'',
       ru_rationale = ''production-impacting actions require approval'',
       ru_required_approvers = [''release-manager'']\<rparr>,
      \<lparr>ru_id = ''default-allow'', ru_priority = 1, ru_decision = VerdictAllow, ru_condition = ''true'',
       ru_rationale = ''no restrictive policy matched'', ru_required_approvers = []\<rparr>]"

definition default_engine :: "rule list" where
  "default_engine = new_engine default_rules"

definition str_ptr :: "string option \<Rightarrow> string" where
  "str_ptr v = (case v of None \<Rightarrow> [] | Some s \<Rightarrow> s)"

definition request_bindings :: "evaluate_request \<Rightarrow> obj" where
  "request_bindings r =
     [(''principal'', VString (eq_principal r)), (''action'', VString (eq_action r)),
      (''workspace_id'', VString (eq_workspace_id r)),
      (''openspec_id'', VString (str_ptr (eq_openspec_id r))),
      (''asset_id'', VString (str_ptr (eq_asset_id r))), (''env'', VString (eq_env r)),
      (''criticality'', VString (eq_criticality r)), (''trust_level'', VString (eq_trust_level r)),
      (''data_classification'', VString (eq_data_classification r)), (''role'', VString (eq_role r)),
      (''responsible'', VString (eq_responsible r)), (''target'', VMap (eq_target r))]"

definition eval_cel :: "cel \<Rightarrow> string \<Rightarrow> evaluate_request \<Rightarrow> string + bool" where
  "eval_cel cel condition r =
     (if condition = [] then Inr True else cel condition (request_bindings r))"

text \<open>The loop that collects the matching rules; the first error ends it.\<close>

fun match_rules :: "cel \<Rightarrow> evaluate_request \<Rightarrow> rule list \<Rightarrow> rule list \<Rightarrow> policy_error + rule list" where
  "match_rules cel r matched [] = Inr matched"
| "match_rules cel r matched (ru # rest) =
     (case eval_cel cel (ru_condition ru) r of
        Inl e \<Rightarrow> Inl (ErrPolicy (ru_id ru) e)
      | Inr ok \<Rightarrow> match_rules cel r (if ok then matched @ [ru] else matched) rest)"

definition rule_response :: "rule \<Rightarrow> evaluate_response" where
  "rule_response ru =
     \<lparr>er_decision = ru_decision ru, er_rationale = ru_rationale ru, er_policy_id = ru_id ru,
      er_required_approvers = ru_required_approvers ru\<rparr>"

definition allow_response :: "string \<Rightarrow> evaluate_response" where
  "allow_response why =
     \<lparr>er_decision = VerdictAllow, er_rationale = why, er_policy_id = [], er_required_approvers = []\<rparr>"

fun first_decision :: "verdict list \<Rightarrow> rule list \<Rightarrow> evaluate_response" where
  "first_decision [] rules = allow_response ''no restrictive policy matched''"
| "first_decision (d # ds) rules =
     (case List.find (\<lambda>ru. ru_decision ru = d) rules of
        Some ru \<Rightarrow> rule_response ru
      | None \<Rightarrow> first_decision ds rules)"

definition most_restrictive :: "rule list \<Rightarrow> evaluate_response" where
  "most_restrictive rules = first_decision [VerdictDeny, VerdictApproval, VerdictAllow] rules"

definition evaluate :: "cel \<Rightarrow> rule list \<Rightarrow> evaluate_request \<Rightarrow> policy_error + evaluate_response" where
  "evaluate cel engine r =
     (case match_rules cel r [] engine of
        Inl e \<Rightarrow> Inl e
      | Inr matched \<Rightarrow>
          if matched = [] then Inr (allow_response ''no policy matched'')
          else Inr (most_restrictive matched))"

definition map_or :: "obj \<Rightarrow> string \<Rightarrow> obj" where
  "map_or m k = (case map_of m k of Some (VMap x) \<Rightarrow> x | _ \<Rightarrow> [])"

definition str_or :: "obj \<Rightarrow> string \<Rightarrow> string" where
  "str_or m k = val_string (map_of m k)"

definition pipeline_request :: "obj \<Rightarrow> evaluate_request" where
  "pipeline_request m =
     \<lparr>eq_principal = str_or m ''principal'', eq_action = str_or m ''action'',
      eq_workspace_id = str_or m ''workspace_id'', eq_openspec_id = None, eq_asset_id = None,
      eq_env = str_or m ''env'', eq_criticality = str_or m ''criticality'',
      eq_trust_level = str_or m ''trust_level'',
      eq_data_classification = str_or m ''data_classification'', eq_role = str_or m ''role'',
      eq_responsible = str_or m ''responsible'', eq_target = map_or m ''target''\<rparr>"

definition evaluate_pipeline_gate :: "cel \<Rightarrow> rule list \<Rightarrow> obj \<Rightarrow> policy_error + evaluate_response" where
  "evaluate_pipeline_gate cel engine m = evaluate cel engine (pipeline_request m)"

section \<open>SDLC gate templates\<close>

record gate_template =
  gt_id :: string
  gt_type :: string
  gt_phase :: string
  gt_gate :: string
  gt_min_criticality :: string
  gt_condition :: string
  gt_rationale :: string
  gt_thresholds :: "(string \<times> obj) list"
  gt_required_approvers :: "string list"

record gate_request =
  gq_workspace_id :: string
  gq_initiative_id :: string
  gq_phase :: string
  gq_gate :: string
  gq_criticality :: string
  gq_evidence :: obj
  gq_thresholds :: obj

record gate_answer =
  ga_policy_id :: string
  ga_phase :: string
  ga_gate :: string
  ga_outcome :: string
  ga_reason :: string
  ga_thresholds :: obj

definition new_gate_engine :: "gate_template list \<Rightarrow> gate_template list" where
  "new_gate_engine ts = sort_slice (\<lambda>a b. str_compare (gt_id a) (gt_id b) < 0) ts"

definition template_rank :: "string \<Rightarrow> int" where
  "template_rank c =
     (if c = ''low'' then 1 else if c = ''medium'' then 2 else if c = ''high'' then 3
      else if c = ''critical'' then 4 else 0)"

definition template_applies :: "string \<Rightarrow> string \<Rightarrow> bool" where
  "template_applies value minimum =
     (let v = template_rank (to_lower value);
          v' = (if v = 0 then template_rank ''medium'' else v)
      in v' \<ge> template_rank (to_lower minimum))"

definition merge_thresholds :: "obj \<Rightarrow> obj \<Rightarrow> obj" where
  "merge_thresholds defaults overrides =
     fold (\<lambda>(k, v) m. AList.update k v m) overrides (fold (\<lambda>(k, v) m. AList.update k v m) defaults [])"

definition gate_bindings :: "gate_request \<Rightarrow> obj \<Rightarrow> obj" where
  "gate_bindings r thresholds =
     [(''workspace_id'', VString (gq_workspace_id r)), (''initiative_id'', VString (gq_initiative_id r)),
      (''phase'', VString (gq_phase r)), (''gate'', VString (gq_gate r)),
      (''criticality'', VString (gq_criticality r)), (''evidence'', VMap (gq_evidence r)),
      (''thresholds'', VMap thresholds)]"

definition eval_gate_cel :: "cel \<Rightarrow> string \<Rightarrow> gate_request \<Rightarrow> obj \<Rightarrow> string + bool" where
  "eval_gate_cel cel condition r thresholds =
     (if condition = [] then Inr True else cel condition (gate_bindings r thresholds))"

definition selected :: "gate_request \<Rightarrow> gate_template \<Rightarrow> bool" where
  "selected r t \<longleftrightarrow> gt_type t = ''sdlc-gate'' \<and> gt_phase t = gq_phase r \<and>
     (gq_gate r = [] \<or> gt_gate t = gq_gate r)"

definition gate_criticality :: "gate_request \<Rightarrow> string" where
  "gate_criticality r = (let c = to_lower (gq_criticality r) in if c = [] then ''medium'' else c)"

definition judge_gate :: "cel \<Rightarrow> gate_request \<Rightarrow> gate_template \<Rightarrow> string + gate_answer" where
  "judge_gate cel r t =
     (let criticality = gate_criticality r
      in if gt_min_criticality t \<noteq> [] \<and> \<not> template_applies criticality (gt_min_criticality t)
         then Inr \<lparr>ga_policy_id = gt_id t, ga_phase = gt_phase t, ga_gate = gt_gate t,
                   ga_outcome = ''skipped'', ga_reason = ''below_min_criticality'', ga_thresholds = []\<rparr>
         else
           let defaults = (case map_of (gt_thresholds t) criticality of Some d \<Rightarrow> d | None \<Rightarrow> []);
               thresholds = merge_thresholds defaults (gq_thresholds r)
           in case eval_gate_cel cel (gt_condition t) r thresholds of
                Inl e \<Rightarrow> Inl e
              | Inr passed \<Rightarrow>
                  Inr \<lparr>ga_policy_id = gt_id t, ga_phase = gt_phase t, ga_gate = gt_gate t,
                       ga_outcome = (if passed then ''passed'' else ''failed''),
                       ga_reason = (if passed then [] else gt_rationale t),
                       ga_thresholds = thresholds\<rparr>)"

fun judge_gates :: "cel \<Rightarrow> gate_request \<Rightarrow> gate_answer list \<Rightarrow> gate_template list \<Rightarrow> policy_error + gate_answer list" where
  "judge_gates cel r results [] = Inr results"
| "judge_gates cel r results (t # ts) =
     (if \<not> selected r t then judge_gates cel r results ts
      else case judge_gate cel r t of
             Inl e \<Rightarrow> Inl (ErrSdlcGate (gt_id t) e)
           | Inr a \<Rightarrow> judge_gates cel r (results @ [a]) ts)"

definition evaluate_sdlc_gate :: "cel \<Rightarrow> gate_template list \<Rightarrow> gate_request \<Rightarrow> policy_error + gate_answer list" where
  "evaluate_sdlc_gate cel engine r =
     (case judge_gates cel r [] engine of
        Inl e \<Rightarrow> Inl e
      | Inr results \<Rightarrow> if results = [] then Inl ErrNoGateMatched else Inr results)"

section \<open>Overrides\<close>

record override_template =
  ot_id :: string
  ot_description :: string
  ot_action :: string
  ot_target :: string
  ot_required_role :: string
  ot_max_ttl_seconds :: int
  ot_requires_reason :: bool
  ot_events_on_grant :: "string list"
  ot_events_on_consume :: "string list"
  ot_events_on_expire :: "string list"

datatype override_state = OvActive | OvConsumed | OvExpired | OvRevoked

record policy_override =
  po_id :: string
  po_template_id :: string
  po_workspace_id :: string
  po_subject :: string
  po_requested_by :: string
  po_approved_by :: string
  po_reason :: string
  po_granted_at :: gotime
  po_expires_at :: gotime
  po_state :: override_state
  po_consumed_at :: "gotime option"
  po_consumed_by :: string
  po_metadata :: obj

text \<open>An event points to the override it is about, so it shows that override as it is now: the
  model keeps the identifier.\<close>

record override_event =
  oe_type :: string
  oe_override :: string
  oe_time :: gotime
  oe_extra :: obj

record override_manager =
  om_templates :: "(string \<times> override_template) list"
  om_overrides :: "(string \<times> policy_override) list"
  om_events :: "override_event list"
  om_draws :: nat

text \<open>Identifiers and clock readings, indexed by the number of draws.\<close>

record override_env =
  on_uuid :: "nat \<Rightarrow> string"
  on_now :: "nat \<Rightarrow> gotime"

record grant_input =
  gi_template_id :: string
  gi_workspace_id :: string
  gi_subject :: string
  gi_requested_by :: string
  gi_approved_by :: string
  gi_approver_role :: string
  gi_reason :: string
  gi_ttl_seconds :: int
  gi_metadata :: obj

datatype override_error =
    ErrUnknownTemplate | ErrInsufficientRole | ErrTTLExceedsMax | ErrReasonRequired
  | ErrSubjectRequired | ErrAlreadyTerminated | ErrOverrideNotFound

definition load_templates :: "override_template list \<Rightarrow> (string \<times> override_template) list" where
  "load_templates ts = fold (\<lambda>t m. AList.update (ot_id t) t m) ts []"

definition new_manager :: "(string \<times> override_template) list \<Rightarrow> override_manager" where
  "new_manager ts = \<lparr>om_templates = ts, om_overrides = [], om_events = [], om_draws = 0\<rparr>"

definition emit_override :: "string \<Rightarrow> string \<Rightarrow> gotime \<Rightarrow> obj \<Rightarrow> override_manager \<Rightarrow> override_manager" where
  "emit_override ty i now extra m =
     m\<lparr>om_events := om_events m @ [\<lparr>oe_type = ty, oe_override = i, oe_time = now, oe_extra = extra\<rparr>]\<rparr>"

definition emit_types :: "string list \<Rightarrow> string \<Rightarrow> gotime \<Rightarrow> obj \<Rightarrow> override_manager \<Rightarrow> override_manager" where
  "emit_types tys i now extra m = fold (\<lambda>ty. emit_override ty i now extra) tys m"

definition second_ns :: int where
  "second_ns = 1000000000"

text \<open>\<open>time.Duration(n) * time.Second\<close>, in 64 bits.\<close>

definition seconds :: "int \<Rightarrow> int" where
  "seconds n = wrap64 (n * second_ns)"

definition grant_check :: "override_manager \<Rightarrow> grant_input \<Rightarrow> override_error + override_template" where
  "grant_check m g =
     (case map_of (om_templates m) (gi_template_id g) of
        None \<Rightarrow> Inl ErrUnknownTemplate
      | Some t \<Rightarrow>
          if gi_approver_role g \<noteq> ot_required_role t then Inl ErrInsufficientRole
          else if gi_ttl_seconds g \<le> 0 \<or> gi_ttl_seconds g > ot_max_ttl_seconds t then Inl ErrTTLExceedsMax
          else if ot_requires_reason t \<and> gi_reason g = [] then Inl ErrReasonRequired
          else if gi_subject g = [] then Inl ErrSubjectRequired
          else Inr t)"

definition grant :: "override_env \<Rightarrow> grant_input \<Rightarrow> override_manager \<Rightarrow> (override_error + policy_override) \<times> override_manager" where
  "grant env g m =
     (case grant_check m g of
        Inl e \<Rightarrow> (Inl e, m)
      | Inr t \<Rightarrow>
          (let now = on_now env (om_draws m);
               ov = \<lparr>po_id = on_uuid env (Suc (om_draws m)), po_template_id = gi_template_id g,
                     po_workspace_id = gi_workspace_id g, po_subject = gi_subject g,
                     po_requested_by = gi_requested_by g, po_approved_by = gi_approved_by g,
                     po_reason = gi_reason g, po_granted_at = now,
                     po_expires_at = now + seconds (gi_ttl_seconds g), po_state = OvActive,
                     po_consumed_at = None, po_consumed_by = [], po_metadata = gi_metadata g\<rparr>;
               m1 = m\<lparr>om_overrides := AList.update (po_id ov) ov (om_overrides m),
                      om_draws := om_draws m + 2\<rparr>
           in (Inr ov, emit_types (ot_events_on_grant t) (po_id ov) now [] m1)))"

text \<open>A missing template is the zero template, which names no events.\<close>

definition expire_events :: "override_manager \<Rightarrow> string \<Rightarrow> string list" where
  "expire_events m t = (case map_of (om_templates m) t of Some x \<Rightarrow> ot_events_on_expire x | None \<Rightarrow> [])"

definition consume_events :: "override_manager \<Rightarrow> string \<Rightarrow> string list" where
  "consume_events m t = (case map_of (om_templates m) t of Some x \<Rightarrow> ot_events_on_consume x | None \<Rightarrow> [])"

definition consume :: "override_env \<Rightarrow> string \<Rightarrow> string \<Rightarrow> override_manager \<Rightarrow> override_error option \<times> override_manager" where
  "consume env i by_whom m =
     (case map_of (om_overrides m) i of
        None \<Rightarrow> (Some ErrOverrideNotFound, m)
      | Some ov \<Rightarrow>
          if po_state ov \<noteq> OvActive then (Some ErrAlreadyTerminated, m)
          else
            let now = on_now env (om_draws m);
                ov1 = ov\<lparr>po_state := OvConsumed, po_consumed_at := Some now, po_consumed_by := by_whom\<rparr>;
                m1 = m\<lparr>om_overrides := AList.update i ov1 (om_overrides m), om_draws := Suc (om_draws m)\<rparr>
            in (None, emit_types (consume_events m (po_template_id ov)) (po_id ov) now
                        [(''consumed_by'', VString by_whom)] m1))"

definition revoke :: "override_env \<Rightarrow> string \<Rightarrow> string \<Rightarrow> string \<Rightarrow> override_manager \<Rightarrow> override_error option \<times> override_manager" where
  "revoke env i by_whom reason m =
     (case map_of (om_overrides m) i of
        None \<Rightarrow> (Some ErrOverrideNotFound, m)
      | Some ov \<Rightarrow>
          if po_state ov \<noteq> OvActive then (Some ErrAlreadyTerminated, m)
          else
            let m1 = m\<lparr>om_overrides := AList.update i (ov\<lparr>po_state := OvRevoked\<rparr>) (om_overrides m),
                       om_draws := Suc (om_draws m)\<rparr>
            in (None, emit_override ''policy.override.revoked.v1'' (po_id ov) (on_now env (om_draws m))
                        [(''by'', VString by_whom), (''reason'', VString reason)] m1))"

definition override_live :: "gotime \<Rightarrow> policy_override \<Rightarrow> bool" where
  "override_live now ov \<longleftrightarrow> po_state ov = OvActive \<and> po_expires_at ov > now"

definition is_active :: "gotime \<Rightarrow> string \<Rightarrow> string \<Rightarrow> override_manager \<Rightarrow> bool" where
  "is_active now t subject m =
     list_ex (\<lambda>ov. po_template_id ov = t \<and> po_subject ov = subject \<and> override_live now ov)
       (map snd (om_overrides m))"

definition overdue :: "gotime \<Rightarrow> policy_override \<Rightarrow> bool" where
  "overdue now ov \<longleftrightarrow> po_state ov = OvActive \<and> \<not> po_expires_at ov > now"

definition expire :: "gotime \<Rightarrow> policy_override \<Rightarrow> policy_override" where
  "expire now ov = (if overdue now ov then ov\<lparr>po_state := OvExpired\<rparr> else ov)"

definition reconcile_expired :: "override_env \<Rightarrow> override_manager \<Rightarrow> string list \<times> override_manager" where
  "reconcile_expired env m =
     (let now = on_now env (om_draws m);
          expired = filter (overdue now) (map snd (om_overrides m));
          m1 = m\<lparr>om_overrides := map (\<lambda>(k, ov). (k, expire now ov)) (om_overrides m),
                 om_draws := Suc (om_draws m)\<rparr>
      in (map po_id expired,
          fold (\<lambda>ov. emit_types (expire_events m (po_template_id ov)) (po_id ov) now []) expired m1))"

definition list_overrides :: "override_manager \<Rightarrow> policy_override list" where
  "list_overrides m = sort_slice (\<lambda>a b. po_expires_at a < po_expires_at b) (map snd (om_overrides m))"

section \<open>Combining rules\<close>

definition holds :: "cel \<Rightarrow> evaluate_request \<Rightarrow> rule \<Rightarrow> bool" where
  "holds cel r ru \<longleftrightarrow> eval_cel cel (ru_condition ru) r = Inr True"

lemma match_rules_spec:
  "case match_rules cel r acc rules of
     Inl e \<Rightarrow> (\<exists>ru \<in> set rules. \<exists>msg. eval_cel cel (ru_condition ru) r = Inl msg \<and> e = ErrPolicy (ru_id ru) msg)
   | Inr ms \<Rightarrow> ms = acc @ filter (holds cel r) rules \<and>
       (\<forall>ru \<in> set rules. \<exists>b. eval_cel cel (ru_condition ru) r = Inr b)"
proof (induction cel r acc rules rule: match_rules.induct)
  case (2 cel r acc ru rest)
  show ?case
  proof (cases "eval_cel cel (ru_condition ru) r")
    case (Inl e)
    then show ?thesis by auto
  next
    case (Inr b)
    note IH = "2.IH" [OF Inr]
    have run: "match_rules cel r acc (ru # rest) = match_rules cel r (if b then acc @ [ru] else acc) rest"
      using Inr by simp
    show ?thesis
    proof (cases "match_rules cel r (if b then acc @ [ru] else acc) rest")
      case err: (Inl e)
      show ?thesis using IH unfolding run err by auto
    next
      case good: (Inr ms)
      show ?thesis using IH Inr unfolding run good by (auto simp: holds_def)
    qed
  qed
qed simp

lemma find_filter: "List.find P (filter Q xs) = List.find (\<lambda>x. Q x \<and> P x) xs"
  by (induction xs) auto

lemma find_sorted:
  assumes "List.find P xs = Some x" "sorted_wrt R xs" "y \<in> set xs" "P y"
  shows "y = x \<or> R x y"
  using assms by (induction xs) (auto split: if_splits)

lemma engine_sorted: "sorted_wrt (\<lambda>a b. \<not> ru_priority b > ru_priority a) (new_engine rules)"
  unfolding new_engine_def by (rule sorted_sort_slice) auto

lemma set_new_engine [simp]: "set (new_engine rules) = set rules"
  by (simp add: new_engine_def)

text \<open>The rules that matched with a decision, and the one that speaks for them.\<close>

definition hits :: "cel \<Rightarrow> evaluate_request \<Rightarrow> rule list \<Rightarrow> verdict \<Rightarrow> rule set" where
  "hits cel r rules d = {ru \<in> set rules. holds cel r ru \<and> ru_decision ru = d}"

lemma find_hit:
  assumes "List.find (\<lambda>ru. ru_decision ru = d) (filter (holds cel r) (new_engine rules)) = Some ru"
  shows "ru \<in> hits cel r rules d" "ru' \<in> hits cel r rules d \<Longrightarrow> ru_priority ru' \<le> ru_priority ru"
proof -
  have f: "List.find (\<lambda>ru. holds cel r ru \<and> ru_decision ru = d) (new_engine rules) = Some ru"
    using assms by (simp add: find_filter)
  then show "ru \<in> hits cel r rules d"
    using find_SomeD [OF f] by (simp add: hits_def)
  assume "ru' \<in> hits cel r rules d"
  then show "ru_priority ru' \<le> ru_priority ru"
    using find_sorted [OF f engine_sorted, of ru'] by (auto simp: hits_def)
qed

lemma speaks:
  assumes "List.find (\<lambda>ru. ru_decision ru = d) (filter (holds cel r) (new_engine rules)) = Some ru"
  shows "er_decision (rule_response ru) = d" "hits cel r rules d \<noteq> {}"
    "\<exists>ru1 \<in> hits cel r rules d. rule_response ru = rule_response ru1 \<and>
       (\<forall>ru' \<in> hits cel r rules d. ru_priority ru' \<le> ru_priority ru1)"
proof -
  show "er_decision (rule_response ru) = d"
    using find_hit(1) [OF assms] by (simp add: rule_response_def hits_def)
  show "hits cel r rules d \<noteq> {}" using find_hit(1) [OF assms] by auto
  show "\<exists>ru1 \<in> hits cel r rules d. rule_response ru = rule_response ru1 \<and>
       (\<forall>ru' \<in> hits cel r rules d. ru_priority ru' \<le> ru_priority ru1)"
    by (rule bexI [OF _ find_hit(1) [OF assms]]) (simp add: find_hit(2) [OF assms])
qed

lemma find_no_hit:
  "List.find (\<lambda>ru. ru_decision ru = d) (filter (holds cel r) (new_engine rules)) = None \<longleftrightarrow>
   hits cel r rules d = {}"
  by (auto simp: find_None_iff hits_def)

definition decided :: "cel \<Rightarrow> evaluate_request \<Rightarrow> rule list \<Rightarrow> verdict" where
  "decided cel r rules =
     (if hits cel r rules VerdictDeny \<noteq> {} then VerdictDeny
      else if hits cel r rules VerdictApproval \<noteq> {} then VerdictApproval else VerdictAllow)"

lemma evaluate_spec:
  "case evaluate cel (new_engine rules) r of
     Inl e \<Rightarrow> (\<exists>ru \<in> set rules. \<exists>msg. eval_cel cel (ru_condition ru) r = Inl msg \<and> e = ErrPolicy (ru_id ru) msg)
   | Inr resp \<Rightarrow>
       (\<forall>ru \<in> set rules. \<exists>b. eval_cel cel (ru_condition ru) r = Inr b) \<and>
       er_decision resp = decided cel r rules \<and>
       (hits cel r rules (er_decision resp) \<noteq> {} \<longrightarrow>
          (\<exists>ru \<in> hits cel r rules (er_decision resp). resp = rule_response ru \<and>
             (\<forall>ru' \<in> hits cel r rules (er_decision resp). ru_priority ru' \<le> ru_priority ru)))"
proof (cases "match_rules cel r [] (new_engine rules)")
  case (Inl e)
  then show ?thesis using match_rules_spec [where cel = cel and r = r and acc = "[]" and rules = "new_engine rules"] by (simp add: evaluate_def)
next
  case (Inr ms)
  then have ms: "ms = filter (holds cel r) (new_engine rules)"
    and total: "\<forall>ru \<in> set rules. \<exists>b. eval_cel cel (ru_condition ru) r = Inr b"
    using match_rules_spec [where cel = cel and r = r and acc = "[]" and rules = "new_engine rules"] by simp_all
  let ?find = "\<lambda>d. List.find (\<lambda>ru. ru_decision ru = d) (filter (holds cel r) (new_engine rules))"
  have run: "evaluate cel (new_engine rules) r =
      Inr (case ?find VerdictDeny of Some ru \<Rightarrow> rule_response ru
           | None \<Rightarrow> (case ?find VerdictApproval of Some ru \<Rightarrow> rule_response ru
           | None \<Rightarrow> (case ?find VerdictAllow of Some ru \<Rightarrow> rule_response ru
           | None \<Rightarrow> if ms = [] then allow_response ''no policy matched''
                     else allow_response ''no restrictive policy matched'')))"
    using Inr by (simp add: evaluate_def most_restrictive_def ms split: option.split)
  show ?thesis
  proof (cases "?find VerdictDeny")
    case deny: (Some ru)
    then show ?thesis using deny speaks [OF deny] total
      by (simp add: run decided_def)
  next
    case no_deny: None
    note none1 = no_deny [unfolded find_no_hit]
    show ?thesis
    proof (cases "?find VerdictApproval")
      case appr: (Some ru)
      then show ?thesis using appr speaks [OF appr] total no_deny none1
        by (simp add: run decided_def)
    next
      case no_appr: None
      note none2 = no_appr [unfolded find_no_hit]
      show ?thesis
      proof (cases "?find VerdictAllow")
        case allow: (Some ru)
        then show ?thesis using allow speaks [OF allow] total no_deny no_appr none1 none2
          by (simp add: run decided_def)
      next
        case no_allow: None
        note none3 = no_allow [unfolded find_no_hit]
        show ?thesis using total no_deny no_appr no_allow none1 none2 none3
          by (auto simp: run allow_response_def decided_def)
      qed
    qed
  qed
qed

text \<open>C23: The answer of the engine is the most restrictive decision among the rules whose conditions
  hold, in the words of the matching rule of highest priority with that decision; it is an allowance
  when nothing restrictive matches, and an error exactly names a rule whose condition failed to
  evaluate.\<close>

theorem evaluate_most_restrictive:
  "case evaluate cel (new_engine rules) r of
     Inl e \<Rightarrow> (\<exists>ru \<in> set rules. \<exists>msg. eval_cel cel (ru_condition ru) r = Inl msg \<and> e = ErrPolicy (ru_id ru) msg)
   | Inr resp \<Rightarrow>
       (\<forall>ru \<in> set rules. \<exists>b. eval_cel cel (ru_condition ru) r = Inr b) \<and>
       er_decision resp = decided cel r rules \<and>
       (hits cel r rules (er_decision resp) \<noteq> {} \<longrightarrow>
          (\<exists>ru \<in> hits cel r rules (er_decision resp). resp = rule_response ru \<and>
             (\<forall>ru' \<in> hits cel r rules (er_decision resp). ru_priority ru' \<le> ru_priority ru)))"
  by (rule evaluate_spec)

section \<open>The life of an override\<close>

datatype override_op =
    OpGrant grant_input | OpConsume string string | OpRevoke string string string | OpReconcile

fun override_step :: "override_env \<Rightarrow> override_op \<Rightarrow> override_manager \<Rightarrow> override_manager" where
  "override_step env (OpGrant g) m = snd (grant env g m)"
| "override_step env (OpConsume i b) m = snd (consume env i b m)"
| "override_step env (OpRevoke i b r) m = snd (revoke env i b r m)"
| "override_step env OpReconcile m = snd (reconcile_expired env m)"

lemma emit_frame [simp]:
  "om_templates (emit_override ty i now x m) = om_templates m"
  "om_overrides (emit_override ty i now x m) = om_overrides m"
  "om_draws (emit_override ty i now x m) = om_draws m"
  "om_templates (emit_types tys i now x m) = om_templates m"
  "om_overrides (emit_types tys i now x m) = om_overrides m"
  "om_draws (emit_types tys i now x m) = om_draws m"
  by (simp_all add: emit_override_def emit_types_def fold_invariant [where P = "\<lambda>k. om_templates k = om_templates m"]
      fold_invariant [where P = "\<lambda>k. om_overrides k = om_overrides m"]
      fold_invariant [where P = "\<lambda>k. om_draws k = om_draws m"])

lemma emit_expired_frame [simp]:
  "om_templates (fold (\<lambda>ov. emit_types (ev ov) (po_id ov) now []) ovs m) = om_templates m"
  "om_overrides (fold (\<lambda>ov. emit_types (ev ov) (po_id ov) now []) ovs m) = om_overrides m"
  "om_draws (fold (\<lambda>ov. emit_types (ev ov) (po_id ov) now []) ovs m) = om_draws m"
  by (induction ovs arbitrary: m) simp_all

text \<open>What never changes about an override, and how it may change: only while it is active.\<close>

definition granted_part :: "policy_override \<Rightarrow> policy_override" where
  "granted_part ov = ov\<lparr>po_state := OvActive, po_consumed_at := None, po_consumed_by := []\<rparr>"

definition override_below :: "policy_override \<Rightarrow> policy_override \<Rightarrow> bool" where
  "override_below a b \<longleftrightarrow> granted_part b = granted_part a \<and> (po_state a \<noteq> OvActive \<longrightarrow> b = a)"

definition manager_below :: "override_manager \<Rightarrow> override_manager \<Rightarrow> bool" where
  "manager_below m m' \<longleftrightarrow> om_templates m' = om_templates m \<and>
     (\<forall>i ov. map_of (om_overrides m) i = Some ov \<longrightarrow>
        (\<exists>ov'. map_of (om_overrides m') i = Some ov' \<and> override_below ov ov'))"

definition lawful :: "(string \<times> override_template) list \<Rightarrow> policy_override \<Rightarrow> bool" where
  "lawful ts ov \<longleftrightarrow> po_subject ov \<noteq> [] \<and>
     (\<exists>t ttl. map_of ts (po_template_id ov) = Some t \<and> 0 < ttl \<and> ttl \<le> ot_max_ttl_seconds t \<and>
        po_expires_at ov = po_granted_at ov + seconds ttl \<and> (ot_requires_reason t \<longrightarrow> po_reason ov \<noteq> []))"

definition manager_ok :: "override_env \<Rightarrow> override_manager \<Rightarrow> bool" where
  "manager_ok env m \<longleftrightarrow> inj (on_uuid env) \<and> distinct (map fst (om_overrides m)) \<and>
     (\<forall>i ov. map_of (om_overrides m) i = Some ov \<longrightarrow>
        po_id ov = i \<and> (\<exists>n < om_draws m. i = on_uuid env n) \<and> lawful (om_templates m) ov)"

lemma override_below_refl [simp]: "override_below a a"
  by (simp add: override_below_def)

lemma override_below_trans: "override_below a b \<Longrightarrow> override_below b c \<Longrightarrow> override_below a c"
  by (auto simp: override_below_def)

lemma manager_below_refl [simp]: "manager_below m m"
  by (simp add: manager_below_def)

lemma manager_below_trans: "manager_below l m \<Longrightarrow> manager_below m k \<Longrightarrow> manager_below l k"
  unfolding manager_below_def by (metis override_below_trans)

lemma lawful_granted_part: "granted_part b = granted_part a \<Longrightarrow> lawful ts a \<Longrightarrow> lawful ts b \<and> po_id b = po_id a"
  unfolding granted_part_def lawful_def
  by (cases a; cases b) simp

text \<open>Replacing the override under a key by one that it may become.\<close>

lemma replace_override:
  assumes ok: "manager_ok env m" and look: "map_of (om_overrides m) i = Some ov" and below: "override_below ov ov'"
    and m': "om_templates m' = om_templates m" "om_overrides m' = AList.update i ov' (om_overrides m)"
      "om_draws m \<le> om_draws m'"
  shows "manager_ok env m' \<and> manager_below m m'"
proof -
  have "lawful (om_templates m) ov'" "po_id ov' = i"
    using ok look below lawful_granted_part [of ov' ov "om_templates m"]
    by (auto simp: manager_ok_def override_below_def)
  moreover have "\<exists>n < om_draws m'. i = on_uuid env n" using ok look m'(3) by (auto simp: manager_ok_def) (meson less_le_trans)
  moreover have "\<exists>n < om_draws m'. j = on_uuid env n" if "map_of (om_overrides m) j = Some x" for j x
    using ok that m'(3) unfolding manager_ok_def by (meson less_le_trans)
  ultimately have "manager_ok env m'"
    using ok m'(1) unfolding manager_ok_def m'(2) by (auto simp: map_of_update distinct_update)
  moreover have "manager_below m m'"
    using look below m'(1) unfolding manager_below_def m'(2) by (auto simp: map_of_update)
  ultimately show ?thesis by simp
qed

lemma grant_ok:
  assumes ok: "manager_ok env m"
  shows "manager_ok env (snd (grant env g m)) \<and> manager_below m (snd (grant env g m))"
proof (cases "grant_check m g")
  case (Inl e)
  then show ?thesis using ok by (simp add: grant_def)
next
  case (Inr t)
  define ov where "ov = \<lparr>po_id = on_uuid env (Suc (om_draws m)), po_template_id = gi_template_id g,
    po_workspace_id = gi_workspace_id g, po_subject = gi_subject g, po_requested_by = gi_requested_by g,
    po_approved_by = gi_approved_by g, po_reason = gi_reason g, po_granted_at = on_now env (om_draws m),
    po_expires_at = on_now env (om_draws m) + seconds (gi_ttl_seconds g), po_state = OvActive,
    po_consumed_at = None, po_consumed_by = [], po_metadata = gi_metadata g\<rparr>"
  let ?m = "snd (grant env g m)"
  have m': "om_templates ?m = om_templates m" "om_overrides ?m = AList.update (po_id ov) ov (om_overrides m)"
    "om_draws ?m = om_draws m + 2"
    using Inr by (simp_all add: grant_def ov_def Let_def)
  have new: "map_of (om_overrides m) (po_id ov) = None"
  proof (rule ccontr)
    assume "map_of (om_overrides m) (po_id ov) \<noteq> None"
    then obtain n where n: "n < om_draws m" "po_id ov = on_uuid env n"
      using ok unfolding manager_ok_def by blast
    have "inj (on_uuid env)" using ok by (simp add: manager_ok_def)
    with n show False by (auto simp: ov_def inj_eq)
  qed
  have "lawful (om_templates m) ov"
    using Inr by (auto simp: lawful_def ov_def grant_check_def split: option.splits if_splits
        intro!: exI [of _ "gi_ttl_seconds g"])
  moreover have "po_id ov = on_uuid env (Suc (om_draws m))" by (simp add: ov_def)
  moreover have "\<exists>n < om_draws ?m. j = on_uuid env n" if "map_of (om_overrides m) j = Some x" for j x
    using ok that m'(3) unfolding manager_ok_def by (metis trans_less_add1)
  ultimately have "manager_ok env ?m"
    using ok unfolding manager_ok_def m' by (auto simp: map_of_update distinct_update)
  moreover have "manager_below m ?m"
    using new unfolding manager_below_def m' by (auto simp: map_of_update)
  ultimately show ?thesis by simp
qed

lemma finish_below:
  "po_state ov = OvActive \<Longrightarrow> override_below ov (ov\<lparr>po_state := st\<rparr>)"
  "po_state ov = OvActive \<Longrightarrow> override_below ov (ov\<lparr>po_state := st, po_consumed_at := t, po_consumed_by := b\<rparr>)"
  by (simp_all add: override_below_def granted_part_def)

lemma consume_ok:
  assumes ok: "manager_ok env m"
  shows "manager_ok env (snd (consume env i b m)) \<and> manager_below m (snd (consume env i b m))"
proof (cases "\<exists>ov. map_of (om_overrides m) i = Some ov \<and> po_state ov = OvActive")
  case False
  then show ?thesis using ok by (auto simp: consume_def split: option.split)
next
  case True
  then obtain ov where ov: "map_of (om_overrides m) i = Some ov" "po_state ov = OvActive" by auto
  show ?thesis
    by (rule replace_override [OF ok ov(1) finish_below(2) [OF ov(2)]]) (simp_all add: consume_def ov Let_def)
qed

lemma revoke_ok:
  assumes ok: "manager_ok env m"
  shows "manager_ok env (snd (revoke env i b r m)) \<and> manager_below m (snd (revoke env i b r m))"
proof (cases "\<exists>ov. map_of (om_overrides m) i = Some ov \<and> po_state ov = OvActive")
  case False
  then show ?thesis using ok by (auto simp: revoke_def split: option.split)
next
  case True
  then obtain ov where ov: "map_of (om_overrides m) i = Some ov" "po_state ov = OvActive" by auto
  show ?thesis
    by (rule replace_override [OF ok ov(1) finish_below(1) [OF ov(2)]]) (simp_all add: revoke_def ov Let_def)
qed

lemma map_of_map_snd: "map_of (map (\<lambda>(k, v). (k, f v)) xs) k = map_option f (map_of xs k)"
  by (induction xs) auto

lemma expire_below: "override_below ov (expire now ov)"
  by (simp add: expire_def overdue_def override_below_def granted_part_def)

lemma reconcile_fields:
  "om_templates (snd (reconcile_expired env m)) = om_templates m"
  "om_overrides (snd (reconcile_expired env m)) =
     map (\<lambda>(k, ov). (k, expire (on_now env (om_draws m)) ov)) (om_overrides m)"
  "om_draws (snd (reconcile_expired env m)) = Suc (om_draws m)"
  by (simp_all add: reconcile_expired_def Let_def)

lemma reconcile_ok:
  assumes ok: "manager_ok env m"
  shows "manager_ok env (snd (reconcile_expired env m)) \<and> manager_below m (snd (reconcile_expired env m))"
proof -
  let ?e = "expire (on_now env (om_draws m))"
  have kept: "lawful (om_templates m) (?e ov)" "po_id (?e ov) = i"
    if "map_of (om_overrides m) i = Some ov" for i ov
    using ok that lawful_granted_part [of "?e ov" ov "om_templates m"] expire_below
    by (auto simp: manager_ok_def override_below_def)
  have keys: "map fst (map (\<lambda>(k, ov). (k, ?e ov)) (om_overrides m)) = map fst (om_overrides m)"
    by (induction "om_overrides m") auto
  have "manager_ok env (snd (reconcile_expired env m))"
    using ok kept unfolding manager_ok_def reconcile_fields keys
    by (auto simp: map_of_map_snd) (metis less_SucI)
  moreover have "manager_below m (snd (reconcile_expired env m))"
    using expire_below unfolding manager_below_def reconcile_fields by (auto simp: map_of_map_snd)
  ultimately show ?thesis by simp
qed

lemma override_step_ok:
  "manager_ok env m \<Longrightarrow> manager_ok env (override_step env opn m) \<and> manager_below m (override_step env opn m)"
  by (cases opn) (simp_all only: override_step.simps grant_ok consume_ok revoke_ok reconcile_ok)

interpretation overrides: monotone_machine "override_step env" "manager_ok env" manager_below for env
  by unfold_locales (auto dest: override_step_ok intro: manager_below_trans)

lemma new_manager_ok: "inj (on_uuid env) \<Longrightarrow> manager_ok env (new_manager ts)"
  by (simp add: manager_ok_def new_manager_def)

text \<open>C9: An override keeps its identity, subject, approver, reason and term for ever, and once it is
  consumed, expired or revoked nothing about it changes.\<close>

theorem override_terminal:
  assumes "inj (on_uuid env)" "m = fold (override_step env) ops (new_manager ts)"
    and ov: "map_of (om_overrides m) i = Some ov"
  shows "\<exists>ov'. map_of (om_overrides (fold (override_step env) later m)) i = Some ov' \<and>
    granted_part ov' = granted_part ov \<and> (po_state ov \<noteq> OvActive \<longrightarrow> ov' = ov)"
proof -
  have "manager_ok env m"
    unfolding assms(2) by (rule overrides.run_inv [OF new_manager_ok [OF assms(1)]])
  from overrides.run_below [OF this, of later] ov show ?thesis
    by (auto simp: manager_below_def override_below_def)
qed

text \<open>Every override was granted under a template, for a positive time of at most the template's
  maximum (as long as that maximum fits a duration), for a named subject, and with a reason where the
  template demands one.\<close>

theorem override_bounded:
  assumes "inj (on_uuid env)" "m = fold (override_step env) ops (new_manager ts)"
    and ov: "map_of (om_overrides m) i = Some ov"
    and fits: "\<forall>(k, t) \<in> set ts. ot_max_ttl_seconds t < 2 ^ 63 div second_ns"
  shows "po_subject ov \<noteq> [] \<and> (\<exists>t. map_of ts (po_template_id ov) = Some t \<and>
    po_granted_at ov < po_expires_at ov \<and>
    po_expires_at ov \<le> po_granted_at ov + ot_max_ttl_seconds t * second_ns \<and>
    (ot_requires_reason t \<longrightarrow> po_reason ov \<noteq> []))"
proof -
  have start: "manager_ok env (new_manager ts)" by (rule new_manager_ok [OF assms(1)])
  have ok: "manager_ok env m" unfolding assms(2) by (rule overrides.run_inv [OF start])
  have ts: "om_templates m = ts"
    using overrides.run_below [OF start, of ops] assms(2) by (simp add: manager_below_def new_manager_def)
  obtain t ttl where t: "map_of ts (po_template_id ov) = Some t" "0 < ttl" "ttl \<le> ot_max_ttl_seconds t"
    "po_expires_at ov = po_granted_at ov + seconds ttl" "ot_requires_reason t \<longrightarrow> po_reason ov \<noteq> []"
    "po_subject ov \<noteq> []"
    using ok ov unfolding manager_ok_def ts lawful_def by blast
  have "ot_max_ttl_seconds t < 2 ^ 63 div second_ns" using fits map_of_SomeD [OF t(1)] by auto
  then have small: "ttl * second_ns < 2 ^ 63" using t(3) by (simp add: second_ns_def)
  then have "seconds ttl = ttl * second_ns"
    unfolding seconds_def using t(2) by (intro wrap64_id) (simp_all add: second_ns_def)
  moreover have "ttl * second_ns \<le> ot_max_ttl_seconds t * second_ns" using t(3) by (simp add: second_ns_def)
  moreover have "0 < ttl * second_ns" using t(2) by (simp add: second_ns_def)
  ultimately show ?thesis using t by (intro conjI exI [of _ t]) auto
qed

text \<open>C24: Guards do not depend on when the reconciler runs: after it, every later question whether an
  override is active has the same answer as before, and no active override is overdue.\<close>

theorem reconciler_invisible:
  assumes "on_now env (om_draws m) \<le> now"
  shows "is_active now t subject (snd (reconcile_expired env m)) = is_active now t subject m \<and>
    (\<forall>(k, ov) \<in> set (om_overrides (snd (reconcile_expired env m))). \<not> overdue (on_now env (om_draws m)) ov)"
proof -
  have same: "override_live now (expire (on_now env (om_draws m)) ov) = override_live now ov"
    "po_template_id (expire x ov) = po_template_id ov" "po_subject (expire x ov) = po_subject ov" for ov x
    using assms by (auto simp: override_live_def expire_def overdue_def)
  have "\<not> overdue x (expire x ov)" for x ov by (simp add: expire_def overdue_def)
  then show ?thesis
    by (auto simp: is_active_def reconcile_fields list_ex_iff same case_prod_beta)
qed

section \<open>Witnesses\<close>

definition sample_template :: override_template where
  "sample_template =
     \<lparr>ot_id = ''ci-bypass'', ot_description = [], ot_action = ''merge'', ot_target = ''repo'',
      ot_required_role = ''lead'', ot_max_ttl_seconds = 3600, ot_requires_reason = True,
      ot_events_on_grant = [''granted''], ot_events_on_consume = [], ot_events_on_expire = [''expired'']\<rparr>"

definition sample_grant :: grant_input where
  "sample_grant =
     \<lparr>gi_template_id = ''ci-bypass'', gi_workspace_id = ''w'', gi_subject = ''repo-1'',
      gi_requested_by = ''ann'', gi_approved_by = ''bob'', gi_approver_role = ''lead'',
      gi_reason = ''hotfix'', gi_ttl_seconds = 60, gi_metadata = []\<rparr>"

definition sample_env :: override_env where
  "sample_env = \<lparr>on_uuid = (\<lambda>n. replicate n (CHR ''a'')), on_now = (\<lambda>n. 0)\<rparr>"

definition sample_manager :: override_manager where
  "sample_manager =
     fold (override_step sample_env) [OpGrant sample_grant] (new_manager [(''ci-bypass'', sample_template)])"

lemma sample_inj: "inj (on_uuid sample_env)"
  by (rule injI) (metis length_replicate sample_env_def override_env.select_convs(1))

lemma sample_override:
  obtains ov where "map_of (om_overrides sample_manager) ''a'' = Some ov" "po_state ov = OvActive"
proof -
  have "grant_check (new_manager [(''ci-bypass'', sample_template)]) sample_grant = Inr sample_template"
    by (simp add: grant_check_def new_manager_def sample_template_def sample_grant_def)
  then show thesis
    using that by (simp add: sample_manager_def grant_def new_manager_def sample_env_def Let_def)
qed

theorem override_terminal_witness:
  "\<exists>ov ov'. map_of (om_overrides sample_manager) ''a'' = Some ov \<and>
     map_of (om_overrides (fold (override_step sample_env) [OpConsume ''a'' ''ci'', OpReconcile] sample_manager)) ''a''
       = Some ov' \<and> granted_part ov' = granted_part ov"
proof (rule sample_override)
  fix ov assume ov: "map_of (om_overrides sample_manager) ''a'' = Some ov"
  show ?thesis using override_terminal [OF sample_inj sample_manager_def ov] ov by blast
qed

theorem override_bounded_witness:
  "\<exists>ov. map_of (om_overrides sample_manager) ''a'' = Some ov \<and> po_granted_at ov < po_expires_at ov"
proof (rule sample_override)
  fix ov assume ov: "map_of (om_overrides sample_manager) ''a'' = Some ov"
  show ?thesis
    using override_bounded [OF sample_inj sample_manager_def ov] ov
    by (auto simp: sample_template_def second_ns_def)
qed

theorem reconciler_invisible_witness:
  "is_active 5 ''ci-bypass'' ''repo-1'' (snd (reconcile_expired sample_env sample_manager)) =
     is_active 5 ''ci-bypass'' ''repo-1'' sample_manager"
  using reconciler_invisible [of sample_env sample_manager 5] by (simp add: sample_env_def)

definition sample_request :: evaluate_request where
  "sample_request =
     \<lparr>eq_principal = ''ann'', eq_action = ''deploy:prod'', eq_workspace_id = ''w'', eq_openspec_id = None,
      eq_asset_id = None, eq_env = ''prod'', eq_criticality = [], eq_trust_level = [],
      eq_data_classification = [], eq_role = [], eq_responsible = [], eq_target = []\<rparr>"

theorem evaluate_most_restrictive_witness:
  "map_sum (\<lambda>e. e) er_decision (evaluate (\<lambda>c b. Inr True) (new_engine default_rules) sample_request) =
     Inr VerdictApproval"
proof -
  let ?cel = "(\<lambda>c b. Inr True) :: cel"
  have no: "eval_cel ?cel c r = Inr True" for c r by (simp add: eval_cel_def)
  have "hits ?cel sample_request default_rules VerdictDeny = {}"
    "hits ?cel sample_request default_rules VerdictApproval \<noteq> {}"
  proof -
    have "\<forall>ru \<in> set default_rules. ru_decision ru \<noteq> VerdictDeny"
      "\<exists>ru \<in> set default_rules. ru_decision ru = VerdictApproval"
      by (simp_all add: default_rules_def)
    then show "hits ?cel sample_request default_rules VerdictDeny = {}"
      "hits ?cel sample_request default_rules VerdictApproval \<noteq> {}"
      by (auto simp: hits_def holds_def no)
  qed
  then have "decided ?cel sample_request default_rules = VerdictApproval" by (simp add: decided_def)
  then show ?thesis
    using evaluate_most_restrictive [where cel = ?cel and rules = default_rules and r = sample_request]
    by (cases "evaluate ?cel (new_engine default_rules) sample_request") (simp_all add: no)
qed

end
