(* ===== verification/Trigger_Router.thy ===== *)
theory Trigger_Router
  imports Workflow_AST
begin

text \<open>
  The trigger router (\<open>services/trigger-router/internal/trigger\<close>): the registry of subscriptions
  (\<open>registry.go\<close>), the dispatcher with its retrying client of the workflow runtime
  (\<open>dispatch.go\<close>, \<open>events.go\<close>), the adapters that fire triggers (\<open>webhook.go\<close>, \<open>cron.go\<close>,
  \<open>eventbus.go\<close>, \<open>email.go\<close>), and the manual fire of \<open>http.go\<close>.

  The runtime behind its HTTP interface, the secrets broker, the HMAC function, JSON decoding, the
  cron library, the event bus and the mailbox are fields of an environment. Loops over maps run in
  the order of the association list.
\<close>

section \<open>Subscriptions\<close>

record subscription =
  su_tenant_id :: string
  su_workspace_id :: string
  su_workflow_id :: string
  su_version :: string
  su_trigger_id :: string
  su_type :: trigger_type
  su_config :: obj
  su_concurrency :: trigger_concurrency
  su_registered_at :: gotime

text \<open>Workflow, trigger and version.\<close>

type_synonym sub_key = "string \<times> string \<times> string"

definition sub_key :: "subscription \<Rightarrow> sub_key" where
  "sub_key s = (su_workflow_id s, su_trigger_id s, su_version s)"

text \<open>The second index is a map to sets of keys, kept as lists without repetition.\<close>

record sub_registry =
  sr_subs :: "(sub_key \<times> subscription) list"
  sr_by_type :: "(trigger_type \<times> sub_key list) list"

definition new_sub_registry :: sub_registry where
  "new_sub_registry = \<lparr>sr_subs = [], sr_by_type = []\<rparr>"

definition add_key :: "sub_key \<Rightarrow> sub_key list \<Rightarrow> sub_key list" where
  "add_key k ks = (if k \<in> set ks then ks else ks @ [k])"

definition trigger_subscription :: "string \<Rightarrow> string \<Rightarrow> workflow \<Rightarrow> gotime \<Rightarrow> trigger \<Rightarrow> subscription" where
  "trigger_subscription tenant ws w now t =
     \<lparr>su_tenant_id = tenant, su_workspace_id = ws, su_workflow_id = md_id (wf_metadata w),
      su_version = md_version (wf_metadata w), su_trigger_id = tr_id t, su_type = tr_type t,
      su_config = tr_config t, su_concurrency = concurrency_or_default t, su_registered_at = now\<rparr>"

definition put_subscription :: "subscription \<Rightarrow> sub_registry \<Rightarrow> sub_registry" where
  "put_subscription s r =
     r\<lparr>sr_subs := AList.update (sub_key s) s (sr_subs r),
       sr_by_type := AList.update (su_type s) (add_key (sub_key s) (list_at (sr_by_type r) (su_type s)))
         (sr_by_type r)\<rparr>"

text \<open>\<open>now\<close> gives one clock reading per trigger.\<close>

definition ingest_subs :: "(nat \<Rightarrow> gotime) \<Rightarrow> string \<Rightarrow> string \<Rightarrow> workflow \<Rightarrow> subscription list" where
  "ingest_subs now tenant ws w =
     (let ts = sp_triggers (wf_spec w)
      in map (\<lambda>(n, t). trigger_subscription tenant ws w (now n) t) (zip [0..<length ts] ts))"

definition ingest_workflow ::
  "(nat \<Rightarrow> gotime) \<Rightarrow> string \<Rightarrow> string \<Rightarrow> workflow option \<Rightarrow> sub_registry \<Rightarrow> subscription list \<times> sub_registry" where
  "ingest_workflow now tenant ws wopt r =
     (case wopt of
        None \<Rightarrow> ([], r)
      | Some w \<Rightarrow>
          let subs = ingest_subs now tenant ws w in (subs, fold put_subscription subs r))"

definition drop_key :: "trigger_type \<Rightarrow> sub_key \<Rightarrow> (trigger_type \<times> sub_key list) list \<Rightarrow> (trigger_type \<times> sub_key list) list" where
  "drop_key t k m =
     (case map_of m t of None \<Rightarrow> m | Some ks \<Rightarrow> AList.update t (filter (\<lambda>j. j \<noteq> k) ks) m)"

definition remove_entry :: "string \<Rightarrow> string \<Rightarrow> sub_key \<times> subscription \<Rightarrow> sub_registry \<Rightarrow> sub_registry" where
  "remove_entry wid version e r =
     (case e of ((w, t, v), s) \<Rightarrow>
        if w = wid \<and> v = version
        then r\<lparr>sr_subs := AList.delete (w, t, v) (sr_subs r),
               sr_by_type := drop_key (su_type s) (w, t, v) (sr_by_type r)\<rparr>
        else r)"

definition remove_workflow_version :: "string \<Rightarrow> string \<Rightarrow> sub_registry \<Rightarrow> sub_registry" where
  "remove_workflow_version wid version r = fold (remove_entry wid version) (sr_subs r) r"

text \<open>Without a version the latest registration wins, the first one found among equals.\<close>

fun latest_sub :: "subscription option \<Rightarrow> subscription list \<Rightarrow> subscription option" where
  "latest_sub best [] = best"
| "latest_sub best (s # ss) =
     (case best of
        None \<Rightarrow> latest_sub (Some s) ss
      | Some b \<Rightarrow>
          latest_sub (if su_registered_at s > su_registered_at b then Some s else Some b) ss)"

definition lookup_subscription :: "string \<Rightarrow> string \<Rightarrow> string \<Rightarrow> sub_registry \<Rightarrow> subscription option" where
  "lookup_subscription wid tid version r =
     (if version \<noteq> [] then map_of (sr_subs r) (wid, tid, version)
      else latest_sub None
             (map snd (filter (\<lambda>((w, t, v), s). w = wid \<and> t = tid) (sr_subs r))))"

definition by_type :: "trigger_type \<Rightarrow> sub_registry \<Rightarrow> subscription list" where
  "by_type t r = List.map_filter (map_of (sr_subs r)) (list_at (sr_by_type r) t)"

definition all_subscriptions :: "sub_registry \<Rightarrow> subscription list" where
  "all_subscriptions r = map snd (sr_subs r)"

section \<open>The client of the runtime\<close>

text \<open>What one HTTP attempt yields: the request cannot be built, the transport fails, or a status with
  the execution identifier of its body.\<close>

datatype http_attempt = BadRequest string | TransportError string | HttpStatus int string

datatype start_error =
    StartMarshal string | StartNewRequest string | DropConcurrency | Upstream int
  | NonRetryable int | Transport string | DispatchExhausted

definition nanos_ms :: int where "nanos_ms = 1000000"

text \<open>\<open>100 * (1 << attempt)\<close> milliseconds, in 64 bits, capped at five seconds.\<close>

definition router_backoff :: "nat \<Rightarrow> int" where
  "router_backoff attempt =
     (let d = wrap64 (wrap64 (100 * wrap64 (2 ^ attempt)) * nanos_ms)
      in if d > 5000 * nanos_ms then 5000 * nanos_ms else d)"

text \<open>The loop, with the number of attempts left, the number made and the last error; it also lists
  the delays it waited.\<close>

fun start_attempts ::
  "(nat \<Rightarrow> http_attempt) \<Rightarrow> nat \<Rightarrow> nat \<Rightarrow> start_error option \<Rightarrow> int list \<Rightarrow> (start_error + string) \<times> int list" where
  "start_attempts answer 0 i err waits =
     (Inl (case err of None \<Rightarrow> DispatchExhausted | Some e \<Rightarrow> e), waits)"
| "start_attempts answer (Suc n) i err waits =
     (case answer i of
        BadRequest e \<Rightarrow> (Inl (StartNewRequest e), waits)
      | TransportError e \<Rightarrow>
          start_attempts answer n (Suc i) (Some (Transport e)) (waits @ [router_backoff i])
      | HttpStatus code exec \<Rightarrow>
          if 200 \<le> code \<and> code < 300 then (Inr exec, waits)
          else if code = 409 then (Inl DropConcurrency, waits)
          else if code \<ge> 500 then
            start_attempts answer n (Suc i) (Some (Upstream code)) (waits @ [router_backoff i])
          else (Inl (NonRetryable code), waits))"

definition attempts_of :: "int \<Rightarrow> nat" where
  "attempts_of max_attempts = (if max_attempts \<le> 0 then 4 else nat max_attempts)"

record start_execution_request =
  sx_tenant_id :: string
  sx_workspace_id :: string
  sx_workflow_id :: string
  sx_version :: string
  sx_correlation_id :: string
  sx_trigger_id :: string
  sx_fired_at :: gotime
  sx_payload :: obj

definition http_start_execution ::
  "(start_execution_request \<Rightarrow> string option) \<Rightarrow> (start_execution_request \<Rightarrow> nat \<Rightarrow> http_attempt) \<Rightarrow> int \<Rightarrow>
   start_execution_request \<Rightarrow> start_error + string" where
  "http_start_execution marshal_error answer max_attempts req =
     (case marshal_error req of
        Some e \<Rightarrow> Inl (StartMarshal e)
      | None \<Rightarrow> fst (start_attempts (answer req) (attempts_of max_attempts) 0 None []))"

section \<open>The dispatcher\<close>

record trigger_cloud_event =
  te_spec_version :: string
  te_id :: string
  te_type :: string
  te_source :: string
  te_tenant_id :: string
  te_workspace_id :: string
  te_workflow_id :: string
  te_version :: string
  te_trigger_id :: string
  te_correlation_id :: string
  te_time :: gotime
  te_data :: obj

definition ev_fired :: string where "ev_fired = ''workflow.trigger.fired.v1''"
definition ev_dropped :: string where "ev_dropped = ''workflow.trigger.dropped.v1''"
definition ev_failed :: string where "ev_failed = ''workflow.trigger.failed.v1''"

text \<open>What decoding a body into a Go map yields: an error, the nil map of the JSON value \<open>null\<close>, or a
  map.\<close>

datatype json_object = JsonError | JsonNull | JsonObj obj

text \<open>
  The collaborators. \<open>tn_runtime\<close> answers the \<open>n\<close>-th call of the runtime client. \<open>tn_hmac\<close> is
  HMAC-SHA256, \<open>tn_unhex\<close> decodes hexadecimal digits, \<open>tn_json\<close> an object; \<open>tn_cron_add\<close> and
  \<open>tn_subscribe\<close> answer an error or a handle; \<open>tn_poll\<close> answers the \<open>n\<close>-th poll.
\<close>

record email_message =
  em_message_id :: string
  em_subject :: string
  em_from :: string
  em_body :: string
  em_received_at :: gotime

record router_env =
  tn_uuid :: "nat \<Rightarrow> string"
  tn_now :: "nat \<Rightarrow> gotime"
  tn_runtime :: "nat \<Rightarrow> start_execution_request \<Rightarrow> start_error + string"
  tn_error_text :: "start_error \<Rightarrow> string"
  tn_time_val :: "gotime \<Rightarrow> val"
  tn_secret :: "string \<Rightarrow> string + string"
  tn_hmac :: "string \<Rightarrow> string \<Rightarrow> string"
  tn_unhex :: "string \<Rightarrow> string option"
  tn_json :: "string \<Rightarrow> json_object"
  tn_cron_add :: "string \<Rightarrow> nat \<Rightarrow> string + nat"
  tn_subscribe :: "string \<Rightarrow> nat \<Rightarrow> string + nat"
  tn_poll :: "nat \<Rightarrow> string \<Rightarrow> gotime \<Rightarrow> string + email_message list"

record router =
  tx_starts :: "start_execution_request list"
  tx_events :: "trigger_cloud_event list"
  tx_dead :: "(subscription \<times> obj \<times> start_error) list"
  tx_draws :: nat

definition new_router :: router where
  "new_router = \<lparr>tx_starts = [], tx_events = [], tx_dead = [], tx_draws = 0\<rparr>"

definition router_draw :: "router \<Rightarrow> nat \<times> router" where
  "router_draw x = (tx_draws x, x\<lparr>tx_draws := Suc (tx_draws x)\<rparr>)"

definition emit_trigger :: "router_env \<Rightarrow> subscription \<Rightarrow> string \<Rightarrow> string \<Rightarrow> obj \<Rightarrow> router \<Rightarrow> router" where
  "emit_trigger env s ty corr data x =
     (let (i, x1) = router_draw x; (t, x2) = router_draw x1
      in x2\<lparr>tx_events := tx_events x2 @
           [\<lparr>te_spec_version = ''1.0'', te_id = tn_uuid env i, te_type = ty,
             te_source = ''forge.trigger-router'', te_tenant_id = su_tenant_id s,
             te_workspace_id = su_workspace_id s, te_workflow_id = su_workflow_id s,
             te_version = su_version s, te_trigger_id = su_trigger_id s, te_correlation_id = corr,
             te_time = tn_now env t, te_data = data\<rparr>]\<rparr>)"

text \<open>The dead-letter sink is the list; the code skips it when it is nil.\<close>

definition firing_request :: "router_env \<Rightarrow> subscription \<Rightarrow> obj \<Rightarrow> nat \<Rightarrow> start_execution_request" where
  "firing_request env s payload n =
     \<lparr>sx_tenant_id = su_tenant_id s, sx_workspace_id = su_workspace_id s,
      sx_workflow_id = su_workflow_id s, sx_version = su_version s, sx_correlation_id = tn_uuid env n,
      sx_trigger_id = su_trigger_id s, sx_fired_at = tn_now env (Suc n), sx_payload = payload\<rparr>"

definition fire :: "router_env \<Rightarrow> subscription \<Rightarrow> obj \<Rightarrow> router \<Rightarrow> (start_error + string) \<times> router" where
  "fire env s payload x =
     (let req = firing_request env s payload (tx_draws x);
          corr = sx_correlation_id req;
          res = tn_runtime env (length (tx_starts x)) req;
          x1 = x\<lparr>tx_draws := tx_draws x + 2, tx_starts := tx_starts x @ [req]\<rparr>
      in case res of
           Inl DropConcurrency \<Rightarrow>
             (Inl DropConcurrency,
              emit_trigger env s ev_dropped corr [(''reason'', VString ''drop_concurrency'')] x1)
         | Inl e \<Rightarrow>
             (let x2 = emit_trigger env s ev_failed corr [(''reason'', VString (tn_error_text env e))] x1
              in (Inl e, x2\<lparr>tx_dead := tx_dead x2 @ [(s, payload, e)]\<rparr>))
         | Inr exec \<Rightarrow>
             (Inr exec, emit_trigger env s ev_fired corr [(''execution_id'', VString exec)] x1))"

section \<open>Webhooks and manual fires\<close>

text \<open>The status and the body of a response.\<close>

type_synonym http_reply = "int \<times> string"

definition verify_hmac :: "router_env \<Rightarrow> string \<Rightarrow> string \<Rightarrow> string \<Rightarrow> bool" where
  "verify_hmac env secret bdy header =
     (if \<not> has_prefix header ''sha256='' then False
      else case tn_unhex env (trim_prefix header ''sha256='') of
             None \<Rightarrow> False
           | Some got \<Rightarrow> got = tn_hmac env secret bdy)"

record hook_request =
  hr_method :: string
  hr_path :: string
  hr_body :: "string option"
  hr_signature :: string

definition hooks_prefix :: string where "hooks_prefix = ''/v1/hooks/in/''"
definition triggers_path :: string where "triggers_path = ''/v1/triggers/''"

text \<open>\<open>Some\<close> reply when the signature check refuses the request.\<close>

definition check_signature :: "router_env \<Rightarrow> subscription \<Rightarrow> string \<Rightarrow> string \<Rightarrow> http_reply option" where
  "check_signature env s bdy header =
     (let ref = val_string (map_of (su_config s) ''secret_ref'')
      in if ref = [] then None
         else case tn_secret env ref of
                Inl e \<Rightarrow> Some (500, ''secret_resolve_failed'')
              | Inr secret \<Rightarrow>
                  if verify_hmac env secret bdy header then None
                  else Some (401, ''invalid_signature''))"

definition hook_payload :: "router_env \<Rightarrow> string \<Rightarrow> obj" where
  "hook_payload env bdy =
     (if bdy = [] then []
      else case tn_json env bdy of
             JsonError \<Rightarrow> [(''raw'', VString bdy)] | JsonNull \<Rightarrow> [] | JsonObj m \<Rightarrow> m)"

definition fire_reply :: "router_env \<Rightarrow> string \<Rightarrow> start_error + string \<Rightarrow> http_reply" where
  "fire_reply env prefix res =
     (case res of
        Inl DropConcurrency \<Rightarrow> (409, ''drop_concurrency'')
      | Inl e \<Rightarrow> (502, prefix @ tn_error_text env e)
      | Inr exec \<Rightarrow> (202, exec))"

definition serve_webhook :: "router_env \<Rightarrow> sub_registry \<Rightarrow> hook_request \<Rightarrow> router \<Rightarrow> http_reply \<times> router" where
  "serve_webhook env reg h x =
     (if hr_method h \<noteq> ''POST'' then ((405, ''method_not_allowed''), x)
      else let parts = split_on (CHR ''/'') (trim_prefix (hr_path h) hooks_prefix)
      in if length parts < 2 \<or> parts ! 0 = [] \<or> parts ! 1 = []
         then ((400, ''bad_path: expected /v1/hooks/in/{workflow_id}/{trigger_id}''), x)
         else case lookup_subscription (parts ! 0) (parts ! 1) [] reg of
                None \<Rightarrow> ((404, ''trigger_not_registered''), x)
              | Some s \<Rightarrow>
                  if su_type s \<noteq> TriggerWebhookIn then ((400, ''trigger_type_mismatch''), x)
                  else case hr_body h of
                         None \<Rightarrow> ((400, ''read_body''), x)
                       | Some bdy \<Rightarrow>
                           (case check_signature env s bdy (hr_signature h) of
                              Some reply \<Rightarrow> (reply, x)
                            | None \<Rightarrow>
                                let (res, x1) = fire env s (hook_payload env bdy) x
                                in (fire_reply env ''dispatch_failed: '' res, x1)))"

text \<open>
  The manual fire. \<open>hr_body\<close> is \<open>None\<close> when the content length is not positive. Assigning to the nil map
  that the body \<open>null\<close> decodes to panics, so the handler gives no reply.
\<close>

definition serve_manual ::
  "router_env \<Rightarrow> sub_registry \<Rightarrow> hook_request \<Rightarrow> router \<Rightarrow> http_reply option \<times> router" where
  "serve_manual env reg h x =
     (if hr_method h \<noteq> ''POST'' then (Some (405, ''method_not_allowed''), x)
      else let parts = split_on (CHR ''/'') (trim_prefix (hr_path h) triggers_path)
      in if length parts < 3 \<or> parts ! 2 \<noteq> ''fire''
         then (Some (400, ''bad_path: expected /v1/triggers/{workflow_id}/{trigger_id}/fire''), x)
         else case lookup_subscription (parts ! 0) (parts ! 1) [] reg of
                None \<Rightarrow> (Some (404, ''trigger_not_registered''), x)
              | Some s \<Rightarrow>
                  (case (case hr_body h of None \<Rightarrow> JsonObj [] | Some bdy \<Rightarrow> tn_json env bdy) of
                     JsonError \<Rightarrow> (Some (400, ''bad_json''), x)
                   | JsonNull \<Rightarrow> (None, x)
                   | JsonObj payload \<Rightarrow>
                       let (n, x1) = router_draw x;
                           stamped = AList.update ''_manual_fired_at'' (tn_time_val env (tn_now env n)) payload;
                           (res, x2) = fire env s stamped x1
                       in (Some (fire_reply env [] res), x2)))"

section \<open>Cron and the event bus\<close>

text \<open>What is scheduled or subscribed: the handle of the library, and the subscription the callback
  captured. \<open>sc_calls\<close> counts the calls to the library and \<open>sc_removed\<close> lists the handles given
  back.\<close>

record schedule =
  sc_entries :: "(sub_key \<times> nat \<times> subscription) list"
  sc_removed :: "nat list"
  sc_calls :: nat

definition new_schedule :: schedule where
  "new_schedule = \<lparr>sc_entries = [], sc_removed = [], sc_calls = 0\<rparr>"

definition desired_subs :: "trigger_type \<Rightarrow> sub_registry \<Rightarrow> (sub_key \<times> subscription) list" where
  "desired_subs t reg = fold (\<lambda>s m. AList.update (sub_key s) s m) (by_type t reg) []"

definition drop_entries :: "(sub_key \<times> subscription) list \<Rightarrow> schedule \<Rightarrow> schedule" where
  "drop_entries desired sc =
     sc\<lparr>sc_entries := filter (\<lambda>(k, e). map_of desired k \<noteq> None) (sc_entries sc),
        sc_removed := sc_removed sc @
          map (fst \<circ> snd) (filter (\<lambda>(k, e). map_of desired k = None) (sc_entries sc))\<rparr>"

text \<open>The expression given to the cron library, with the time zone in front.\<close>

definition cron_expression :: "subscription \<Rightarrow> string" where
  "cron_expression s =
     (let expr = val_string (map_of (su_config s) ''expression'');
          tz = val_string (map_of (su_config s) ''timezone'')
      in if expr = [] then [] else if tz = [] then expr else ''CRON_TZ='' @ tz @ '' '' @ expr)"

definition add_cron :: "router_env \<Rightarrow> sub_key \<times> subscription \<Rightarrow> schedule \<Rightarrow> schedule" where
  "add_cron env ks sc =
     (case ks of (k, s) \<Rightarrow>
        if map_of (sc_entries sc) k \<noteq> None then sc
        else if cron_expression s = [] then sc
        else let sc1 = sc\<lparr>sc_calls := Suc (sc_calls sc)\<rparr>
             in case tn_cron_add env (cron_expression s) (sc_calls sc) of
                  Inl e \<Rightarrow> sc1
                | Inr h \<Rightarrow> sc1\<lparr>sc_entries := AList.update k (h, s) (sc_entries sc1)\<rparr>)"

definition cron_refresh :: "router_env \<Rightarrow> sub_registry \<Rightarrow> schedule \<Rightarrow> schedule" where
  "cron_refresh env reg sc =
     (let desired = desired_subs TriggerCron reg
      in fold (add_cron env) desired (drop_entries desired sc))"

definition cron_tick :: "router_env \<Rightarrow> subscription \<Rightarrow> router \<Rightarrow> (start_error + string) \<times> router" where
  "cron_tick env s x =
     (let (n, x1) = router_draw x
      in fire env s [(''fired_at'', tn_time_val env (tn_now env n)), (''source'', VString ''cron'')] x1)"

definition default_known_topics :: "string list" where
  "default_known_topics =
     [''workflow.published.v1'', ''workflow.started.v1'', ''workflow.completed.v1'',
      ''workflow.failed.v1'', ''workflow.step.started.v1'', ''workflow.step.completed.v1'',
      ''workflow.trigger.fired.v1'', ''workflow.trigger.dropped.v1'',
      ''workflow.trigger.failed.v1'', ''workflow.llm.budget_exhausted.v1'',
      ''deployment.completed.v1'', ''deployment.failed.v1'', ''incident.opened.v1'',
      ''incident.resolved.v1'', ''symptom.detected.v1'', ''github.push.v1'',
      ''github.pull_request.opened.v1'', ''github.pull_request.merged.v1'']"

definition sub_topic :: "subscription \<Rightarrow> string" where
  "sub_topic s = val_string (map_of (su_config s) ''topic'')"

definition add_bus :: "router_env \<Rightarrow> string list \<Rightarrow> sub_key \<times> subscription \<Rightarrow> schedule \<Rightarrow> schedule" where
  "add_bus env known ks sc =
     (case ks of (k, s) \<Rightarrow>
        if map_of (sc_entries sc) k \<noteq> None then sc
        else if sub_topic s = [] then sc
        else if sub_topic s \<notin> set known then sc
        else let sc1 = sc\<lparr>sc_calls := Suc (sc_calls sc)\<rparr>
             in case tn_subscribe env (sub_topic s) (sc_calls sc) of
                  Inl e \<Rightarrow> sc1
                | Inr h \<Rightarrow> sc1\<lparr>sc_entries := AList.update k (h, s) (sc_entries sc1)\<rparr>)"

definition bus_refresh :: "router_env \<Rightarrow> string list \<Rightarrow> sub_registry \<Rightarrow> schedule \<Rightarrow> schedule" where
  "bus_refresh env known reg sc =
     (let desired = desired_subs TriggerEventBus reg
      in fold (add_bus env known) desired (drop_entries desired sc))"

text \<open>The in-process bus: handlers by topic. Cancelling removes what is at the position the handler had
  when it subscribed.\<close>

definition bus_subscribe :: "string \<Rightarrow> 'h \<Rightarrow> (string \<times> 'h list) list \<Rightarrow> nat \<times> (string \<times> 'h list) list" where
  "bus_subscribe topic h subs = (length (list_at subs topic), push_at topic h subs)"

definition bus_cancel :: "string \<Rightarrow> nat \<Rightarrow> (string \<times> 'h list) list \<Rightarrow> (string \<times> 'h list) list" where
  "bus_cancel topic i subs =
     (let hs = list_at subs topic
      in if i < length hs then AList.update topic (take i hs @ drop (Suc i) hs) subs else subs)"

definition bus_publish :: "string \<Rightarrow> (string \<times> subscription list) list \<Rightarrow> router_env \<Rightarrow> obj \<Rightarrow> router \<Rightarrow> router" where
  "bus_publish topic subs env payload x =
     fold (\<lambda>s y. snd (fire env s payload y)) (list_at subs topic) x"

section \<open>Email\<close>

record email_filter =
  ef_subject_contains :: string
  ef_from_matches :: string

definition extract_filter :: "val option \<Rightarrow> email_filter" where
  "extract_filter raw =
     (case raw of
        Some (VMap m) \<Rightarrow>
          \<lparr>ef_subject_contains = val_string (map_of m ''subject_contains''),
           ef_from_matches = val_string (map_of m ''from_matches'')\<rparr>
      | _ \<Rightarrow> \<lparr>ef_subject_contains = [], ef_from_matches = []\<rparr>)"

definition match_filter :: "email_filter \<Rightarrow> email_message \<Rightarrow> bool" where
  "match_filter f m =
     (if ef_subject_contains f \<noteq> [] \<and> \<not> contains_str (em_subject m) (ef_subject_contains f) then False
      else if ef_from_matches f \<noteq> [] \<and> \<not> contains_str (em_from m) (ef_from_matches f) then False
      else True)"

definition email_payload :: "router_env \<Rightarrow> email_message \<Rightarrow> obj" where
  "email_payload env m =
     [(''subject'', VString (em_subject m)), (''from'', VString (em_from m)),
      (''body'', VString (em_body m)), (''received_at'', tn_time_val env (em_received_at m)),
      (''message_id'', VString (em_message_id m))]"

text \<open>The poller remembers, per subscription, the latest time of a message it dispatched.\<close>

record poller =
  pl_last_seen :: "(sub_key \<times> gotime) list"
  pl_polls :: nat
  pl_dispatched :: nat

definition last_seen :: "poller \<Rightarrow> sub_key \<Rightarrow> gotime" where
  "last_seen p k = (case map_of (pl_last_seen p) k of None \<Rightarrow> 0 | Some t \<Rightarrow> t)"

definition poll_message ::
  "router_env \<Rightarrow> subscription \<Rightarrow> email_filter \<Rightarrow> email_message \<Rightarrow> poller \<times> router \<Rightarrow> poller \<times> router" where
  "poll_message env s f m px =
     (case px of (p, x) \<Rightarrow>
        if \<not> match_filter f m then (p, x)
        else case fire env s (email_payload env m) x of
               (Inl e, x1) \<Rightarrow> (p, x1)
             | (Inr exec, x1) \<Rightarrow>
                 (p\<lparr>pl_dispatched := Suc (pl_dispatched p),
                    pl_last_seen :=
                      (if em_received_at m > last_seen p (sub_key s)
                       then AList.update (sub_key s) (em_received_at m) (pl_last_seen p)
                       else pl_last_seen p)\<rparr>, x1))"

definition poll_subscription :: "router_env \<Rightarrow> subscription \<Rightarrow> poller \<times> router \<Rightarrow> poller \<times> router" where
  "poll_subscription env s px =
     (case px of (p, x) \<Rightarrow>
        let ref = val_string (map_of (su_config s) ''mailbox_ref'')
        in if ref = [] then (p, x)
           else let p1 = p\<lparr>pl_polls := Suc (pl_polls p)\<rparr>
                in case tn_poll env (pl_polls p) ref (last_seen p (sub_key s)) of
                     Inl e \<Rightarrow> (p1, x)
                   | Inr msgs \<Rightarrow>
                       fold (poll_message env s (extract_filter (map_of (su_config s) ''filter''))) msgs (p1, x))"

definition email_tick :: "router_env \<Rightarrow> sub_registry \<Rightarrow> poller \<times> router \<Rightarrow> poller \<times> router" where
  "email_tick env reg px = fold (poll_subscription env) (by_type TriggerEmailInbound reg) px"

section \<open>The retry loop\<close>

text \<open>Which answers are retried, and what the client makes of an answer.\<close>

definition retried :: "http_attempt \<Rightarrow> bool" where
  "retried a = (case a of BadRequest e \<Rightarrow> False | TransportError e \<Rightarrow> True | HttpStatus code exec \<Rightarrow> code \<ge> 500)"

definition attempt_verdict :: "http_attempt \<Rightarrow> start_error + string" where
  "attempt_verdict a =
     (case a of
        BadRequest e \<Rightarrow> Inl (StartNewRequest e)
      | TransportError e \<Rightarrow> Inl (Transport e)
      | HttpStatus code exec \<Rightarrow>
          if 200 \<le> code \<and> code < 300 then Inr exec
          else if code = 409 then Inl DropConcurrency
          else if code \<ge> 500 then Inl (Upstream code) else Inl (NonRetryable code))"

lemma start_attempts_step:
  "start_attempts answer (Suc n) i err waits =
     (if retried (answer i)
      then start_attempts answer n (Suc i)
             (case attempt_verdict (answer i) of Inl e \<Rightarrow> Some e | Inr x \<Rightarrow> err) (waits @ [router_backoff i])
      else (attempt_verdict (answer i), waits))"
  by (cases "answer i") (auto simp: retried_def attempt_verdict_def)

lemma start_attempts_result:
  "fst (start_attempts answer n i err waits) =
     (case List.find (\<lambda>j. \<not> retried (answer j)) [i..<i + n] of
        Some j \<Rightarrow> attempt_verdict (answer j)
      | None \<Rightarrow> if n = 0 then Inl (case err of None \<Rightarrow> DispatchExhausted | Some e \<Rightarrow> e)
                else attempt_verdict (answer (i + n - 1)))"
proof (induction n arbitrary: i err waits)
  case 0
  show ?case by simp
next
  case (Suc n)
  have upt: "[i..<i + Suc n] = i # [Suc i..<Suc i + n]"
    by (simp add: upt_conv_Cons del: upt_Suc)
  show ?case
  proof (cases "retried (answer i)")
    case True
    then obtain e where "attempt_verdict (answer i) = Inl e"
      by (auto simp: retried_def attempt_verdict_def split: http_attempt.splits)
    with True Suc.IH [of "Suc i" "Some e" "waits @ [router_backoff i]"] show ?thesis
      unfolding start_attempts_step upt
      by (simp del: upt_Suc split: option.splits)
  next
    case False
    then show ?thesis unfolding start_attempts_step upt by simp
  qed
qed

lemma router_backoff_small:
  assumes "i \<le> 36"
  shows "router_backoff i = min (5000 * nanos_ms) (100 * 2 ^ i * nanos_ms)"
proof -
  have small: "wrap64 x = x \<and> wrap64 (100 * x) = 100 * x \<and> wrap64 (100 * x * nanos_ms) = 100 * x * nanos_ms"
    if "0 < x" "x \<le> 68719476736" for x :: int
    using that unfolding nanos_ms_def by (auto intro!: wrap64_id)
  have "(2::int) ^ i \<le> 2 ^ 36" using assms by (intro power_increasing) auto
  then have "(2::int) ^ i \<le> 68719476736" by simp
  from small [OF _ this] show ?thesis by (simp add: router_backoff_def Let_def min_def)
qed

lemma router_backoff_le: "router_backoff i \<le> 5000 * nanos_ms"
  by (simp add: router_backoff_def Let_def)

text \<open>C25: starting an execution answers the runtime's first answer that is not a transport failure or a
  5xx status among the first \<open>attempts_of\<close> attempts (four unless configured), and the failure of the
  last attempt when all of them are retried; nothing after the first definite answer is asked.\<close>

theorem retries_until_definite:
  "http_start_execution marshal_error answer max_attempts req =
     (case marshal_error req of
        Some e \<Rightarrow> Inl (StartMarshal e)
      | None \<Rightarrow>
          (case List.find (\<lambda>j. \<not> retried (answer req j)) [0..<attempts_of max_attempts] of
             Some j \<Rightarrow> attempt_verdict (answer req j)
           | None \<Rightarrow> attempt_verdict (answer req (attempts_of max_attempts - 1))))"
proof -
  have "attempts_of max_attempts \<noteq> 0" by (simp add: attempts_of_def)
  then show ?thesis
    by (simp add: http_start_execution_def start_attempts_result split: option.splits)
qed

section \<open>The registry\<close>

text \<open>Operations of the registry, and the map it implements: a publication writes its triggers in
  order, a removal deletes the version.\<close>

datatype sub_op =
    RegIngest "nat \<Rightarrow> gotime" string string workflow
  | RegRemove string string

fun sub_step :: "sub_op \<Rightarrow> sub_registry \<Rightarrow> sub_registry" where
  "sub_step (RegIngest now tenant ws w) r = snd (ingest_workflow now tenant ws (Some w) r)"
| "sub_step (RegRemove wid version) r = remove_workflow_version wid version r"

fun spec_step :: "sub_op \<Rightarrow> (sub_key \<rightharpoonup> subscription) \<Rightarrow> (sub_key \<rightharpoonup> subscription)" where
  "spec_step (RegIngest now tenant ws w) m =
     m ++ map_of (rev (map (\<lambda>s. (sub_key s, s)) (ingest_subs now tenant ws w)))"
| "spec_step (RegRemove wid version) m =
     (\<lambda>k. if fst k = wid \<and> snd (snd k) = version then None else m k)"

definition reg_ok :: "sub_registry \<Rightarrow> bool" where
  "reg_ok r \<longleftrightarrow>
     distinct (map fst (sr_subs r)) \<and>
     (\<forall>(k, s) \<in> set (sr_subs r). sub_key s = k \<and> k \<in> set (list_at (sr_by_type r) (su_type s)))"

lemma reg_ok_new: "reg_ok new_sub_registry"
  by (simp add: reg_ok_def new_sub_registry_def)

lemma reg_ok_lookup:
  "reg_ok r \<Longrightarrow> map_of (sr_subs r) k = Some s \<Longrightarrow>
   sub_key s = k \<and> k \<in> set (list_at (sr_by_type r) (su_type s))"
  unfolding reg_ok_def by (auto dest!: map_of_SomeD)

lemma reg_okI:
  assumes "distinct (map fst (sr_subs r))"
    and "\<And>k s. map_of (sr_subs r) k = Some s \<Longrightarrow>
           sub_key s = k \<and> k \<in> set (list_at (sr_by_type r) (su_type s))"
  shows "reg_ok r"
  unfolding reg_ok_def using assms by (auto dest!: map_of_is_SomeI)

lemma reg_ok_distinct: "reg_ok r \<Longrightarrow> distinct (map fst (sr_subs r))"
  by (simp add: reg_ok_def)

lemma set_add_key [simp]: "set (add_key k ks) = insert k (set ks)"
  by (auto simp: add_key_def)

lemma put_subscription_lookup:
  "map_of (sr_subs (put_subscription s r)) k =
     (if k = sub_key s then Some s else map_of (sr_subs r) k)"
  by (simp add: put_subscription_def store_simps)

lemma reg_ok_put: "reg_ok r \<Longrightarrow> reg_ok (put_subscription s r)"
proof (rule reg_okI)
  assume ok: "reg_ok r"
  then show "distinct (map fst (sr_subs (put_subscription s r)))"
    by (simp add: put_subscription_def distinct_update reg_ok_distinct)
  fix k s'
  assume "map_of (sr_subs (put_subscription s r)) k = Some s'"
  then show "sub_key s' = k \<and> k \<in> set (list_at (sr_by_type (put_subscription s r)) (su_type s'))"
    using ok by (auto simp: put_subscription_lookup put_subscription_def store_simps
        dest: reg_ok_lookup split: if_splits)
qed

lemma drop_key_at:
  "list_at (drop_key t k m) i = (if i = t then filter (\<lambda>j. j \<noteq> k) (list_at m i) else list_at m i)"
  by (auto simp: drop_key_def list_at_def update_conv' split: option.splits)

lemma remove_entry_lookup:
  "map_of (sr_subs (remove_entry wid version ((w, t, v), s) r)) k =
     (if w = wid \<and> v = version \<and> k = (w, t, v) then None else map_of (sr_subs r) k)"
  by (auto simp: remove_entry_def delete_conv')

lemma reg_ok_remove_entry: "reg_ok r \<Longrightarrow> reg_ok (remove_entry wid version e r)"
proof (rule reg_okI)
  assume ok: "reg_ok r"
  obtain w t v s where e: "e = ((w, t, v), s)" by (metis surj_pair)
  show "distinct (map fst (sr_subs (remove_entry wid version e r)))"
    using ok by (simp add: e remove_entry_def distinct_delete reg_ok_distinct)
  fix k s'
  assume a: "map_of (sr_subs (remove_entry wid version e r)) k = Some s'"
  then have "map_of (sr_subs r) k = Some s'" "\<not> (w = wid \<and> v = version \<and> k = (w, t, v))"
    by (auto simp: e remove_entry_lookup split: if_splits)
  with reg_ok_lookup [OF ok this(1)]
  show "sub_key s' = k \<and> k \<in> set (list_at (sr_by_type (remove_entry wid version e r)) (su_type s'))"
    by (auto simp: e remove_entry_def drop_key_at)
qed

lemma reg_ok_remove_entries: "reg_ok r \<Longrightarrow> reg_ok (fold (remove_entry wid version) es r)"
  by (induction es arbitrary: r) (auto intro: reg_ok_remove_entry)

lemma remove_entries_lookup:
  "map_of (sr_subs (fold (remove_entry wid version) es r)) k =
     (if fst k = wid \<and> snd (snd k) = version \<and> k \<in> fst ` set es then None else map_of (sr_subs r) k)"
proof (induction es arbitrary: r)
  case Nil
  show ?case by simp
next
  case (Cons e es)
  obtain w t v s where e: "e = ((w, t, v), s)" by (metis surj_pair)
  show ?case by (auto simp: Cons.IH e remove_entry_lookup)
qed

lemma remove_version_lookup:
  "map_of (sr_subs (remove_workflow_version wid version r)) k =
     (if fst k = wid \<and> snd (snd k) = version then None else map_of (sr_subs r) k)"
  unfolding remove_workflow_version_def remove_entries_lookup
  by (auto simp: map_of_eq_None_iff)

interpretation subs: keyed_store "\<lambda>r. map_of (sr_subs r)" put_subscription sub_key
  by unfold_locales (rule put_subscription_lookup)

interpretation reg: op_machine sub_step reg_ok
proof
  fix r op
  assume ok: "reg_ok r"
  show "reg_ok (sub_step op r)"
  proof (cases op)
    case (RegIngest now tenant ws w)
    have "reg_ok (fold put_subscription ss r)" for ss
      using ok by (induction ss arbitrary: r) (auto intro: reg_ok_put)
    then show ?thesis by (simp add: RegIngest ingest_workflow_def Let_def)
  next
    case (RegRemove wid version)
    then show ?thesis using ok by (simp add: remove_workflow_version_def reg_ok_remove_entries)
  qed
qed

lemma puts_lookup:
  "map_of (sr_subs (fold put_subscription ss r)) =
     map_of (sr_subs r) ++ map_of (rev (map (\<lambda>s. (sub_key s, s)) ss))"
proof (induction ss arbitrary: r)
  case Nil
  show ?case by simp
next
  case (Cons s ss)
  show ?case
    by (rule ext) (simp add: Cons.IH put_subscription_lookup map_add_def split: option.splits)
qed

lemma sub_step_refines: "map_of (sr_subs (sub_step op r)) = spec_step op (map_of (sr_subs r))"
  by (cases op) (auto simp: ingest_workflow_def Let_def puts_lookup remove_version_lookup)

lemma by_type_complete:
  assumes "reg_ok r" "map_of (sr_subs r) k = Some s"
  shows "s \<in> set (by_type (su_type s) r)"
  using reg_ok_lookup [OF assms] assms(2) by (auto simp: by_type_def in_map_filter)

lemma by_type_registered:
  "s \<in> set (by_type t r) \<Longrightarrow> \<exists>k. map_of (sr_subs r) k = Some s"
  by (auto simp: by_type_def in_map_filter)

text \<open>The key of a subscription has no tenant and no workspace, although the comment on the record promises
  an entry for each of them: a publication takes over the entry of another tenant that published the same
  workflow identifier, version and trigger.\<close>

lemma tenants_share_keys:
  "map_option su_tenant_id (map_of (sr_subs (put_subscription (s\<lparr>su_tenant_id := other\<rparr>) (put_subscription s r))) (sub_key s))
     = Some other"
  by (simp add: put_subscription_lookup sub_key_def)

text \<open>C26: seen as a map from (workflow, trigger, version), the key the code uses, the registry is exactly
  what the publications and removals it was told of describe, in their order: the latest publication of a
  key wins, whichever tenant and workspace it came from, and a removal deletes exactly that version of
  the workflow. The type index the scanners read holds every registered subscription. The comment in
  \<open>registry.go\<close> that there is one entry per tenant and workspace does not hold
  (\<open>tenants_share_keys\<close>).\<close>

theorem registry_refines_map:
  "map_of (sr_subs (fold sub_step ops new_sub_registry)) = fold spec_step ops Map.empty \<and>
   (\<forall>s \<in> set (all_subscriptions (fold sub_step ops new_sub_registry)).
      s \<in> set (by_type (su_type s) (fold sub_step ops new_sub_registry)))"
proof
  have "map_of (sr_subs (fold sub_step ops r)) = fold spec_step ops (map_of (sr_subs r))" for r
    by (induction ops arbitrary: r) (auto simp: sub_step_refines)
  from this [of new_sub_registry]
  show "map_of (sr_subs (fold sub_step ops new_sub_registry)) = fold spec_step ops Map.empty"
    by (simp add: new_sub_registry_def)
  have ok: "reg_ok (fold sub_step ops new_sub_registry)" by (rule reg.run_inv) (rule reg_ok_new)
  then show "\<forall>s \<in> set (all_subscriptions (fold sub_step ops new_sub_registry)).
      s \<in> set (by_type (su_type s) (fold sub_step ops new_sub_registry))"
    by (auto simp: all_subscriptions_def intro!: by_type_complete [OF ok]
        dest: map_of_is_SomeI [OF reg_ok_distinct [OF ok]])
qed

text \<open>the wait before the next attempt doubles from 100 ms and stops at five seconds, for the first 37
  attempts, whose shifts and products stay within 64 bits.\<close>

theorem backoff_capped:
  assumes "i \<le> 36"
  shows "router_backoff i = min (5000 * nanos_ms) (100 * 2 ^ i * nanos_ms)"
  using assms by (rule router_backoff_small)

theorem backoff_capped_witness: "router_backoff 5 = 3200 * nanos_ms \<and> router_backoff 6 = 5000 * nanos_ms"
  using backoff_capped [of 5] backoff_capped [of 6] by (simp add: nanos_ms_def)

text \<open>At attempt 37 the product overflows to a negative duration, which is no wait.\<close>

lemma backoff_overflows: "router_backoff 37 < 0"
  by code_simp

section \<open>Dispatch\<close>

text \<open>Every firing is one call of the runtime and one event; the dead letters are the failed ones.\<close>

definition failed_events :: "router \<Rightarrow> trigger_cloud_event list" where
  "failed_events x = filter (\<lambda>e. te_type e = ev_failed) (tx_events x)"

definition accounted :: "router \<Rightarrow> bool" where
  "accounted x \<longleftrightarrow>
     map te_correlation_id (tx_events x) = map sx_correlation_id (tx_starts x) \<and>
     length (tx_dead x) = length (failed_events x)"

lemma emit_trigger_fields:
  "tx_starts (emit_trigger env s ty corr data x) = tx_starts x"
  "tx_dead (emit_trigger env s ty corr data x) = tx_dead x"
  "\<exists>e. tx_events (emit_trigger env s ty corr data x) = tx_events x @ [e] \<and> te_type e = ty \<and>
       te_correlation_id e = corr"
  by (auto simp: emit_trigger_def router_draw_def Let_def)

lemma emit_trigger_events:
  "map te_correlation_id (tx_events (emit_trigger env s ty corr data x)) =
     map te_correlation_id (tx_events x) @ [corr]"
  "failed_events (emit_trigger env s ty corr data x) = [] \<longleftrightarrow> failed_events x = [] \<and> ty \<noteq> ev_failed"
  "length (failed_events (emit_trigger env s ty corr data x)) =
     length (failed_events x) + (if ty = ev_failed then 1 else 0)"
  by (auto simp: emit_trigger_def router_draw_def Let_def failed_events_def)

lemma event_names_differ: "ev_dropped \<noteq> ev_failed" "ev_fired \<noteq> ev_failed"
  by (simp_all add: ev_dropped_def ev_failed_def ev_fired_def)

lemma accounted_draw [simp]: "accounted (x\<lparr>tx_draws := n\<rparr>) = accounted x"
  by (simp add: accounted_def failed_events_def)

lemma router_draw_fields [frame_simps]:
  "fst (router_draw x) = tx_draws x" "snd (router_draw x) = x\<lparr>tx_draws := Suc (tx_draws x)\<rparr>"
  by (simp_all add: router_draw_def)

lemma fire_starts: "tx_starts (snd (fire env s payload x)) = tx_starts x @ [firing_request env s payload (tx_draws x)]"
  by (auto simp: fire_def Let_def emit_trigger_fields split: sum.splits start_error.splits)

lemma failed_events_frame [simp]:
  "failed_events (x\<lparr>tx_dead := d\<rparr>) = failed_events x"
  "failed_events (x\<lparr>tx_draws := n, tx_starts := m\<rparr>) = failed_events x"
  by (simp_all add: failed_events_def)

lemma fire_accounted: "accounted x \<Longrightarrow> accounted (snd (fire env s payload x))"
  by (auto simp: fire_def Let_def accounted_def emit_trigger_fields emit_trigger_events
      event_names_differ split: sum.splits start_error.splits)

text \<open>A signature is checked when the trigger names a secret.\<close>

definition signature_ok :: "router_env \<Rightarrow> subscription \<Rightarrow> string \<Rightarrow> string \<Rightarrow> bool" where
  "signature_ok env s payload_text header =
     (let ref = val_string (map_of (su_config s) ''secret_ref'')
      in ref = [] \<or>
         (case tn_secret env ref of
            Inl e \<Rightarrow> False
          | Inr secret \<Rightarrow>
              has_prefix header ''sha256='' \<and>
              tn_unhex env (trim_prefix header ''sha256='') = Some (tn_hmac env secret payload_text)))"

lemma check_signature_None: "check_signature env s b header = None \<longleftrightarrow> signature_ok env s b header"
  by (auto simp: check_signature_def signature_ok_def verify_hmac_def Let_def split: sum.splits option.splits)

lemma serve_webhook_accounted: "accounted x \<Longrightarrow> accounted (snd (serve_webhook env reg h x))"
  by (auto simp: serve_webhook_def Let_def split_beta fire_accounted split: option.splits)

lemma serve_manual_accounted: "accounted x \<Longrightarrow> accounted (snd (serve_manual env reg h x))"
  by (auto simp: serve_manual_def Let_def split_beta frame_simps fire_accounted
      split: option.splits json_object.splits)

lemma cron_tick_accounted: "accounted x \<Longrightarrow> accounted (snd (cron_tick env s x))"
  by (simp add: cron_tick_def split_beta frame_simps fire_accounted)

lemma bus_publish_accounted: "accounted x \<Longrightarrow> accounted (bus_publish topic subs env payload x)"
  unfolding bus_publish_def by (rule fold_keeps [of _ accounted]) (auto intro: fire_accounted)

lemma poll_message_router:
  "snd (poll_message env s f m (p, x)) =
     (if match_filter f m then snd (fire env s (email_payload env m) x) else x)"
  by (auto simp: poll_message_def split: prod.splits sum.splits)

lemma poll_message_accounted: "accounted (snd px) \<Longrightarrow> accounted (snd (poll_message env s f m px))"
  by (cases px) (simp add: poll_message_router fire_accounted)

lemma poll_subscription_accounted: "accounted (snd px) \<Longrightarrow> accounted (snd (poll_subscription env s px))"
  by (cases px)
    (auto simp: poll_subscription_def Let_def split: sum.splits
      intro!: fold_keeps [of _ "\<lambda>q. accounted (snd q)"] poll_message_accounted)

lemma email_tick_accounted: "accounted (snd px) \<Longrightarrow> accounted (snd (email_tick env reg px))"
  unfolding email_tick_def
  by (rule fold_keeps [of _ "\<lambda>q. accounted (snd q)"]) (auto intro: poll_subscription_accounted)

text \<open>C27: a webhook request starts an execution only when it is a POST to the path of a registered trigger
  of type webhook-in whose signature, when the trigger names a secret, is the HMAC of the body under
  the resolved secret; it then starts that workflow version once, with the body as its payload.\<close>

theorem webhook_authenticated:
  assumes "serve_webhook env reg h x = (reply, x')"
    and "tx_starts x' \<noteq> tx_starts x"
  shows "\<exists>wid tid rest s b. hr_method h = ''POST'' \<and>
           split_on (CHR ''/'') (trim_prefix (hr_path h) hooks_prefix) = wid # tid # rest \<and>
           lookup_subscription wid tid [] reg = Some s \<and> su_type s = TriggerWebhookIn \<and>
           hr_body h = Some b \<and> signature_ok env s b (hr_signature h) \<and>
           tx_starts x' = tx_starts x @ [firing_request env s (hook_payload env b) (tx_draws x)]"
proof -
  let ?parts = "split_on (CHR ''/'') (trim_prefix (hr_path h) hooks_prefix)"
  from assms(1) have x': "x' = snd (serve_webhook env reg h x)" by simp
  have post: "hr_method h = ''POST''"
    and long: "\<not> length ?parts < 2"
    using assms(2) unfolding x' by (auto simp: serve_webhook_def Let_def split: if_splits)
  from long obtain wid tid rest where parts: "?parts = wid # tid # rest"
    by (cases ?parts; cases "tl ?parts") auto
  show ?thesis
    using assms(2) unfolding x'
    by (auto simp: serve_webhook_def Let_def parts post split_beta fire_starts
        simp flip: check_signature_None split: if_splits option.splits)
qed

section \<open>Re-synchronising cron and the bus\<close>

text \<open>
  Both refreshes drop the entries that are no longer desired and then add the missing ones; \<open>add\<close> is
  \<open>add_cron\<close> or \<open>add_bus\<close>, and \<open>wanted\<close> says which subscriptions it gives to the library. \<open>answer\<close> is
  the library's answer to the \<open>n\<close>-th call.
\<close>

locale resync =
  fixes add :: "sub_key \<times> subscription \<Rightarrow> schedule \<Rightarrow> schedule"
    and wanted :: "subscription \<Rightarrow> bool"
    and answer :: "subscription \<Rightarrow> nat \<Rightarrow> string + nat"
  assumes add_lookup: "map_of (sc_entries (add (k, s) sc)) j =
      (if j = k \<and> map_of (sc_entries sc) k = None \<and> wanted s
       then (case answer s (sc_calls sc) of Inl e \<Rightarrow> None | Inr h \<Rightarrow> Some (h, s))
       else map_of (sc_entries sc) j)"
    and add_removed: "sc_removed (add (k, s) sc) = sc_removed sc"
begin

definition resynced :: "(sub_key \<times> subscription) list \<Rightarrow> schedule \<Rightarrow> schedule" where
  "resynced desired sc = fold add desired (drop_entries desired sc)"

lemma drop_lookup:
  "map_of (sc_entries (drop_entries desired sc)) k =
     (if map_of desired k = None then None else map_of (sc_entries sc) k)"
proof -
  have "map_of (filter (\<lambda>(k, e). map_of desired k \<noteq> None) es) k =
     (if map_of desired k = None then None else map_of es k)" for es :: "(sub_key \<times> nat \<times> subscription) list"
    by (induction es) (auto split: if_splits)
  then show ?thesis by (simp add: drop_entries_def)
qed

lemma add_keeps: "map_of (sc_entries sc) j = Some e \<Longrightarrow> map_of (sc_entries (add ks sc)) j = Some e"
  by (cases ks) (auto simp: add_lookup)

lemma adds_keep: "map_of (sc_entries sc) j = Some e \<Longrightarrow> map_of (sc_entries (fold add kss sc)) j = Some e"
  by (rule fold_keeps [of _ "\<lambda>sc. map_of (sc_entries sc) j = Some e"]) (auto intro: add_keeps)

lemma adds_from:
  assumes "map_of (sc_entries (fold add kss sc)) j = Some e"
  shows "map_of (sc_entries sc) j = Some e \<or> (\<exists>h s n. e = (h, s) \<and> (j, s) \<in> set kss \<and> wanted s \<and> answer s n = Inr h)"
  using assms
proof (induction kss arbitrary: sc)
  case Nil
  then show ?case by simp
next
  case (Cons ks kss)
  obtain k s where ks: "ks = (k, s)" by fastforce
  from Cons.IH [of "add ks sc"] Cons.prems show ?case
    by (auto simp: ks add_lookup split: if_splits sum.splits)
qed

lemma adds_complete:
  assumes "(k, s) \<in> set kss" "distinct (map fst kss)" "wanted s" "\<And>n. \<exists>h. answer s n = Inr h"
  shows "\<exists>h t. map_of (sc_entries (fold add kss sc)) k = Some (h, t)"
  using assms(1,2)
proof (induction kss arbitrary: sc)
  case Nil
  then show ?case by simp
next
  case (Cons ks kss)
  show ?case
  proof (cases "ks = (k, s)")
    case True
    have "\<exists>e. map_of (sc_entries (add (k, s) sc)) k = Some e"
      using assms(3) assms(4) [of "sc_calls sc"] by (cases "map_of (sc_entries sc) k") (auto simp: add_lookup)
    then show ?thesis by (auto simp: True dest: adds_keep)
  next
    case False
    with Cons show ?thesis by auto
  qed
qed

lemma resynced_complete:
  assumes "map_of desired k = Some s" "distinct (map fst desired)" "wanted s" "\<And>n. \<exists>h. answer s n = Inr h"
    and new: "map_of (sc_entries sc) k = None"
  shows "\<exists>h n. map_of (sc_entries (resynced desired sc)) k = Some (h, s) \<and> answer s n = Inr h"
proof -
  obtain h t where e: "map_of (sc_entries (resynced desired sc)) k = Some (h, t)"
    using adds_complete [OF map_of_SomeD [OF assms(1)] assms(2-4)] unfolding resynced_def by blast
  then obtain n where "(k, t) \<in> set desired" "answer t n = Inr h"
    using adds_from [OF e [unfolded resynced_def]] new by (auto simp: drop_lookup split: if_splits)
  moreover from this(1) have "t = s" using map_of_is_SomeI [OF assms(2)] assms(1) by fastforce
  ultimately show ?thesis using e by blast
qed

lemma removed_handles: "sc_removed (resynced desired sc) = sc_removed (drop_entries desired sc)"
proof -
  have "sc_removed (fold add kss sc) = sc_removed sc" for kss sc
    by (rule fold_keeps [of _ "\<lambda>t. sc_removed t = sc_removed sc"]) (auto simp: add_removed)
  then show ?thesis by (simp add: resynced_def)
qed

text \<open>An entry that stays desired is kept, with the subscription it captured; any other entry is new and
  holds the desired subscription; nothing else is scheduled.\<close>

lemma resynced_kept:
  "map_of desired k \<noteq> None \<Longrightarrow> map_of (sc_entries sc) k = Some e \<Longrightarrow>
   map_of (sc_entries (resynced desired sc)) k = Some e"
  unfolding resynced_def by (rule adds_keep) (simp add: drop_lookup)

lemma resynced_only:
  assumes "map_of (sc_entries (resynced desired sc)) k = Some (h, s)"
  shows "map_of desired k \<noteq> None \<and> (map_of (sc_entries sc) k = Some (h, s) \<or> (k, s) \<in> set desired \<and> wanted s)"
  using adds_from [OF assms [unfolded resynced_def]]
  by (auto simp: drop_lookup map_of_eq_None_iff image_iff split: if_splits)

end

lemma add_cron_lookup:
  "map_of (sc_entries (add_cron env (k, s) sc)) j =
      (if j = k \<and> map_of (sc_entries sc) k = None \<and> cron_expression s \<noteq> []
       then (case tn_cron_add env (cron_expression s) (sc_calls sc) of Inl e \<Rightarrow> None | Inr h \<Rightarrow> Some (h, s))
       else map_of (sc_entries sc) j)"
  by (auto simp: add_cron_def Let_def store_simps split: sum.splits)

interpretation cron: resync "add_cron env" "\<lambda>s. cron_expression s \<noteq> []" "\<lambda>s. tn_cron_add env (cron_expression s)"
  by unfold_locales (rule add_cron_lookup, simp add: add_cron_def Let_def split: sum.splits)

lemma add_bus_lookup:
  "map_of (sc_entries (add_bus env known (k, s) sc)) j =
      (if j = k \<and> map_of (sc_entries sc) k = None \<and> sub_topic s \<noteq> [] \<and> sub_topic s \<in> set known
       then (case tn_subscribe env (sub_topic s) (sc_calls sc) of Inl e \<Rightarrow> None | Inr h \<Rightarrow> Some (h, s))
       else map_of (sc_entries sc) j)"
  by (auto simp: add_bus_def Let_def store_simps split: sum.splits)

interpretation bus: resync "add_bus env known" "\<lambda>s. sub_topic s \<noteq> [] \<and> sub_topic s \<in> set known"
  "\<lambda>s. tn_subscribe env (sub_topic s)"
  by unfold_locales (rule add_bus_lookup, simp add: add_bus_def Let_def split: sum.splits)

lemma desired_subs_lookup:
  "map_of (desired_subs t reg) k = Some s \<Longrightarrow> s \<in> set (by_type t reg) \<and> sub_key s = k"
proof -
  have "map_of (fold (\<lambda>s m. AList.update (sub_key s) s m) ss m) k = Some s \<Longrightarrow>
     map_of m k = Some s \<or> s \<in> set ss \<and> sub_key s = k" for ss m
    by (induction ss arbitrary: m) (fastforce simp: store_simps split: if_splits)+
  from this [of "by_type t reg" "[]"]
  show "map_of (desired_subs t reg) k = Some s \<Longrightarrow> s \<in> set (by_type t reg) \<and> sub_key s = k"
    by (auto simp: desired_subs_def)
qed

lemma desired_subs_distinct: "distinct (map fst (desired_subs t reg))"
  unfolding desired_subs_def
  by (rule fold_keeps [of _ "\<lambda>m. distinct (map fst m)"]) (auto intro: distinct_update)

lemma desired_subs_member:
  "(k, s) \<in> set (desired_subs t reg) \<Longrightarrow> s \<in> set (by_type t reg) \<and> sub_key s = k"
  by (rule desired_subs_lookup) (simp add: desired_subs_distinct)

lemma desired_registered:
  assumes "reg_ok reg" "map_of (desired_subs t reg) k \<noteq> None"
  shows "map_of (sr_subs reg) k \<noteq> None"
proof -
  from assms(2) obtain s where "map_of (desired_subs t reg) k = Some s" by auto
  then have "s \<in> set (by_type t reg)" "sub_key s = k" by (auto dest: desired_subs_lookup)
  then obtain j where "map_of (sr_subs reg) j = Some s" by (auto dest: by_type_registered)
  with reg_ok_lookup [OF assms(1) this] \<open>sub_key s = k\<close> show ?thesis by auto
qed

text \<open>The bus router beside the registry.\<close>

datatype bus_op = BusReg sub_op | BusRefresh

fun bus_step :: "router_env \<Rightarrow> string list \<Rightarrow> bus_op \<Rightarrow> sub_registry \<times> schedule \<Rightarrow> sub_registry \<times> schedule" where
  "bus_step env known (BusReg op) (reg, sc) = (sub_step op reg, sc)"
| "bus_step env known BusRefresh (reg, sc) = (reg, bus_refresh env known reg sc)"

definition bus_ok :: "string list \<Rightarrow> sub_registry \<times> schedule \<Rightarrow> bool" where
  "bus_ok known rs \<longleftrightarrow> reg_ok (fst rs) \<and>
     (\<forall>k h s. map_of (sc_entries (snd rs)) k = Some (h, s) \<longrightarrow> sub_key s = k \<and> sub_topic s \<in> set known)"

lemma bus_refresh_resynced: "bus_refresh env known reg sc = bus.resynced env known (desired_subs TriggerEventBus reg) sc"
  by (simp add: bus_refresh_def bus.resynced_def Let_def)

lemma cron_refresh_resynced: "cron_refresh env reg sc = cron.resynced env (desired_subs TriggerCron reg) sc"
  by (simp add: cron_refresh_def cron.resynced_def Let_def)

lemma bus_okD:
  "bus_ok known rs \<Longrightarrow> map_of (sc_entries (snd rs)) k = Some (h, s) \<Longrightarrow> sub_key s = k \<and> sub_topic s \<in> set known"
  unfolding bus_ok_def by blast

interpretation bus_router: op_machine "bus_step env known" "bus_ok known"
proof
  fix rs op
  assume ok: "bus_ok known rs"
  obtain reg sc where rs: "rs = (reg, sc)" by fastforce
  show "bus_ok known (bus_step env known op rs)"
  proof (cases op)
    case (BusReg rop)
    with ok show ?thesis by (simp add: rs bus_ok_def reg.step_inv)
  next
    case BusRefresh
    have "sub_key s = k \<and> sub_topic s \<in> set known"
      if "map_of (sc_entries (bus_refresh env known reg sc)) k = Some (h, s)" for k h s
      using bus.resynced_only [OF that [unfolded bus_refresh_resynced]] bus_okD [OF ok, of k h s]
      by (auto simp: rs dest: desired_subs_member)
    with ok show ?thesis unfolding rs BusRefresh bus_ok_def by simp
  qed
qed

text \<open>whatever is published, removed and refreshed, and in whatever order, the event bus router
  holds subscriptions to catalogued topics only, and after a refresh none for a trigger that is no
  longer registered.\<close>

theorem bus_router_synced:
  assumes "fold (bus_step env known) ops (new_sub_registry, new_schedule) = (reg, sc)"
    and "map_of (sc_entries (bus_refresh env known reg sc)) k = Some (h, s)"
  shows "map_of (sr_subs reg) k \<noteq> None \<and> sub_key s = k \<and> sub_topic s \<in> set known"
proof -
  have "bus_ok known (new_sub_registry, new_schedule)"
    by (simp add: bus_ok_def reg_ok_new new_schedule_def)
  from bus_router.run_inv [OF this, of env ops] have ok: "bus_ok known (reg, sc)" using assms(1) by simp
  from bus_okD [OF bus_router.step_inv [OF ok, of env BusRefresh]] assms(2)
  have "sub_key s = k \<and> sub_topic s \<in> set known" by simp
  moreover from bus.resynced_only [OF assms(2) [unfolded bus_refresh_resynced]]
  have "map_of (sr_subs reg) k \<noteq> None"
    using ok by (intro desired_registered) (auto simp: bus_ok_def)
  ultimately show ?thesis by simp
qed

text \<open>A workflow with one trigger, for the examples.\<close>

definition one_trigger :: "trigger_type \<Rightarrow> obj \<Rightarrow> workflow" where
  "one_trigger ty cfg =
     zero_workflow\<lparr>wf_metadata := zero_metadata\<lparr>md_id := ''wf'', md_version := ''1.0.0''\<rparr>,
       wf_spec := zero_spec\<lparr>sp_triggers := [zero_trigger\<lparr>tr_id := ''t'', tr_type := ty, tr_config := cfg\<rparr>]\<rparr>\<rparr>"

definition ingest_one :: "trigger_type \<Rightarrow> obj \<Rightarrow> sub_op" where
  "ingest_one ty cfg = RegIngest (\<lambda>n. 1) ''acme'' ''ws'' (one_trigger ty cfg)"

definition quiet_env :: router_env where
  "quiet_env =
     \<lparr>tn_uuid = show_nat, tn_now = int, tn_runtime = (\<lambda>n r. Inr ''exec-1''), tn_error_text = (\<lambda>e. []),
      tn_time_val = VInt, tn_secret = (\<lambda>r. Inr ''s3cret''), tn_hmac = (\<lambda>s b. s @ b),
      tn_unhex = Some, tn_json = (\<lambda>b. if b = ''null'' then JsonNull else JsonError),
      tn_cron_add = (\<lambda>e n. Inr n), tn_subscribe = (\<lambda>t n. Inr n), tn_poll = (\<lambda>n r t. Inr [])\<rparr>"

lemmas router_examples =
  zero_defs ingest_one_def one_trigger_def quiet_env_def ingest_workflow_def ingest_subs_def trigger_subscription_def
  concurrency_or_default_def put_subscription_def new_sub_registry_def new_schedule_def add_key_def
  bus_refresh_def cron_refresh_def desired_subs_def by_type_def drop_entries_def add_bus_def add_cron_def
  sub_topic_def cron_expression_def sub_key_def List.map_filter_def list_at_def Let_def val_string_def

theorem registry_refines_map_witness:
  "by_type TriggerWebhookIn (fold sub_step [ingest_one TriggerWebhookIn []] new_sub_registry) \<noteq> []"
proof -
  let ?r = "fold sub_step [ingest_one TriggerWebhookIn []] new_sub_registry"
  have "\<exists>s. all_subscriptions ?r = [s] \<and> su_type s = TriggerWebhookIn"
    by (simp add: router_examples all_subscriptions_def)
  with registry_refines_map [of "[ingest_one TriggerWebhookIn []]"] show ?thesis by auto
qed

theorem bus_router_synced_witness:
  "map_of (sr_subs (fst (fold (bus_step quiet_env default_known_topics)
     [BusReg (ingest_one TriggerEventBus [(''topic'', VString ''incident.opened.v1'')])]
     (new_sub_registry, new_schedule)))) (''wf'', ''t'', ''1.0.0'') \<noteq> None"
  (is "map_of (sr_subs (fst (fold _ ?ops _))) ?k \<noteq> None")
proof -
  let ?sub = "trigger_subscription ''acme'' ''ws'' (one_trigger TriggerEventBus [(''topic'', VString ''incident.opened.v1'')]) 1
      (hd (sp_triggers (wf_spec (one_trigger TriggerEventBus [(''topic'', VString ''incident.opened.v1'')]))))"
  have "map_of (sc_entries (bus_refresh quiet_env default_known_topics
      (fst (fold (bus_step quiet_env default_known_topics) ?ops (new_sub_registry, new_schedule)))
      (snd (fold (bus_step quiet_env default_known_topics) ?ops (new_sub_registry, new_schedule))))) ?k = Some (0, ?sub)"
    by (simp add: router_examples default_known_topics_def)
  from bus_router_synced [OF prod.collapse [symmetric] this] show ?thesis by simp
qed

text \<open>a refresh never replaces an entry: the cron entry of a trigger that is still scheduled keeps the
  subscription it captured when it was added, whatever the registry now holds for its key.\<close>

theorem refresh_keeps_captured:
  assumes "map_of (sc_entries sc) k = Some (h, s)"
    and "map_of (desired_subs TriggerCron reg) k \<noteq> None"
  shows "map_of (sc_entries (cron_refresh env reg sc)) k = Some (h, s)"
  unfolding cron_refresh_resynced using assms by (rule cron.resynced_kept [rotated])

definition expr_cfg :: "string \<Rightarrow> obj" where
  "expr_cfg e = [(''expression'', VString e)]"

text \<open>Published at ten, republished at twenty: the registry says twenty and the scheduler still ten.\<close>

theorem refresh_keeps_captured_witness:
  "let reg1 = sub_step (ingest_one TriggerCron (expr_cfg ''0 0 10 * * *'')) new_sub_registry;
       sc1 = cron_refresh quiet_env reg1 new_schedule;
       reg2 = sub_step (ingest_one TriggerCron (expr_cfg ''0 0 20 * * *'')) reg1;
       sc2 = cron_refresh quiet_env reg2 sc1;
       k = (''wf'', ''t'', ''1.0.0'')
   in map_option cron_expression (map_of (sr_subs reg2) k) = Some ''0 0 20 * * *'' \<and>
      map_option (\<lambda>e. cron_expression (snd e)) (map_of (sc_entries sc2) k) = Some ''0 0 10 * * *''"
proof -
  let ?k = "(''wf'', ''t'', ''1.0.0'')"
  let ?reg1 = "sub_step (ingest_one TriggerCron (expr_cfg ''0 0 10 * * *'')) new_sub_registry"
  let ?sc1 = "cron_refresh quiet_env ?reg1 new_schedule"
  let ?reg2 = "sub_step (ingest_one TriggerCron (expr_cfg ''0 0 20 * * *'')) ?reg1"
  obtain h s where s: "map_of (sc_entries ?sc1) ?k = Some (h, s)" "cron_expression s = ''0 0 10 * * *''"
    by (simp add: router_examples expr_cfg_def)
  have d: "map_of (desired_subs TriggerCron ?reg2) ?k \<noteq> None"
    and r: "map_option cron_expression (map_of (sr_subs ?reg2) ?k) = Some ''0 0 20 * * *''"
    by (simp_all add: router_examples expr_cfg_def)
  from refresh_keeps_captured [OF s(1) d, of quiet_env] s(2) r show ?thesis by (simp add: Let_def)
qed

text \<open>A trigger published again with another type stays in the index of its old type, so the cron
  scanner still lists the webhook that replaced it.\<close>

lemma by_type_stale:
  "map su_type (by_type TriggerCron (fold sub_step
     [ingest_one TriggerCron [], ingest_one TriggerWebhookIn []] new_sub_registry)) = [TriggerWebhookIn]"
  by (simp add: router_examples)

text \<open>Cancelling by position: with two handlers, cancelling the first and then the second leaves the
  second one subscribed.\<close>

lemma bus_cancel_stale:
  "bus_cancel t 1 (bus_cancel t 0 (snd (bus_subscribe t (2 :: nat) (snd (bus_subscribe t 1 []))))) = [(t, [2])]"
  by (simp add: bus_cancel_def bus_subscribe_def push_at_def list_at_def)

section \<open>Email polling\<close>

lemma poll_message_seen: "last_seen (fst px) k \<le> last_seen (fst (poll_message env s f m px)) k"
  by (auto simp: poll_message_def last_seen_def store_simps split: prod.splits sum.splits option.splits)

lemma email_tick_seen: "last_seen (fst px) k \<le> last_seen (fst (email_tick env reg px)) k"
proof -
  have msgs: "last_seen (fst px) k \<le> last_seen (fst (fold (poll_message env s f) ms px)) k" for s f ms px
    by (rule fold_keeps [of _ "\<lambda>q. last_seen (fst px) k \<le> last_seen (fst q) k"])
      (auto intro: order_trans poll_message_seen)
  have sub: "last_seen (fst qx) k \<le> last_seen (fst (poll_subscription env s qx)) k" for s qx
  proof -
    obtain p x where qx: "qx = (p, x)" by fastforce
    have "last_seen p k = last_seen (p\<lparr>pl_polls := Suc (pl_polls p)\<rparr>) k" by (simp add: last_seen_def)
    with msgs [of "(p\<lparr>pl_polls := Suc (pl_polls p)\<rparr>, x)"] show ?thesis
      by (auto simp: qx poll_subscription_def Let_def split: sum.splits)
  qed
  show ?thesis unfolding email_tick_def
    by (rule fold_keeps [of _ "\<lambda>q. last_seen (fst px) k \<le> last_seen (fst q) k"])
      (auto intro: order_trans sub)
qed

text \<open>A start that a matching message of a registered mailbox accounts for.\<close>

definition email_start :: "router_env \<Rightarrow> sub_registry \<Rightarrow> start_execution_request \<Rightarrow> bool" where
  "email_start env reg r \<longleftrightarrow>
     (\<exists>s \<in> set (by_type TriggerEmailInbound reg). \<exists>n since msgs m i.
        tn_poll env n (val_string (map_of (su_config s) ''mailbox_ref'')) since = Inr msgs \<and> m \<in> set msgs \<and>
        match_filter (extract_filter (map_of (su_config s) ''filter'')) m \<and>
        r = firing_request env s (email_payload env m) i)"

lemma email_tick_new:
  "\<exists>new. tx_starts (snd (email_tick env reg px)) = tx_starts (snd px) @ new \<and> (\<forall>r \<in> set new. email_start env reg r)"
proof -
  let ?P = "\<lambda>q. \<exists>new. tx_starts (snd q) = tx_starts (snd px) @ new \<and> (\<forall>r \<in> set new. email_start env reg r)"
  have step: "?P (poll_message env s (extract_filter (map_of (su_config s) ''filter'')) m q)"
    if "?P q" "s \<in> set (by_type TriggerEmailInbound reg)" "m \<in> set msgs"
      "tn_poll env n (val_string (map_of (su_config s) ''mailbox_ref'')) since = Inr msgs"
    for q s m msgs n since
  proof -
    obtain p x where q: "q = (p, x)" by fastforce
    from that(1) have P: "\<exists>new. tx_starts x = tx_starts (snd px) @ new \<and> (\<forall>r \<in> set new. email_start env reg r)"
      by (simp add: q)
    then obtain new where new: "tx_starts x = tx_starts (snd px) @ new" "\<forall>r \<in> set new. email_start env reg r"
      by blast
    show ?thesis
    proof (cases "match_filter (extract_filter (map_of (su_config s) ''filter'')) m")
      case True
      then have "email_start env reg (firing_request env s (email_payload env m) (tx_draws x))"
        unfolding email_start_def using that(2-4) by blast
      with True new show ?thesis
        by (auto simp: q poll_message_router fire_starts
            intro!: exI [of _ "new @ [firing_request env s (email_payload env m) (tx_draws x)]"])
    next
      case False
      then show ?thesis using P by (simp add: q poll_message_router)
    qed
  qed
  have sub: "?P (poll_subscription env s q)" if "?P q" "s \<in> set (by_type TriggerEmailInbound reg)" for q s
  proof -
    obtain p x where q: "q = (p, x)" by fastforce
    let ?p1 = "p\<lparr>pl_polls := Suc (pl_polls p)\<rparr>"
    have P1: "?P (?p1, x)" using that(1) q by simp
    show ?thesis
    proof (cases "tn_poll env (pl_polls p) (val_string (map_of (su_config s) ''mailbox_ref'')) (last_seen p (sub_key s))")
      case (Inl e)
      then show ?thesis using P1 by (simp add: q poll_subscription_def Let_def)
    next
      case (Inr msgs)
      have "?P (fold (poll_message env s (extract_filter (map_of (su_config s) ''filter''))) msgs (?p1, x))"
        by (rule fold_keeps [of _ ?P], rule step [OF _ that(2) _ Inr], assumption+, rule P1)
      then show ?thesis using that(1) Inr
        by (cases "val_string (map_of (su_config s) ''mailbox_ref'') = []") (simp_all add: q poll_subscription_def)
    qed
  qed
  show ?thesis unfolding email_tick_def
    by (rule fold_keeps [of _ ?P]) (auto intro: sub)
qed

section \<open>Every firing\<close>

text \<open>The ways a trigger fires, with the registry and the poller it reads at that moment.\<close>

datatype fire_op =
    FireWebhook sub_registry hook_request
  | FireManual sub_registry hook_request
  | FireCron subscription
  | FireBus string "(string \<times> subscription list) list" obj
  | FireEmail sub_registry poller

fun fire_step :: "router_env \<Rightarrow> fire_op \<Rightarrow> router \<Rightarrow> router" where
  "fire_step env (FireWebhook reg h) x = snd (serve_webhook env reg h x)"
| "fire_step env (FireManual reg h) x = snd (serve_manual env reg h x)"
| "fire_step env (FireCron s) x = snd (cron_tick env s x)"
| "fire_step env (FireBus topic subs payload) x = bus_publish topic subs env payload x"
| "fire_step env (FireEmail reg p) x = snd (email_tick env reg (p, x))"

interpretation firing: op_machine "fire_step env" accounted
proof
  fix x op
  show "accounted x \<Longrightarrow> accounted (fire_step env op x)"
    by (cases op) (simp_all add: serve_webhook_accounted serve_manual_accounted cron_tick_accounted
        bus_publish_accounted email_tick_accounted)
qed

text \<open>C28: whatever fires and in whatever order, there is exactly one event for each execution asked for, in
  the same order and with its correlation identifier, and exactly one dead letter for each failure.\<close>

theorem every_firing_accounted:
  "let x = fold (fire_step env) ops new_router
   in map te_correlation_id (tx_events x) = map sx_correlation_id (tx_starts x) \<and>
      length (tx_dead x) = length (filter (\<lambda>e. te_type e = ev_failed) (tx_events x))"
  using firing.run_inv [of new_router env ops]
  by (simp add: Let_def accounted_def failed_events_def new_router_def)

text \<open>a tick of the email poller starts only executions for a message that a mailbox of an indexed
  email trigger answered and that passes the trigger's filter, and never moves the time from which a
  mailbox is polled backwards.\<close>

theorem email_tick_fires_matching:
  "(\<exists>new. tx_starts (snd (email_tick env reg px)) = tx_starts (snd px) @ new \<and>
      list_all (email_start env reg) new) \<and>
   last_seen (fst px) k \<le> last_seen (fst (email_tick env reg px)) k"
  using email_tick_new [of env reg px] email_tick_seen [of px k env reg] by (auto simp: list_all_iff)

text \<open>A message whose dispatch failed is behind the time of the next poll once a later message of the
  same answer went through.\<close>

definition flaky_env :: router_env where
  "flaky_env = quiet_env\<lparr>
     tn_runtime := (\<lambda>n r. if n = 0 then Inl (Upstream 503) else Inr ''exec-1''),
     tn_poll := (\<lambda>n ref since. Inr
       [\<lparr>em_message_id = ''a'', em_subject = [], em_from = [], em_body = [], em_received_at = 10\<rparr>,
        \<lparr>em_message_id = ''b'', em_subject = [], em_from = [], em_body = [], em_received_at = 20\<rparr>])\<rparr>"

lemma failed_email_left_behind:
  "let (p, x) = email_tick flaky_env
         (fold sub_step [ingest_one TriggerEmailInbound [(''mailbox_ref'', VString ''inbox'')]] new_sub_registry)
         (\<lparr>pl_last_seen = [], pl_polls = 0, pl_dispatched = 0\<rparr>, new_router)
   in pl_dispatched p = 1 \<and> last_seen p (''wf'', ''t'', ''1.0.0'') = 20 \<and> length (tx_dead x) = 1"
  by (simp add: email_tick_def router_examples flaky_env_def poll_subscription_def poll_message_def
      extract_filter_def match_filter_def fire_def emit_trigger_def router_draw_def firing_request_def
      new_router_def last_seen_def)

text \<open>A webhook with a secret, where the digest of the environment is the secret followed by the
  body.\<close>

definition hook_example :: hook_request where
  "hook_example = \<lparr>hr_method = ''POST'', hr_path = hooks_prefix @ ''wf/t'', hr_body = Some ''hi'',
     hr_signature = ''sha256=s3crethi''\<rparr>"

definition hook_registry :: sub_registry where
  "hook_registry = sub_step (ingest_one TriggerWebhookIn [(''secret_ref'', VString ''ws:secret'')]) new_sub_registry"

lemma hook_example_fires:
  "tx_starts (snd (serve_webhook quiet_env hook_registry hook_example new_router)) \<noteq> tx_starts new_router"
  by code_simp

theorem webhook_authenticated_witness:
  "\<exists>s. lookup_subscription ''wf'' ''t'' [] hook_registry = Some s \<and>
       signature_ok quiet_env s ''hi'' ''sha256=s3crethi''"
  using webhook_authenticated [OF prod.collapse [symmetric] hook_example_fires] by (auto simp: hook_example_def)

end
