(* ===== verification/Deploy_Gate.thy ===== *)
theory Deploy_Gate
  imports Deploy_Flow Policy_Engine
begin

text \<open>
  The deploy orchestrator and the policy engine together: the client of
  \<open>services/deploy-orchestrator/internal/deploy/policy.go\<close>, the evaluation endpoint of
  \<open>services/policy-engine/cmd/server/main.go\<close>, and what a restrictive rule of the engine means for a
  deployment. The exchange over HTTP is a function from the request to what comes back; an answer
  whose body does not decode has no body.
\<close>

datatype engine_reply = NoReply string | Reply int "evaluate_response option"

definition status_error :: "int \<Rightarrow> string" where
  "status_error code = ''policy_engine_status_'' @ show_nat (nat code)"

text \<open>The request the client sends, as the engine decodes it. The canary percentage, an integer here, is a
  JSON number, which the engine reads as a double of the same value.\<close>

definition engine_request :: "deploy_request \<Rightarrow> evaluate_request" where
  "engine_request q =
     \<lparr>eq_principal = dq_actor q, eq_action = ''deploy:'' @ dq_env q, eq_workspace_id = dq_workspace_id q,
      eq_openspec_id = None, eq_asset_id = Some (dq_asset_id q), eq_env = dq_env q,
      eq_criticality = dq_criticality q, eq_trust_level = [],
      eq_data_classification = dq_data_classification q, eq_role = [], eq_responsible = [],
      eq_target =
        [(''runtime_id'', VString (dq_runtime_id q)), (''image'', VString (dq_image q)),
         (''image_digest'', VString (dq_image_digest q)), (''strategy'', VString (dq_strategy q)),
         (''canary_percent'', VInt (dq_canary_percent q))]\<rparr>"

text \<open>Both services write a decision as the same text.\<close>

fun decision_of :: "verdict \<Rightarrow> decision" where
  "decision_of VerdictAllow = DecisionAllow"
| "decision_of VerdictApproval = DecisionRequiresApproval"
| "decision_of VerdictDeny = DecisionDeny"
| "decision_of (VerdictOther s) = DecisionOther s"

definition engine_decision :: "evaluate_response \<Rightarrow> policy_decision" where
  "engine_decision r =
     \<lparr>pd_policy_id = (if er_policy_id r = [] then ''policy-engine'' else er_policy_id r),
      pd_decision = decision_of (er_decision r), pd_rationale = er_rationale r, pd_reason = [],
      pd_required_approvers = er_required_approvers r\<rparr>"

definition policy_client :: "string \<Rightarrow> (evaluate_request \<Rightarrow> engine_reply) \<Rightarrow> deploy_request \<Rightarrow> string + policy_decision" where
  "policy_client base_url exchange q =
     (if base_url = [] then Inl ''policy_engine_base_url_required''
      else case exchange (engine_request q) of
        NoReply e \<Rightarrow> Inl e
      | Reply code out \<Rightarrow>
          if code < 200 \<or> code \<ge> 300 then Inl (status_error code)
          else (case out of None \<Rightarrow> Inl ''decode'' | Some r \<Rightarrow> Inr (engine_decision r)))"

text \<open>The endpoint, for a request that decodes.\<close>

definition serve_evaluate :: "cel \<Rightarrow> rule list \<Rightarrow> evaluate_request \<Rightarrow> engine_reply" where
  "serve_evaluate cel engine r =
     (case evaluate cel engine r of Inl e \<Rightarrow> Reply 400 None | Inr resp \<Rightarrow> Reply 200 (Some resp))"

section \<open>A restrictive rule stops a deployment\<close>

text \<open>What may come back for a request: the answer of the engine, or a failure of the exchange (no
  reply, a status that is not a success, a body that does not decode).\<close>

fun answered_or_failed :: "cel \<Rightarrow> rule list \<Rightarrow> evaluate_request \<Rightarrow> engine_reply \<Rightarrow> bool" where
  "answered_or_failed cel rules r (NoReply e) = True"
| "answered_or_failed cel rules r (Reply code out) =
     (code < 200 \<or> code \<ge> 300 \<or> out = None \<or> serve_evaluate cel (new_engine rules) r = Reply code out)"

lemma served_restrictive:
  assumes "ru \<in> set rules" "ru_decision ru \<in> {VerdictDeny, VerdictApproval}"
    "eval_cel cel (ru_condition ru) r = Inr True"
    "serve_evaluate cel (new_engine rules) r = Reply code (Some resp)"
  shows "er_decision resp \<in> {VerdictDeny, VerdictApproval}"
proof -
  have "hits cel r rules VerdictDeny \<noteq> {} \<or> hits cel r rules VerdictApproval \<noteq> {}"
    using assms(1-3) by (auto simp: hits_def holds_def)
  then show ?thesis
    using evaluate_spec [where cel = cel and rules = rules and r = r] assms(4)
    by (simp add: serve_evaluate_def decided_def split: sum.splits if_splits)
qed

lemma policy_client_restrictive:
  assumes "ru \<in> set rules" "ru_decision ru \<in> {VerdictDeny, VerdictApproval}"
    "eval_cel cel (ru_condition ru) (engine_request q) = Inr True"
    "\<And>r. answered_or_failed cel rules r (exchange r)"
  shows "case policy_client base_url exchange q of
    Inl e \<Rightarrow> True | Inr d \<Rightarrow> restriction (pd_decision d) > 0"
proof (cases "exchange (engine_request q)")
  case (NoReply e)
  then show ?thesis by (simp add: policy_client_def)
next
  case (Reply code out)
  then show ?thesis
    using assms(4) [of "engine_request q"] served_restrictive [OF assms(1-3), of code]
    by (cases out) (auto simp: policy_client_def engine_decision_def)
qed

lemma run_policies_blocked:
  assumes "se_policy_engine ev = Some f"
    and "\<And>n. case f n req of Inl e \<Rightarrow> True | Inr d \<Rightarrow> restriction (pd_decision d) > 0"
    and "run_policies ev d req s = ((dec, ok), t)"
  shows "\<not> ok"
proof
  assume ok
  define c where "c = combined_decision ev d req (se_now ev (sv_clock s)) (s\<lparr>sv_clock := Suc (sv_clock s)\<rparr>)"
  obtain cd ds where cd: "c = (cd, ds)" by fastforce
  have allow: "pd_decision cd = DecisionAllow"
    using assms(3) \<open>ok\<close> cd by (auto simp: run_policies_def c_def draws Let_def split: if_splits prod.splits)
  obtain n where "cd = most_restrictive_policy_decision ds \<and> (\<exists>d0 \<in> set ds. restriction (pd_decision d0) > 0)"
    using cd assms(1) assms(2) [of "Suc (sv_clock s)"]
    by (cases "f (Suc (sv_clock s)) req") (auto simp: c_def combined_decision_def Let_def deny_by_def split: prod.splits)
  with allow show False by (auto simp: most_restrictive_allow)
qed

text \<open>C34: when the policy engine has a rule that denies or wants an approval and whose condition holds for
  the request of a deployment, the deployment never gets to the application of its manifests: the
  pipeline ends with the policy stage, or before it, whatever the other rules answer. The exchange
  with the engine may fail at any call, in any of the ways the client can see; a failed exchange
  stops the deployment like the rule does.\<close>

theorem engine_rule_stops_deployment:
  assumes "se_policy_engine ev = Some (\<lambda>n. policy_client base_url (exchange n))"
    and "\<And>n r. answered_or_failed cel rules r (exchange n r)"
    and "ru \<in> set rules" and "ru_decision ru \<in> {VerdictDeny, VerdictApproval}"
    and "eval_cel cel (ru_condition ru) (engine_request req) = Inr True"
  shows "trace (de_id d) (snd (deploy_stages ev d req s)) = trace (de_id d) s @ [(StagePreflight, OutcomeFailed)] \<or>
    trace (de_id d) (snd (deploy_stages ev d req s)) =
      trace (de_id d) s @ [(StagePreflight, OutcomeCompleted), (StagePolicy, OutcomeDenied)]"
proof -
  obtain r1 s1 where r1: "preflight_stage ev d s = (r1, s1)" by fastforce
  note l1 = preflight_leads [OF r1]
  show ?thesis
  proof (cases r1)
    case (Inl r)
    then show ?thesis using l1 r1 by (simp add: deploy_stages_def leads_def)
  next
    case (Inr rc)
    obtain rtm c where rc: "rc = (rtm, c)" by fastforce
    obtain dec ok s2 where r2: "run_policies ev d req s1 = ((dec, ok), s2)" by (metis prod.exhaust)
    have "\<not> ok" using assms(1) policy_client_restrictive [OF assms(3-5,2)] r2 by (rule run_policies_blocked)
    moreover obtain es where "leads d s1 (if ok then [(StagePolicy, OutcomeCompleted)] else []) es [] s2"
      using policies_lead [OF r2] by blast
    ultimately have l2: "leads d s1 [] es [] s2" by simp
    have "leads d s [(StagePreflight, OutcomeCompleted), (StagePolicy, OutcomeDenied)] es [] (snd (policy_outcome ev d dec s2))"
      using leads_trans [OF leads_trans [OF l1 l2] policy_outcome_leads [of d s2 ev dec]] Inr by simp
    then show ?thesis using r1 r2 Inr rc \<open>\<not> ok\<close> by (simp add: deploy_stages_def leads_def)
  qed
qed

definition freeze_all :: rule where
  "freeze_all = \<lparr>ru_id = ''freeze'', ru_priority = 10, ru_decision = VerdictDeny, ru_condition = ''true'',
     ru_rationale = ''change freeze'', ru_required_approvers = []\<rparr>"

text \<open>An engine that answers every other call only.\<close>

definition frozen_exchange :: "nat \<Rightarrow> evaluate_request \<Rightarrow> engine_reply" where
  "frozen_exchange n r =
     (if even n then serve_evaluate (\<lambda>c b. Inr True) (new_engine [freeze_all]) r else NoReply ''connection refused'')"

definition frozen_env :: deploy_env where
  "frozen_env = demo_deploy_env 4\<lparr>se_policy_engine := Some (\<lambda>n. policy_client ''http://policy'' (frozen_exchange n))\<rparr>"

lemma frozen_exchange_ok: "answered_or_failed (\<lambda>c b. Inr True) [freeze_all] r (frozen_exchange n r)"
  by (cases "serve_evaluate (\<lambda>c b. Inr True) (new_engine [freeze_all]) r") (auto simp: frozen_exchange_def)

theorem engine_rule_stops_deployment_witness:
  "(StageApply, OutcomeCompleted) \<notin> set (trace demo_id
     (snd (deploy_stages frozen_env ((demo_deployment demo_id 1)\<lparr>de_id := demo_id\<rparr>) (demo_request ''r1'') new_deploy_service)))"
proof -
  have "trace demo_id new_deploy_service = []"
    by (simp add: audit_defs new_deploy_service_def new_deploy_store_def)
  moreover have "eval_cel (\<lambda>c b. Inr True) (ru_condition freeze_all) (engine_request (demo_request ''r1'')) = Inr True"
    by (simp add: eval_cel_def)
  ultimately show ?thesis
    using engine_rule_stops_deployment [of frozen_env "''http://policy''" frozen_exchange "\<lambda>c b. Inr True" "[freeze_all]"
        freeze_all "demo_request ''r1''" "(demo_deployment demo_id 1)\<lparr>de_id := demo_id\<rparr>" new_deploy_service]
      frozen_exchange_ok
    by (auto simp: frozen_env_def freeze_all_def)
qed

end
