(* ===== verification/App_Store.thy ===== *)
theory App_Store
  imports Fabric_Prelude
begin

text \<open>
  Applications and their store (\<open>services/application/internal/application/types.go\<close>). Storing an
  application copies the struct, and with it the reference to its map of targets, which a patch
  writes in place: maps of targets therefore live in a heap, \<open>sm_targets\<close>, and an application holds
  an address. Every other slice and map of an application is only ever replaced, so it is a value.
\<close>

section \<open>Applications\<close>

definition unassigned_slug :: string where "unassigned_slug = ''_unassigned''"
definition system_actor :: string where "system_actor = ''system:forge-platform''"
definition design_system_default_ref :: string where "design_system_default_ref = ''ds-forge-default''"

datatype lifecycle = LifecycleActive | LifecycleArchived | LifecycleDeleted | LifecycleOther string

datatype target_value =
  TargetRequired | TargetOptional | TargetOptIn | TargetSkipped | TargetValueOther string

definition all_target_values :: "target_value list" where
  "all_target_values = [TargetRequired, TargetOptional, TargetOptIn, TargetSkipped]"

definition all_target_phases :: "string list" where
  "all_target_phases =
     [''architect'', ''design'', ''development'', ''qa'', ''security'', ''devops'', ''iac'', ''sre'',
      ''finops'', ''observability'']"

definition default_app_targets :: "(string \<times> target_value) list" where
  "default_app_targets =
     [(''architect'', TargetRequired), (''design'', TargetOptional), (''development'', TargetRequired),
      (''qa'', TargetRequired), (''security'', TargetRequired), (''devops'', TargetRequired),
      (''iac'', TargetOptIn), (''sre'', TargetOptional), (''finops'', TargetOptIn),
      (''observability'', TargetOptIn)]"

text \<open>\<open>ap_targets\<close> is an address, \<open>None\<close> the nil map.\<close>

record app =
  ap_id :: string
  ap_slug :: string
  ap_name :: string
  ap_description :: string
  ap_workspace_id :: string
  ap_tenant_id :: string
  ap_lifecycle :: lifecycle
  ap_design_system_ref :: string
  ap_design_system_overrides :: "(string \<times> string) list"
  ap_default_environments :: "string list"
  ap_repo_links :: "string list"
  ap_runtime_links :: "string list"
  ap_owners :: "string list"
  ap_targets :: "nat option"
  ap_system_managed :: bool
  ap_created_at :: gotime
  ap_created_by :: string
  ap_updated_at :: gotime
  ap_updated_by :: string
  ap_archived_at :: "gotime option"

definition canonical_component_primitives :: "string list" where
  "canonical_component_primitives =
     [''button'', ''badge'', ''card'', ''kpi'', ''chip'', ''seg'', ''sheet'', ''terminal'', ''code'',
      ''run_row'', ''approval_card'']"

text \<open>The errors of this service; \<open>AppOther\<close> is an error of a collaborator.\<close>

datatype app_error =
    ErrSlugConflict | ErrSlugInvalid | ErrSystemManaged | ErrAppNotFound | ErrAppArchived
  | ErrAppHasLiveArtefacts | ErrAppWorkspaceMismatch | ErrMissingOwners | ErrMissingName
  | ErrSlugReserved | ErrForbidden
  | ErrInvalidTargetPhase string target_value | ErrInvalidTargetValue string target_value
  | ErrDesignSystemNotFound | ErrDesignSystemNotApproved | ErrDesignSystemNotVisible | ErrSwapPRNotFound
  | ErrUnknownComponent string | ErrAppRepoMissing | ErrMissingTargetRef | AppOther string

fun validate_targets :: "(string \<times> target_value) list \<Rightarrow> app_error option" where
  "validate_targets [] = None"
| "validate_targets ((p, v) # ts) =
     (if p \<notin> set all_target_phases then Some (ErrInvalidTargetPhase p v)
      else if v \<notin> set all_target_values then Some (ErrInvalidTargetValue p v)
      else validate_targets ts)"

section \<open>Slugs\<close>

definition slug_first :: "char \<Rightarrow> bool" where
  "slug_first c = ((97 :: nat) \<le> of_char c \<and> (of_char c :: nat) \<le> 122 \<or> is_digit c)"

definition slug_char :: "char \<Rightarrow> bool" where
  "slug_char c = (slug_first c \<or> c = CHR ''_'' \<or> c = CHR ''-'')"

text \<open>The pattern: a letter or digit, then at most 62 letters, digits, underscores and hyphens.\<close>

definition slug_pattern :: "string \<Rightarrow> bool" where
  "slug_pattern s = (s \<noteq> [] \<and> slug_first (hd s) \<and> length (tl s) \<le> 62 \<and> list_all slug_char (tl s))"

definition is_reserved_slug :: "string \<Rightarrow> bool" where
  "is_reserved_slug slug = has_prefix slug ''_''"

definition validate_slug :: "string \<Rightarrow> app_error option" where
  "validate_slug slug = (if \<not> slug_pattern slug then Some ErrSlugInvalid else None)"

definition slug_key :: "string \<Rightarrow> string \<Rightarrow> string" where
  "slug_key ws slug = ws @ ''/'' @ slug"

section \<open>The store\<close>

record app_store =
  sm_apps :: "(string \<times> app) list"
  sm_by_slug :: "(string \<times> string) list"
  sm_targets :: "(string \<times> target_value) list list"

definition new_app_store :: app_store where
  "new_app_store = \<lparr>sm_apps = [], sm_by_slug = [], sm_targets = []\<rparr>"

text \<open>Making a map: the next free address.\<close>

definition alloc_targets :: "(string \<times> target_value) list \<Rightarrow> app_store \<Rightarrow> nat \<times> app_store" where
  "alloc_targets m st = (length (sm_targets st), st\<lparr>sm_targets := sm_targets st @ [m]\<rparr>)"

definition targets_of :: "app_store \<Rightarrow> app \<Rightarrow> (string \<times> target_value) list" where
  "targets_of st a = (case ap_targets a of None \<Rightarrow> [] | Some r \<Rightarrow> if r < length (sm_targets st) then sm_targets st ! r else [])"

definition write_targets :: "nat \<Rightarrow> (string \<times> target_value) list \<Rightarrow> app_store \<Rightarrow> app_store" where
  "write_targets r m st = st\<lparr>sm_targets := (sm_targets st)[r := m]\<rparr>"

text \<open>The zero times and empty fields are filled in; the time zero is the zero time.\<close>

definition insert_defaults :: "string \<Rightarrow> gotime \<Rightarrow> app \<Rightarrow> app_store \<Rightarrow> app \<times> app_store" where
  "insert_defaults fresh now a st =
     (let a1 = (if ap_id a = [] then a\<lparr>ap_id := fresh\<rparr> else a);
          a2 = (if ap_created_at a1 = 0 then a1\<lparr>ap_created_at := now\<rparr> else a1);
          a3 = (if ap_updated_at a2 = 0 then a2\<lparr>ap_updated_at := ap_created_at a2\<rparr> else a2);
          a4 = (if ap_lifecycle a3 = LifecycleOther [] then a3\<lparr>ap_lifecycle := LifecycleActive\<rparr> else a3);
          a5 = (if ap_design_system_ref a4 = [] then a4\<lparr>ap_design_system_ref := design_system_default_ref\<rparr> else a4)
      in case ap_targets a5 of
           Some r \<Rightarrow> (a5, st)
         | None \<Rightarrow> (let (r, st1) = alloc_targets default_app_targets st in (a5\<lparr>ap_targets := Some r\<rparr>, st1)))"

definition store_insert :: "string \<Rightarrow> gotime \<Rightarrow> app \<Rightarrow> app_store \<Rightarrow> (app_error + app) \<times> app_store" where
  "store_insert fresh now a st =
     (if map_of (sm_by_slug st) (slug_key (ap_workspace_id a) (ap_slug a)) \<noteq> None then (Inl ErrSlugConflict, st)
      else let (a1, st1) = insert_defaults fresh now a st
           in (Inr a1,
               st1\<lparr>sm_apps := AList.update (ap_id a1) a1 (sm_apps st1),
                   sm_by_slug := AList.update (slug_key (ap_workspace_id a1) (ap_slug a1)) (ap_id a1) (sm_by_slug st1)\<rparr>))"

definition store_get :: "string \<Rightarrow> app_store \<Rightarrow> app_error + app" where
  "store_get i st =
     (case map_of (sm_apps st) i of
        None \<Rightarrow> Inl ErrAppNotFound
      | Some a \<Rightarrow> if ap_lifecycle a = LifecycleDeleted then Inl ErrAppNotFound else Inr a)"

definition store_get_by_slug :: "string \<Rightarrow> string \<Rightarrow> app_store \<Rightarrow> app_error + app" where
  "store_get_by_slug ws slug st =
     (case map_of (sm_by_slug st) (slug_key ws slug) of
        None \<Rightarrow> Inl ErrAppNotFound
      | Some i \<Rightarrow> store_get i st)"

record app_filter =
  fl_workspace_id :: string
  fl_include_archived :: bool
  fl_include_deleted :: bool

definition filter_keeps :: "app_filter \<Rightarrow> app \<Rightarrow> bool" where
  "filter_keeps f a =
     (\<not> (fl_workspace_id f \<noteq> [] \<and> ap_workspace_id a \<noteq> fl_workspace_id f) \<and>
      \<not> (\<not> fl_include_archived f \<and> ap_lifecycle a = LifecycleArchived) \<and>
      \<not> (\<not> fl_include_deleted f \<and> ap_lifecycle a = LifecycleDeleted))"

definition store_list :: "app_filter \<Rightarrow> app_store \<Rightarrow> app list" where
  "store_list f st =
     sort_slice (\<lambda>a b. ap_created_at a > ap_created_at b) (filter (filter_keeps f) (map snd (sm_apps st)))"

text \<open>\<open>change\<close> is the closure: it sees a copy of the application and may write to the heap.\<close>

definition store_update ::
  "gotime \<Rightarrow> string \<Rightarrow> (app \<Rightarrow> app_store \<Rightarrow> (app_error + app) \<times> app_store) \<Rightarrow> app_store \<Rightarrow>
   (app_error + app) \<times> app_store" where
  "store_update now i change st =
     (case store_get i st of
        Inl e \<Rightarrow> (Inl ErrAppNotFound, st)
      | Inr a \<Rightarrow>
          (case change a st of
             (Inl e, st1) \<Rightarrow> (Inl e, st1)
           | (Inr a1, st1) \<Rightarrow>
               (let a2 = a1\<lparr>ap_updated_at := now\<rparr>
                in (Inr a2, st1\<lparr>sm_apps := AList.update i a2 (sm_apps st1)\<rparr>))))"

definition store_delete :: "string \<Rightarrow> app_store \<Rightarrow> (app_error + app) \<times> app_store" where
  "store_delete i st =
     (case map_of (sm_apps st) i of
        None \<Rightarrow> (Inl ErrAppNotFound, st)
      | Some a \<Rightarrow>
          (Inr (a\<lparr>ap_lifecycle := LifecycleDeleted\<rparr>),
           st\<lparr>sm_apps := AList.delete i (sm_apps st),
              sm_by_slug := AList.delete (slug_key (ap_workspace_id a) (ap_slug a)) (sm_by_slug st)\<rparr>))"

end
