(* ===== verification/App_Service.thy ===== *)
theory App_Service
  imports App_Store
begin

text \<open>
  The application service (\<open>service.go\<close>, \<open>authz.go\<close>, \<open>events.go\<close>, \<open>bootstrap.go\<close> of
  \<open>services/application/internal/application\<close>). The authorizer, the workspace directory, the design
  system resolver and the live artefact check are fields of an environment; published events, audit
  records and written tuples are lists of the state. The events and records keep the applications
  they point to, whose targets are read through the heap of the store.
\<close>

section \<open>State and collaborators\<close>

record app_event =
  av_type :: string
  av_app_id :: string
  av_workspace_id :: string
  av_tenant_id :: string
  av_actor :: string
  av_correlation_id :: string
  av_before :: "app option"
  av_after :: "app option"
  av_extra :: obj
  av_occurred_at :: gotime

record audit_record =
  ax_app_id :: string
  ax_workspace_id :: string
  ax_tenant_id :: string
  ax_action :: string
  ax_actor :: string
  ax_correlation_id :: string
  ax_reason :: string
  ax_before :: "app option"
  ax_after :: "app option"
  ax_evidence :: obj
  ax_created_at :: gotime

record caller =
  cl_principal :: string
  cl_correlation_id :: string

record create_input =
  ci_slug :: string
  ci_name :: string
  ci_description :: string
  ci_owners :: "string list"
  ci_design_system_ref :: string
  ci_chosen_explicitly :: bool
  ci_default_environments :: "string list"
  ci_repo_links :: "string list"
  ci_runtime_links :: "string list"

text \<open>Pointers and maps that are nil leave the field alone.\<close>

record patch_input =
  pi_name :: "string option"
  pi_description :: "string option"
  pi_owners :: "string list option"
  pi_design_system_ref :: "string option"
  pi_default_environments :: "string list option"
  pi_repo_links :: "string list option"
  pi_runtime_links :: "string list option"
  pi_targets :: "(string \<times> target_value) list option"

record design_system_record =
  dr_asset_id :: string
  dr_version :: string
  dr_lifecycle_state :: string
  dr_visibility :: string
  dr_tenant_id :: string
  dr_built_in_template :: bool

record live_report =
  lr_specs :: "string list"
  lr_deployments :: "string list"
  lr_onboarding :: "string list"
  lr_runtimes :: "string list"

definition report_empty :: "live_report \<Rightarrow> bool" where
  "report_empty r = (lr_specs r = [] \<and> lr_deployments r = [] \<and> lr_onboarding r = [] \<and> lr_runtimes r = [])"

text \<open>
  \<open>ae_check\<close> answers the \<open>n\<close>-th question about user, relation and object; \<open>ae_design_system\<close> is nil
  or resolves a reference for a tenant. The draw counter indexes identifiers and clock readings.
\<close>

record app_env =
  ae_uuid :: "nat \<Rightarrow> string"
  ae_now :: "nat \<Rightarrow> gotime"
  ae_check :: "nat \<Rightarrow> string \<Rightarrow> string \<Rightarrow> string \<Rightarrow> app_error + bool"
  ae_tenant :: "string \<Rightarrow> app_error + string"
  ae_design_system :: "(string \<Rightarrow> string \<Rightarrow> app_error + design_system_record) option"
  ae_live :: "nat \<Rightarrow> string \<Rightarrow> app_error + live_report"

record app_service =
  as_store :: app_store
  as_events :: "app_event list"
  as_audit :: "audit_record list"
  as_tuples :: "(string \<times> string \<times> string) list"
  as_draws :: nat

definition new_app_service :: app_service where
  "new_app_service = \<lparr>as_store = new_app_store, as_events = [], as_audit = [], as_tuples = [], as_draws = 0\<rparr>"

definition app_draw :: "app_service \<Rightarrow> nat \<times> app_service" where
  "app_draw s = (as_draws s, s\<lparr>as_draws := Suc (as_draws s)\<rparr>)"

definition principal_to_fga_user :: "string \<Rightarrow> string" where
  "principal_to_fga_user p =
     (if p = [] then ''user:anonymous''
      else if length p > 5 \<and> take 5 p = ''user:'' then p
      else if p = system_actor then p
      else ''user:'' @ p)"

text \<open>Asking the authorizer; \<open>None\<close> when the answer is yes.\<close>

definition authorize :: "app_env \<Rightarrow> caller \<Rightarrow> string \<Rightarrow> string \<Rightarrow> app_service \<Rightarrow> app_error option \<times> app_service" where
  "authorize env c rel object s =
     (let (n, s1) = app_draw s
      in case ae_check env n (principal_to_fga_user (cl_principal c)) rel object of
           Inl e \<Rightarrow> (Some e, s1)
         | Inr ok \<Rightarrow> (if \<not> ok then (Some ErrForbidden, s1) else (None, s1)))"

definition publish_app ::
  "string \<Rightarrow> app \<Rightarrow> caller \<Rightarrow> app option \<Rightarrow> app option \<Rightarrow> obj \<Rightarrow> gotime \<Rightarrow> app_service \<Rightarrow> app_service" where
  "publish_app ty a c before after extra at s =
     s\<lparr>as_events := as_events s @
        [\<lparr>av_type = ty, av_app_id = ap_id a, av_workspace_id = ap_workspace_id a,
          av_tenant_id = ap_tenant_id a, av_actor = cl_principal c,
          av_correlation_id = cl_correlation_id c, av_before = before, av_after = after,
          av_extra = extra, av_occurred_at = at\<rparr>]\<rparr>"

definition audit_app ::
  "string \<Rightarrow> app \<Rightarrow> caller \<Rightarrow> string \<Rightarrow> app option \<Rightarrow> app option \<Rightarrow> obj \<Rightarrow> gotime \<Rightarrow> app_service \<Rightarrow> app_service" where
  "audit_app action a c reason before after evidence at s =
     s\<lparr>as_audit := as_audit s @
        [\<lparr>ax_app_id = ap_id a, ax_workspace_id = ap_workspace_id a, ax_tenant_id = ap_tenant_id a,
          ax_action = action, ax_actor = cl_principal c, ax_correlation_id = cl_correlation_id c,
          ax_reason = reason, ax_before = before, ax_after = after, ax_evidence = evidence,
          ax_created_at = at\<rparr>]\<rparr>"

text \<open>The event and the record of a change, each with its own clock reading.\<close>

definition announce_app ::
  "app_env \<Rightarrow> string \<Rightarrow> string \<Rightarrow> app \<Rightarrow> caller \<Rightarrow> app option \<Rightarrow> app option \<Rightarrow> app_service \<Rightarrow> app_service" where
  "announce_app env ty action a c before after s =
     (let (n, s1) = app_draw s;
          s2 = publish_app ty a c before after [] (ae_now env n) s1;
          (m, s3) = app_draw s2
      in audit_app action a c [] before after [] (ae_now env m) s3)"

section \<open>Creating\<close>

definition check_design_system :: "app_env \<Rightarrow> string \<Rightarrow> string \<Rightarrow> app_error option" where
  "check_design_system env ref tenant =
     (case ae_design_system env of
        None \<Rightarrow> None
      | Some resolve \<Rightarrow>
          (case resolve ref tenant of
             Inl e \<Rightarrow> Some e
           | Inr rec \<Rightarrow>
               if dr_lifecycle_state rec \<noteq> ''approved'' then Some ErrDesignSystemNotApproved
               else if \<not> dr_built_in_template rec \<and> dr_visibility rec \<noteq> ''tenant_global'' \<and>
                       dr_tenant_id rec \<noteq> [] \<and> dr_tenant_id rec \<noteq> tenant
               then Some ErrDesignSystemNotVisible else None))"

definition write_tuples :: "app \<Rightarrow> string \<Rightarrow> app_service \<Rightarrow> app_service" where
  "write_tuples a ws s =
     s\<lparr>as_tuples := as_tuples s @
        (''workspace:'' @ ws, ''parent'', ''app:'' @ ap_id a) #
        map (\<lambda>ow. (principal_to_fga_user ow, ''owner'', ''app:'' @ ap_id a)) (ap_owners a)\<rparr>"

definition fresh_app ::
  "app_env \<Rightarrow> caller \<Rightarrow> string \<Rightarrow> string \<Rightarrow> create_input \<Rightarrow> string \<Rightarrow> bool \<Rightarrow> nat \<Rightarrow> nat \<Rightarrow> nat \<Rightarrow> app" where
  "fresh_app env c ws tenant i ref managed n t r =
     \<lparr>ap_id = ae_uuid env n, ap_slug = ci_slug i, ap_name = ci_name i,
      ap_description = ci_description i, ap_workspace_id = ws, ap_tenant_id = tenant,
      ap_lifecycle = LifecycleActive, ap_design_system_ref = ref, ap_design_system_overrides = [],
      ap_default_environments = ci_default_environments i, ap_repo_links = ci_repo_links i,
      ap_runtime_links = ci_runtime_links i, ap_owners = ci_owners i, ap_targets = Some r,
      ap_system_managed = managed, ap_created_at = ae_now env t, ap_created_by = cl_principal c,
      ap_updated_at = ae_now env t, ap_updated_by = [], ap_archived_at = None\<rparr>"

definition announce_created ::
  "app_env \<Rightarrow> caller \<Rightarrow> bool \<Rightarrow> app \<Rightarrow> app_service \<Rightarrow> app_service" where
  "announce_created env c chosen a s =
     (let (n, s1) = app_draw s;
          at = ae_now env n;
          s2 = publish_app ''app.created.v1'' a c None (Some a)
                 [(''design_system_ref'', VString (ap_design_system_ref a)),
                  (''design_system_chosen_explicitly'', VBool chosen)] at s1;
          s3 = audit_app ''created'' a c [] None (Some a)
                 [(''design_system_chosen_explicitly'', VBool chosen)] at s2
      in if chosen then s3
         else publish_app ''app.design_system.user_skipped.v1'' a c None None
                [(''resolved_ref'', VString (ap_design_system_ref a))] at s3)"

text \<open>The application, its map of targets and the insertion into the store.\<close>

definition store_new_app ::
  "app_env \<Rightarrow> caller \<Rightarrow> string \<Rightarrow> string \<Rightarrow> create_input \<Rightarrow> string \<Rightarrow> bool \<Rightarrow> app_service \<Rightarrow>
   (app_error + app) \<times> app_service" where
  "store_new_app env c ws tenant i ref managed s =
     (let n = as_draws s;
          (r, st) = alloc_targets default_app_targets (as_store s);
          (res, st1) = store_insert (ae_uuid env (n + 2)) (ae_now env (n + 3))
                         (fresh_app env c ws tenant i ref managed n (n + 1) r) st
      in (res, s\<lparr>as_draws := n + 4, as_store := st1\<rparr>))"

definition insert_app ::
  "app_env \<Rightarrow> caller \<Rightarrow> string \<Rightarrow> string \<Rightarrow> create_input \<Rightarrow> bool \<Rightarrow> app_service \<Rightarrow> (app_error + app) \<times> app_service" where
  "insert_app env c ws tenant i managed s =
     (let ref = (if ci_design_system_ref i = [] then design_system_default_ref else ci_design_system_ref i)
      in case (if managed then None else check_design_system env ref tenant) of
           Some e \<Rightarrow> (Inl e, s)
         | None \<Rightarrow>
             (case store_new_app env c ws tenant i ref managed s of
                (Inl e, s1) \<Rightarrow> (Inl e, s1)
              | (Inr a, s1) \<Rightarrow>
                  (Inr a, announce_created env c (managed \<or> ci_chosen_explicitly i) a (write_tuples a ws s1))))"

definition create_app :: "app_env \<Rightarrow> caller \<Rightarrow> string \<Rightarrow> create_input \<Rightarrow> app_service \<Rightarrow> (app_error + app) \<times> app_service" where
  "create_app env c ws i s =
     (if cl_principal c = system_actor then (Inl ErrForbidden, s)
      else if is_reserved_slug (ci_slug i) then (Inl ErrSlugReserved, s)
      else case validate_slug (ci_slug i) of
        Some e \<Rightarrow> (Inl e, s)
      | None \<Rightarrow>
          if ci_name i = [] then (Inl ErrMissingName, s)
          else if ci_owners i = [] then (Inl ErrMissingOwners, s)
          else case authorize env c ''editor'' (''workspace:'' @ ws) s of
            (Some e, s1) \<Rightarrow> (Inl e, s1)
          | (None, s1) \<Rightarrow>
              (case ae_tenant env ws of
                 Inl e \<Rightarrow> (Inl e, s1)
               | Inr tenant \<Rightarrow> insert_app env c ws tenant i False s1))"

definition unassigned_input :: create_input where
  "unassigned_input =
     \<lparr>ci_slug = unassigned_slug, ci_name = ''Unassigned'',
      ci_description = ''System-managed bucket for unassigned specs'', ci_owners = [system_actor],
      ci_design_system_ref = [], ci_chosen_explicitly = False, ci_default_environments = [],
      ci_repo_links = [], ci_runtime_links = []\<rparr>"

definition create_unassigned :: "app_env \<Rightarrow> caller \<Rightarrow> string \<Rightarrow> string \<Rightarrow> app_service \<Rightarrow> (app_error + app) \<times> app_service" where
  "create_unassigned env c ws tenant s =
     (if cl_principal c \<noteq> system_actor then (Inl ErrForbidden, s)
      else insert_app env c ws tenant unassigned_input True s)"

definition on_workspace_created :: "app_env \<Rightarrow> string \<Rightarrow> string \<Rightarrow> app_service \<Rightarrow> (app_error + app) \<times> app_service" where
  "on_workspace_created env ws tenant s =
     (if ws = [] \<or> tenant = [] then (Inl (AppOther ''workspace_id and tenant_id are required''), s)
      else case store_get_by_slug ws unassigned_slug (as_store s) of
        Inr a \<Rightarrow> (Inr a, s)
      | Inl e \<Rightarrow>
          if e \<noteq> ErrAppNotFound then (Inl e, s)
          else create_unassigned env
                 \<lparr>cl_principal = system_actor, cl_correlation_id = ''workspace-bootstrap:'' @ ws\<rparr> ws tenant s)"

section \<open>Reading\<close>

definition get_app :: "app_env \<Rightarrow> caller \<Rightarrow> string \<Rightarrow> app_service \<Rightarrow> (app_error + app) \<times> app_service" where
  "get_app env c i s =
     (case store_get i (as_store s) of
        Inl e \<Rightarrow> (Inl e, s)
      | Inr a \<Rightarrow>
          (case authorize env c ''can_view'' (''app:'' @ i) s of
             (Some e, s1) \<Rightarrow> (Inl e, s1)
           | (None, s1) \<Rightarrow> (Inr a, s1)))"

definition list_apps :: "app_env \<Rightarrow> caller \<Rightarrow> string \<Rightarrow> bool \<Rightarrow> app_service \<Rightarrow> (app_error + app list) \<times> app_service" where
  "list_apps env c ws archived s =
     (case authorize env c ''viewer'' (''workspace:'' @ ws) s of
        (Some e, s1) \<Rightarrow> (Inl e, s1)
      | (None, s1) \<Rightarrow>
          (Inr (store_list \<lparr>fl_workspace_id = ws, fl_include_archived = archived, fl_include_deleted = False\<rparr>
                  (as_store s1)), s1))"

section \<open>Changing\<close>

text \<open>The guards common to the changing operations: the application exists and is not system-managed.\<close>

definition editable :: "string \<Rightarrow> app_service \<Rightarrow> app_error + app" where
  "editable i s =
     (case store_get i (as_store s) of
        Inl e \<Rightarrow> Inl e
      | Inr a \<Rightarrow> if ap_system_managed a \<or> ap_slug a = unassigned_slug then Inl ErrSystemManaged else Inr a)"

definition patch_ref :: "app_env \<Rightarrow> bool \<Rightarrow> string option \<Rightarrow> app \<Rightarrow> app_error + app" where
  "patch_ref env managed ref a =
     (case ref of
        None \<Rightarrow> Inr a
      | Some given \<Rightarrow>
          let candidate = (if given = [] then design_system_default_ref else given)
          in case (if managed then None else ae_design_system env) of
               None \<Rightarrow> Inr (a\<lparr>ap_design_system_ref := candidate\<rparr>)
             | Some resolve \<Rightarrow>
                 (case resolve candidate (ap_tenant_id a) of
                    Inl e \<Rightarrow> Inl e
                  | Inr rec \<Rightarrow>
                      if dr_lifecycle_state rec \<noteq> ''approved'' then Inl ErrDesignSystemNotApproved
                      else Inr (a\<lparr>ap_design_system_ref := candidate\<rparr>)))"

text \<open>Writing the targets: into the map the application refers to, which every copy of it shares.\<close>

definition patch_targets ::
  "(string \<times> target_value) list option \<Rightarrow> app \<Rightarrow> app_store \<Rightarrow> (app_error + app) \<times> app_store" where
  "patch_targets ts a st =
     (case ts of
        None \<Rightarrow> (Inr a, st)
      | Some m \<Rightarrow>
          (case validate_targets m of
             Some e \<Rightarrow> (Inl e, st)
           | None \<Rightarrow>
               let (a1, st1) =
                     (case ap_targets a of
                        Some r \<Rightarrow> (a, st)
                      | None \<Rightarrow> (let (r, st1) = alloc_targets default_app_targets st in (a\<lparr>ap_targets := Some r\<rparr>, st1)))
               in (Inr a1,
                   write_targets (the (ap_targets a1))
                     (fold (\<lambda>(p, v) t. AList.update p v t) m (targets_of st1 a1)) st1)))"

definition patch_fields :: "app_env \<Rightarrow> bool \<Rightarrow> patch_input \<Rightarrow> app \<Rightarrow> app_error + app" where
  "patch_fields env managed i a =
     (if pi_name i = Some [] then Inl ErrMissingName
      else let a1 = (case pi_name i of None \<Rightarrow> a | Some n \<Rightarrow> a\<lparr>ap_name := n\<rparr>);
               a2 = (case pi_description i of None \<Rightarrow> a1 | Some d \<Rightarrow> a1\<lparr>ap_description := d\<rparr>)
      in if pi_owners i = Some [] then Inl ErrMissingOwners
         else let a3 = (case pi_owners i of None \<Rightarrow> a2 | Some os \<Rightarrow> a2\<lparr>ap_owners := os\<rparr>)
         in case patch_ref env managed (pi_design_system_ref i) a3 of
              Inl e \<Rightarrow> Inl e
            | Inr a4 \<Rightarrow>
                let a5 = (case pi_default_environments i of None \<Rightarrow> a4 | Some xs \<Rightarrow> a4\<lparr>ap_default_environments := xs\<rparr>);
                    a6 = (case pi_repo_links i of None \<Rightarrow> a5 | Some xs \<Rightarrow> a5\<lparr>ap_repo_links := xs\<rparr>)
                in Inr (case pi_runtime_links i of None \<Rightarrow> a6 | Some xs \<Rightarrow> a6\<lparr>ap_runtime_links := xs\<rparr>))"

text \<open>The closures given to the store's update, with a clock reading for those that need one.\<close>

type_synonym app_change = "gotime \<Rightarrow> app \<Rightarrow> app_store \<Rightarrow> (app_error + app) \<times> app_store"

definition patch_change :: "app_env \<Rightarrow> caller \<Rightarrow> bool \<Rightarrow> patch_input \<Rightarrow> app_change" where
  "patch_change env c managed i t a st =
     (case patch_fields env managed i a of
        Inl e \<Rightarrow> (Inl e, st)
      | Inr a1 \<Rightarrow>
          (case patch_targets (pi_targets i) a1 st of
             (Inl e, st1) \<Rightarrow> (Inl e, st1)
           | (Inr a2, st1) \<Rightarrow> (Inr (a2\<lparr>ap_updated_by := cl_principal c\<rparr>), st1)))"

definition archive_change :: "caller \<Rightarrow> app_change" where
  "archive_change c t a st =
     (Inr (a\<lparr>ap_lifecycle := LifecycleArchived, ap_archived_at := Some t, ap_updated_by := cl_principal c\<rparr>), st)"

definition restore_change :: "caller \<Rightarrow> app_change" where
  "restore_change c t a st =
     (Inr (a\<lparr>ap_lifecycle := LifecycleActive, ap_archived_at := None, ap_updated_by := cl_principal c\<rparr>), st)"

definition update_app :: "app_env \<Rightarrow> string \<Rightarrow> app_change \<Rightarrow> app_service \<Rightarrow> (app_error + app) \<times> app_service" where
  "update_app env i change s =
     (let n = as_draws s;
          (res, st) = store_update (ae_now env (Suc n)) i (change (ae_now env n)) (as_store s)
      in (res, s\<lparr>as_draws := n + 2, as_store := st\<rparr>))"

text \<open>Permission, update with a change, then its event and audit record.\<close>

definition change_app ::
  "app_env \<Rightarrow> caller \<Rightarrow> string \<Rightarrow> app \<Rightarrow> string \<Rightarrow> string \<Rightarrow> app_change \<Rightarrow> app_service \<Rightarrow>
   (app_error + app) \<times> app_service" where
  "change_app env c i before ty action change s =
     (case authorize env c ''can_edit'' (''app:'' @ i) s of
        (Some e, s1) \<Rightarrow> (Inl e, s1)
      | (None, s1) \<Rightarrow>
          (case update_app env i change s1 of
             (Inl e, s2) \<Rightarrow> (Inl e, s2)
           | (Inr a, s2) \<Rightarrow> (Inr a, announce_app env ty action a c (Some before) (Some a) s2)))"

definition patch_app :: "app_env \<Rightarrow> caller \<Rightarrow> string \<Rightarrow> patch_input \<Rightarrow> app_service \<Rightarrow> (app_error + app) \<times> app_service" where
  "patch_app env c i inp s =
     (case editable i s of
        Inl e \<Rightarrow> (Inl e, s)
      | Inr a \<Rightarrow>
          change_app env c i a ''app.updated.v1'' ''updated'' (patch_change env c (ap_system_managed a) inp) s)"

definition archive_app :: "app_env \<Rightarrow> caller \<Rightarrow> string \<Rightarrow> app_service \<Rightarrow> (app_error + app) \<times> app_service" where
  "archive_app env c i s =
     (case editable i s of
        Inl e \<Rightarrow> (Inl e, s)
      | Inr a \<Rightarrow>
          if ap_lifecycle a = LifecycleArchived then (Inr a, s)
          else change_app env c i a ''app.archived.v1'' ''archived'' (archive_change c) s)"

definition restore_app :: "app_env \<Rightarrow> caller \<Rightarrow> string \<Rightarrow> app_service \<Rightarrow> (app_error + app) \<times> app_service" where
  "restore_app env c i s =
     (case editable i s of
        Inl e \<Rightarrow> (Inl e, s)
      | Inr a \<Rightarrow>
          if ap_lifecycle a \<noteq> LifecycleArchived then (Inr a, s)
          else change_app env c i a ''app.restored.v1'' ''restored'' (restore_change c) s)"

text \<open>The result of a deletion: the deleted application, or the report that blocks it beside the
  error.\<close>

datatype delete_result = DeleteFailed app_error | DeleteBlocked live_report | AppDeleted app

definition delete_app :: "app_env \<Rightarrow> caller \<Rightarrow> string \<Rightarrow> app_service \<Rightarrow> delete_result \<times> app_service" where
  "delete_app env c i s =
     (case editable i s of
        Inl e \<Rightarrow> (DeleteFailed e, s)
      | Inr a \<Rightarrow>
          (case authorize env c ''can_admin'' (''app:'' @ i) s of
             (Some e, s1) \<Rightarrow> (DeleteFailed e, s1)
           | (None, s1) \<Rightarrow>
               (let (n, s2) = app_draw s1
                in case ae_live env n i of
                     Inl e \<Rightarrow> (DeleteFailed e, s2)
                   | Inr report \<Rightarrow>
                       if \<not> report_empty report then (DeleteBlocked report, s2)
                       else (case store_delete i (as_store s2) of
                               (Inl e, st) \<Rightarrow> (DeleteFailed e, s2)
                             | (Inr d, st) \<Rightarrow>
                                 (AppDeleted d,
                                  announce_app env ''app.deleted.v1'' ''deleted'' d c (Some a) None
                                    (s2\<lparr>as_store := st\<rparr>))))))"

definition validate_coherence :: "string \<Rightarrow> string \<Rightarrow> app_service \<Rightarrow> app_error option" where
  "validate_coherence i ws s =
     (case store_get i (as_store s) of
        Inl e \<Rightarrow> Some e
      | Inr a \<Rightarrow>
          if ap_workspace_id a \<noteq> ws then Some ErrAppWorkspaceMismatch
          else if ap_lifecycle a = LifecycleArchived then Some ErrAppArchived else None)"

end
