(* ===== verification/App_Design.thy ===== *)
theory App_Design
  imports App_Service
begin

text \<open>
  The design system endpoints of the application service (\<open>design_system.go\<close>,
  \<open>design_system_service.go\<close>), the status codes of \<open>http.go\<close> with its webhook, and the migration of
  specifications to applications (\<open>internal/migration/migration.go\<close>). The opener of pull requests
  is a function of the number of requests; the pull requests it closes are a list.
\<close>

section \<open>Pull requests\<close>

record swap_pr_input =
  si_app_id :: string
  si_app_slug :: string
  si_repo_url :: string
  si_from_ref :: string
  si_target_ref :: string
  si_reason :: string
  si_opened_by :: string
  si_correlation_id :: string
  si_openspec_link :: string

record design_system_pr =
  dp_id :: string
  dp_app_id :: string
  dp_workspace_id :: string
  dp_tenant_id :: string
  dp_target_ref :: string
  dp_reason :: string
  dp_pr_url :: string
  dp_status :: string
  dp_opened_by :: string
  dp_opened_at :: gotime
  dp_closed_at :: "gotime option"
  dp_correlation_id :: string

definition list_open :: "string \<Rightarrow> design_system_pr list \<Rightarrow> design_system_pr list" where
  "list_open app_id rows = filter (\<lambda>r. dp_app_id r = app_id \<and> dp_status r = ''open'') rows"

definition mark_superseded :: "gotime \<Rightarrow> string \<Rightarrow> string \<Rightarrow> design_system_pr list \<Rightarrow> design_system_pr list" where
  "mark_superseded now app_id url rows =
     map (\<lambda>r. if dp_app_id r = app_id \<and> dp_status r = ''open'' \<and> dp_pr_url r \<noteq> url
              then r\<lparr>dp_status := ''superseded'', dp_closed_at := Some now\<rparr> else r) rows"

fun mark_merged :: "gotime \<Rightarrow> string \<Rightarrow> design_system_pr list \<Rightarrow> design_system_pr list option" where
  "mark_merged now url [] = None"
| "mark_merged now url (r # rs) =
     (if dp_pr_url r = url then Some (r\<lparr>dp_status := ''merged'', dp_closed_at := Some now\<rparr> # rs)
      else map_option (\<lambda>rs'. r # rs') (mark_merged now url rs))"

definition get_by_pr_url :: "string \<Rightarrow> design_system_pr list \<Rightarrow> app_error + design_system_pr" where
  "get_by_pr_url url rows =
     (case List.find (\<lambda>r. dp_pr_url r = url) rows of None \<Rightarrow> Inl ErrSwapPRNotFound | Some r \<Rightarrow> Inr r)"

definition validate_overrides :: "(string \<times> string) list \<Rightarrow> app_error option" where
  "validate_overrides ovs =
     (case List.find (\<lambda>(k, v). k \<notin> set canonical_component_primitives) ovs of
        None \<Rightarrow> None | Some (k, v) \<Rightarrow> Some (ErrUnknownComponent k))"

section \<open>The service\<close>

record design_env =
  de_app :: app_env
  de_resolve :: "string \<Rightarrow> string \<Rightarrow> app_error + design_system_record"
  de_open :: "nat \<Rightarrow> swap_pr_input \<Rightarrow> app_error + string"

record design_service =
  dg_service :: app_service
  dg_prs :: "design_system_pr list"
  dg_opened :: "swap_pr_input list"
  dg_closed :: "(string \<times> string) list"

definition new_design_service :: design_service where
  "new_design_service = \<lparr>dg_service = new_app_service, dg_prs = [], dg_opened = [], dg_closed = []\<rparr>"

definition validate_design_system_ref :: "design_env \<Rightarrow> string \<Rightarrow> string \<Rightarrow> app_error + design_system_record" where
  "validate_design_system_ref env tenant ref =
     (case de_resolve env ref tenant of
        Inl e \<Rightarrow> Inl e
      | Inr rec \<Rightarrow> if dr_lifecycle_state rec \<noteq> ''approved'' then Inl ErrDesignSystemNotApproved else Inr rec)"

definition portal_bundle_repo_of :: "app \<Rightarrow> app_error + string" where
  "portal_bundle_repo_of a =
     (case List.find (\<lambda>l. has_prefix l ''https://'' \<or> has_prefix l ''git@'') (ap_repo_links a) of
        None \<Rightarrow> Inl ErrAppRepoMissing | Some l \<Rightarrow> Inr l)"

definition swap_request :: "caller \<Rightarrow> app \<Rightarrow> string \<Rightarrow> string \<Rightarrow> string \<Rightarrow> swap_pr_input" where
  "swap_request c a repo target reason =
     \<lparr>si_app_id = ap_id a, si_app_slug = ap_slug a, si_repo_url = repo,
      si_from_ref = ap_design_system_ref a, si_target_ref = target, si_reason = reason,
      si_opened_by = cl_principal c, si_correlation_id = cl_correlation_id c, si_openspec_link = []\<rparr>"

definition swap_row :: "caller \<Rightarrow> app \<Rightarrow> string \<Rightarrow> string \<Rightarrow> string \<Rightarrow> gotime \<Rightarrow> design_system_pr" where
  "swap_row c a target reason url now =
     \<lparr>dp_id = [], dp_app_id = ap_id a, dp_workspace_id = ap_workspace_id a, dp_tenant_id = ap_tenant_id a,
      dp_target_ref = target, dp_reason = reason, dp_pr_url = url, dp_status = ''open'',
      dp_opened_by = cl_principal c, dp_opened_at = now, dp_closed_at = None,
      dp_correlation_id = cl_correlation_id c\<rparr>"

text \<open>Supersede the open requests of the application and record the new one.\<close>

definition record_swap :: "caller \<Rightarrow> app \<Rightarrow> string \<Rightarrow> string \<Rightarrow> string \<Rightarrow> gotime \<Rightarrow> gotime \<Rightarrow> design_service \<Rightarrow> design_service" where
  "record_swap c a target reason url now later_now d =
     d\<lparr>dg_closed := dg_closed d @
          map (\<lambda>r. (dp_pr_url r, ''Superseded by '' @ url)) (list_open (ap_id a) (dg_prs d)),
       dg_prs := mark_superseded later_now (ap_id a) url (dg_prs d) @ [swap_row c a target reason url now]\<rparr>"

definition announce_design ::
  "string \<Rightarrow> string \<Rightarrow> app \<Rightarrow> caller \<Rightarrow> app option \<Rightarrow> app option \<Rightarrow> obj \<Rightarrow> gotime \<Rightarrow> design_service \<Rightarrow> design_service" where
  "announce_design ty reason a c before after evidence now d =
     d\<lparr>dg_service :=
        audit_app ''updated'' a c reason before after evidence now
          (publish_app ty a c before after [] now (dg_service d))\<rparr>"

definition swap_design ::
  "design_env \<Rightarrow> caller \<Rightarrow> string \<Rightarrow> string \<Rightarrow> string \<Rightarrow> design_service \<Rightarrow>
   (app_error + app \<times> design_system_pr) \<times> design_service" where
  "swap_design env c i target reason d =
     (if trim_space target = [] then (Inl ErrMissingTargetRef, d)
      else case editable i (dg_service d) of
        Inl e \<Rightarrow> (Inl e, d)
      | Inr a \<Rightarrow>
          (case authorize (de_app env) c ''owner'' (''app:'' @ i) (dg_service d) of
             (Some e, s1) \<Rightarrow> (Inl e, d\<lparr>dg_service := s1\<rparr>)
           | (None, s1) \<Rightarrow>
               (let d1 = d\<lparr>dg_service := s1\<rparr>
                in case validate_design_system_ref env (ap_tenant_id a) target of
                     Inl e \<Rightarrow> (Inl e, d1)
                   | Inr rec \<Rightarrow>
                       (case portal_bundle_repo_of a of
                          Inl e \<Rightarrow> (Inl e, d1)
                        | Inr repo \<Rightarrow>
                            (let req = swap_request c a repo target reason;
                                 d2 = d1\<lparr>dg_opened := dg_opened d1 @ [req]\<rparr>
                             in case de_open env (length (dg_opened d1)) req of
                                  Inl e \<Rightarrow> (Inl e, d2)
                                | Inr url \<Rightarrow>
                                    (let n = as_draws (dg_service d2);
                                         now = ae_now (de_app env) n;
                                         d3 = record_swap c a target reason url now (ae_now (de_app env) (Suc n))
                                                (d2\<lparr>dg_service := (dg_service d2)\<lparr>as_draws := n + 2\<rparr>\<rparr>)
                                     in (Inr (a, swap_row c a target reason url now),
                                         announce_design ''app.design_system.swap_requested.v1''
                                           ''design_system_swap_requested'' a c (Some a) None
                                           [(''swap_pr_url'', VString url), (''target_ref'', VString target),
                                            (''resolved_to'', VString (dr_asset_id rec))] now d3)))))))"

definition merge_overrides_into :: "(string \<times> string) list \<Rightarrow> (string \<times> string) list \<Rightarrow> (string \<times> string) list" where
  "merge_overrides_into ovs m =
     fold (\<lambda>(k, v) m. if v = [] then AList.delete k m else AList.update k v m) ovs m"

definition overrides_change :: "caller \<Rightarrow> (string \<times> string) list \<Rightarrow> app_change" where
  "overrides_change c ovs t a st =
     (Inr (a\<lparr>ap_design_system_overrides := merge_overrides_into ovs (ap_design_system_overrides a),
             ap_updated_by := cl_principal c\<rparr>), st)"

definition first_bad_ref :: "design_env \<Rightarrow> string \<Rightarrow> (string \<times> string) list \<Rightarrow> app_error option" where
  "first_bad_ref env tenant ovs =
     (case List.map_filter (\<lambda>(k, v). case validate_design_system_ref env tenant v of Inl e \<Rightarrow> Some e | Inr r \<Rightarrow> None) ovs of
        [] \<Rightarrow> None | e # es \<Rightarrow> Some e)"

text \<open>Update with a change, then one event and one record with the same clock reading.\<close>

definition change_design ::
  "design_env \<Rightarrow> caller \<Rightarrow> string \<Rightarrow> app \<Rightarrow> string \<Rightarrow> string \<Rightarrow> obj \<Rightarrow> app_change \<Rightarrow> design_service \<Rightarrow>
   (app_error + app) \<times> design_service" where
  "change_design env c i before ty reason evidence change d =
     (case update_app (de_app env) i change (dg_service d) of
        (Inl e, s1) \<Rightarrow> (Inl e, d\<lparr>dg_service := s1\<rparr>)
      | (Inr a, s1) \<Rightarrow>
          (let (n, s2) = app_draw s1
           in (Inr a, announce_design ty reason a c (Some before) (Some a) evidence (ae_now (de_app env) n)
                        (d\<lparr>dg_service := s2\<rparr>))))"

definition patch_overrides ::
  "design_env \<Rightarrow> caller \<Rightarrow> string \<Rightarrow> (string \<times> string) list \<Rightarrow> design_service \<Rightarrow> (app_error + app) \<times> design_service" where
  "patch_overrides env c i ovs d =
     (case editable i (dg_service d) of
        Inl e \<Rightarrow> (Inl e, d)
      | Inr a \<Rightarrow>
          (case authorize (de_app env) c ''owner'' (''app:'' @ i) (dg_service d) of
             (Some e, s1) \<Rightarrow> (Inl e, d\<lparr>dg_service := s1\<rparr>)
           | (None, s1) \<Rightarrow>
               (let d1 = d\<lparr>dg_service := s1\<rparr>
                in case validate_overrides ovs of
                     Some e \<Rightarrow> (Inl e, d1)
                   | None \<Rightarrow>
                       (case first_bad_ref env (ap_tenant_id a) ovs of
                          Some e \<Rightarrow> (Inl e, d1)
                        | None \<Rightarrow>
                            change_design env c i a ''app.design_system.override_changed.v1''
                              ''design_system_overrides_patched'' [] (overrides_change c ovs) d1))))"

definition merged_change :: "caller \<Rightarrow> string \<Rightarrow> app_change" where
  "merged_change c ref t a st =
     (Inr (a\<lparr>ap_design_system_ref := ref, ap_updated_by := cl_principal c\<rparr>), st)"

text \<open>\<open>Inr None\<close>: a request that is no longer open is ignored. The mark follows the update and precedes
  the announcement.\<close>

definition handle_swap_merged ::
  "design_env \<Rightarrow> caller \<Rightarrow> string \<Rightarrow> design_service \<Rightarrow> (app_error + app option) \<times> design_service" where
  "handle_swap_merged env c url d =
     (case get_by_pr_url url (dg_prs d) of
        Inl e \<Rightarrow> (Inl e, d)
      | Inr pr \<Rightarrow>
          if dp_status pr \<noteq> ''open'' then (Inr None, d)
          else (case store_get (dp_app_id pr) (as_store (dg_service d)) of
                  Inl e \<Rightarrow> (Inl e, d)
                | Inr before \<Rightarrow>
                    (case update_app (de_app env) (dp_app_id pr) (merged_change c (dp_target_ref pr)) (dg_service d) of
                       (Inl e, s1) \<Rightarrow> (Inl e, d\<lparr>dg_service := s1\<rparr>)
                     | (Inr a, s1) \<Rightarrow>
                         (let n = as_draws s1;
                              rows = (case mark_merged (ae_now (de_app env) n) url (dg_prs d) of
                                        None \<Rightarrow> dg_prs d | Some rs \<Rightarrow> rs)
                          in (Inr (Some a),
                              announce_design ''app.design_system.changed.v1'' ''design_system_swap_merged'' a c
                                (Some before) (Some a)
                                [(''swap_pr_url'', VString url), (''from'', VString (ap_design_system_ref before)),
                                 (''to'', VString (dp_target_ref pr))]
                                (ae_now (de_app env) (Suc n))
                                (d\<lparr>dg_service := s1\<lparr>as_draws := n + 2\<rparr>, dg_prs := rows\<rparr>))))))"

section \<open>Status codes and the webhook\<close>

definition error_status :: "app_error \<Rightarrow> int" where
  "error_status e =
     (case e of
        ErrInvalidTargetPhase p v \<Rightarrow> 422 | ErrInvalidTargetValue p v \<Rightarrow> 422
      | ErrAppNotFound \<Rightarrow> 404 | ErrSlugConflict \<Rightarrow> 409 | ErrSlugInvalid \<Rightarrow> 422 | ErrSlugReserved \<Rightarrow> 403
      | ErrSystemManaged \<Rightarrow> 403 | ErrAppArchived \<Rightarrow> 409 | ErrAppWorkspaceMismatch \<Rightarrow> 422
      | ErrMissingOwners \<Rightarrow> 422 | ErrMissingName \<Rightarrow> 422 | ErrDesignSystemNotApproved \<Rightarrow> 409
      | ErrDesignSystemNotVisible \<Rightarrow> 404 | ErrDesignSystemNotFound \<Rightarrow> 404 | ErrForbidden \<Rightarrow> 403
      | _ \<Rightarrow> 400)"

definition design_error_status :: "app_error \<Rightarrow> int" where
  "design_error_status e =
     (case e of
        ErrDesignSystemNotApproved \<Rightarrow> 409 | ErrDesignSystemNotFound \<Rightarrow> 404 | ErrUnknownComponent n \<Rightarrow> 422
      | ErrAppRepoMissing \<Rightarrow> 409 | ErrSwapPRNotFound \<Rightarrow> 404 | ErrForbidden \<Rightarrow> 403
      | _ \<Rightarrow> error_status e)"

definition caller_from_request :: "app_env \<Rightarrow> string \<Rightarrow> string \<Rightarrow> app_service \<Rightarrow> caller \<times> app_service" where
  "caller_from_request env prin corr s =
     (let p = (if prin = [] then ''anonymous'' else prin)
      in if corr = [] then (let (n, s1) = app_draw s in (\<lparr>cl_principal = p, cl_correlation_id = ae_uuid env n\<rparr>, s1))
         else (\<lparr>cl_principal = p, cl_correlation_id = corr\<rparr>, s))"

text \<open>The notification of a closed pull request; its body is \<open>None\<close> when it does not decode.\<close>

record pr_notification =
  pn_action :: string
  pn_url :: string
  pn_merged :: bool

definition design_webhook ::
  "design_env \<Rightarrow> string \<Rightarrow> string \<Rightarrow> string \<Rightarrow> pr_notification option \<Rightarrow> design_service \<Rightarrow> int \<times> design_service" where
  "design_webhook env verb prin corr note d =
     (if verb \<noteq> ''POST'' then (405, d)
      else case note of
        None \<Rightarrow> (400, d)
      | Some p \<Rightarrow>
          if pn_action p \<noteq> ''closed'' \<or> \<not> pn_merged p \<or> pn_url p = [] then (202, d)
          else (let (c0, s1) = caller_from_request (de_app env) prin corr (dg_service d);
                    c = (if cl_principal c0 = ''anonymous'' then c0\<lparr>cl_principal := ''system:portal-bundle-webhook''\<rparr> else c0)
                in case handle_swap_merged env c (pn_url p) (d\<lparr>dg_service := s1\<rparr>) of
                     (Inl e, d2) \<Rightarrow> (design_error_status e, d2)
                   | (Inr None, d2) \<Rightarrow> (202, d2)
                   | (Inr (Some a), d2) \<Rightarrow> (200, d2)))"

section \<open>The migration\<close>

datatype classification = RetainWithTargetApp | RetainUnassigned | Orphan

record spec_row =
  sw_spec_id :: string
  sw_workspace_id :: string
  sw_lifecycle_status :: string
  sw_has_active_deployment :: bool
  sw_has_onboarding_in_flight :: bool
  sw_has_runtime_ref :: bool
  sw_in_pinned_set :: bool
  sw_last_activity :: gotime
  sw_target_app_candidate :: string

record classification_result =
  cr_spec_id :: string
  cr_classification :: classification
  cr_target_app_id :: string
  cr_last_activity :: gotime
  cr_evidence :: obj

text \<open>\<open>days_90\<close> is 90 days in nanoseconds; \<open>now\<close> and the activity are instants in the same unit.\<close>

definition days_90 :: gotime where "days_90 = 90 * 24 * 3600 * 1000000000"

definition classify_row :: "gotime \<Rightarrow> spec_row \<Rightarrow> classification_result" where
  "classify_row now r =
     (let recent = (sw_last_activity r > now - days_90);
          evidence =
            [(''has_active_deployment'', VBool (sw_has_active_deployment r)),
             (''has_onboarding_in_flight'', VBool (sw_has_onboarding_in_flight r)),
             (''has_runtime_ref'', VBool (sw_has_runtime_ref r)),
             (''in_pinned_set'', VBool (sw_in_pinned_set r)),
             (''lifecycle_status'', VString (sw_lifecycle_status r)), (''recent_activity'', VBool recent)];
          retainable0 = (sw_has_active_deployment r \<or> sw_has_onboarding_in_flight r \<or> sw_has_runtime_ref r \<or>
            sw_in_pinned_set r \<or> sw_lifecycle_status r = ''approved'' \<or> sw_lifecycle_status r = ''committed'');
          retainable = (if \<not> retainable0 \<and> recent then True else retainable0)
      in if \<not> retainable \<and> (sw_lifecycle_status r = ''proposed'' \<or> sw_lifecycle_status r = ''draft'')
         then \<lparr>cr_spec_id = sw_spec_id r, cr_classification = Orphan, cr_target_app_id = [],
               cr_last_activity = sw_last_activity r, cr_evidence = evidence\<rparr>
         else if sw_target_app_candidate r \<noteq> []
         then \<lparr>cr_spec_id = sw_spec_id r, cr_classification = RetainWithTargetApp,
               cr_target_app_id = sw_target_app_candidate r, cr_last_activity = sw_last_activity r,
               cr_evidence = evidence\<rparr>
         else \<lparr>cr_spec_id = sw_spec_id r, cr_classification = RetainUnassigned, cr_target_app_id = [],
               cr_last_activity = sw_last_activity r, cr_evidence = evidence\<rparr>)"

definition classify_specs :: "spec_row list \<Rightarrow> gotime \<Rightarrow> classification_result list" where
  "classify_specs rows now = map (classify_row now) rows"

record execution_plan =
  ep_backfill :: "classification_result list"
  ep_purge :: "classification_result list"
  ep_actor :: string

fun plan_rows :: "classification_result list \<Rightarrow> execution_plan \<Rightarrow> execution_plan" where
  "plan_rows [] p = p"
| "plan_rows (r # rs) p =
     plan_rows rs (case cr_classification r of
        Orphan \<Rightarrow> p\<lparr>ep_purge := ep_purge p @ [r]\<rparr>
      | RetainWithTargetApp \<Rightarrow> p\<lparr>ep_backfill := ep_backfill p @ [r]\<rparr>
      | RetainUnassigned \<Rightarrow> p\<lparr>ep_backfill := ep_backfill p @ [r]\<rparr>)"

definition plan_execution :: "classification_result list \<Rightarrow> string \<Rightarrow> execution_plan option" where
  "plan_execution report actor =
     (if actor = [] then None
      else Some (plan_rows report \<lparr>ep_backfill = [], ep_purge = [], ep_actor = actor\<rparr>))"

text \<open>What applying the plan emits: type, subject and data; then the counts.\<close>

definition apply_plan :: "execution_plan option \<Rightarrow> (string \<times> string \<times> obj) list \<times> nat \<times> nat" where
  "apply_plan popt =
     (case popt of
        None \<Rightarrow> ([], 0, 0)
      | Some p \<Rightarrow>
          (map (\<lambda>r. (''spec.reparented.v1'', ''spec/'' @ cr_spec_id r,
                      [(''spec_id'', VString (cr_spec_id r)), (''from_app_id'', VNil),
                       (''to_app_id'', VString (cr_target_app_id r)), (''principal'', VString (ep_actor p)),
                       (''reason'', VString ''migration'')])) (ep_backfill p) @
           map (\<lambda>r. (''spec.purged.v1'', ''spec/'' @ cr_spec_id r,
                      [(''spec_id'', VString (cr_spec_id r)), (''principal'', VString (ep_actor p)),
                       (''reason'', VString ''orphan''), (''evidence'', VMap (cr_evidence r))])) (ep_purge p),
           length (ep_backfill p), length (ep_purge p)))"

end
