(* ===== verification/App_Invariants.thy ===== *)
theory App_Invariants
  imports App_Design
begin

text \<open>
  What the application service guarantees: slugs are unique in a workspace, the slug index and the
  heap of targets fit the applications, system-managed applications never change, changes are
  authorized and audited, and an application has at most one open pull request. The last sections
  are about the patch that rewritten its own history and the migration.
\<close>

section \<open>Slug keys\<close>

lemma slash_no_slug_char: "\<not> slug_char (CHR ''/'')" "\<not> slug_first (CHR ''/'')"
  by code_simp+

lemma slug_pattern_no_slash: "slug_pattern s \<Longrightarrow> CHR ''/'' \<notin> set s"
  using slash_no_slug_char by (cases s) (auto simp: slug_pattern_def list_all_iff)

lemma slug_key_inj:
  assumes "CHR ''/'' \<notin> set s" "CHR ''/'' \<notin> set t" "slug_key v s = slug_key w t"
  shows "v = w \<and> s = t"
proof -
  have "last_index_of (CHR ''/'') (slug_key v s) = Some (length v)"
    and "last_index_of (CHR ''/'') (slug_key w t) = Some (length w)"
    using assms(1,2) by (simp_all add: slug_key_def last_index_of_append)
  with assms(3) have "length v = length w" by simp
  with assms(3) show ?thesis by (simp add: slug_key_def)
qed

section \<open>The invariant of the store\<close>

text \<open>A map of targets with every known phase once and known values.\<close>

definition good_targets :: "(string \<times> target_value) list \<Rightarrow> bool" where
  "good_targets m \<longleftrightarrow> map fst m = all_target_phases \<and> (\<forall>v \<in> snd ` set m. v \<in> set all_target_values)"

definition life_ok :: "app \<Rightarrow> bool" where
  "life_ok a \<longleftrightarrow> ap_lifecycle a = LifecycleActive \<and> ap_archived_at a = None \<or>
     ap_lifecycle a = LifecycleArchived \<and> ap_archived_at a \<noteq> None"

lemma life_ok_frame [simp]:
  "life_ok (a\<lparr>ap_updated_at := t\<rparr>) = life_ok a" "life_ok (a\<lparr>ap_updated_by := p\<rparr>) = life_ok a"
  by (simp_all add: life_ok_def)

definition heap_ok :: "app_store \<Rightarrow> app \<Rightarrow> bool" where
  "heap_ok st a \<longleftrightarrow> (\<exists>r < length (sm_targets st). ap_targets a = Some r \<and> good_targets (sm_targets st ! r))"

definition managed_slug :: "app \<Rightarrow> bool" where
  "managed_slug a \<longleftrightarrow> (ap_system_managed a \<longleftrightarrow> ap_slug a = unassigned_slug)"

definition store_ok :: "string set \<Rightarrow> app_store \<Rightarrow> bool" where
  "store_ok ids st \<longleftrightarrow>
     (\<forall>i a. map_of (sm_apps st) i = Some a \<longrightarrow>
        i \<in> ids \<and> ap_id a = i \<and> CHR ''/'' \<notin> set (ap_slug a) \<and> life_ok a \<and> managed_slug a \<and> heap_ok st a \<and>
        map_of (sm_by_slug st) (slug_key (ap_workspace_id a) (ap_slug a)) = Some i) \<and>
     (\<forall>k i. map_of (sm_by_slug st) k = Some i \<longrightarrow>
        (\<exists>a. map_of (sm_apps st) i = Some a \<and> k = slug_key (ap_workspace_id a) (ap_slug a))) \<and>
     (\<forall>i j a b. map_of (sm_apps st) i = Some a \<longrightarrow> map_of (sm_apps st) j = Some b \<longrightarrow>
        ap_targets a = ap_targets b \<longrightarrow> i = j)"

lemma store_ok_app:
  assumes "store_ok ids st" "map_of (sm_apps st) i = Some a"
  shows "i \<in> ids" "ap_id a = i" "CHR ''/'' \<notin> set (ap_slug a)" "life_ok a" "managed_slug a" "heap_ok st a"
    "map_of (sm_by_slug st) (slug_key (ap_workspace_id a) (ap_slug a)) = Some i"
  using assms unfolding store_ok_def by blast+

lemma store_ok_index:
  "store_ok ids st \<Longrightarrow> map_of (sm_by_slug st) k = Some i \<Longrightarrow>
   \<exists>a. map_of (sm_apps st) i = Some a \<and> k = slug_key (ap_workspace_id a) (ap_slug a)"
  unfolding store_ok_def by blast

lemma store_ok_unshared:
  "store_ok ids st \<Longrightarrow> map_of (sm_apps st) i = Some a \<Longrightarrow> map_of (sm_apps st) j = Some b \<Longrightarrow>
   ap_targets a = ap_targets b \<Longrightarrow> i = j"
  unfolding store_ok_def by blast

lemma store_ok_new: "store_ok ids new_app_store"
  by (simp add: store_ok_def new_app_store_def)

lemma store_ok_mono: "store_ok ids st \<Longrightarrow> ids \<subseteq> ids' \<Longrightarrow> store_ok ids' st"
  unfolding store_ok_def by blast

lemma store_get_Inr: "store_get i st = Inr a \<Longrightarrow> map_of (sm_apps st) i = Some a"
  by (auto simp: store_get_def split: option.splits if_splits)

lemma store_get_ok:
  "store_ok ids st \<Longrightarrow> store_get i st = (case map_of (sm_apps st) i of None \<Rightarrow> Inl ErrAppNotFound | Some a \<Rightarrow> Inr a)"
  by (auto simp: store_get_def life_ok_def dest: store_ok_app(4) split: option.splits)

lemma good_default_targets: "good_targets default_app_targets"
  by (simp add: good_targets_def default_app_targets_def all_target_phases_def all_target_values_def)

section \<open>Changes\<close>

text \<open>What a change leaves alone.\<close>

definition identity :: "app \<Rightarrow> string \<times> string \<times> string \<times> string \<times> bool \<times> gotime \<times> string" where
  "identity a = (ap_id a, ap_slug a, ap_workspace_id a, ap_tenant_id a, ap_system_managed a, ap_created_at a, ap_created_by a)"

lemma identity_eq:
  "identity a = identity b \<longleftrightarrow>
     ap_id a = ap_id b \<and> ap_slug a = ap_slug b \<and> ap_workspace_id a = ap_workspace_id b \<and>
     ap_tenant_id a = ap_tenant_id b \<and> ap_system_managed a = ap_system_managed b \<and>
     ap_created_at a = ap_created_at b \<and> ap_created_by a = ap_created_by b"
  by (simp add: identity_def)

lemma identity_frame [simp]: "identity (a\<lparr>ap_updated_at := t\<rparr>) = identity a"
  by (simp add: identity_def)

text \<open>Two heaps that differ at one address only, where the targets stay good.\<close>

definition rewritten :: "nat \<Rightarrow> app_store \<Rightarrow> app_store \<Rightarrow> bool" where
  "rewritten r st st' \<longleftrightarrow>
     sm_apps st' = sm_apps st \<and> sm_by_slug st' = sm_by_slug st \<and> length (sm_targets st') = length (sm_targets st) \<and>
     (\<forall>q. q \<noteq> r \<longrightarrow> sm_targets st' ! q = sm_targets st ! q) \<and>
     (good_targets (sm_targets st ! r) \<longrightarrow> r < length (sm_targets st) \<longrightarrow> good_targets (sm_targets st' ! r))"

lemma rewritten_refl [simp]: "rewritten r st st"
  by (simp add: rewritten_def)

lemma heap_ok_rewritten:
  assumes "heap_ok st b" "rewritten r st st'" "r < length (sm_targets st)" "good_targets (sm_targets st ! r)"
  shows "heap_ok st' b"
  using assms unfolding heap_ok_def rewritten_def by metis

lemma store_ok_rewritten:
  assumes ok: "store_ok ids st" and own: "map_of (sm_apps st) i = Some a" "ap_targets a = Some r"
    and rw: "rewritten r st st'"
  shows "store_ok ids st'"
proof -
  have r: "r < length (sm_targets st)" "good_targets (sm_targets st ! r)"
    using store_ok_app(6) [OF ok own(1)] own(2) by (auto simp: heap_ok_def)
  have same: "sm_apps st' = sm_apps st" "sm_by_slug st' = sm_by_slug st"
    using rw by (simp_all add: rewritten_def)
  have "heap_ok st' b" if "map_of (sm_apps st) j = Some b" for j b
    using store_ok_app(6) [OF ok that] rw r by (rule heap_ok_rewritten)
  with ok show ?thesis unfolding store_ok_def same by blast
qed

lemma store_ok_put:
  assumes ok: "store_ok ids st" and own: "map_of (sm_apps st) i = Some a"
    and new: "identity a' = identity a" "ap_targets a' = ap_targets a" "life_ok a'"
  shows "store_ok ids (st\<lparr>sm_apps := AList.update i a' (sm_apps st)\<rparr>)"
proof -
  let ?st = "st\<lparr>sm_apps := AList.update i a' (sm_apps st)\<rparr>"
  note a = store_ok_app [OF ok own]
  have heap: "heap_ok ?st b = heap_ok st b" for b by (simp add: heap_ok_def)
  have new_ok: "i \<in> ids \<and> ap_id a' = i \<and> CHR ''/'' \<notin> set (ap_slug a') \<and> life_ok a' \<and> managed_slug a' \<and>
      heap_ok ?st a' \<and> map_of (sm_by_slug ?st) (slug_key (ap_workspace_id a') (ap_slug a')) = Some i"
    using a new by (simp add: identity_eq managed_slug_def heap_ok_def)
  have apps: "map_of (sm_apps ?st) j = (if j = i then Some a' else map_of (sm_apps st) j)" for j
    by (simp add: store_simps)
  show ?thesis unfolding store_ok_def apps
  proof (intro conjI allI impI)
    fix j b assume b: "(if j = i then Some a' else map_of (sm_apps st) j) = Some b"
    have "j \<in> ids \<and> ap_id b = j \<and> CHR ''/'' \<notin> set (ap_slug b) \<and> life_ok b \<and> managed_slug b \<and> heap_ok ?st b \<and>
      map_of (sm_by_slug ?st) (slug_key (ap_workspace_id b) (ap_slug b)) = Some j"
    proof (cases "j = i")
      case True
      with b new_ok show ?thesis by simp
    next
      case False
      with b have "map_of (sm_apps st) j = Some b" by simp
      from store_ok_app [OF ok this] show ?thesis by (simp add: heap)
    qed
    then show "j \<in> ids" "ap_id b = j" "CHR ''/'' \<notin> set (ap_slug b)" "life_ok b" "managed_slug b" "heap_ok ?st b"
      "map_of (sm_by_slug ?st) (slug_key (ap_workspace_id b) (ap_slug b)) = Some j" by blast+
  next
    fix k j assume "map_of (sm_by_slug ?st) k = Some j"
    then obtain b where "map_of (sm_apps st) j = Some b" "k = slug_key (ap_workspace_id b) (ap_slug b)"
      using store_ok_index [OF ok] by auto
    then show "\<exists>b. (if j = i then Some a' else map_of (sm_apps st) j) = Some b \<and> k = slug_key (ap_workspace_id b) (ap_slug b)"
      using own new(1) by (cases "j = i") (auto simp: identity_eq)
  next
    fix j l b c
    assume "(if j = i then Some a' else map_of (sm_apps st) j) = Some b"
      "(if l = i then Some a' else map_of (sm_apps st) l) = Some c" "ap_targets b = ap_targets c"
    moreover have "j = i" if "map_of (sm_apps st) j = Some b" "ap_targets b = ap_targets a'" for j b
      using store_ok_unshared [OF ok that(1) own] that(2) new(2) by simp
    ultimately show "j = l" using store_ok_unshared [OF ok, of j b l c]
      by (metis option.inject)
  qed
qed

locale app_change =
  fixes change :: app_change
  assumes rewritten_own: "change t a st = (res, st') \<Longrightarrow> ap_targets a = Some r \<Longrightarrow> rewritten r st st'"
    and keeps: "change t a st = (Inr a', st') \<Longrightarrow> ap_targets a = Some r \<Longrightarrow>
      identity a' = identity a \<and> ap_targets a' = Some r \<and> (life_ok a \<longrightarrow> life_ok a')"
begin

text \<open>An update changes one application, in place, and the map it refers to.\<close>

lemma update_spec:
  assumes "store_ok ids st" "store_update now i (change t) st = (res, st')"
  shows "st' = st \<and> res = Inl ErrAppNotFound \<or>
    (\<exists>a r st1. map_of (sm_apps st) i = Some a \<and> ap_targets a = Some r \<and> rewritten r st st1 \<and>
       ((\<exists>e. res = Inl e \<and> st' = st1) \<or>
        (\<exists>a'. res = Inr a' \<and> identity a' = identity a \<and> ap_targets a' = Some r \<and> life_ok a' \<and>
           st' = st1\<lparr>sm_apps := AList.update i a' (sm_apps st1)\<rparr>)))"
proof (cases "map_of (sm_apps st) i")
  case None
  with assms show ?thesis by (auto simp: store_update_def store_get_def)
next
  case (Some a)
  from store_ok_app(6) [OF assms(1) Some] obtain r where r: "ap_targets a = Some r" by (auto simp: heap_ok_def)
  obtain res1 st1 where ch: "change t a st = (res1, st1)" by fastforce
  have rw: "rewritten r st st1" using ch r by (rule rewritten_own)
  show ?thesis
  proof (cases res1)
    case (Inl e)
    with assms ch Some rw r show ?thesis by (auto simp: store_update_def store_get_ok)
  next
    case (Inr a1)
    let ?a = "a1\<lparr>ap_updated_at := now\<rparr>"
    from assms(2) ch Some Inr
    have "res = Inr ?a" "st' = st1\<lparr>sm_apps := AList.update i ?a (sm_apps st1)\<rparr>"
      by (simp_all add: store_update_def store_get_ok [OF assms(1)] Let_def)
    moreover have "identity ?a = identity a" "ap_targets ?a = Some r" "life_ok ?a"
      using keeps [OF ch [unfolded Inr] r] store_ok_app(4) [OF assms(1) Some] by simp_all
    ultimately show ?thesis using Some r rw by blast
  qed
qed

lemma update_store_ok:
  assumes "store_ok ids st" "store_update now i (change t) st = (res, st')"
  shows "store_ok ids st'"
  using update_spec [OF assms]
proof (elim disjE exE conjE)
  fix a r st1 a'
  assume a: "map_of (sm_apps st) i = Some a" "ap_targets a = Some r" "rewritten r st st1"
    "identity a' = identity a" "ap_targets a' = Some r" "life_ok a'"
    "st' = st1\<lparr>sm_apps := AList.update i a' (sm_apps st1)\<rparr>"
  have "store_ok ids st1" using assms(1) a(1-3) by (rule store_ok_rewritten)
  moreover have "map_of (sm_apps st1) i = Some a" using a(1,3) by (simp add: rewritten_def)
  moreover have "ap_targets a' = ap_targets a" using a(2,5) by simp
  ultimately show ?thesis unfolding a(7) using a(4,6) by (intro store_ok_put [of ids st1 i a a'])
qed (use assms(1) in \<open>auto intro: store_ok_rewritten\<close>)

text \<open>Other applications, and what they refer to, stay as they are.\<close>

lemma update_others:
  assumes "store_ok ids st" "store_update now i (change t) st = (res, st')" "j \<noteq> i"
  shows "map_of (sm_apps st') j = map_of (sm_apps st) j"
    and "map_of (sm_apps st) j = Some b \<Longrightarrow> targets_of st' b = targets_of st b"
proof -
  have rw: "targets_of st1 b = targets_of st b"
    if "map_of (sm_apps st) j = Some b" "map_of (sm_apps st) i = Some a" "ap_targets a = Some r" "rewritten r st st1" for b a r st1
  proof -
    from store_ok_unshared [OF assms(1) that(1,2)] assms(3) that(3) have "ap_targets b \<noteq> Some r" by auto
    with that(4) show ?thesis by (auto simp: targets_of_def rewritten_def split: option.splits)
  qed
  show "map_of (sm_apps st') j = map_of (sm_apps st) j"
    using update_spec [OF assms(1,2)] assms(3) by (auto simp: store_simps rewritten_def)
  show "targets_of st' b = targets_of st b" if "map_of (sm_apps st) j = Some b"
    using update_spec [OF assms(1,2)]
  proof (elim disjE exE conjE)
    fix a r st1 assume "map_of (sm_apps st) i = Some a" "ap_targets a = Some r" "rewritten r st st1" "st' = st1"
    with rw [OF that] show ?thesis by blast
  next
    fix a r st1 a'
    assume a: "map_of (sm_apps st) i = Some a" "ap_targets a = Some r" "rewritten r st st1"
      and st': "st' = st1\<lparr>sm_apps := AList.update i a' (sm_apps st1)\<rparr>"
    have "targets_of st' b = targets_of st1 b" by (simp add: st' targets_of_def split: option.splits)
    with rw [OF that a] show ?thesis by simp
  qed simp
qed

end

lemma store_ok_insert:
  assumes ok: "store_ok ids st" and new: "ap_id a \<notin> ids" "CHR ''/'' \<notin> set (ap_slug a)" "life_ok a" "managed_slug a"
    and tg: "ap_targets a = Some (length (sm_targets st))"
    and free: "map_of (sm_by_slug st) (slug_key (ap_workspace_id a) (ap_slug a)) = None"
  shows "store_ok (insert (ap_id a) ids)
    \<lparr>sm_apps = AList.update (ap_id a) a (sm_apps st),
     sm_by_slug = AList.update (slug_key (ap_workspace_id a) (ap_slug a)) (ap_id a) (sm_by_slug st),
     sm_targets = sm_targets st @ [default_app_targets]\<rparr>" (is "store_ok ?ids ?st")
proof -
  have no: "map_of (sm_apps st) (ap_id a) = None"
    using new(1) store_ok_app(1) [OF ok] by (cases "map_of (sm_apps st) (ap_id a)") auto
  have apps: "map_of (sm_apps ?st) j = (if j = ap_id a then Some a else map_of (sm_apps st) j)"
    and idx: "map_of (sm_by_slug ?st) k = (if k = slug_key (ap_workspace_id a) (ap_slug a) then Some (ap_id a) else map_of (sm_by_slug st) k)"
    for j k by (simp_all add: store_simps)
  have old: "heap_ok ?st b" if "heap_ok st b" for b
    using that by (auto simp: heap_ok_def nth_append)
  have self: "heap_ok ?st a" by (simp add: heap_ok_def tg good_default_targets)
  have below: "ap_targets b \<noteq> ap_targets a" if "map_of (sm_apps st) j = Some b" for j b
    using store_ok_app(6) [OF ok that] tg by (auto simp: heap_ok_def)
  show ?thesis unfolding store_ok_def apps idx
  proof (intro conjI allI impI)
    fix j b assume b: "(if j = ap_id a then Some a else map_of (sm_apps st) j) = Some b"
    have "j \<in> ?ids \<and> ap_id b = j \<and> CHR ''/'' \<notin> set (ap_slug b) \<and> life_ok b \<and> managed_slug b \<and> heap_ok ?st b \<and>
      (if slug_key (ap_workspace_id b) (ap_slug b) = slug_key (ap_workspace_id a) (ap_slug a) then Some (ap_id a)
       else map_of (sm_by_slug st) (slug_key (ap_workspace_id b) (ap_slug b))) = Some j"
    proof (cases "j = ap_id a")
      case True
      with b new self show ?thesis by simp
    next
      case False
      with b have "map_of (sm_apps st) j = Some b" by simp
      from store_ok_app [OF ok this] free show ?thesis by (auto intro: old)
    qed
    then show "j \<in> ?ids" "ap_id b = j" "CHR ''/'' \<notin> set (ap_slug b)" "life_ok b" "managed_slug b" "heap_ok ?st b"
      "(if slug_key (ap_workspace_id b) (ap_slug b) = slug_key (ap_workspace_id a) (ap_slug a) then Some (ap_id a)
       else map_of (sm_by_slug st) (slug_key (ap_workspace_id b) (ap_slug b))) = Some j" by blast+
  next
    fix k j
    assume "(if k = slug_key (ap_workspace_id a) (ap_slug a) then Some (ap_id a) else map_of (sm_by_slug st) k) = Some j"
    then show "\<exists>b. (if j = ap_id a then Some a else map_of (sm_apps st) j) = Some b \<and> k = slug_key (ap_workspace_id b) (ap_slug b)"
      using store_ok_index [OF ok, of k j] no by (auto split: if_splits)
  next
    fix j l b c
    assume "(if j = ap_id a then Some a else map_of (sm_apps st) j) = Some b"
      "(if l = ap_id a then Some a else map_of (sm_apps st) l) = Some c" "ap_targets b = ap_targets c"
    then show "j = l" using below [of j b] below [of l c] store_ok_unshared [OF ok, of j b l c]
      by (metis option.inject)
  qed
qed

lemma store_ok_delete:
  assumes ok: "store_ok ids st" and own: "map_of (sm_apps st) i = Some a"
  shows "store_ok ids (st\<lparr>sm_apps := AList.delete i (sm_apps st),
    sm_by_slug := AList.delete (slug_key (ap_workspace_id a) (ap_slug a)) (sm_by_slug st)\<rparr>)"
proof -
  have other: "slug_key (ap_workspace_id b) (ap_slug b) \<noteq> slug_key (ap_workspace_id a) (ap_slug a)"
    if "map_of (sm_apps st) j = Some b" "j \<noteq> i" for j b
    using store_ok_app(7) [OF ok that(1)] store_ok_app(7) [OF ok own] that(2) by auto
  show ?thesis unfolding store_ok_def
    using store_ok_app [OF ok] store_ok_index [OF ok] store_ok_unshared [OF ok] other store_ok_app(7) [OF ok own]
    by (simp add: delete_conv' heap_ok_def) (metis option.inject)
qed

section \<open>The changes of the service\<close>

lemma validate_targets_None:
  "validate_targets m = None \<longleftrightarrow> (\<forall>(p, v) \<in> set m. p \<in> set all_target_phases \<and> v \<in> set all_target_values)"
  by (induction m rule: validate_targets.induct) auto

lemma update_member: "x \<in> set (AList.update k v m) \<Longrightarrow> x = (k, v) \<or> x \<in> set m"
  by (induction m) (auto split: if_splits)

lemma good_targets_update:
  assumes "good_targets m" "p \<in> set all_target_phases" "v \<in> set all_target_values"
  shows "good_targets (AList.update p v m)"
  unfolding good_targets_def
proof (intro conjI ballI)
  show "map fst (AList.update p v m) = all_target_phases"
    using assms(1,2) by (simp add: good_targets_def update_keys)
  fix w assume "w \<in> snd ` set (AList.update p v m)"
  then show "w \<in> set all_target_values" using assms(1,3) by (auto simp: good_targets_def dest!: update_member)
qed

lemma good_targets_updates:
  "good_targets m \<Longrightarrow> validate_targets ts = None \<Longrightarrow> good_targets (fold (\<lambda>(p, v) t. AList.update p v t) ts m)"
  by (induction ts arbitrary: m) (auto simp: good_targets_update split: if_splits)

lemma patch_targets_spec:
  assumes "patch_targets ts a st = (res, st')" "ap_targets a = Some r"
  shows "rewritten r st st'" and "res = Inr a' \<Longrightarrow> a' = a"
    and "res = Inr a' \<Longrightarrow> r < length (sm_targets st) \<Longrightarrow>
      targets_of st' a = (case ts of None \<Rightarrow> targets_of st a | Some m \<Rightarrow> fold (\<lambda>(p, v) t. AList.update p v t) m (targets_of st a))"
  using assms
  by (auto simp: patch_targets_def write_targets_def rewritten_def targets_of_def nth_list_update Let_def
      intro!: good_targets_updates split: option.splits if_splits)

lemma patch_ref_spec:
  "patch_ref env managed ref a = Inr a' \<Longrightarrow>
   identity a' = identity a \<and> ap_targets a' = ap_targets a \<and> life_ok a' = life_ok a"
  by (auto simp: patch_ref_def Let_def identity_def life_ok_def split: option.splits sum.splits if_splits)

lemma patch_fields_spec:
  assumes "patch_fields env managed i a = Inr a'"
  shows "identity a' = identity a \<and> ap_targets a' = ap_targets a \<and> life_ok a' = life_ok a"
proof -
  obtain b d where "patch_ref env managed (pi_design_system_ref i) b = Inr d"
    and b: "identity b = identity a" "ap_targets b = ap_targets a" "life_ok b = life_ok a"
    and d: "identity a' = identity d" "ap_targets a' = ap_targets d" "life_ok a' = life_ok d"
    using assms
    by (auto simp: patch_fields_def Let_def identity_def life_ok_def split: if_splits sum.splits)
      (auto split: option.splits)
  from patch_ref_spec [OF this(1)] b d show ?thesis by simp
qed

lemma patch_change_spec:
  assumes "patch_change env c managed i t a st = (res, st')" "ap_targets a = Some r"
  shows "rewritten r st st' \<and>
    (\<forall>a'. res = Inr a' \<longrightarrow> identity a' = identity a \<and> ap_targets a' = Some r \<and> (life_ok a \<longrightarrow> life_ok a'))"
proof (cases "patch_fields env managed i a")
  case (Inl e)
  with assms show ?thesis by (auto simp: patch_change_def)
next
  case (Inr a1)
  note f = patch_fields_spec [OF this]
  obtain res1 st1 where pt: "patch_targets (pi_targets i) a1 st = (res1, st1)" by fastforce
  have r: "ap_targets a1 = Some r" using f assms(2) by simp
  note p = patch_targets_spec(1,2) [OF pt r]
  from assms(1) Inr pt
  have st': "st' = st1" and res: "res = (case res1 of Inl e \<Rightarrow> Inl e | Inr a2 \<Rightarrow> Inr (a2\<lparr>ap_updated_by := cl_principal c\<rparr>))"
    by (auto simp: patch_change_def split: sum.splits)
  from p(1) have "rewritten r st st'" by (simp add: st')
  moreover have "identity a' = identity a \<and> ap_targets a' = Some r \<and> (life_ok a \<longrightarrow> life_ok a')" if "res = Inr a'" for a'
  proof -
    from that res obtain a2 where "res1 = Inr a2" "a' = a2\<lparr>ap_updated_by := cl_principal c\<rparr>" by (cases res1) auto
    with p(2) f r show ?thesis by (simp add: identity_def)
  qed
  ultimately show ?thesis by blast
qed

interpretation patch: app_change "patch_change env c managed i"
  by unfold_locales (use patch_change_spec in blast)+

interpretation archive: app_change "archive_change c"
  by unfold_locales (auto simp: archive_change_def identity_def life_ok_def)

interpretation restore: app_change "restore_change c"
  by unfold_locales (auto simp: restore_change_def identity_def life_ok_def)

interpretation overrides: app_change "overrides_change c ovs"
  by unfold_locales (auto simp: overrides_change_def identity_def life_ok_def)

interpretation merged: app_change "merged_change c ref"
  by unfold_locales (auto simp: merged_change_def identity_def life_ok_def)

section \<open>The service\<close>

definition used_ids :: "app_env \<Rightarrow> nat \<Rightarrow> string set" where
  "used_ids env n = ae_uuid env ` {..<n}"

lemma used_ids_mono: "m \<le> n \<Longrightarrow> used_ids env m \<subseteq> used_ids env n"
  by (auto simp: used_ids_def)

definition svc_ok :: "app_env \<Rightarrow> app_service \<Rightarrow> bool" where
  "svc_ok env s \<longleftrightarrow> store_ok (used_ids env (as_draws s)) (as_store s)"

text \<open>Steps that leave the store alone and only draw.\<close>

definition only_draws :: "app_service \<Rightarrow> app_service \<Rightarrow> bool" where
  "only_draws s s' \<longleftrightarrow> as_store s' = as_store s \<and> as_draws s \<le> as_draws s'"

lemma only_draws_ok: "only_draws s s' \<Longrightarrow> svc_ok env s \<Longrightarrow> svc_ok env s'"
  unfolding only_draws_def svc_ok_def by (metis store_ok_mono used_ids_mono)

lemma only_draws_trans: "only_draws s t \<Longrightarrow> only_draws t u \<Longrightarrow> only_draws s u"
  by (simp add: only_draws_def)

lemma only_draws_refl [simp]: "only_draws s s"
  by (simp add: only_draws_def)

lemma authorize_only_draws: "only_draws s (snd (authorize env c rel obj s))"
  by (auto simp: authorize_def app_draw_def only_draws_def split: sum.splits)

lemma announce_only_draws [simp]:
  "only_draws s (announce_app env ty action a c before after s)"
  "only_draws s (announce_created env c chosen a s)"
  "only_draws s (write_tuples a ws s)"
  "only_draws s (publish_app ty a c before after extra at s)"
  "only_draws s (audit_app action a c reason before after evidence at s)"
  by (auto simp: announce_app_def announce_created_def write_tuples_def publish_app_def audit_app_def
      app_draw_def only_draws_def Let_def)

lemma announce_store [simp]:
  "as_store (announce_app env ty action a c before after s) = as_store s"
  "as_store (announce_created env c chosen a s) = as_store s"
  "as_store (write_tuples a ws s) = as_store s"
  "as_store (publish_app ty a c before after extra at s) = as_store s"
  "as_store (audit_app action a c reason before after evidence at s) = as_store s"
  using announce_only_draws by (simp_all add: only_draws_def)

lemma authorize_store: "authorize env c rel obj s = (r, s') \<Longrightarrow> as_store s' = as_store s"
  using authorize_only_draws [of s env c rel obj] by (simp add: only_draws_def)

subsection \<open>The audit log replays\<close>

text \<open>A record says what its application became, \<open>None\<close> when it was deleted; the record of a requested
  swap changes nothing.\<close>

definition replay :: "audit_record \<Rightarrow> (string \<rightharpoonup> app) \<Rightarrow> (string \<rightharpoonup> app)" where
  "replay r m = (if ax_reason r = ''design_system_swap_requested'' then m else m(ax_app_id r := ax_after r))"

definition replayed :: "app_service \<Rightarrow> bool" where
  "replayed s \<longleftrightarrow> fold replay (as_audit s) Map.empty = map_of (sm_apps (as_store s))"

definition apps_of :: "app_service \<Rightarrow> (string \<rightharpoonup> app)" where
  "apps_of s = map_of (sm_apps (as_store s))"

lemma replayed_iff: "replayed s \<longleftrightarrow> fold replay (as_audit s) Map.empty = apps_of s"
  by (simp add: replayed_def apps_of_def)

lemma announce_audit [simp]:
  "\<exists>r. as_audit (announce_app env ty action a c before after s) = as_audit s @ [r] \<and>
     ax_app_id r = ap_id a \<and> ax_after r = after \<and> ax_reason r = []"
  "\<exists>r. as_audit (announce_created env c chosen a s) = as_audit s @ [r] \<and>
     ax_app_id r = ap_id a \<and> ax_after r = Some a \<and> ax_reason r = []"
  by (auto simp: announce_app_def announce_created_def publish_app_def audit_app_def app_draw_def Let_def)

lemma quiet_audit [simp]:
  "as_audit (write_tuples a ws s) = as_audit s"
  "as_audit (publish_app ty a c before after extra at s) = as_audit s"
  by (simp_all add: write_tuples_def publish_app_def)

lemma authorize_audit: "authorize env c rel obj s = (r, s') \<Longrightarrow> as_audit s' = as_audit s"
  by (auto simp: authorize_def app_draw_def split: sum.splits if_splits)

lemma update_app_audit: "update_app env i change s = (res, s') \<Longrightarrow> as_audit s' = as_audit s"
  by (auto simp: update_app_def Let_def split: prod.splits)

subsection \<open>Frames\<close>

text \<open>Every application but one, and what it refers to, stays as it is.\<close>

definition frame_others :: "string \<Rightarrow> app_service \<Rightarrow> app_service \<Rightarrow> bool" where
  "frame_others i s s' \<longleftrightarrow>
     (\<forall>j b. j \<noteq> i \<longrightarrow> apps_of s j = Some b \<longrightarrow>
        apps_of s' j = Some b \<and> targets_of (as_store s') b = targets_of (as_store s) b)"

lemma frame_same_store: "as_store s' = as_store s \<Longrightarrow> frame_others i s s'"
  by (simp add: frame_others_def apps_of_def)

lemma frame_trans: "frame_others i s t \<Longrightarrow> frame_others i t u \<Longrightarrow> frame_others i s u"
  unfolding frame_others_def by metis

lemma apps_of_same_store: "as_store s' = as_store s \<Longrightarrow> apps_of s' = apps_of s"
  by (simp add: apps_of_def)

text \<open>Identifiers that were drawn keep their application's identity, and never get another one.\<close>

definition kept :: "app_env \<Rightarrow> app_service \<Rightarrow> app_service \<Rightarrow> bool" where
  "kept env s s' \<longleftrightarrow> as_draws s \<le> as_draws s' \<and>
     (\<forall>j \<in> used_ids env (as_draws s). \<forall>a'. apps_of s' j = Some a' \<longrightarrow>
        (\<exists>a. apps_of s j = Some a \<and> identity a' = identity a))"

lemma kept_trans: "kept env s t \<Longrightarrow> kept env t u \<Longrightarrow> kept env s u"
  unfolding kept_def using used_ids_mono by (metis le_trans subsetD)

lemma kept_quiet: "only_draws s s' \<Longrightarrow> kept env s s'"
  by (simp add: kept_def only_draws_def apps_of_def)

text \<open>What an operation on one application owes: the invariant, the frame, the identities and the
  replay.\<close>

definition op_ok :: "app_env \<Rightarrow> string \<Rightarrow> app_service \<Rightarrow> app_service \<Rightarrow> bool" where
  "op_ok env i s s' \<longleftrightarrow> svc_ok env s' \<and> frame_others i s s' \<and> kept env s s' \<and> (replayed s \<longrightarrow> replayed s')"

lemma op_okI: "svc_ok env s' \<Longrightarrow> frame_others i s s' \<Longrightarrow> kept env s s' \<Longrightarrow> (replayed s \<Longrightarrow> replayed s') \<Longrightarrow> op_ok env i s s'"
  by (simp add: op_ok_def)

lemma op_ok_quiet:
  assumes "only_draws s s'" "as_audit s' = as_audit s" "svc_ok env s"
  shows "op_ok env i s s'"
  using assms only_draws_ok [OF assms(1,3)] kept_quiet [OF assms(1)]
  by (simp add: op_ok_def only_draws_def frame_same_store replayed_iff apps_of_def)

lemma op_ok_refl: "svc_ok env s \<Longrightarrow> op_ok env i s s"
  by (simp add: op_ok_quiet)

lemma authorize_op_ok: "authorize env c rel obj s = (r, s') \<Longrightarrow> svc_ok env s \<Longrightarrow> op_ok env i s s'"
  using authorize_only_draws [of s env c rel obj] authorize_audit by (intro op_ok_quiet) auto

lemma op_ok_trans: "op_ok env i s t \<Longrightarrow> op_ok env i t u \<Longrightarrow> op_ok env i s u"
  unfolding op_ok_def by (metis frame_trans kept_trans)

text \<open>A change of applications followed by its record.\<close>

lemma replayed_append:
  assumes "replayed s" "as_audit t = as_audit s @ [r]" "ax_reason r \<noteq> ''design_system_swap_requested''"
    "apps_of t = (apps_of s)(ax_app_id r := ax_after r)"
  shows "replayed t"
  using assms by (simp add: replayed_iff replay_def)

context app_change begin

lemma update_app_spec:
  assumes "svc_ok env s" "update_app env i change s = (res, s')"
  shows "svc_ok env s' \<and> frame_others i s s' \<and> as_draws s \<le> as_draws s' \<and>
    (case res of Inl e \<Rightarrow> apps_of s' = apps_of s
     | Inr a \<Rightarrow> apps_of s' = (apps_of s)(i \<mapsto> a) \<and> ap_id a = i \<and>
         (\<exists>b. apps_of s i = Some b \<and> identity a = identity b \<and> ap_targets a = ap_targets b))"
proof -
  let ?n = "as_draws s"
  obtain st where up: "store_update (ae_now env (Suc ?n)) i (change (ae_now env ?n)) (as_store s) = (res, st)"
    and s': "s' = s\<lparr>as_draws := ?n + 2, as_store := st\<rparr>"
    using assms(2) by (auto simp: update_app_def Let_def split: prod.splits)
  have ok: "store_ok (used_ids env ?n) (as_store s)" using assms(1) by (simp add: svc_ok_def)
  have "svc_ok env s'"
    using store_ok_mono [OF update_store_ok [OF ok up] used_ids_mono [of ?n "?n + 2"]] by (simp add: svc_ok_def s')
  moreover have "frame_others i s s'"
    using update_others [OF ok up] by (auto simp: frame_others_def apps_of_def s')
  moreover have "case res of Inl e \<Rightarrow> apps_of s' = apps_of s
     | Inr a \<Rightarrow> apps_of s' = (apps_of s)(i \<mapsto> a) \<and> ap_id a = i \<and>
         (\<exists>b. apps_of s i = Some b \<and> identity a = identity b \<and> ap_targets a = ap_targets b)"
    using update_spec [OF ok up]
  proof (elim disjE exE conjE)
    fix a r st1 a'
    assume a: "map_of (sm_apps (as_store s)) i = Some a" "ap_targets a = Some r" "rewritten r (as_store s) st1"
      "res = Inr a'" "identity a' = identity a" "ap_targets a' = Some r"
      "st = st1\<lparr>sm_apps := AList.update i a' (sm_apps st1)\<rparr>"
    then show ?thesis using store_ok_app(2) [OF ok a(1)]
      by (auto simp: apps_of_def s' rewritten_def update_conv' identity_eq fun_upd_def)
  qed (auto simp: apps_of_def s' rewritten_def)
  moreover have "as_draws s \<le> as_draws s'" by (simp add: s')
  ultimately show ?thesis by blast
qed

lemma update_app_kept:
  assumes "svc_ok env s" "update_app env i change s = (res, s')"
  shows "kept env s s'"
  using update_app_spec [OF assms] by (auto simp: kept_def split: sum.splits if_splits)

lemma change_app_ok:
  assumes "svc_ok env s" "change_app env c i before ty action change s = (res, s')"
  shows "op_ok env i s s'"
proof -
  obtain r s1 where au: "authorize env c ''can_edit'' (''app:'' @ i) s = (r, s1)" by fastforce
  note op1 = authorize_op_ok [OF au assms(1), of i]
  then have ok1: "svc_ok env s1" by (simp add: op_ok_def)
  show ?thesis
  proof (cases r)
    case (Some e)
    with assms(2) au op1 show ?thesis by (simp add: change_app_def)
  next
    case None
    obtain res2 s2 where up: "update_app env i change s1 = (res2, s2)" by fastforce
    note u = update_app_spec [OF ok1 up] and au2 = update_app_audit [OF up]
    have "op_ok env i s1 s'"
    proof (cases res2)
      case (Inl e)
      with assms(2) au None up have "s' = s2" by (simp add: change_app_def)
      with u Inl au2 update_app_kept [OF ok1 up] show ?thesis by (simp add: op_ok_def replayed_iff)
    next
      case (Inr a)
      with assms(2) au None up have s': "s' = announce_app env ty action a c (Some before) (Some a) s2"
        by (simp add: change_app_def)
      obtain r where r: "as_audit s' = as_audit s2 @ [r]" "ax_app_id r = ap_id a" "ax_after r = Some a" "ax_reason r = []"
        using announce_audit(1) unfolding s' by blast
      have st: "as_store s' = as_store s2" by (simp add: s')
      have "svc_ok env s'" using only_draws_ok [OF announce_only_draws(1)] u unfolding s' by blast
      moreover have "frame_others i s1 s'"
        using frame_trans [OF conjunct1 [OF conjunct2 [OF u]] frame_same_store [OF st]] .
      moreover have "kept env s1 s'"
        using kept_trans [OF update_app_kept [OF ok1 up] kept_quiet [OF announce_only_draws(1)]] unfolding s' .
      moreover have "replayed s'" if "replayed s1"
        using that r u Inr apps_of_same_store [OF st] au2 by (intro replayed_append [OF that, of s' r]) simp_all
      ultimately show ?thesis by (rule op_okI)
    qed
    with op1 show ?thesis by (rule op_ok_trans)
  qed
qed

end

subsection \<open>Creating and deleting\<close>

lemma insert_defaults_spec:
  assumes "ap_targets a = Some r" "insert_defaults fresh now a st = (a1, st1)"
  shows "st1 = st \<and> ap_targets a1 = Some r \<and> ap_slug a1 = ap_slug a \<and> ap_workspace_id a1 = ap_workspace_id a \<and>
    ap_system_managed a1 = ap_system_managed a \<and> ap_id a1 \<in> {ap_id a, fresh} \<and> (life_ok a \<longrightarrow> life_ok a1)"
  using assms by (auto simp: insert_defaults_def Let_def life_ok_def split: if_splits)

lemma targets_of_frame [simp]:
  "targets_of (st\<lparr>sm_apps := x\<rparr>) a = targets_of st a"
  "targets_of (st\<lparr>sm_by_slug := y\<rparr>) a = targets_of st a"
  "targets_of (st\<lparr>sm_apps := x, sm_by_slug := y\<rparr>) a = targets_of st a"
  by (auto simp: targets_of_def split: option.splits)

lemma store_ok_alloc:
  assumes "store_ok ids st"
  shows "store_ok ids (st\<lparr>sm_targets := sm_targets st @ [m]\<rparr>)"
proof -
  have "heap_ok (st\<lparr>sm_targets := sm_targets st @ [m]\<rparr>) b" if "heap_ok st b" for b
    using that by (auto simp: heap_ok_def nth_append)
  with assms show ?thesis unfolding store_ok_def by simp
qed

lemma store_new_app_spec:
  assumes ok: "svc_ok env s" and inj: "inj (ae_uuid env)"
    and slug: "CHR ''/'' \<notin> set (ci_slug i)" "managed \<longleftrightarrow> ci_slug i = unassigned_slug"
    and run: "store_new_app env c ws tenant i ref managed s = (res, s')"
  shows "svc_ok env s' \<and> frame_others k s s' \<and> kept env s s' \<and>
    (case res of Inl e \<Rightarrow> apps_of s' = apps_of s
     | Inr a \<Rightarrow> apps_of s' = (apps_of s)(ap_id a \<mapsto> a) \<and> apps_of s (ap_id a) = None \<and>
         ap_slug a = ci_slug i \<and> ap_workspace_id a = ws)"
proof -
  let ?n = "as_draws s" and ?st = "as_store s"
  let ?r = "length (sm_targets ?st)"
  let ?a = "fresh_app env c ws tenant i ref managed ?n (?n + 1) ?r"
  let ?grown = "?st\<lparr>sm_targets := sm_targets ?st @ [default_app_targets]\<rparr>"
  have st: "store_ok (used_ids env ?n) ?st" using ok by (simp add: svc_ok_def)
  have old: "apps_of s j = Some b \<Longrightarrow> targets_of ?grown b = targets_of ?st b" for j b
    using store_ok_app(6) [OF st, of j b] by (auto simp: apps_of_def heap_ok_def targets_of_def nth_append)
  obtain a1 st1 where d: "insert_defaults (ae_uuid env (?n + 2)) (ae_now env (?n + 3)) ?a ?grown = (a1, st1)" by fastforce
  have dspec: "st1 = ?grown \<and> ap_targets a1 = Some ?r \<and> ap_slug a1 = ci_slug i \<and> ap_workspace_id a1 = ws \<and>
    ap_system_managed a1 = managed \<and> ap_id a1 \<in> {ae_uuid env ?n, ae_uuid env (?n + 2)} \<and> life_ok a1"
    using insert_defaults_spec [OF _ d] by (simp add: fresh_app_def life_ok_def)
  show ?thesis
  proof (cases "map_of (sm_by_slug ?st) (slug_key ws (ci_slug i))")
    case (Some j)
    with run have res: "res = Inl ErrSlugConflict" and s': "s' = s\<lparr>as_draws := ?n + 4, as_store := ?grown\<rparr>"
      by (auto simp: store_new_app_def store_insert_def alloc_targets_def fresh_app_def Let_def)
    have "store_ok (used_ids env ?n) ?grown" using st by (rule store_ok_alloc)
    then have "svc_ok env s'"
      using store_ok_mono [OF _ used_ids_mono [of ?n "?n + 4"]] by (simp add: svc_ok_def s')
    with res old show ?thesis by (auto simp: s' frame_others_def kept_def apps_of_def)
  next
    case None
    from run None d dspec
    have res: "res = Inr a1"
      and s': "s' = s\<lparr>as_draws := ?n + 4, as_store :=
        \<lparr>sm_apps = AList.update (ap_id a1) a1 (sm_apps ?st),
         sm_by_slug = AList.update (slug_key (ap_workspace_id a1) (ap_slug a1)) (ap_id a1) (sm_by_slug ?st),
         sm_targets = sm_targets ?st @ [default_app_targets]\<rparr>\<rparr>"
      by (auto simp: store_new_app_def store_insert_def alloc_targets_def fresh_app_def Let_def)
    have new: "ap_id a1 \<notin> used_ids env ?n"
      using dspec inj_eq [OF inj] by (auto simp: used_ids_def)
    have ids: "insert (ap_id a1) (used_ids env ?n) \<subseteq> used_ids env (?n + 4)"
      using dspec by (auto simp: used_ids_def)
    have "CHR ''/'' \<notin> set (ap_slug a1)" "life_ok a1" "managed_slug a1" "ap_targets a1 = Some ?r"
      "map_of (sm_by_slug ?st) (slug_key (ap_workspace_id a1) (ap_slug a1)) = None"
      using dspec None slug by (simp_all add: managed_slug_def)
    note store_ok_mono [OF store_ok_insert [OF st new this] ids]
    then have "svc_ok env s'" by (simp add: svc_ok_def s')
    moreover have no: "apps_of s (ap_id a1) = None"
      using new store_ok_app(1) [OF st] by (cases "apps_of s (ap_id a1)") (auto simp: apps_of_def)
    moreover have "frame_others k s s'"
    proof -
      have "targets_of (as_store s') b = targets_of ?grown b" for b
        by (simp add: targets_of_def s' split: option.splits)
      with old no show ?thesis unfolding frame_others_def by (auto simp: s' apps_of_def store_simps)
    qed
    moreover have "apps_of s' = (apps_of s)(ap_id a1 \<mapsto> a1)"
      by (auto simp: s' apps_of_def update_conv')
    moreover from this have "kept env s s'"
      using new by (auto simp: kept_def s')
    ultimately show ?thesis using res dspec by simp
  qed
qed

lemma insert_app_ok:
  assumes ok: "svc_ok env s" and inj: "inj (ae_uuid env)"
    and slug: "CHR ''/'' \<notin> set (ci_slug i)" "managed \<longleftrightarrow> ci_slug i = unassigned_slug"
    and run: "insert_app env c ws tenant i managed s = (res, s')"
  shows "op_ok env k s s'"
proof -
  let ?ref = "if ci_design_system_ref i = [] then design_system_default_ref else ci_design_system_ref i"
  show ?thesis
  proof (cases "if managed then None else check_design_system env ?ref tenant")
    case (Some e)
    with run have "s' = s" by (simp add: insert_app_def Let_def)
    with ok show ?thesis by (simp add: op_ok_refl)
  next
    case None
    obtain r1 s1 where new: "store_new_app env c ws tenant i ?ref managed s = (r1, s1)" by fastforce
    note n = store_new_app_spec [OF ok inj slug new, of k]
    have au: "as_audit s1 = as_audit s" using new by (auto simp: store_new_app_def Let_def split: prod.splits)
    show ?thesis
    proof (cases r1)
      case (Inl e)
      with run None new have "s' = s1" by (simp add: insert_app_def Let_def)
      with n Inl au show ?thesis by (simp add: op_ok_def replayed_iff)
    next
      case (Inr a)
      let ?w = "write_tuples a ws s1"
      from run None new Inr have s': "s' = announce_created env c (managed \<or> ci_chosen_explicitly i) a ?w"
        by (simp add: insert_app_def Let_def)
      obtain r where r: "as_audit s' = as_audit ?w @ [r]" "ax_app_id r = ap_id a" "ax_after r = Some a" "ax_reason r = []"
        using announce_audit(2) unfolding s' by blast
      have st: "as_store s' = as_store s1" by (simp add: s')
      have "only_draws s1 s'" unfolding s' using announce_only_draws(2,3) by (metis only_draws_trans)
      with n have "svc_ok env s'" using only_draws_ok by blast
      moreover have "frame_others k s s'"
        using frame_trans [OF conjunct1 [OF conjunct2 [OF n]] frame_same_store [OF st]] .
      moreover have "kept env s s'"
        using n kept_trans [OF _ kept_quiet [OF \<open>only_draws s1 s'\<close>]] by blast
      moreover have "replayed s'" if "replayed s"
        using r n Inr apps_of_same_store [OF st] au by (intro replayed_append [OF that, of s' r]) simp_all
      ultimately show ?thesis by (rule op_okI)
    qed
  qed
qed

lemma create_app_ok:
  assumes "svc_ok env s" "inj (ae_uuid env)" "create_app env c ws i s = (res, s')"
  shows "op_ok env k s s'"
proof -
  obtain r s1 where au: "authorize env c ''editor'' (''workspace:'' @ ws) s = (r, s1)" by fastforce
  note op1 = authorize_op_ok [OF au assms(1), of k]
  show ?thesis
  proof (cases "s' = s \<or> s' = s1")
    case True
    with op1 assms(1) show ?thesis by (auto intro: op_ok_refl)
  next
    case False
    with assms(3) au obtain tenant where ins: "insert_app env c ws tenant i False s1 = (res, s')"
      and slug: "slug_pattern (ci_slug i)" "\<not> is_reserved_slug (ci_slug i)"
      by (auto simp: create_app_def validate_slug_def split: if_splits option.splits sum.splits)
    have "ci_slug i \<noteq> unassigned_slug" using slug(2) by (auto simp: is_reserved_slug_def unassigned_slug_def has_prefix_def)
    moreover have "svc_ok env s1" using op1 by (simp add: op_ok_def)
    ultimately have "op_ok env k s1 s'"
      using slug_pattern_no_slash [OF slug(1)] by (intro insert_app_ok [OF _ assms(2) _ _ ins]) simp_all
    with op1 show ?thesis by (rule op_ok_trans)
  qed
qed

lemma on_workspace_created_ok:
  assumes "svc_ok env s" "inj (ae_uuid env)" "on_workspace_created env ws tenant s = (res, s')"
  shows "op_ok env k s s'"
proof (cases "s' = s")
  case True
  with assms(1) show ?thesis by (simp add: op_ok_refl)
next
  case False
  with assms(3) obtain c where "insert_app env c ws tenant unassigned_input True s = (res, s')"
    by (auto simp: on_workspace_created_def create_unassigned_def split: if_splits sum.splits)
  then show ?thesis
    by (rule insert_app_ok [OF assms(1,2), rotated -1]) (simp_all add: unassigned_input_def unassigned_slug_def)
qed

lemma editable_spec:
  "editable i s = Inr a \<Longrightarrow> apps_of s i = Some a \<and> \<not> ap_system_managed a \<and> ap_slug a \<noteq> unassigned_slug"
  by (auto simp: editable_def apps_of_def dest: store_get_Inr split: sum.splits if_splits)

lemma delete_app_ok:
  assumes ok: "svc_ok env s" and run: "delete_app env c i s = (res, s')"
  shows "op_ok env i s s'"
proof -
  obtain r s1 where au: "authorize env c ''can_admin'' (''app:'' @ i) s = (r, s1)" by fastforce
  let ?paid = "s1\<lparr>as_draws := Suc (as_draws s1)\<rparr>"
  note op1 = authorize_op_ok [OF au ok, of i]
  have op2: "op_ok env i s ?paid"
    using op1 by (intro op_ok_trans [OF op1] op_ok_quiet) (auto simp: only_draws_def op_ok_def)
  show ?thesis
  proof (cases "s' = s \<or> s' = s1 \<or> s' = ?paid")
    case True
    with op1 op2 ok show ?thesis by (auto intro: op_ok_refl)
  next
    case False
    with run au obtain a d st where a: "editable i s = Inr a" and del: "store_delete i (as_store ?paid) = (Inr d, st)"
      and s': "s' = announce_app env ''app.deleted.v1'' ''deleted'' d c (Some a) None (?paid\<lparr>as_store := st\<rparr>)"
      by (auto simp: delete_app_def app_draw_def Let_def split: sum.splits option.splits if_splits prod.splits)
    have same: "as_store ?paid = as_store s" using authorize_store [OF au] by simp
    have own: "map_of (sm_apps (as_store s)) i = Some a" using editable_spec [OF a] by (simp add: apps_of_def)
    from del same own have d: "d = a\<lparr>ap_lifecycle := LifecycleDeleted\<rparr>"
      and st: "st = (as_store s)\<lparr>sm_apps := AList.delete i (sm_apps (as_store s)),
        sm_by_slug := AList.delete (slug_key (ap_workspace_id a) (ap_slug a)) (sm_by_slug (as_store s))\<rparr>"
      by (auto simp: store_delete_def)
    have sok: "store_ok (used_ids env (as_draws s)) (as_store s)" using ok by (simp add: svc_ok_def)
    have id: "ap_id d = i" using store_ok_app(2) [OF sok own] by (simp add: d)
    have "as_draws s \<le> as_draws s1"
      using authorize_only_draws [of s env c "''can_admin''" "''app:'' @ i"] au by (simp add: only_draws_def)
    moreover have "as_draws ?paid \<le> as_draws s'"
      using announce_only_draws(1) [of "?paid\<lparr>as_store := st\<rparr>"] by (simp add: only_draws_def s')
    ultimately have "as_draws s \<le> as_draws s'" by simp
    then have "svc_ok env s'"
      using store_ok_mono [OF store_ok_delete [OF sok own] used_ids_mono] by (simp add: svc_ok_def s' st)
    moreover have apps: "apps_of s' = (apps_of s)(i := None)"
      by (auto simp: s' st apps_of_def delete_conv')
    moreover have "frame_others i s s'"
      by (auto simp: frame_others_def apps s' st) (simp_all add: apps_of_def)
    moreover have "kept env s s'"
      using \<open>as_draws s \<le> as_draws s'\<close> by (simp add: kept_def apps)
    moreover have "replayed s'" if "replayed s"
    proof -
      obtain r where r: "as_audit s' = as_audit (?paid\<lparr>as_store := st\<rparr>) @ [r]" "ax_app_id r = ap_id d" "ax_after r = None" "ax_reason r = []"
        using announce_audit(1) unfolding s' by blast
      show ?thesis using r id apps authorize_audit [OF au] by (intro replayed_append [OF that, of s' r]) simp_all
    qed
    ultimately show ?thesis by (intro op_okI) simp_all
  qed
qed


end
