(* ===== verification/App_Flow.thy ===== *)
theory App_Flow
  imports App_Invariants
begin

text \<open>
  What the application service guarantees in every reachable state: slugs are unique in a workspace,
  targets are complete, system-managed applications never change, changes are authorized and
  audited, and an application has at most one open pull request. The last sections are about the
  patch that rewrites its own history and the migration.
\<close>

section \<open>The design system operations\<close>

lemma announce_design_service:
  "dg_service (announce_design ty reason a c before after evidence now d) =
     audit_app ''updated'' a c reason before after evidence now (publish_app ty a c before after [] now (dg_service d))"
  "dg_prs (announce_design ty reason a c before after evidence now d) = dg_prs d"
  "dg_opened (announce_design ty reason a c before after evidence now d) = dg_opened d"
  by (simp_all add: announce_design_def)

lemma announce_design_audit:
  "\<exists>r. as_audit (dg_service (announce_design ty reason a c before after evidence now d)) =
      as_audit (dg_service d) @ [r] \<and> ax_app_id r = ap_id a \<and> ax_after r = after \<and> ax_reason r = reason"
  unfolding announce_design_service audit_app_def publish_app_def
  by (rule exI, intro conjI, simp, simp_all)

lemma announce_design_only_draws:
  "only_draws (dg_service d) (dg_service (announce_design ty reason a c before after evidence now d))"
  unfolding announce_design_service by (rule only_draws_trans [OF announce_only_draws(4) announce_only_draws(5)])

context app_change begin

text \<open>An update, some draws, and the announcement.\<close>

lemma updated_design_ok:
  assumes ok: "svc_ok env s" and up: "update_app env i change s = (Inr a, s1)"
    and mid: "only_draws s1 (dg_service d)" "as_audit (dg_service d) = as_audit s1"
    and reason: "reason \<noteq> ''design_system_swap_requested''"
  shows "op_ok env i s (dg_service (announce_design ty reason a c before (Some a) evidence now d))" (is "op_ok env i s ?s'")
proof -
  note u = update_app_spec [OF ok up]
  have od: "only_draws s1 ?s'" using mid(1) announce_design_only_draws by (rule only_draws_trans)
  then have st: "as_store ?s' = as_store s1" by (simp add: only_draws_def)
  obtain r where r: "as_audit ?s' = as_audit s1 @ [r]" "ax_app_id r = ap_id a" "ax_after r = Some a" "ax_reason r = reason"
    using announce_design_audit [of ty reason a c before "Some a" evidence now d] mid(2) by auto
  show ?thesis
  proof (rule op_okI)
    show "svc_ok env ?s'" using only_draws_ok [OF od] u by blast
    show "frame_others i s ?s'" using frame_trans [OF conjunct1 [OF conjunct2 [OF u]] frame_same_store [OF st]] .
    show "kept env s ?s'" using kept_trans [OF update_app_kept [OF ok up] kept_quiet [OF od]] .
    show "replayed ?s'" if "replayed s"
      using r u reason apps_of_same_store [OF st] update_app_audit [OF up]
      by (intro replayed_append [OF that, of ?s' r]) simp_all
  qed
qed

lemma update_failed_ok:
  assumes "svc_ok env s" "update_app env i change s = (Inl e, s1)"
  shows "op_ok env i s s1"
  using update_app_spec [OF assms] update_app_kept [OF assms] update_app_audit [OF assms(2)]
  by (simp add: op_ok_def replayed_iff)

lemma change_design_ok:
  assumes ok: "svc_ok (de_app env) (dg_service d)"
    and run: "change_design env c i before ty reason evidence change d = (res, d')"
    and reason: "reason \<noteq> ''design_system_swap_requested''"
  shows "op_ok (de_app env) i (dg_service d) (dg_service d') \<and> dg_prs d' = dg_prs d \<and> dg_opened d' = dg_opened d"
proof -
  obtain r s1 where up: "update_app (de_app env) i change (dg_service d) = (r, s1)" by fastforce
  show ?thesis
  proof (cases r)
    case (Inl e)
    with run up have "d' = d\<lparr>dg_service := s1\<rparr>" by (simp add: change_design_def)
    with update_failed_ok [OF ok up [unfolded Inl]] show ?thesis by simp
  next
    case (Inr a)
    with run up have d': "d' = announce_design ty reason a c (Some before) (Some a) evidence
        (ae_now (de_app env) (as_draws s1)) (d\<lparr>dg_service := s1\<lparr>as_draws := Suc (as_draws s1)\<rparr>\<rparr>)"
      by (simp add: change_design_def app_draw_def)
    show ?thesis unfolding d' announce_design_service(2,3)
      using updated_design_ok [OF ok up [unfolded Inr] _ _ reason,
          of "d\<lparr>dg_service := s1\<lparr>as_draws := Suc (as_draws s1)\<rparr>\<rparr>"]
      by (simp add: only_draws_def)
  qed
qed

end

text \<open>Pull requests name applications that no person manages through the system.\<close>

definition prs_ok :: "app_env \<Rightarrow> design_service \<Rightarrow> bool" where
  "prs_ok env d \<longleftrightarrow>
     (\<forall>r \<in> set (dg_prs d). dp_app_id r \<in> used_ids env (as_draws (dg_service d)) \<and>
        (\<forall>a. apps_of (dg_service d) (dp_app_id r) = Some a \<longrightarrow> \<not> ap_system_managed a))"

lemma prs_ok_kept:
  assumes "prs_ok env d" "kept env (dg_service d) (dg_service d')"
    and "dp_app_id ` set (dg_prs d') \<subseteq> dp_app_id ` set (dg_prs d)"
  shows "prs_ok env d'"
  unfolding prs_ok_def
proof (intro ballI conjI allI impI)
  fix r assume "r \<in> set (dg_prs d')"
  then obtain q where q: "q \<in> set (dg_prs d)" "dp_app_id r = dp_app_id q" using assms(3) by force
  with assms(1) have u: "dp_app_id r \<in> used_ids env (as_draws (dg_service d))"
    and m: "\<And>a. apps_of (dg_service d) (dp_app_id r) = Some a \<Longrightarrow> \<not> ap_system_managed a"
    by (auto simp: prs_ok_def)
  then show "dp_app_id r \<in> used_ids env (as_draws (dg_service d'))"
    using assms(2) used_ids_mono [of "as_draws (dg_service d)" "as_draws (dg_service d')" env]
    unfolding kept_def by blast
  fix a assume "apps_of (dg_service d') (dp_app_id r) = Some a"
  with assms(2) u obtain b where "apps_of (dg_service d) (dp_app_id r) = Some b" "identity a = identity b"
    unfolding kept_def by blast
  with m show "\<not> ap_system_managed a" by (auto simp: identity_eq)
qed

lemma mark_superseded_apps [simp]: "map dp_app_id (mark_superseded now i url rs) = map dp_app_id rs"
  by (simp add: mark_superseded_def o_def if_distrib cong: if_cong)

lemma mark_merged_apps: "mark_merged now url rs = Some qs \<Longrightarrow> map dp_app_id qs = map dp_app_id rs"
  by (induction rs arbitrary: qs) (auto split: if_splits)

text \<open>What the operations of the design service owe, beside the pull requests of other
  applications.\<close>

definition dop_ok :: "design_env \<Rightarrow> string \<Rightarrow> design_service \<Rightarrow> design_service \<Rightarrow> bool" where
  "dop_ok env i d d' \<longleftrightarrow> op_ok (de_app env) i (dg_service d) (dg_service d') \<and> (prs_ok (de_app env) d \<longrightarrow> prs_ok (de_app env) d')"

lemma dop_ok_same_prs:
  "op_ok (de_app env) i (dg_service d) (dg_service d') \<Longrightarrow> dg_prs d' = dg_prs d \<Longrightarrow> dop_ok env i d d'"
  unfolding dop_ok_def op_ok_def by (auto intro: prs_ok_kept)

lemma patch_overrides_ok:
  assumes ok: "svc_ok (de_app env) (dg_service d)" and run: "patch_overrides env c i ovs d = (res, d')"
  shows "dop_ok env i d d' \<and> dg_prs d' = dg_prs d"
proof -
  obtain r s1 where au: "authorize (de_app env) c ''owner'' (''app:'' @ i) (dg_service d) = (r, s1)" by fastforce
  note op1 = authorize_op_ok [OF au ok, of i]
  show ?thesis
  proof (cases "d' = d \<or> d' = d\<lparr>dg_service := s1\<rparr>")
    case True
    with op1 op_ok_refl [OF ok] show ?thesis by (auto intro: dop_ok_same_prs)
  next
    case False
    with run au obtain a where ch: "change_design env c i a ''app.design_system.override_changed.v1''
        ''design_system_overrides_patched'' [] (overrides_change c ovs) (d\<lparr>dg_service := s1\<rparr>) = (res, d')"
      by (auto simp: patch_overrides_def Let_def split: sum.splits option.splits)
    have "svc_ok (de_app env) (dg_service (d\<lparr>dg_service := s1\<rparr>))" using op1 by (simp add: op_ok_def)
    from overrides.change_design_ok [OF this ch] op1 show ?thesis
      by (auto intro!: dop_ok_same_prs intro: op_ok_trans)
  qed
qed

lemma handle_swap_merged_ok:
  assumes ok: "svc_ok (de_app env) (dg_service d)" and prs: "prs_ok (de_app env) d"
    and run: "handle_swap_merged env c url d = (res, d')"
  shows "d' = d \<or> (\<exists>i. dop_ok env i d d' \<and> (\<forall>a. apps_of (dg_service d) i = Some a \<longrightarrow> \<not> ap_system_managed a))"
proof (cases "d' = d")
  case False
  with run obtain pr where pr: "get_by_pr_url url (dg_prs d) = Inr pr" "dp_status pr = ''open''"
    by (auto simp: handle_swap_merged_def split: sum.splits if_splits)
  let ?i = "dp_app_id pr"
  obtain r s1 where up: "update_app (de_app env) ?i (merged_change c (dp_target_ref pr)) (dg_service d) = (r, s1)" by fastforce
  have "pr \<in> set (dg_prs d)"
    using pr(1) by (auto simp: get_by_pr_url_def dest: find_SomeD split: option.splits)
  with prs have free: "\<forall>a. apps_of (dg_service d) ?i = Some a \<longrightarrow> \<not> ap_system_managed a" by (auto simp: prs_ok_def)
  have "dop_ok env ?i d d'"
  proof (cases r)
    case (Inl e)
    with run pr up False have "d' = d\<lparr>dg_service := s1\<rparr>"
      by (auto simp: handle_swap_merged_def split: sum.splits)
    with merged.update_failed_ok [OF ok up [unfolded Inl]] show ?thesis by (auto intro: dop_ok_same_prs)
  next
    case (Inr a)
    let ?n = "as_draws s1"
    let ?rows = "case mark_merged (ae_now (de_app env) ?n) url (dg_prs d) of None \<Rightarrow> dg_prs d | Some rs \<Rightarrow> rs"
    let ?mid = "d\<lparr>dg_service := s1\<lparr>as_draws := ?n + 2\<rparr>, dg_prs := ?rows\<rparr>"
    from run pr up Inr False obtain before ev where d': "d' = announce_design ''app.design_system.changed.v1''
        ''design_system_swap_merged'' a c (Some before) (Some a) ev (ae_now (de_app env) (Suc ?n)) ?mid"
      by (auto simp: handle_swap_merged_def Let_def split: sum.splits)
    have "op_ok (de_app env) ?i (dg_service d) (dg_service d')" unfolding d'
      by (rule merged.updated_design_ok [OF ok up [unfolded Inr]]) (simp_all add: only_draws_def)
    moreover have "map dp_app_id (dg_prs d') = map dp_app_id (dg_prs d)"
      by (auto simp: d' announce_design_service mark_merged_apps split: option.splits)
    then have "dp_app_id ` set (dg_prs d') \<subseteq> dp_app_id ` set (dg_prs d)" by (metis list.set_map order_refl)
    ultimately show ?thesis unfolding dop_ok_def op_ok_def by (auto intro: prs_ok_kept)
  qed
  with free show ?thesis by blast
qed simp

lemma swap_design_ok:
  assumes ok: "svc_ok (de_app env) (dg_service d)" and run: "swap_design env c i target reason d = (res, d')"
  shows "dop_ok env i d d'"
proof -
  obtain r s1 where au: "authorize (de_app env) c ''owner'' (''app:'' @ i) (dg_service d) = (r, s1)" by fastforce
  note op1 = authorize_op_ok [OF au ok, of i]
  let ?d1 = "d\<lparr>dg_service := s1\<rparr>"
  show ?thesis
  proof (cases "dg_prs d' = dg_prs d \<and> (dg_service d' = dg_service d \<or> dg_service d' = s1)")
    case True
    with op1 op_ok_refl [OF ok] show ?thesis by (auto intro: dop_ok_same_prs)
  next
    case False
    let ?n = "as_draws s1"
    let ?now = "ae_now (de_app env) ?n"
    from False run au obtain a url ev req where a: "editable i (dg_service d) = Inr a"
      and d': "d' = announce_design ''app.design_system.swap_requested.v1'' ''design_system_swap_requested'' a c
          (Some a) None ev ?now (record_swap c a target reason url ?now (ae_now (de_app env) (Suc ?n))
            (?d1\<lparr>dg_opened := dg_opened d @ [req], dg_service := s1\<lparr>as_draws := ?n + 2\<rparr>\<rparr>))"
      by (auto simp: swap_design_def Let_def split: sum.splits option.splits if_splits)
    have st: "as_store (dg_service d') = as_store (dg_service d)"
      using authorize_store [OF au] by (simp add: d' announce_design_service record_swap_def)
    have draws: "as_draws (dg_service d) \<le> as_draws (dg_service d')"
      using authorize_only_draws [of "dg_service d" "de_app env" c "''owner''" "''app:'' @ i"] au
      by (simp add: d' announce_design_service record_swap_def only_draws_def audit_app_def publish_app_def)
    then have od: "only_draws (dg_service d) (dg_service d')" using st by (simp add: only_draws_def)
    obtain r where r: "as_audit (dg_service d') = as_audit (dg_service d) @ [r]" "ax_reason r = ''design_system_swap_requested''"
      using authorize_audit [OF au]
      by (auto simp: d' announce_design_service record_swap_def audit_app_def publish_app_def)
    have "op_ok (de_app env) i (dg_service d) (dg_service d')"
    proof (rule op_okI)
      show "svc_ok (de_app env) (dg_service d')" using od ok by (rule only_draws_ok)
      show "frame_others i (dg_service d) (dg_service d')" using st by (rule frame_same_store)
      show "kept (de_app env) (dg_service d) (dg_service d')" using od by (rule kept_quiet)
      show "replayed (dg_service d')" if "replayed (dg_service d)"
        using that r apps_of_same_store [OF st] by (simp add: replayed_iff replay_def)
    qed
    moreover have "prs_ok (de_app env) d'" if "prs_ok (de_app env) d"
    proof -
      have own: "apps_of (dg_service d) i = Some a" "\<not> ap_system_managed a" using editable_spec [OF a] by simp_all
      with ok have id: "ap_id a = i" "i \<in> used_ids (de_app env) (as_draws (dg_service d))"
        unfolding svc_ok_def apps_of_def by (auto dest: store_ok_app)
      let ?q = "d\<lparr>dg_prs := dg_prs d @ [swap_row c a target reason url ?now]\<rparr>"
      have "prs_ok (de_app env) ?q" using that own id by (auto simp: prs_ok_def swap_row_def)
      moreover have "map dp_app_id (dg_prs d') = map dp_app_id (dg_prs ?q)"
        by (simp add: d' announce_design_service record_swap_def)
      then have "dp_app_id ` set (dg_prs d') \<subseteq> dp_app_id ` set (dg_prs ?q)" by (metis list.set_map order_refl)
      moreover have "kept (de_app env) (dg_service ?q) (dg_service d')" using kept_quiet [OF od] by simp
      ultimately show ?thesis by (blast intro: prs_ok_kept)
    qed
    ultimately show ?thesis by (simp add: dop_ok_def)
  qed
qed

section \<open>The machine\<close>

datatype app_op =
    OpWorkspace string string
  | OpCreate caller string create_input
  | OpGet caller string
  | OpList caller string bool
  | OpPatch caller string patch_input
  | OpArchive caller string
  | OpRestore caller string
  | OpDelete caller string
  | OpSwap caller string string string
  | OpOverrides caller string "(string \<times> string) list"
  | OpWebhook string string string "pr_notification option"

definition on_service :: "(app_service \<Rightarrow> 'a \<times> app_service) \<Rightarrow> design_service \<Rightarrow> design_service" where
  "on_service f d = d\<lparr>dg_service := snd (f (dg_service d))\<rparr>"

fun app_step :: "design_env \<Rightarrow> app_op \<Rightarrow> design_service \<Rightarrow> design_service" where
  "app_step env (OpWorkspace ws tenant) d = on_service (on_workspace_created (de_app env) ws tenant) d"
| "app_step env (OpCreate c ws i) d = on_service (create_app (de_app env) c ws i) d"
| "app_step env (OpGet c i) d = on_service (get_app (de_app env) c i) d"
| "app_step env (OpList c ws archived) d = on_service (list_apps (de_app env) c ws archived) d"
| "app_step env (OpPatch c i inp) d = on_service (patch_app (de_app env) c i inp) d"
| "app_step env (OpArchive c i) d = on_service (archive_app (de_app env) c i) d"
| "app_step env (OpRestore c i) d = on_service (restore_app (de_app env) c i) d"
| "app_step env (OpDelete c i) d = on_service (delete_app (de_app env) c i) d"
| "app_step env (OpSwap c i target reason) d = snd (swap_design env c i target reason d)"
| "app_step env (OpOverrides c i ovs) d = snd (patch_overrides env c i ovs d)"
| "app_step env (OpWebhook verb prin corr ev) d = snd (design_webhook env verb prin corr ev d)"

definition app_inv :: "design_env \<Rightarrow> design_service \<Rightarrow> bool" where
  "app_inv env d \<longleftrightarrow> svc_ok (de_app env) (dg_service d) \<and> replayed (dg_service d) \<and> prs_ok (de_app env) d"

lemma app_inv_new: "app_inv env new_design_service"
  by (simp add: app_inv_def svc_ok_def replayed_def prs_ok_def new_design_service_def new_app_service_def
      store_ok_new) (simp add: new_app_store_def)

lemma get_app_op_ok: "svc_ok env s \<Longrightarrow> op_ok env i s (snd (get_app env c j s))"
  using authorize_op_ok [of env c _ _ s]
  by (auto simp: get_app_def op_ok_refl split: sum.splits prod.splits option.splits)

lemma list_apps_op_ok: "svc_ok env s \<Longrightarrow> op_ok env i s (snd (list_apps env c ws archived s))"
  using authorize_op_ok [of env c _ _ s]
  by (auto simp: list_apps_def split: prod.splits option.splits)

lemma fresh_id_unused:
  assumes "inj (ae_uuid env)" "svc_ok env s"
  shows "apps_of s (ae_uuid env (as_draws s)) = None"
proof -
  have "ae_uuid env (as_draws s) \<notin> used_ids env (as_draws s)"
    using assms(1) by (auto simp: used_ids_def dest: injD)
  then show ?thesis using assms(2) unfolding svc_ok_def apps_of_def
    by (cases "map_of (sm_apps (as_store s)) (ae_uuid env (as_draws s))") (auto dest: store_ok_app(1))
qed

text \<open>Which application an operation names.\<close>

fun op_target :: "app_op \<Rightarrow> string option" where
  "op_target (OpPatch c i inp) = Some i"
| "op_target (OpArchive c i) = Some i"
| "op_target (OpRestore c i) = Some i"
| "op_target (OpDelete c i) = Some i"
| "op_target (OpSwap c i target reason) = Some i"
| "op_target (OpOverrides c i ovs) = Some i"
| "op_target _ = None"

lemma edit_ops_ok:
  assumes "svc_ok env s"
  shows "op_ok env i s (snd (patch_app env c i inp s))"
    and "op_ok env i s (snd (archive_app env c i s))"
    and "op_ok env i s (snd (restore_app env c i s))"
proof -
  show "op_ok env i s (snd (patch_app env c i inp s))"
  proof (cases "editable i s")
    case (Inl e)
    then show ?thesis using assms by (simp add: patch_app_def op_ok_refl)
  next
    case (Inr a)
    obtain r s' where "change_app env c i a ''app.updated.v1'' ''updated'' (patch_change env c (ap_system_managed a) inp) s = (r, s')"
      by fastforce
    with patch.change_app_ok [OF assms this] Inr show ?thesis by (simp add: patch_app_def)
  qed
  show "op_ok env i s (snd (archive_app env c i s))"
  proof (cases "editable i s")
    case (Inl e)
    then show ?thesis using assms by (simp add: archive_app_def op_ok_refl)
  next
    case (Inr a)
    obtain r s' where "change_app env c i a ''app.archived.v1'' ''archived'' (archive_change c) s = (r, s')" by fastforce
    with archive.change_app_ok [OF assms this] Inr assms show ?thesis by (simp add: archive_app_def op_ok_refl)
  qed
  show "op_ok env i s (snd (restore_app env c i s))"
  proof (cases "editable i s")
    case (Inl e)
    then show ?thesis using assms by (simp add: restore_app_def op_ok_refl)
  next
    case (Inr a)
    obtain r s' where "change_app env c i a ''app.restored.v1'' ''restored'' (restore_change c) s = (r, s')" by fastforce
    with restore.change_app_ok [OF assms this] Inr assms show ?thesis by (simp add: restore_app_def op_ok_refl)
  qed
qed

lemma named_op_ok:
  assumes "svc_ok (de_app env) (dg_service d)" "op_target op = Some i"
  shows "dop_ok env i d (app_step env op d)"
  using assms
proof (cases op)
  case (OpDelete c j)
  obtain r s' where "delete_app (de_app env) c j (dg_service d) = (r, s')" by fastforce
  from delete_app_ok [OF assms(1) this] OpDelete assms(2) this show ?thesis
    by (auto simp: on_service_def intro: dop_ok_same_prs)
next
  case (OpSwap c j target reason)
  obtain r d' where "swap_design env c j target reason d = (r, d')" by fastforce
  from swap_design_ok [OF assms(1) this] OpSwap assms(2) this show ?thesis by simp
next
  case (OpOverrides c j ovs)
  obtain r d' where "patch_overrides env c j ovs d = (r, d')" by fastforce
  from patch_overrides_ok [OF assms(1) this] OpOverrides assms(2) this show ?thesis by simp
qed (auto simp: on_service_def intro!: dop_ok_same_prs edit_ops_ok)

lemma caller_from_request_op_ok:
  "svc_ok env s \<Longrightarrow> caller_from_request env prin corr s = (c, s1) \<Longrightarrow> op_ok env i s s1"
  by (auto simp: caller_from_request_def app_draw_def only_draws_def Let_def
      intro!: op_ok_quiet split: if_splits)

lemma webhook_cases:
  assumes "caller_from_request (de_app env) prin corr (dg_service d) = (c, s1)"
  shows "snd (design_webhook env verb prin corr ev d) = d \<or>
    (\<exists>c' url. snd (design_webhook env verb prin corr ev d) = snd (handle_swap_merged env c' url (d\<lparr>dg_service := s1\<rparr>)))"
proof -
  have status: "snd (case h of (Inl e, d2) \<Rightarrow> (f e, d2) | (Inr None, d2) \<Rightarrow> (x, d2) | (Inr (Some a), d2) \<Rightarrow> (y, d2)) = snd h"
    for h :: "(app_error + app option) \<times> design_service" and f :: "app_error \<Rightarrow> int" and x y
    by (auto split: prod.splits sum.splits option.splits)
  show ?thesis
  proof (cases ev)
    case None
    then show ?thesis by (simp add: design_webhook_def)
  next
    case (Some p)
    show ?thesis
    proof (cases "verb \<noteq> ''POST'' \<or> pn_action p \<noteq> ''closed'' \<or> \<not> pn_merged p \<or> pn_url p = []")
      case True
      with Some show ?thesis by (auto simp: design_webhook_def)
    next
      case False
      with Some assms show ?thesis
        by (intro disjI2 exI) (simp add: design_webhook_def Let_def status del: prod.case_eq_if)
    qed
  qed
qed

lemma dop_ok_trans: "dop_ok env i d t \<Longrightarrow> dop_ok env i t u \<Longrightarrow> dop_ok env i d u"
  unfolding dop_ok_def using op_ok_trans by blast

lemma app_step_ok:
  assumes inj: "inj (ae_uuid (de_app env))" and inv: "app_inv env d"
  shows "\<exists>i. dop_ok env i d (app_step env op d) \<and>
    (op_target op = None \<longrightarrow> (\<forall>a. apps_of (dg_service d) i = Some a \<longrightarrow> \<not> ap_system_managed a))"
proof -
  let ?env = "de_app env" and ?s = "dg_service d"
  let ?k = "ae_uuid ?env (as_draws ?s)"
  have ok: "svc_ok ?env ?s" and prs: "prs_ok ?env d" using inv by (simp_all add: app_inv_def)
  note none = fresh_id_unused [OF inj ok]
  show ?thesis
  proof (cases "op_target op")
    case (Some i)
    with named_op_ok [OF ok this] show ?thesis by auto
  next
    case None
    have fresh: ?thesis if "dop_ok env ?k d (app_step env op d)" using that none by auto
    show ?thesis
    proof (cases op)
      case (OpWorkspace ws tenant)
      obtain r s' where "on_workspace_created ?env ws tenant ?s = (r, s')" by fastforce
      with on_workspace_created_ok [OF ok inj this] OpWorkspace show ?thesis
        by (intro fresh dop_ok_same_prs) (simp_all add: on_service_def)
    next
      case (OpCreate c ws i)
      obtain r s' where "create_app ?env c ws i ?s = (r, s')" by fastforce
      with create_app_ok [OF ok inj this] OpCreate show ?thesis
        by (intro fresh dop_ok_same_prs) (simp_all add: on_service_def)
    next
      case (OpWebhook verb prin corr ev)
      obtain c s1 where cr: "caller_from_request ?env prin corr ?s = (c, s1)" by fastforce
      let ?d1 = "d\<lparr>dg_service := s1\<rparr>"
      have ok1: "op_ok ?env i ?s s1" for i using caller_from_request_op_ok [OF ok cr] .
      then have d1: "dop_ok env i d ?d1" for i by (auto intro: dop_ok_same_prs)
      have same: "apps_of s1 = apps_of ?s"
        using cr by (auto simp: caller_from_request_def app_draw_def apps_of_def Let_def split: if_splits)
      have "svc_ok ?env s1" using ok1 by (simp add: op_ok_def)
      moreover have "prs_ok ?env ?d1" using d1 prs by (auto simp: dop_ok_def)
      moreover obtain url c' where "app_step env op d = d \<or> app_step env op d = snd (handle_swap_merged env c' url ?d1)"
        using webhook_cases [OF cr, of verb ev] OpWebhook by auto
      moreover obtain r d2 where "handle_swap_merged env c' url ?d1 = (r, d2)" by fastforce
      ultimately have "app_step env op d = d \<or> (app_step env op d = ?d1) \<or>
          (\<exists>i. dop_ok env i ?d1 (app_step env op d) \<and> (\<forall>a. apps_of s1 i = Some a \<longrightarrow> \<not> ap_system_managed a))"
        using handle_swap_merged_ok [of env ?d1 c' url r d2] by auto
      then show ?thesis
      proof (elim disjE exE conjE)
        assume "app_step env op d = d"
        then show ?thesis using op_ok_refl [OF ok] by (intro fresh) (auto intro: dop_ok_same_prs)
      next
        assume "app_step env op d = ?d1"
        then show ?thesis using d1 by (intro fresh) simp
      next
        fix i assume "dop_ok env i ?d1 (app_step env op d)" "\<forall>a. apps_of s1 i = Some a \<longrightarrow> \<not> ap_system_managed a"
        then show ?thesis using dop_ok_trans [OF d1] same by auto
      qed
    next
      case (OpGet c i)
      show ?thesis using get_app_op_ok [OF ok] OpGet
        by (intro fresh dop_ok_same_prs) (simp_all add: on_service_def)
    next
      case (OpList c ws archived)
      show ?thesis using list_apps_op_ok [OF ok] OpList
        by (intro fresh dop_ok_same_prs) (simp_all add: on_service_def)
    qed (use None in simp_all)
  qed
qed

text \<open>System-managed applications are kept, and so is what they refer to.\<close>

definition managed_kept :: "design_env \<Rightarrow> design_service \<Rightarrow> design_service \<Rightarrow> bool" where
  "managed_kept env d d' \<longleftrightarrow>
     (\<forall>i a. apps_of (dg_service d) i = Some a \<longrightarrow> ap_system_managed a \<longrightarrow>
        apps_of (dg_service d') i = Some a \<and>
        targets_of (as_store (dg_service d')) a = targets_of (as_store (dg_service d)) a)"

lemma op_target_unmanaged:
  assumes "svc_ok (de_app env) (dg_service d)" "op_target op = Some i" "apps_of (dg_service d) i = Some a" "ap_system_managed a"
  shows "as_store (dg_service (app_step env op d)) = as_store (dg_service d)"
proof -
  have "editable i (dg_service d) = Inl ErrSystemManaged"
    using assms by (auto simp: editable_def store_get_ok svc_ok_def apps_of_def)
  then show ?thesis using assms(2)
    by (cases op) (auto simp: on_service_def patch_app_def archive_app_def restore_app_def delete_app_def
        swap_design_def patch_overrides_def)
qed

lemma app_step_managed:
  assumes inj: "inj (ae_uuid (de_app env))" and inv: "app_inv env d"
  shows "managed_kept env d (app_step env op d)"
proof -
  have ok: "svc_ok (de_app env) (dg_service d)" using inv by (simp add: app_inv_def)
  from app_step_ok [OF inj inv] obtain i where i: "dop_ok env i d (app_step env op d)"
    "op_target op = None \<longrightarrow> (\<forall>a. apps_of (dg_service d) i = Some a \<longrightarrow> \<not> ap_system_managed a)" by blast
  show ?thesis unfolding managed_kept_def
  proof (intro allI impI)
    fix j a assume a: "apps_of (dg_service d) j = Some a" "ap_system_managed a"
    show "apps_of (dg_service (app_step env op d)) j = Some a \<and>
        targets_of (as_store (dg_service (app_step env op d))) a = targets_of (as_store (dg_service d)) a"
    proof (cases "op_target op")
      case None
      with i a have "j \<noteq> i" by auto
      with i(1) a show ?thesis by (auto simp: dop_ok_def op_ok_def frame_others_def)
    next
      case (Some k)
      show ?thesis
      proof (cases "k = j")
        case True
        with op_target_unmanaged [OF ok Some] a show ?thesis by (simp add: apps_of_def)
      next
        case False
        with named_op_ok [OF ok Some] a show ?thesis by (auto simp: dop_ok_def op_ok_def frame_others_def)
      qed
    qed
  qed
qed

lemma managed_kept_trans: "managed_kept env d t \<Longrightarrow> managed_kept env t u \<Longrightarrow> managed_kept env d u"
  unfolding managed_kept_def by metis

interpretation application: monotone_machine "app_step env" "\<lambda>d. inj (ae_uuid (de_app env)) \<longrightarrow> app_inv env d"
  "\<lambda>d d'. inj (ae_uuid (de_app env)) \<longrightarrow> managed_kept env d d'"
proof
  fix d op
  assume "inj (ae_uuid (de_app env)) \<longrightarrow> app_inv env d"
  then show "inj (ae_uuid (de_app env)) \<longrightarrow> app_inv env (app_step env op d)"
    using app_step_ok [of env d op] unfolding app_inv_def dop_ok_def op_ok_def by blast
next
  fix d op
  assume "inj (ae_uuid (de_app env)) \<longrightarrow> app_inv env d"
  then show "inj (ae_uuid (de_app env)) \<longrightarrow> managed_kept env d (app_step env op d)"
    using app_step_managed by blast
qed (auto simp: managed_kept_def [of env d d for d] intro: managed_kept_trans)

lemma reachable_app_inv:
  "inj (ae_uuid (de_app env)) \<Longrightarrow> app_inv env (fold (app_step env) ops new_design_service)"
  using application.run_inv [of env new_design_service ops] app_inv_new by blast

section \<open>Consistency\<close>

text \<open>C29: in every reachable state, provided identifiers are not drawn twice, each stored application is
  filed under its identifier and found by its slug, its lifecycle is active or archived with an
  archive time exactly when archived, its targets name every phase once with a known value, and no
  two applications of a workspace share a slug.\<close>

theorem applications_consistent:
  assumes "inj (ae_uuid (de_app env))"
    and "d = fold (app_step env) ops new_design_service"
    and "apps_of (dg_service d) i = Some a"
  shows "ap_id a = i \<and> life_ok a \<and> good_targets (targets_of (as_store (dg_service d)) a) \<and>
    store_get_by_slug (ap_workspace_id a) (ap_slug a) (as_store (dg_service d)) = Inr a \<and>
    (\<forall>j b. apps_of (dg_service d) j = Some b \<longrightarrow> ap_workspace_id b = ap_workspace_id a \<longrightarrow>
       ap_slug b = ap_slug a \<longrightarrow> j = i)"
proof -
  let ?st = "as_store (dg_service d)"
  have ok: "store_ok (used_ids (de_app env) (as_draws (dg_service d))) ?st"
    using reachable_app_inv [OF assms(1), of ops] by (simp add: assms(2) app_inv_def svc_ok_def)
  note a = store_ok_app [OF ok assms(3) [unfolded apps_of_def]]
  have "good_targets (targets_of ?st a)" using a(6) by (auto simp: heap_ok_def targets_of_def)
  moreover have "store_get_by_slug (ap_workspace_id a) (ap_slug a) ?st = Inr a"
    using a(7) assms(3) by (simp add: store_get_by_slug_def store_get_ok [OF ok] apps_of_def)
  moreover have "j = i" if "apps_of (dg_service d) j = Some b" "ap_workspace_id b = ap_workspace_id a" "ap_slug b = ap_slug a" for j b
    using store_ok_app(7) [OF ok that(1) [unfolded apps_of_def]] a(7) that(2,3) by simp
  ultimately show ?thesis using a(2,4) by blast
qed

text \<open>An environment in which everything is allowed, and a workspace with one application.\<close>

definition open_env :: app_env where
  "open_env =
     \<lparr>ae_uuid = show_nat, ae_now = (\<lambda>n. int n + 1), ae_check = (\<lambda>n u r ob. Inr True),
      ae_tenant = (\<lambda>w. Inr ''acme''), ae_design_system = None,
      ae_live = (\<lambda>n i. Inr \<lparr>lr_specs = [], lr_deployments = [], lr_onboarding = [], lr_runtimes = []\<rparr>)\<rparr>"

definition open_design_env :: design_env where
  "open_design_env =
     \<lparr>de_app = open_env,
      de_resolve = (\<lambda>r t. if r = [] then Inl ErrDesignSystemNotFound
        else Inr \<lparr>dr_asset_id = r, dr_version = ''1.0.0'', dr_lifecycle_state = ''approved'',
                  dr_visibility = ''tenant_global'', dr_tenant_id = [], dr_built_in_template = True\<rparr>),
      de_open = (\<lambda>n i. Inr (''https://pr/'' @ show_nat n))\<rparr>"

lemma show_nat_inj: "inj show_nat"
  by (rule injI) (metis digits_value_show_nat)

lemma open_env_inj: "inj (ae_uuid (de_app open_design_env))"
  by (simp add: open_design_env_def open_env_def show_nat_inj)

definition alice :: caller where "alice = \<lparr>cl_principal = ''alice'', cl_correlation_id = ''c1''\<rparr>"

definition shop_input :: create_input where
  "shop_input =
     \<lparr>ci_slug = ''shop'', ci_name = ''Shop'', ci_description = [], ci_owners = [''alice''],
      ci_design_system_ref = [], ci_chosen_explicitly = True, ci_default_environments = [],
      ci_repo_links = [''https://git/shop''], ci_runtime_links = []\<rparr>"

definition shop_ops :: "app_op list" where
  "shop_ops = [OpWorkspace ''ws'' ''acme'', OpCreate alice ''ws'' shop_input]"

definition shop :: design_service where
  "shop = fold (app_step open_design_env) shop_ops new_design_service"

lemma shop_value:
  "apps_of (dg_service shop) ''0'' \<noteq> None \<and> map_option ap_system_managed (apps_of (dg_service shop) ''0'') = Some True \<and>
   map_option ap_slug (apps_of (dg_service shop) ''6'') = Some ''shop''"
  by code_simp

theorem applications_consistent_witness:
  "\<exists>a. apps_of (dg_service shop) ''6'' = Some a \<and> ap_id a = ''6''"
proof -
  obtain a where a: "apps_of (dg_service shop) ''6'' = Some a" using shop_value by auto
  from applications_consistent [OF open_env_inj shop_def this] a show ?thesis by blast
qed

text \<open>C30: a system-managed application, once there, is never changed, deleted or archived again, by
  whatever operations follow, and neither are its targets.\<close>

theorem system_managed_untouched:
  assumes "inj (ae_uuid (de_app env))"
    and "d = fold (app_step env) ops new_design_service"
    and "apps_of (dg_service d) i = Some a" and "ap_system_managed a"
  shows "apps_of (dg_service (fold (app_step env) more_ops d)) i = Some a \<and>
    targets_of (as_store (dg_service (fold (app_step env) more_ops d))) a = targets_of (as_store (dg_service d)) a"
  using application.run_below [of env d more_ops] reachable_app_inv [OF assms(1), of ops] assms
  by (auto simp: managed_kept_def)

theorem system_managed_untouched_witness:
  "\<exists>a. apps_of (dg_service (app_step open_design_env (OpDelete alice ''0'') shop)) ''0'' = Some a"
proof -
  obtain a where a: "apps_of (dg_service shop) ''0'' = Some a" "ap_system_managed a" using shop_value by auto
  from system_managed_untouched [OF open_env_inj shop_def a, of "[OpDelete alice ''0'']"] show ?thesis by simp
qed

text \<open>C31: in every reachable state the audit log tells the applications: replaying the records in order
  gives exactly the stored applications.\<close>

theorem audit_log_replays:
  assumes "inj (ae_uuid (de_app env))"
  shows "fold replay (as_audit (dg_service (fold (app_step env) ops new_design_service))) Map.empty =
    apps_of (dg_service (fold (app_step env) ops new_design_service))"
  using reachable_app_inv [OF assms, of ops] by (simp add: app_inv_def replayed_iff)

theorem audit_log_replays_witness:
  "fold replay (as_audit (dg_service shop)) Map.empty = apps_of (dg_service shop)"
  unfolding shop_def by (rule audit_log_replays [OF open_env_inj])

section \<open>Authorization\<close>

text \<open>The relation an operation on an application asks for.\<close>

fun op_relation :: "app_op \<Rightarrow> (caller \<times> string) option" where
  "op_relation (OpPatch c i inp) = Some (c, ''can_edit'')"
| "op_relation (OpArchive c i) = Some (c, ''can_edit'')"
| "op_relation (OpRestore c i) = Some (c, ''can_edit'')"
| "op_relation (OpDelete c i) = Some (c, ''can_admin'')"
| "op_relation (OpSwap c i target reason) = Some (c, ''owner'')"
| "op_relation (OpOverrides c i ovs) = Some (c, ''owner'')"
| "op_relation _ = None"

lemma authorize_None:
  "authorize env c rel obj s = (None, s1) \<Longrightarrow>
   ae_check env (as_draws s) (principal_to_fga_user (cl_principal c)) rel obj = Inr True"
  by (auto simp: authorize_def app_draw_def split: sum.splits if_splits)

lemma change_app_authorized:
  assumes "as_store (snd (change_app env c i before ty action change s)) \<noteq> as_store s"
  shows "ae_check env (as_draws s) (principal_to_fga_user (cl_principal c)) ''can_edit'' (''app:'' @ i) = Inr True"
proof -
  obtain r s1 where au: "authorize env c ''can_edit'' (''app:'' @ i) s = (r, s1)" by fastforce
  have "r = None" using assms au authorize_store [OF au] by (cases r) (auto simp: change_app_def)
  with au authorize_None show ?thesis by blast
qed

text \<open>C32: an operation on a named application changes the store only if the authorizer answered yes to the
  question whether the caller has the relation the operation needs (editing to patch, archive and
  restore, administration to delete, ownership for the design system) on that application.\<close>

theorem changes_authorized:
  assumes "op_target op = Some i" and "op_relation op = Some (c, rel)"
    and "as_store (dg_service (app_step env op d)) \<noteq> as_store (dg_service d)"
  shows "ae_check (de_app env) (as_draws (dg_service d)) (principal_to_fga_user (cl_principal c)) rel
    (''app:'' @ i) = Inr True"
proof -
  let ?s = "dg_service d"
  have key: "ae_check (de_app env) (as_draws ?s) (principal_to_fga_user (cl_principal c)) rel (''app:'' @ i) = Inr True"
    if "authorize (de_app env) c rel (''app:'' @ i) ?s \<noteq> (r, s1) \<or> r = None"
      "authorize (de_app env) c rel (''app:'' @ i) ?s = (r, s1)" for r s1
    using that authorize_None by blast
  obtain r s1 where au: "authorize (de_app env) c rel (''app:'' @ i) ?s = (r, s1)" by fastforce
  have same: "as_store s1 = as_store ?s" using au by (rule authorize_store)
  show ?thesis
  proof (cases r)
    case None
    with key au show ?thesis by blast
  next
    case (Some e)
    with assms au same have False
      by (cases op) (auto simp: on_service_def patch_app_def archive_app_def restore_app_def change_app_def
          delete_app_def swap_design_def patch_overrides_def split: sum.splits if_splits)
    then show ?thesis ..
  qed
qed

theorem changes_authorized_witness:
  "as_store (dg_service (app_step open_design_env (OpArchive alice ''6'') shop)) \<noteq> as_store (dg_service shop) \<and>
   ae_check (de_app open_design_env) (as_draws (dg_service shop)) (principal_to_fga_user (cl_principal alice))
     ''can_edit'' (''app:'' @ ''6'') = Inr True"
proof
  have "map_option ap_lifecycle (apps_of (dg_service (app_step open_design_env (OpArchive alice ''6'') shop)) ''6'') = Some LifecycleArchived \<and>
      map_option ap_lifecycle (apps_of (dg_service shop) ''6'') = Some LifecycleActive" by code_simp
  then show *: "as_store (dg_service (app_step open_design_env (OpArchive alice ''6'') shop)) \<noteq> as_store (dg_service shop)"
    unfolding apps_of_def by auto
  show "ae_check (de_app open_design_env) (as_draws (dg_service shop)) (principal_to_fga_user (cl_principal alice))
     ''can_edit'' (''app:'' @ ''6'') = Inr True"
    using changes_authorized [OF _ _ *] by simp
qed

section \<open>One open pull request\<close>

definition urls_fresh :: "design_env \<Rightarrow> bool" where
  "urls_fresh env \<longleftrightarrow> (\<forall>m n r q u. de_open env m r = Inr u \<longrightarrow> de_open env n q = Inr u \<longrightarrow> m = n)"

text \<open>Every recorded request came from an earlier call of the opener.\<close>

definition urls_ok :: "design_env \<Rightarrow> design_service \<Rightarrow> bool" where
  "urls_ok env d \<longleftrightarrow>
     (\<forall>r \<in> set (dg_prs d). \<exists>n < length (dg_opened d). \<exists>q. de_open env n q = Inr (dp_pr_url r)) \<and>
     (\<forall>i. length (list_open i (dg_prs d)) \<le> 1)"

lemma list_open_superseded:
  assumes "\<And>r. r \<in> set rs \<Longrightarrow> dp_pr_url r \<noteq> url"
  shows "list_open j (mark_superseded now i url rs) = (if j = i then [] else list_open j rs)"
  using assms by (induction rs) (auto simp: list_open_def mark_superseded_def)

lemma list_open_append: "list_open j (xs @ ys) = list_open j xs @ list_open j ys"
  by (simp add: list_open_def)

lemma list_open_row:
  "list_open j [swap_row c a target reason url now] = (if j = ap_id a then [swap_row c a target reason url now] else [])"
  by (simp add: list_open_def swap_row_def)

lemma list_open_merged:
  "mark_merged now url rs = Some qs \<Longrightarrow> length (list_open j qs) \<le> length (list_open j rs)"
proof (induction rs arbitrary: qs)
  case (Cons r rs)
  then show ?case by (fastforce simp: list_open_def split: if_splits)
qed simp

lemma mark_merged_urls: "mark_merged now url rs = Some qs \<Longrightarrow> map dp_pr_url qs = map dp_pr_url rs"
  by (induction rs arbitrary: qs) (auto split: if_splits)

lemma mark_superseded_urls: "map dp_pr_url (mark_superseded now i url rs) = map dp_pr_url rs"
  by (simp add: mark_superseded_def o_def if_distrib cong: if_cong)

lemma urls_ok_shrink:
  assumes "urls_ok env d" "map dp_pr_url (dg_prs d') = map dp_pr_url (dg_prs d)"
    "length (dg_opened d) \<le> length (dg_opened d')"
    "\<And>i. length (list_open i (dg_prs d')) \<le> length (list_open i (dg_prs d))"
  shows "urls_ok env d'"
proof -
  have "dp_pr_url ` set (dg_prs d') = dp_pr_url ` set (dg_prs d)" using assms(2) by (metis list.set_map)
  then have "\<exists>q \<in> set (dg_prs d). dp_pr_url q = dp_pr_url r" if "r \<in> set (dg_prs d')" for r
    using that by (metis imageE imageI)
  with assms(1,3,4) show ?thesis unfolding urls_ok_def by (metis le_trans less_le_trans)
qed

text \<open>A swap records a request, or fails before that.\<close>

lemma swap_cases:
  assumes run: "swap_design env c i target reason d = (res, d')"
  shows "dg_prs d' = dg_prs d \<and> length (dg_opened d) \<le> length (dg_opened d') \<or>
    (\<exists>a url req now now'. de_open env (length (dg_opened d)) req = Inr url \<and> dg_opened d' = dg_opened d @ [req] \<and>
       dg_prs d' = mark_superseded now' (ap_id a) url (dg_prs d) @ [swap_row c a target reason url now])"
proof -
  obtain r s1 where au: "authorize (de_app env) c ''owner'' (''app:'' @ i) (dg_service d) = (r, s1)" by fastforce
  show ?thesis
  proof (cases "trim_space target = [] \<or> (\<exists>e. editable i (dg_service d) = Inl e) \<or> r \<noteq> None")
    case True
    with run au have "d' = d \<or> d' = d\<lparr>dg_service := s1\<rparr>"
      by (auto simp: swap_design_def split: if_splits sum.splits)
    then show ?thesis by auto
  next
    case False
    then obtain a where a: "editable i (dg_service d) = Inr a" "r = None" "trim_space target \<noteq> []"
      by (cases "editable i (dg_service d)") auto
    show ?thesis
    proof (cases "validate_design_system_ref env (ap_tenant_id a) target")
      case (Inl e)
      with run au a have "d' = d\<lparr>dg_service := s1\<rparr>" by (simp add: swap_design_def Let_def)
      then show ?thesis by simp
    next
      case (Inr rec)
      note rec = this
      show ?thesis
      proof (cases "portal_bundle_repo_of a")
        case (Inl e)
        with run au a rec have "d' = d\<lparr>dg_service := s1\<rparr>" by (simp add: swap_design_def Let_def)
        then show ?thesis by simp
      next
        case (Inr repo)
        let ?req = "swap_request c a repo target reason"
        show ?thesis
        proof (cases "de_open env (length (dg_opened d)) ?req")
          case (Inl e)
          with run au a rec Inr have "d' = d\<lparr>dg_service := s1, dg_opened := dg_opened d @ [?req]\<rparr>"
            by (simp add: swap_design_def Let_def)
          then show ?thesis by simp
        next
          case (Inr url)
          with run au a rec \<open>portal_bundle_repo_of a = Inr repo\<close>
          have "dg_opened d' = dg_opened d @ [?req]"
            and "dg_prs d' = mark_superseded (ae_now (de_app env) (Suc (as_draws s1))) (ap_id a) url (dg_prs d) @
              [swap_row c a target reason url (ae_now (de_app env) (as_draws s1))]"
            by (auto simp: swap_design_def Let_def announce_design_service record_swap_def)
          with Inr show ?thesis by blast
        qed
      qed
    qed
  qed
qed

lemma swap_urls_ok:
  assumes fresh: "urls_fresh env" and ok: "urls_ok env d" and run: "swap_design env c i target reason d = (res, d')"
  shows "urls_ok env d'"
  using swap_cases [OF run]
proof (elim disjE exE conjE)
  assume "dg_prs d' = dg_prs d" "length (dg_opened d) \<le> length (dg_opened d')"
  then show ?thesis by (intro urls_ok_shrink [OF ok]) simp_all
next
  fix a url req now now'
  assume op: "de_open env (length (dg_opened d)) req = Inr url" and opened: "dg_opened d' = dg_opened d @ [req]"
    and prs: "dg_prs d' = mark_superseded now' (ap_id a) url (dg_prs d) @ [swap_row c a target reason url now]"
  have new: "dp_pr_url r \<noteq> url" if "r \<in> set (dg_prs d)" for r
    proof
      assume "dp_pr_url r = url"
      with ok that obtain n q where "n < length (dg_opened d)" "de_open env n q = Inr url" by (auto simp: urls_ok_def)
      with fresh op show False unfolding urls_fresh_def by blast
    qed
  have "list_open j (dg_prs d') = (if j = ap_id a then [swap_row c a target reason url now] else list_open j (dg_prs d))" for j
    using list_open_superseded [OF new] by (simp add: prs list_open_append list_open_row)
  then have "length (list_open j (dg_prs d')) \<le> 1" for j
    using ok by (simp add: urls_ok_def)
    moreover have "\<exists>n < length (dg_opened d'). \<exists>q. de_open env n q = Inr (dp_pr_url r)" if "r \<in> set (dg_prs d')" for r
    proof -
      from that prs have "dp_pr_url r \<in> dp_pr_url ` set (mark_superseded now' (ap_id a) url (dg_prs d)) \<or> dp_pr_url r = url"
        by (auto simp: swap_row_def)
      then have "dp_pr_url r \<in> dp_pr_url ` set (dg_prs d) \<or> dp_pr_url r = url"
        by (metis list.set_map mark_superseded_urls)
      then show ?thesis using ok op opened unfolding urls_ok_def
        by (metis imageE length_append_singleton less_SucI lessI)
    qed
  ultimately show ?thesis by (auto simp: urls_ok_def)
qed

lemma change_design_prs [simp]:
  "dg_prs (snd (change_design env c i before ty reason evidence change d)) = dg_prs d"
  "dg_opened (snd (change_design env c i before ty reason evidence change d)) = dg_opened d"
  by (auto simp: change_design_def announce_design_service split: prod.splits sum.splits)

lemma merged_urls_ok:
  assumes "urls_ok env d"
  shows "urls_ok env (snd (handle_swap_merged env c url d))"
proof -
  have "dg_opened (snd (handle_swap_merged env c url d)) = dg_opened d \<and>
      (dg_prs (snd (handle_swap_merged env c url d)) = dg_prs d \<or>
       (\<exists>now. mark_merged now url (dg_prs d) = Some (dg_prs (snd (handle_swap_merged env c url d)))))"
    by (auto simp: handle_swap_merged_def Let_def announce_design_service split: sum.splits prod.splits option.splits)
  then show ?thesis
    by (intro urls_ok_shrink [OF assms]) (auto simp: mark_merged_urls list_open_merged)
qed

interpretation pull_requests: op_machine "app_step env" "\<lambda>d. urls_fresh env \<longrightarrow> urls_ok env d"
proof
  fix d op
  assume inv: "urls_fresh env \<longrightarrow> urls_ok env d"
  show "urls_fresh env \<longrightarrow> urls_ok env (app_step env op d)"
  proof
    assume fresh: "urls_fresh env"
    with inv have ok: "urls_ok env d" by blast
    have serv: "urls_ok env (d\<lparr>dg_service := s\<rparr>)" for s using ok by (simp add: urls_ok_def)
    show "urls_ok env (app_step env op d)"
    proof (cases op)
      case (OpSwap c i target reason)
      obtain r d' where "swap_design env c i target reason d = (r, d')" by fastforce
      with swap_urls_ok [OF fresh ok this] OpSwap show ?thesis by simp
    next
      case (OpOverrides c i ovs)
      have "dg_prs (app_step env op d) = dg_prs d \<and> dg_opened (app_step env op d) = dg_opened d"
        using OpOverrides by (auto simp: patch_overrides_def Let_def
            split: sum.splits option.splits prod.splits)
      then show ?thesis by (intro urls_ok_shrink [OF ok]) simp_all
    next
      case (OpWebhook verb prin corr ev)
      obtain c s1 where cr: "caller_from_request (de_app env) prin corr (dg_service d) = (c, s1)" by fastforce
      from webhook_cases [OF cr, of verb ev] OpWebhook ok merged_urls_ok [OF serv] show ?thesis by auto
    qed (use serv in \<open>auto simp: on_service_def\<close>)
  qed
qed

text \<open>C33: when the opener never answers the same address twice, every application has at most one open
  pull request in every reachable state.\<close>

theorem one_open_pr:
  assumes "urls_fresh env"
  shows "length (list_open i (dg_prs (fold (app_step env) ops new_design_service))) \<le> 1"
  using pull_requests.run_inv [of env new_design_service ops] assms
  by (simp add: urls_ok_def new_design_service_def list_open_def)

theorem one_open_pr_witness:
  "length (list_open ''6'' (dg_prs (fold (app_step open_design_env)
     (shop_ops @ [OpSwap alice ''6'' ''ds-a'' [], OpSwap alice ''6'' ''ds-b'' []]) new_design_service))) \<le> 1"
  by (rule one_open_pr) (auto simp: urls_fresh_def open_design_env_def dest: injD [OF show_nat_inj])

section \<open>A patch rewrites its own history\<close>

text \<open>the event of a successful patch never shows a change of targets: the application before and the
  one after refer to the same map, which the patch wrote in place, so both show the new targets.\<close>

theorem patch_shows_no_target_change:
  assumes "svc_ok env s" and "patch_app env c i inp s = (Inr a, s')"
  shows "\<exists>e b. as_events s' = as_events s @ [e] \<and> av_before e = Some b \<and> av_after e = Some a \<and>
    targets_of (as_store s') b = targets_of (as_store s') a"
proof -
  from assms(2) obtain b where b: "editable i s = Inr b"
    and ch: "change_app env c i b ''app.updated.v1'' ''updated'' (patch_change env c (ap_system_managed b) inp) s = (Inr a, s')"
    by (auto simp: patch_app_def split: sum.splits)
  obtain r s1 where au: "authorize env c ''can_edit'' (''app:'' @ i) s = (r, s1)" by fastforce
  from ch au obtain s2 where up: "update_app env i (patch_change env c (ap_system_managed b) inp) s1 = (Inr a, s2)"
    and s': "s' = announce_app env ''app.updated.v1'' ''updated'' a c (Some b) (Some a) s2"
    by (auto simp: change_app_def split: option.splits sum.splits prod.splits)
  have ok1: "svc_ok env s1" using authorize_op_ok [OF au assms(1)] by (simp add: op_ok_def)
  have "apps_of s1 i = Some b" using editable_spec [OF b] authorize_store [OF au] by (simp add: apps_of_def)
  with patch.update_app_spec [OF ok1 up] have "ap_targets a = ap_targets b" by auto
  moreover have "as_events s2 = as_events s"
    using up au by (auto simp: update_app_def authorize_def app_draw_def Let_def split: prod.splits sum.splits if_splits)
  ultimately show ?thesis
    by (auto simp: s' announce_app_def publish_app_def audit_app_def app_draw_def Let_def targets_of_def)
qed

definition qa_skipped :: patch_input where
  "qa_skipped =
     \<lparr>pi_name = None, pi_description = None, pi_owners = None, pi_design_system_ref = None,
      pi_default_environments = None, pi_repo_links = None, pi_runtime_links = None,
      pi_targets = Some [(''qa'', TargetSkipped)]\<rparr>"

lemma qa_skipped_value:
  "case patch_app open_env alice ''6'' qa_skipped (dg_service shop) of
     (Inr a, s') \<Rightarrow> map_of (targets_of (as_store s') a) ''qa'' = Some TargetSkipped | (Inl e, s') \<Rightarrow> False"
  by code_simp

text \<open>The target was required before; the event says it already was skipped.\<close>

theorem patch_shows_no_target_change_witness:
  "\<exists>e b. e \<in> set (as_events (snd (patch_app open_env alice ''6'' qa_skipped (dg_service shop)))) \<and> av_before e = Some b \<and>
     map_of (targets_of (as_store (snd (patch_app open_env alice ''6'' qa_skipped (dg_service shop)))) b) ''qa'' = Some TargetSkipped"
proof -
  obtain a s' where run: "patch_app open_env alice ''6'' qa_skipped (dg_service shop) = (Inr a, s')"
    and qa: "map_of (targets_of (as_store s') a) ''qa'' = Some TargetSkipped"
    using qa_skipped_value by (auto split: prod.splits sum.splits)
  have "svc_ok open_env (dg_service shop)"
    using reachable_app_inv [OF open_env_inj, of shop_ops] by (simp add: shop_def app_inv_def open_design_env_def)
  from patch_shows_no_target_change [OF this run] qa show ?thesis by (auto simp: run)
qed

text \<open>An override can never be cleared: the empty reference that clears one is looked up first.\<close>

lemma override_never_cleared:
  assumes "\<And>t. de_resolve env [] t = Inl ErrDesignSystemNotFound" and "(k, []) \<in> set ovs"
  shows "\<exists>e. fst (patch_overrides env c i ovs d) = Inl e"
proof -
  have bad: "validate_design_system_ref env t [] = Inl ErrDesignSystemNotFound" for t
    using assms(1) by (simp add: validate_design_system_ref_def)
  have "ErrDesignSystemNotFound \<in> set (List.map_filter (\<lambda>(k, v).
      case validate_design_system_ref env t v of Inl e \<Rightarrow> Some e | Inr r \<Rightarrow> None) ovs)" for t
    unfolding in_map_filter using assms(2) bad by (intro bexI [of _ "(k, [])"]) simp_all
  then have "List.map_filter (\<lambda>(k, v).
      case validate_design_system_ref env t v of Inl e \<Rightarrow> Some e | Inr r \<Rightarrow> None) ovs \<noteq> []" for t
    by (metis empty_iff list.set(1))
  then have "first_bad_ref env t ovs \<noteq> None" for t
    unfolding first_bad_ref_def neq_Nil_conv by (metis list.simps(5) option.distinct(1))
  then show ?thesis
    by (auto simp: patch_overrides_def Let_def split: sum.splits option.splits prod.splits)
      (metis option.distinct(1))
qed

section \<open>The migration\<close>

definition purgeable :: "gotime \<Rightarrow> spec_row \<Rightarrow> bool" where
  "purgeable now r \<longleftrightarrow>
     \<not> (sw_has_active_deployment r \<or> sw_has_onboarding_in_flight r \<or> sw_has_runtime_ref r \<or> sw_in_pinned_set r) \<and>
     sw_last_activity r \<le> now - days_90 \<and>
     (sw_lifecycle_status r = ''proposed'' \<or> sw_lifecycle_status r = ''draft'')"

text \<open>a specification is purged exactly when nothing holds it (no deployment, onboarding, runtime or
  pin, no activity for 90 days, and it is proposed or a draft), every other one is kept under its
  candidate application or unassigned, and applying the plan emits one event per specification.\<close>

theorem migration_exact:
  assumes "plan_execution (classify_specs rows now) actor = Some p"
  shows "map cr_spec_id (ep_purge p) = map sw_spec_id (filter (purgeable now) rows) \<and>
    map cr_spec_id (ep_backfill p) = map sw_spec_id (filter (\<lambda>r. \<not> purgeable now r) rows) \<and>
    length (fst (apply_plan (Some p))) = length rows"
proof -
  have plan: "ep_purge (plan_rows rs q) = ep_purge q @ filter (\<lambda>r. cr_classification r = Orphan) rs \<and>
      ep_backfill (plan_rows rs q) = ep_backfill q @ filter (\<lambda>r. cr_classification r \<noteq> Orphan) rs" for rs q
    by (induction rs q rule: plan_rows.induct) (auto split: classification.splits)
  have orphan: "cr_classification (classify_row now r) = Orphan \<longleftrightarrow> purgeable now r" for r
    by (auto simp: classify_row_def purgeable_def Let_def)
  have ident: "cr_spec_id (classify_row now r) = sw_spec_id r" for r
    by (auto simp: classify_row_def Let_def)
  from assms have p: "p = plan_rows (classify_specs rows now) \<lparr>ep_backfill = [], ep_purge = [], ep_actor = actor\<rparr>"
    by (simp add: plan_execution_def split: if_splits)
  have "length (fst (apply_plan (Some p))) = length rows"
    using sum_length_filter_compl [of "\<lambda>r. cr_classification r \<noteq> Orphan" "classify_specs rows now"]
    by (simp add: apply_plan_def p plan classify_specs_def)
  then show ?thesis by (simp add: p plan classify_specs_def filter_map o_def orphan ident)
qed

theorem migration_exact_witness:
  "let r = \<lparr>sw_spec_id = ''s1'', sw_workspace_id = [], sw_lifecycle_status = ''draft'',
         sw_has_active_deployment = False, sw_has_onboarding_in_flight = False, sw_has_runtime_ref = False,
         sw_in_pinned_set = False, sw_last_activity = 0, sw_target_app_candidate = []\<rparr>
   in map_option (\<lambda>p. map cr_spec_id (ep_purge p))
        (plan_execution (classify_specs [r] (days_90 + 1)) ''ops'') = Some [''s1'']"
  using migration_exact [of "[\<lparr>sw_spec_id = ''s1'', sw_workspace_id = [], sw_lifecycle_status = ''draft'',
         sw_has_active_deployment = False, sw_has_onboarding_in_flight = False, sw_has_runtime_ref = False,
         sw_in_pinned_set = False, sw_last_activity = 0, sw_target_app_candidate = []\<rparr>]" "days_90 + 1" "''ops''"]
  by (simp add: plan_execution_def purgeable_def Let_def)

end
