(* ===== verification/Healing.thy ===== *)
theory Healing
  imports Fabric_Prelude Complex_Main
begin

text \<open>
  The healing engine (\<open>types.go\<close>, \<open>service.go\<close>, \<open>l1l2.go\<close>, \<open>events.go\<close> of
  \<open>services/healing-engine/internal/engine\<close>, and the operations of \<open>http.go\<close> that change state):
  envelopes, actions, kill switches, the decision for an incident and its five levels, detections and
  proposed fixes, promotion. The workflow executor and the approvals client are fields of an
  environment indexed by the draw counter; what they are asked for is logged in the state.

  A trigger at level 3 waits for an approval. It is split where it waits: \<open>trigger_start\<close> runs up to
  the wait and leaves the trigger in \<open>hs_waiting\<close>, \<open>resume_trigger\<close> continues with the answer, and
  other operations may come between the two.
\<close>

section \<open>Data\<close>

datatype heal_level = LevelL1 | LevelL2 | LevelL3 | LevelL4 | LevelL5 | LevelOther string

fun level_text :: "heal_level \<Rightarrow> string" where
  "level_text LevelL1 = ''L1''"
| "level_text LevelL2 = ''L2''"
| "level_text LevelL3 = ''L3''"
| "level_text LevelL4 = ''L4''"
| "level_text LevelL5 = ''L5''"
| "level_text (LevelOther s) = s"

datatype heal_outcome =
    HealNotified | HealSuggested | HealWaitingApproval | HealExecuted | HealFailed | HealRolledBack
  | HealEscalated | HealSuppressed | HealDegradedByEnv | HealBlockedByLimits | HealOutcomeOther string

record envelope =
  en_id :: string
  en_tenant_id :: string
  en_workspace_id :: string
  en_capability :: string
  en_asset_pattern :: string
  en_environment :: string
  en_criticality :: string
  en_default_level :: heal_level
  en_allowed_levels :: "heal_level list"
  en_time_windows :: "string list"
  en_max_actions_per_hour :: int
  en_kill_switch :: bool
  en_updated_at :: gotime

record heal_action =
  ac_id :: string
  ac_risk :: string
  ac_reversible :: bool
  ac_blast_radius :: string
  ac_allowed_levels :: "(string \<times> heal_level list) list"
  ac_workflow_ref :: string
  ac_runbook_url :: string
  ac_eval_suite_id :: string
  ac_parameters :: obj

record promotion_request =
  pq_action_id :: string
  pq_environment :: string
  pq_target_level :: heal_level
  pq_requested_by :: string
  pq_platform_admin_ok :: bool
  pq_security_ok :: bool

text \<open>Finite values of \<open>float64\<close> are rational numbers; constants are the nearest such value.\<close>

record promotion_metrics =
  pm_eval_pass_rate :: rat
  pm_successful_runs :: int
  pm_days_since_postmortem :: int

definition float_95 :: rat where "float_95 = 4278419646001971 / 4503599627370496"
definition float_80 :: rat where "float_80 = 3602879701896397 / 4503599627370496"

record healing_decision =
  hd_id :: string
  hd_incident_id :: string
  hd_action_id :: string
  hd_level :: heal_level
  hd_requested_level :: heal_level
  hd_outcome :: heal_outcome
  hd_reason :: string
  hd_workflow_run_id :: string
  hd_approval_id :: string
  hd_synthetic :: bool
  hd_created_at :: gotime

record incident_input =
  ii_incident_id :: string
  ii_app_id :: string
  ii_tenant_id :: string
  ii_workspace_id :: string
  ii_service :: string
  ii_environment :: string
  ii_capability :: string
  ii_criticality :: string
  ii_synthetic :: bool
  ii_signature_hash :: string
  ii_suggested_actions :: "string list"

datatype heal_error =
    HealIncidentRequired | HealAppRequired | ErrEnvelopeNotFound | ErrActionNotFound
  | ErrPromotionRate rat | ErrPromotionRuns int | ErrPromotionDays int
  | ErrPromotionApproval | ErrInvalidLevel

record hypothesis =
  hy_id :: string
  hy_description :: string
  hy_confidence :: rat
  hy_evidence :: "string list"
  hy_affected_files :: "string list"

record detection_input =
  dn_app_id :: string
  dn_tenant_id :: string
  dn_workspace_id :: string
  dn_correlation_id :: string
  dn_signal_source :: string
  dn_signal_payload :: obj
  dn_hypotheses :: "hypothesis list"
  dn_actions :: "string list"
  dn_blast_radius :: string

record diagnosis_report =
  dx_app_id :: string
  dx_signal_source :: string
  dx_hypotheses :: "hypothesis list"
  dx_actions :: "string list"
  dx_blast_radius :: string
  dx_generated_at :: gotime

record l1_detection =
  dt_id :: string
  dt_app_id :: string
  dt_tenant_id :: string
  dt_correlation_id :: string
  dt_signal :: string
  dt_diagnosis :: diagnosis_report
  dt_created_at :: gotime

record propose_input =
  px_app_id :: string
  px_tenant_id :: string
  px_workspace_id :: string
  px_correlation_id :: string
  px_top_hypothesis :: hypothesis
  px_diff_type :: string
  px_protected_paths :: "string list"
  px_size_budget :: int

record file_diff =
  fx_path :: string
  fx_before :: string
  fx_after :: string
  fx_lines_changed :: int

record proposed_fix =
  pf_id :: string
  pf_app_id :: string
  pf_diff_type :: string
  pf_file_diffs :: "file_diff list"
  pf_citations :: "string list"
  pf_blast_radius :: string

record l2_suggestion =
  sg_id :: string
  sg_app_id :: string
  sg_tenant_id :: string
  sg_correlation_id :: string
  sg_detection :: l1_detection
  sg_fix :: proposed_fix
  sg_safety_passed :: bool
  sg_approval_id :: string
  sg_status :: string
  sg_rejection_reason :: string
  sg_created_at :: gotime

record heal_event =
  hv_spec_version :: string
  hv_id :: string
  hv_source :: string
  hv_type :: string
  hv_subject :: string
  hv_time :: gotime
  hv_content_type :: string
  hv_tenant_id :: string
  hv_workspace_id :: string
  hv_data :: obj

section \<open>State\<close>

record heal_store =
  hp_envelopes :: "(string \<times> envelope) list"
  hp_actions :: "(string \<times> heal_action) list"
  hp_decisions :: "(string \<times> healing_decision) list"
  hp_detections :: "(string \<times> l1_detection) list"
  hp_suggestions :: "(string \<times> l2_suggestion) list"
  hp_kill_global :: bool
  hp_kill_workspace :: "(string \<times> bool) list"
  hp_buckets :: "(string \<times> gotime list) list"
  hp_stats :: "(string \<times> promotion_metrics) list"

definition new_heal_store :: heal_store where
  "new_heal_store = \<lparr>hp_envelopes = [], hp_actions = [], hp_decisions = [], hp_detections = [],
     hp_suggestions = [], hp_kill_global = False, hp_kill_workspace = [], hp_buckets = [], hp_stats = []\<rparr>"

text \<open>The calls of the executor.\<close>

datatype exec_call = CallExecute string obj | CallVerify string | CallRollback string obj

text \<open>
  \<open>he_create\<close> answers an approval identifier and possibly an error beside it; \<open>he_pick\<close> is the choice
  Go makes when it ranges over the map of envelopes.
\<close>

record heal_env =
  he_uuid :: "nat \<Rightarrow> string"
  he_now :: "nat \<Rightarrow> gotime"
  he_pick :: "nat \<Rightarrow> nat"
  he_execute :: "nat \<Rightarrow> string \<Rightarrow> obj \<Rightarrow> string + string"
  he_verify :: "nat \<Rightarrow> string \<Rightarrow> string + bool"
  he_rollback :: "nat \<Rightarrow> string \<Rightarrow> obj \<Rightarrow> string + string"
  he_create :: "nat \<Rightarrow> obj \<Rightarrow> string \<times> string option"

text \<open>A trigger that waits: its incident, the action it picked and its decision.\<close>

type_synonym waiting = "incident_input \<times> heal_action \<times> healing_decision"

record heal_state =
  hs_store :: heal_store
  hs_events :: "heal_event list"
  hs_calls :: "exec_call list"
  hs_cards :: "obj list"
  hs_waiting :: "waiting list"
  hs_draws :: nat

definition new_heal_state :: heal_state where
  "new_heal_state = \<lparr>hs_store = new_heal_store, hs_events = [], hs_calls = [], hs_cards = [],
     hs_waiting = [], hs_draws = 0\<rparr>"

definition on_heal_store :: "(heal_store \<Rightarrow> heal_store) \<Rightarrow> heal_state \<Rightarrow> heal_state" where
  "on_heal_store f s = s\<lparr>hs_store := f (hs_store s)\<rparr>"

definition emit_heal ::
  "heal_env \<Rightarrow> string \<Rightarrow> string \<Rightarrow> string \<Rightarrow> string \<Rightarrow> obj \<Rightarrow> heal_state \<Rightarrow> heal_state" where
  "emit_heal env tenant ws ty subject data s =
     (let n = hs_draws s
      in s\<lparr>hs_draws := Suc n,
           hs_events := hs_events s @
             [\<lparr>hv_spec_version = ''1.0'', hv_id = he_uuid env n, hv_source = ''forge://service/healing-engine'',
               hv_type = ty, hv_subject = subject, hv_time = he_now env n,
               hv_content_type = ''application/json'', hv_tenant_id = tenant, hv_workspace_id = ws,
               hv_data = data\<rparr>]\<rparr>)"

section \<open>The store\<close>

definition set_envelope :: "gotime \<Rightarrow> envelope \<Rightarrow> heal_store \<Rightarrow> heal_store" where
  "set_envelope now e st =
     (let e1 = (if en_id e = [] then e\<lparr>en_id := en_capability e @ ''/'' @ en_environment e @ ''/'' @ en_criticality e\<rparr> else e)
      in st\<lparr>hp_envelopes := AList.update (en_id e1) (e1\<lparr>en_updated_at := now\<rparr>) (hp_envelopes st)\<rparr>)"

text \<open>Without an exact match, any envelope of the capability and the environment.\<close>

definition get_envelope :: "nat \<Rightarrow> string \<Rightarrow> string \<Rightarrow> string \<Rightarrow> heal_store \<Rightarrow> envelope option" where
  "get_envelope pick capability environ criticality st =
     (case map_of (hp_envelopes st) (capability @ ''/'' @ environ @ ''/'' @ criticality) of
        Some e \<Rightarrow> Some e
      | None \<Rightarrow>
          (let es = filter (\<lambda>e. en_capability e = capability \<and> en_environment e = environ) (map snd (hp_envelopes st))
           in if es = [] then None else Some (es ! (pick mod length es))))"

definition list_envelopes :: "heal_store \<Rightarrow> envelope list" where
  "list_envelopes st = map snd (hp_envelopes st)"

definition set_action :: "heal_action \<Rightarrow> heal_store \<Rightarrow> heal_store" where
  "set_action a st = st\<lparr>hp_actions := AList.update (ac_id a) a (hp_actions st)\<rparr>"

definition get_action :: "string \<Rightarrow> heal_store \<Rightarrow> heal_action option" where
  "get_action i st = map_of (hp_actions st) i"

definition save_decision :: "healing_decision \<Rightarrow> heal_store \<Rightarrow> heal_store" where
  "save_decision d st = st\<lparr>hp_decisions := AList.update (hd_id d) d (hp_decisions st)\<rparr>"

definition list_decisions :: "string \<Rightarrow> heal_store \<Rightarrow> healing_decision list" where
  "list_decisions i st = filter (\<lambda>d. hd_incident_id d = i) (map snd (hp_decisions st))"

definition set_kill_switch :: "string \<Rightarrow> bool \<Rightarrow> heal_store \<Rightarrow> heal_store" where
  "set_kill_switch ws active st =
     (if ws = [] then st\<lparr>hp_kill_global := active\<rparr>
      else st\<lparr>hp_kill_workspace := AList.update ws active (hp_kill_workspace st)\<rparr>)"

definition kill_switch :: "string \<Rightarrow> heal_store \<Rightarrow> bool" where
  "kill_switch ws st =
     (if hp_kill_global st then True else (case map_of (hp_kill_workspace st) ws of Some b \<Rightarrow> b | None \<Rightarrow> False))"

definition track_invocation :: "string \<Rightarrow> gotime \<Rightarrow> heal_store \<Rightarrow> int \<times> heal_store" where
  "track_invocation i now st =
     (let out = filter (\<lambda>t. t > now - hour_ns) (list_at (hp_buckets st) i) @ [now]
      in (int (length out), st\<lparr>hp_buckets := AList.update i out (hp_buckets st)\<rparr>))"

definition set_promotion_stats :: "string \<Rightarrow> string \<Rightarrow> promotion_metrics \<Rightarrow> heal_store \<Rightarrow> heal_store" where
  "set_promotion_stats i environ m st = st\<lparr>hp_stats := AList.update (i @ ''/'' @ environ) m (hp_stats st)\<rparr>"

definition get_promotion_stats :: "string \<Rightarrow> string \<Rightarrow> heal_store \<Rightarrow> promotion_metrics" where
  "get_promotion_stats i environ st =
     (case map_of (hp_stats st) (i @ ''/'' @ environ) of
        Some m \<Rightarrow> m
      | None \<Rightarrow> \<lparr>pm_eval_pass_rate = 0, pm_successful_runs = 0, pm_days_since_postmortem = 0\<rparr>)"

definition save_detection :: "l1_detection \<Rightarrow> heal_store \<Rightarrow> heal_store" where
  "save_detection d st = st\<lparr>hp_detections := AList.update (dt_id d) d (hp_detections st)\<rparr>"

definition get_detection :: "string \<Rightarrow> heal_store \<Rightarrow> l1_detection option" where
  "get_detection i st = map_of (hp_detections st) i"

definition list_detections :: "string \<Rightarrow> heal_store \<Rightarrow> l1_detection list" where
  "list_detections i st = filter (\<lambda>d. dt_app_id d = i) (map snd (hp_detections st))"

definition save_suggestion :: "l2_suggestion \<Rightarrow> heal_store \<Rightarrow> heal_store" where
  "save_suggestion g st = st\<lparr>hp_suggestions := AList.update (sg_id g) g (hp_suggestions st)\<rparr>"

definition get_suggestion :: "string \<Rightarrow> heal_store \<Rightarrow> l2_suggestion option" where
  "get_suggestion i st = map_of (hp_suggestions st) i"

definition list_suggestions :: "string \<Rightarrow> heal_store \<Rightarrow> l2_suggestion list" where
  "list_suggestions i st = filter (\<lambda>g. sg_app_id g = i) (map snd (hp_suggestions st))"

section \<open>Levels\<close>

definition level_allowed :: "heal_level list \<Rightarrow> heal_level \<Rightarrow> bool" where
  "level_allowed allowed want = list_ex (\<lambda>l. l = want) allowed"

fun level_rank :: "heal_level \<Rightarrow> nat" where
  "level_rank LevelL1 = 1"
| "level_rank LevelL2 = 2"
| "level_rank LevelL3 = 3"
| "level_rank LevelL4 = 4"
| "level_rank LevelL5 = 5"
| "level_rank (LevelOther s) = 0"

definition highest_allowed :: "heal_level list \<Rightarrow> heal_level" where
  "highest_allowed allowed = fold (\<lambda>l best. if level_rank l > level_rank best then l else best) allowed LevelL1"

definition append_level :: "heal_level list \<Rightarrow> heal_level \<Rightarrow> heal_level list" where
  "append_level existing l = (if level_allowed existing l then existing else existing @ [l])"

text \<open>\<open>d\<close> limited by the levels of the envelope, then by those of the action in the environment.\<close>

definition cap_by_envelope :: "envelope \<Rightarrow> healing_decision \<Rightarrow> healing_decision" where
  "cap_by_envelope e d =
     (if \<not> level_allowed (en_allowed_levels e) (hd_level d)
      then d\<lparr>hd_level := highest_allowed (en_allowed_levels e), hd_reason := ''envelope_cap'',
             hd_outcome := HealDegradedByEnv\<rparr>
      else d)"

definition cap_by_action :: "heal_action \<Rightarrow> string \<Rightarrow> healing_decision \<Rightarrow> healing_decision" where
  "cap_by_action a environ d =
     (let allowed = list_at (ac_allowed_levels a) environ
      in if length allowed > 0 \<and> \<not> level_allowed allowed (hd_level d)
         then d\<lparr>hd_level := highest_allowed allowed,
                hd_reason := (if hd_reason d = [] then ''action_env_cap'' else hd_reason d),
                hd_outcome := HealDegradedByEnv\<rparr>
         else d)"

section \<open>Events of a decision\<close>

definition emit_triggered :: "heal_env \<Rightarrow> incident_input \<Rightarrow> healing_decision \<Rightarrow> envelope \<Rightarrow> bool \<Rightarrow> heal_state \<Rightarrow> heal_state" where
  "emit_triggered env i d e suppressed =
     emit_heal env (ii_tenant_id i) (ii_workspace_id i) ''healing.triggered.v1'' (''incident/'' @ ii_incident_id i)
       [(''incident_id'', VString (ii_incident_id i)), (''action_id'', VString (hd_action_id d)),
        (''envelope_id'', VString (en_id e)), (''level'', VString (level_text (hd_level d))),
        (''suppressed'', VBool suppressed), (''synthetic'', VBool (ii_synthetic i))]"

definition emit_level_decided :: "heal_env \<Rightarrow> incident_input \<Rightarrow> healing_decision \<Rightarrow> string \<Rightarrow> heal_state \<Rightarrow> heal_state" where
  "emit_level_decided env i d reason =
     emit_heal env (ii_tenant_id i) (ii_workspace_id i) ''healing.level_decided.v1'' (''incident/'' @ ii_incident_id i)
       [(''incident_id'', VString (ii_incident_id i)), (''requested'', VString (level_text (hd_requested_level d))),
        (''applied'', VString (level_text (hd_level d))), (''reason'', VString reason),
        (''synthetic'', VBool (ii_synthetic i))]"

definition emit_executed :: "heal_env \<Rightarrow> incident_input \<Rightarrow> healing_decision \<Rightarrow> string \<Rightarrow> heal_state \<Rightarrow> heal_state" where
  "emit_executed env i d outcome =
     emit_heal env (ii_tenant_id i) (ii_workspace_id i) ''healing.executed.v1'' (''incident/'' @ ii_incident_id i)
       [(''incident_id'', VString (ii_incident_id i)), (''action_id'', VString (hd_action_id d)),
        (''workflow_run'', VString (hd_workflow_run_id d)), (''outcome'', VString outcome),
        (''approval_id'', VString (hd_approval_id d)), (''synthetic'', VBool (ii_synthetic i))]"

definition emit_rolled_back :: "heal_env \<Rightarrow> incident_input \<Rightarrow> healing_decision \<Rightarrow> heal_state \<Rightarrow> heal_state" where
  "emit_rolled_back env i d =
     emit_heal env (ii_tenant_id i) (ii_workspace_id i) ''healing.rolled_back.v1'' (''incident/'' @ ii_incident_id i)
       [(''incident_id'', VString (ii_incident_id i)), (''action_id'', VString (hd_action_id d)),
        (''workflow_run'', VString (hd_workflow_run_id d)), (''reason'', VString (hd_reason d)),
        (''synthetic'', VBool (ii_synthetic i))]"

definition emit_escalated :: "heal_env \<Rightarrow> incident_input \<Rightarrow> healing_decision \<Rightarrow> heal_state \<Rightarrow> heal_state" where
  "emit_escalated env i d =
     emit_heal env (ii_tenant_id i) (ii_workspace_id i) ''healing.escalated.v1'' (''incident/'' @ ii_incident_id i)
       [(''incident_id'', VString (ii_incident_id i)), (''action_id'', VString (hd_action_id d)),
        (''reason'', VString (hd_reason d)), (''synthetic'', VBool (ii_synthetic i))]"

section \<open>Detections and proposed fixes\<close>

definition create_card :: "heal_env \<Rightarrow> obj \<Rightarrow> heal_state \<Rightarrow> (string \<times> string option) \<times> heal_state" where
  "create_card env payload s =
     (he_create env (hs_draws s) payload, s\<lparr>hs_draws := Suc (hs_draws s), hs_cards := hs_cards s @ [payload]\<rparr>)"

definition detect :: "heal_env \<Rightarrow> detection_input \<Rightarrow> heal_state \<Rightarrow> (heal_error + l1_detection) \<times> heal_state" where
  "detect env i s =
     (if dn_app_id i = [] then (Inl HealAppRequired, s)
      else let n = hs_draws s;
               diagnosis = \<lparr>dx_app_id = dn_app_id i, dx_signal_source = dn_signal_source i,
                 dx_hypotheses = dn_hypotheses i, dx_actions = dn_actions i,
                 dx_blast_radius = dn_blast_radius i, dx_generated_at = he_now env n\<rparr>;
               d = \<lparr>dt_id = ''det-'' @ he_uuid env (n + 1), dt_app_id = dn_app_id i,
                 dt_tenant_id = dn_tenant_id i, dt_correlation_id = dn_correlation_id i,
                 dt_signal = dn_signal_source i, dt_diagnosis = diagnosis, dt_created_at = he_now env (n + 2)\<rparr>;
               s1 = emit_heal env (dn_tenant_id i) (dn_workspace_id i) ''healing.detected.v1'' (''app/'' @ dn_app_id i)
                 [(''detection_id'', VString (dt_id d)), (''app_id'', VString (dn_app_id i)),
                  (''signal_source'', VString (dn_signal_source i)),
                  (''hypothesis_count'', VInt (int (length (dn_hypotheses i)))),
                  (''blast_radius_estimate'', VString (dn_blast_radius i)),
                  (''correlation_id'', VString (dn_correlation_id i))] (s\<lparr>hs_draws := n + 3\<rparr>);
               s2 = on_heal_store (save_detection d) s1
           in (Inr d, snd (create_card env
                 [(''tag'', VString ''healing-l1''), (''detection_id'', VString (dt_id d)),
                  (''app_id'', VString (dn_app_id i)), (''signal'', VString (dn_signal_source i)),
                  (''hypotheses'', VInt (int (length (dn_hypotheses i))))] s2)))"

definition patch_file :: "string \<Rightarrow> string \<Rightarrow> file_diff" where
  "patch_file description f =
     \<lparr>fx_path = f, fx_before = ''# original content'',
      fx_after = ''# patched by healing-engine: '' @ description, fx_lines_changed = 2\<rparr>"

definition synthesise_fix :: "string \<Rightarrow> propose_input \<Rightarrow> string \<Rightarrow> proposed_fix" where
  "synthesise_fix fresh i diff_type =
     (let diffs = map (patch_file (hy_description (px_top_hypothesis i))) (hy_affected_files (px_top_hypothesis i));
          diffs1 = (if diffs = [] then [\<lparr>fx_path = ''config/remediation.yaml'', fx_before = [],
                      fx_after = ''# auto-remediation placeholder'', fx_lines_changed = 1\<rparr>] else diffs)
      in \<lparr>pf_id = ''fix-'' @ fresh, pf_app_id = px_app_id i, pf_diff_type = diff_type,
          pf_file_diffs = diffs1, pf_citations = hy_evidence (px_top_hypothesis i), pf_blast_radius = ''low''\<rparr>)"

definition secret_patterns :: "string list" where
  "secret_patterns = [''password='', ''secret='', ''api_key='', ''token='']"

text \<open>The first reason to refuse a fix; \<open>None\<close> when it passes. \<open>quoted\<close> is the \<open>%q\<close> of package \<open>fmt\<close>.\<close>

definition quoted :: "string \<Rightarrow> string" where "quoted s = [CHR 0x22] @ s @ [CHR 0x22]"

definition protected_violation :: "string list \<Rightarrow> file_diff list \<Rightarrow> (string \<times> string) option" where
  "protected_violation paths ds =
     List.find (\<lambda>(path, pp). contains_str path pp) (concat (map (\<lambda>d. map (\<lambda>pp. (fx_path d, pp)) paths) ds))"

definition secret_violation :: "file_diff list \<Rightarrow> (string \<times> string) option" where
  "secret_violation ds =
     map_option (\<lambda>(d, pat). (pat, fx_path d))
       (List.find (\<lambda>(d, pat). contains_str (to_lower (fx_before d @ [CHR 0x0A] @ fx_after d)) pat)
          (concat (map (\<lambda>d. map (\<lambda>pat. (d, pat)) secret_patterns) ds)))"

definition total_lines :: "file_diff list \<Rightarrow> int" where
  "total_lines ds = fold (\<lambda>d t. wrap64 (t + fx_lines_changed d)) ds 0"

definition safety_eval :: "proposed_fix \<Rightarrow> string list \<Rightarrow> int \<Rightarrow> string option" where
  "safety_eval fx paths budget =
     (let total = total_lines (pf_file_diffs fx)
      in if total > budget
         then Some (''size_budget_exceeded: '' @ show_int total @ '' lines changed, budget is '' @ show_int budget)
         else case protected_violation paths (pf_file_diffs fx) of
           Some (path, pp) \<Rightarrow>
             Some (''protected_path_violation: '' @ quoted path @ '' matches protected pattern '' @ quoted pp)
         | None \<Rightarrow>
             (case secret_violation (pf_file_diffs fx) of
                Some (pat, path) \<Rightarrow>
                  Some (''secret_reference_detected: pattern '' @ quoted pat @ '' found in diff for '' @ quoted path)
              | None \<Rightarrow> None))"

definition propose_fix :: "heal_env \<Rightarrow> propose_input \<Rightarrow> heal_state \<Rightarrow> (heal_error + l2_suggestion) \<times> heal_state" where
  "propose_fix env i s =
     (if px_app_id i = [] then (Inl HealAppRequired, s)
      else let n = hs_draws s;
               budget = (if px_size_budget i \<le> 0 then 200 else px_size_budget i);
               diff_type = (if px_diff_type i = [] then ''code'' else px_diff_type i);
               fx = synthesise_fix (he_uuid env n) i diff_type;
               refusal = safety_eval fx (px_protected_paths i) budget;
               d = \<lparr>dt_id = ''det-'' @ he_uuid env (n + 1), dt_app_id = px_app_id i,
                 dt_tenant_id = px_tenant_id i, dt_correlation_id = px_correlation_id i,
                 dt_signal = ''incident_created'',
                 dt_diagnosis = \<lparr>dx_app_id = px_app_id i, dx_signal_source = ''incident_created'',
                   dx_hypotheses = [px_top_hypothesis i], dx_actions = [], dx_blast_radius = [],
                   dx_generated_at = he_now env (n + 2)\<rparr>,
                 dt_created_at = he_now env (n + 3)\<rparr>;
               g = \<lparr>sg_id = ''sug-'' @ he_uuid env (n + 4), sg_app_id = px_app_id i,
                 sg_tenant_id = px_tenant_id i, sg_correlation_id = px_correlation_id i,
                 sg_detection = d, sg_fix = fx, sg_safety_passed = (refusal = None), sg_approval_id = [],
                 sg_status = ''pending'', sg_rejection_reason = [], sg_created_at = he_now env (n + 5)\<rparr>;
               s1 = s\<lparr>hs_draws := n + 6\<rparr>
           in case refusal of
                Some reason \<Rightarrow>
                  (let s2 = emit_heal env (px_tenant_id i) (px_workspace_id i) ''healing.fix_downgraded.v1''
                         (''app/'' @ px_app_id i)
                         [(''suggestion_id'', VString (sg_id g)), (''app_id'', VString (px_app_id i)),
                          (''correlation_id'', VString (px_correlation_id i)), (''reason'', VString reason)] s1;
                       g1 = g\<lparr>sg_status := ''rejected'', sg_rejection_reason := reason\<rparr>
                   in (Inr g1, on_heal_store (save_suggestion g1) s2))
              | None \<Rightarrow>
                  (let s2 = emit_heal env (px_tenant_id i) (px_workspace_id i) ''healing.fix_proposed.v1''
                         (''app/'' @ px_app_id i)
                         [(''suggestion_id'', VString (sg_id g)), (''app_id'', VString (px_app_id i)),
                          (''diff_type'', VString (pf_diff_type fx)),
                          (''files_changed'', VInt (int (length (pf_file_diffs fx)))),
                          (''blast_radius_estimate'', VString (pf_blast_radius fx)),
                          (''correlation_id'', VString (px_correlation_id i))] s1;
                       (card, s3) = create_card env
                         [(''tag'', VString ''healing-l2''), (''suggestion_id'', VString (sg_id g)),
                          (''app_id'', VString (px_app_id i)), (''diff_type'', VString (pf_diff_type fx))] s2;
                       g1 = g\<lparr>sg_approval_id := fst card\<rparr>
                   in (Inr g1, on_heal_store (save_suggestion g1) s3)))"

text \<open>What a person decides about a suggestion: the status of the answer, and the new state.\<close>

definition review_suggestion :: "string \<Rightarrow> string \<Rightarrow> string \<Rightarrow> heal_state \<Rightarrow> int \<times> heal_state" where
  "review_suggestion i verb reason s =
     (if i = [] then (404, s)
      else case get_suggestion i (hs_store s) of
        None \<Rightarrow> (404, s)
      | Some g \<Rightarrow>
          if verb = ''approve'' then (200, on_heal_store (save_suggestion (g\<lparr>sg_status := ''approved''\<rparr>)) s)
          else if verb = ''reject''
          then (200, on_heal_store (save_suggestion (g\<lparr>sg_status := ''rejected'', sg_rejection_reason := reason\<rparr>)) s)
          else (404, s))"

section \<open>Triggers\<close>

definition pick_action :: "heal_store \<Rightarrow> string list \<Rightarrow> heal_action option" where
  "pick_action st suggested =
     (case List.find (\<lambda>i. get_action i st \<noteq> None) suggested of None \<Rightarrow> None | Some i \<Rightarrow> get_action i st)"

definition log_call :: "exec_call \<Rightarrow> heal_state \<Rightarrow> heal_state" where
  "log_call c s = s\<lparr>hs_calls := hs_calls s @ [c], hs_draws := Suc (hs_draws s)\<rparr>"

definition execute_workflow :: "heal_env \<Rightarrow> heal_action \<Rightarrow> heal_state \<Rightarrow> (string + string) \<times> heal_state" where
  "execute_workflow env a s =
     (he_execute env (hs_draws s) (ac_workflow_ref a) (ac_parameters a),
      log_call (CallExecute (ac_workflow_ref a) (ac_parameters a)) s)"

text \<open>What a level that executes does first; also all of level 4 and the end of level 3.\<close>

definition run_and_report ::
  "heal_env \<Rightarrow> incident_input \<Rightarrow> heal_action \<Rightarrow> healing_decision \<Rightarrow> heal_state \<Rightarrow> healing_decision \<times> heal_state" where
  "run_and_report env i a d s =
     (case execute_workflow env a s of
        (Inl e, s1) \<Rightarrow>
          (let d1 = d\<lparr>hd_outcome := HealFailed, hd_reason := ''workflow_execute_failed: '' @ e\<rparr>
           in (d1, emit_executed env i d1 ''failed'' s1))
      | (Inr r, s1) \<Rightarrow>
          (let d1 = d\<lparr>hd_workflow_run_id := r, hd_outcome := HealExecuted\<rparr>
           in (d1, emit_executed env i d1 ''executed'' s1)))"

definition run_l4 ::
  "heal_env \<Rightarrow> incident_input \<Rightarrow> heal_action \<Rightarrow> healing_decision \<Rightarrow> heal_state \<Rightarrow> healing_decision \<times> heal_state" where
  "run_l4 env i a d s = run_and_report env i a d s"

text \<open>The end of level 5 after a failed verification.\<close>

definition roll_back ::
  "heal_env \<Rightarrow> incident_input \<Rightarrow> heal_action \<Rightarrow> string \<Rightarrow> healing_decision \<Rightarrow> heal_state \<Rightarrow> healing_decision \<times> heal_state" where
  "roll_back env i a r d s =
     (let res = he_rollback env (hs_draws s) (ac_workflow_ref a) (ac_parameters a);
          s1 = log_call (CallRollback (ac_workflow_ref a) (ac_parameters a)) s;
          d1 = d\<lparr>hd_outcome := HealRolledBack, hd_reason := ''verify_failed_auto_rollback''\<rparr>;
          d2 = (case res of
                  Inl e \<Rightarrow> d1\<lparr>hd_outcome := HealFailed, hd_reason := ''rollback_failed: '' @ e\<rparr>
                | Inr b \<Rightarrow> d1\<lparr>hd_workflow_run_id := r @ ''+rb='' @ b\<rparr>)
      in (d2, emit_escalated env i d2 (emit_rolled_back env i d2 (emit_executed env i d2 ''failed'' s1))))"

definition run_l5 ::
  "heal_env \<Rightarrow> incident_input \<Rightarrow> heal_action \<Rightarrow> healing_decision \<Rightarrow> heal_state \<Rightarrow> healing_decision \<times> heal_state" where
  "run_l5 env i a d s =
     (if \<not> ac_reversible a then (d\<lparr>hd_outcome := HealFailed, hd_reason := ''non_reversible_action_at_L5''\<rparr>, s)
      else case execute_workflow env a s of
        (Inl e, s1) \<Rightarrow>
          (let d1 = d\<lparr>hd_outcome := HealFailed, hd_reason := ''workflow_execute_failed: '' @ e\<rparr>
           in (d1, emit_executed env i d1 ''failed'' s1))
      | (Inr r, s1) \<Rightarrow>
          (let d1 = d\<lparr>hd_workflow_run_id := r\<rparr>;
               ok = he_verify env (hs_draws s1) r;
               s2 = log_call (CallVerify r) s1
           in if ok = Inr True
              then (let d2 = d1\<lparr>hd_outcome := HealExecuted\<rparr> in (d2, emit_executed env i d2 ''executed'' s2))
              else roll_back env i a r d1 s2))"

text \<open>Level 3 up to its wait: \<open>True\<close> when it waits.\<close>

definition ask_approval ::
  "heal_env \<Rightarrow> incident_input \<Rightarrow> heal_action \<Rightarrow> healing_decision \<Rightarrow> heal_state \<Rightarrow> (healing_decision \<times> bool) \<times> heal_state" where
  "ask_approval env i a d s =
     (if ii_synthetic i
      then (let n = hs_draws s;
                d1 = d\<lparr>hd_outcome := HealWaitingApproval, hd_approval_id := ''approval-synthetic-'' @ he_uuid env n\<rparr>
            in ((d1, False), emit_executed env i d1 ''waiting_approval'' (s\<lparr>hs_draws := Suc n\<rparr>)))
      else case create_card env
             [(''incident_id'', VString (ii_incident_id i)), (''action'', VString (ac_id a)),
              (''workflow'', VString (ac_workflow_ref a))] s of
        ((c, Some e), s1) \<Rightarrow>
          ((d\<lparr>hd_outcome := HealFailed, hd_reason := ''approvals_unreachable: '' @ e\<rparr>, False), s1)
      | ((c, None), s1) \<Rightarrow> ((d\<lparr>hd_approval_id := c, hd_outcome := HealWaitingApproval\<rparr>, True), s1))"

text \<open>Level 3 after its wait.\<close>

definition after_approval ::
  "heal_env \<Rightarrow> incident_input \<Rightarrow> heal_action \<Rightarrow> string + bool \<Rightarrow> healing_decision \<Rightarrow> heal_state \<Rightarrow>
   healing_decision \<times> heal_state" where
  "after_approval env i a answer d s =
     (case answer of
        Inl e \<Rightarrow> (d\<lparr>hd_outcome := HealFailed, hd_reason := ''approval_wait_failed: '' @ e\<rparr>, s)
      | Inr approved \<Rightarrow>
          if \<not> approved then (d\<lparr>hd_outcome := HealFailed, hd_reason := ''approval_denied_or_timeout''\<rparr>, s)
          else run_and_report env i a d s)"

definition notify_l1 :: "heal_env \<Rightarrow> incident_input \<Rightarrow> heal_action \<Rightarrow> healing_decision \<Rightarrow> heal_state \<Rightarrow> healing_decision \<times> heal_state" where
  "notify_l1 env i a d s =
     (d\<lparr>hd_outcome := HealNotified\<rparr>,
      if ii_app_id i \<noteq> []
      then snd (detect env \<lparr>dn_app_id = ii_app_id i, dn_tenant_id = ii_tenant_id i,
             dn_workspace_id = ii_workspace_id i, dn_correlation_id = ii_incident_id i,
             dn_signal_source = ''incident_created'', dn_signal_payload = [], dn_hypotheses = [],
             dn_actions = ii_suggested_actions i, dn_blast_radius = ac_blast_radius a\<rparr> s)
      else s)"

definition suggest_l2 :: "heal_env \<Rightarrow> incident_input \<Rightarrow> heal_action \<Rightarrow> healing_decision \<Rightarrow> heal_state \<Rightarrow> healing_decision \<times> heal_state" where
  "suggest_l2 env i a d s =
     (d\<lparr>hd_outcome := HealSuggested\<rparr>,
      if ii_app_id i \<noteq> []
      then snd (propose_fix env \<lparr>px_app_id = ii_app_id i, px_tenant_id = ii_tenant_id i,
             px_workspace_id = ii_workspace_id i, px_correlation_id = ii_incident_id i,
             px_top_hypothesis = \<lparr>hy_id = ''hyp-'' @ hd_id d,
               hy_description = ''incident '' @ ii_incident_id i @ '' on action '' @ ac_id a,
               hy_confidence = float_80, hy_evidence = [], hy_affected_files = []\<rparr>,
             px_diff_type = ''config'', px_protected_paths = [], px_size_budget = 200\<rparr> s)
      else s)"

text \<open>A trigger ends with an error, with a saved decision, or in a wait.\<close>

datatype trigger_result = TriggerError heal_error | Decided healing_decision | AwaitsApproval healing_decision

definition close_trigger :: "healing_decision \<times> heal_state \<Rightarrow> trigger_result \<times> heal_state" where
  "close_trigger r = (case r of (d, s) \<Rightarrow> (Decided d, on_heal_store (save_decision d) s))"

definition run_level ::
  "heal_env \<Rightarrow> incident_input \<Rightarrow> heal_action \<Rightarrow> healing_decision \<Rightarrow> heal_state \<Rightarrow> trigger_result \<times> heal_state" where
  "run_level env i a d s =
     (case hd_level d of
        LevelL1 \<Rightarrow> close_trigger (notify_l1 env i a d s)
      | LevelL2 \<Rightarrow> close_trigger (suggest_l2 env i a d s)
      | LevelL3 \<Rightarrow>
          (case ask_approval env i a d s of
             ((d1, True), s1) \<Rightarrow> (AwaitsApproval d1, s1\<lparr>hs_waiting := hs_waiting s1 @ [(i, a, d1)]\<rparr>)
           | ((d1, False), s1) \<Rightarrow> close_trigger (d1, s1))
      | LevelL4 \<Rightarrow> close_trigger (run_l4 env i a d s)
      | LevelL5 \<Rightarrow> close_trigger (run_l5 env i a d s)
      | LevelOther l \<Rightarrow> close_trigger (d\<lparr>hd_outcome := HealNotified\<rparr>, s))"

text \<open>The decision before any level runs; its identifier and time are the draws \<open>n\<close> and \<open>n + 1\<close>.\<close>

definition fresh_decision :: "heal_env \<Rightarrow> nat \<Rightarrow> incident_input \<Rightarrow> heal_action \<Rightarrow> envelope \<Rightarrow> healing_decision" where
  "fresh_decision env n i a e =
     (let requested = (if en_default_level e = LevelOther [] then LevelL2 else en_default_level e)
      in \<lparr>hd_id = ''hd-'' @ he_uuid env n, hd_incident_id = ii_incident_id i, hd_action_id = ac_id a,
          hd_level = requested, hd_requested_level = requested, hd_outcome = HealOutcomeOther [],
          hd_reason = [], hd_workflow_run_id = [], hd_approval_id = [], hd_synthetic = ii_synthetic i,
          hd_created_at = he_now env (n + 1)\<rparr>)"

text \<open>The rate limit of the envelope: whether it blocks, and the state with the invocation counted.\<close>

definition rate_limit :: "heal_env \<Rightarrow> envelope \<Rightarrow> heal_state \<Rightarrow> bool \<times> heal_state" where
  "rate_limit env e s =
     (if en_max_actions_per_hour e > 0
      then (let n = hs_draws s;
                (count, st) = track_invocation (en_id e) (he_now env n) (hs_store s)
            in (count > en_max_actions_per_hour e, s\<lparr>hs_draws := Suc n, hs_store := st\<rparr>))
      else (False, s))"

text \<open>A decision without a level: its two events, then it is saved.\<close>

definition decide_stopped ::
  "heal_env \<Rightarrow> incident_input \<Rightarrow> envelope \<Rightarrow> bool \<Rightarrow> healing_decision \<Rightarrow> heal_state \<Rightarrow> trigger_result \<times> heal_state" where
  "decide_stopped env i e suppressed d s =
     close_trigger (d, emit_level_decided env i d (hd_reason d) (emit_triggered env i d e suppressed s))"

definition decide_trigger ::
  "heal_env \<Rightarrow> incident_input \<Rightarrow> heal_action \<Rightarrow> envelope \<Rightarrow> heal_state \<Rightarrow> trigger_result \<times> heal_state" where
  "decide_trigger env i a e s0 =
     (let d0 = fresh_decision env (hs_draws s0) i a e;
          s = s0\<lparr>hs_draws := hs_draws s0 + 2\<rparr>
      in if kill_switch (ii_workspace_id i) (hs_store s)
         then decide_stopped env i e True
                (d0\<lparr>hd_level := LevelL1, hd_outcome := HealSuppressed, hd_reason := ''kill_switch''\<rparr>) s
         else let d = cap_by_action a (ii_environment i) (cap_by_envelope e d0)
         in case rate_limit env e s of
              (True, s1) \<Rightarrow>
                decide_stopped env i e False (d\<lparr>hd_outcome := HealBlockedByLimits, hd_reason := ''rate_limit''\<rparr>) s1
            | (False, s1) \<Rightarrow>
                run_level env i a d (emit_level_decided env i d (hd_reason d) (emit_triggered env i d e False s1)))"

definition trigger_start :: "heal_env \<Rightarrow> incident_input \<Rightarrow> heal_state \<Rightarrow> trigger_result \<times> heal_state" where
  "trigger_start env i s =
     (if ii_incident_id i = [] then (TriggerError HealIncidentRequired, s)
      else case pick_action (hs_store s) (ii_suggested_actions i) of
        None \<Rightarrow> (TriggerError ErrActionNotFound, s)
      | Some a \<Rightarrow>
          (case get_envelope (he_pick env (hs_draws s)) (ii_capability i) (ii_environment i) (ii_criticality i) (hs_store s) of
             None \<Rightarrow> (TriggerError ErrEnvelopeNotFound, s\<lparr>hs_draws := Suc (hs_draws s)\<rparr>)
           | Some e \<Rightarrow> decide_trigger env i a e (s\<lparr>hs_draws := Suc (hs_draws s)\<rparr>)))"

text \<open>The answer to the \<open>k\<close>-th trigger that waits.\<close>

definition resume_trigger :: "heal_env \<Rightarrow> nat \<Rightarrow> string + bool \<Rightarrow> heal_state \<Rightarrow> heal_state" where
  "resume_trigger env k answer s =
     (if k < length (hs_waiting s)
      then (case hs_waiting s ! k of
              (i, a, d) \<Rightarrow>
                snd (close_trigger (after_approval env i a answer d
                  (s\<lparr>hs_waiting := take k (hs_waiting s) @ drop (Suc k) (hs_waiting s)\<rparr>))))
      else s)"

text \<open>The whole of a trigger, when nothing comes between its two parts.\<close>

definition trigger :: "heal_env \<Rightarrow> (string \<Rightarrow> string + bool) \<Rightarrow> incident_input \<Rightarrow> heal_state \<Rightarrow> heal_state" where
  "trigger env wait i s =
     (case trigger_start env i s of
        (AwaitsApproval d, s1) \<Rightarrow> resume_trigger env (length (hs_waiting s1) - 1) (wait (hd_approval_id d)) s1
      | (_, s1) \<Rightarrow> s1)"

section \<open>Promotion and the kill switch\<close>

definition promotion_check :: "promotion_request \<Rightarrow> heal_store \<Rightarrow> heal_error + heal_action" where
  "promotion_check q st =
     (if pq_target_level q \<noteq> LevelL4 \<and> pq_target_level q \<noteq> LevelL5 then Inl ErrInvalidLevel
      else case get_action (pq_action_id q) st of
        None \<Rightarrow> Inl ErrActionNotFound
      | Some a \<Rightarrow>
          if \<not> pq_platform_admin_ok q \<or> \<not> pq_security_ok q then Inl ErrPromotionApproval
          else let m = get_promotion_stats (pq_action_id q) (pq_environment q) st
          in if pm_eval_pass_rate m < float_95 then Inl (ErrPromotionRate (pm_eval_pass_rate m))
             else if pm_successful_runs m < 20 then Inl (ErrPromotionRuns (pm_successful_runs m))
             else if pm_days_since_postmortem m < 30 then Inl (ErrPromotionDays (pm_days_since_postmortem m))
             else Inr a)"

definition promote_action :: "heal_env \<Rightarrow> promotion_request \<Rightarrow> heal_state \<Rightarrow> heal_error option \<times> heal_state" where
  "promote_action env q s =
     (case promotion_check q (hs_store s) of
        Inl e \<Rightarrow> (Some e, s)
      | Inr a \<Rightarrow>
          (let current = list_at (ac_allowed_levels a) (pq_environment q);
               a1 = (if \<not> level_allowed current (pq_target_level q)
                     then a\<lparr>ac_allowed_levels := AList.update (pq_environment q)
                              (append_level current (pq_target_level q)) (ac_allowed_levels a)\<rparr>
                     else a)
           in (None, emit_heal env [] [] ''healing.action.promoted.v1'' (''action/'' @ ac_id a)
                 [(''action_id'', VString (ac_id a)), (''environment'', VString (pq_environment q)),
                  (''target_level'', VString (level_text (pq_target_level q))),
                  (''requested_by'', VString (pq_requested_by q))]
                 (on_heal_store (set_action a1) s))))"

definition toggle_kill_switch :: "heal_env \<Rightarrow> string \<Rightarrow> bool \<Rightarrow> string \<Rightarrow> string \<Rightarrow> heal_state \<Rightarrow> heal_state" where
  "toggle_kill_switch env ws active actor reason s =
     emit_heal env [] ws ''healing.kill_switch.toggled.v1'' (''workspace/'' @ ws)
       [(''active'', VBool active), (''actor'', VString actor), (''reason'', VString reason)]
       (on_heal_store (set_kill_switch ws active) s)"

definition put_envelope :: "heal_env \<Rightarrow> envelope \<Rightarrow> heal_state \<Rightarrow> heal_state" where
  "put_envelope env e s =
     (let n = hs_draws s in on_heal_store (set_envelope (he_now env n) e) (s\<lparr>hs_draws := Suc n\<rparr>))"

section \<open>The engine as a machine\<close>

datatype heal_op =
    OpSetEnvelope envelope
  | OpSetAction heal_action
  | OpSetStats string string promotion_metrics
  | OpKillSwitch string bool string string
  | OpPromote promotion_request
  | OpDetect detection_input
  | OpPropose propose_input
  | OpReview string string string
  | OpTrigger incident_input
  | OpAnswer nat "string + bool"

fun heal_step :: "heal_env \<Rightarrow> heal_op \<Rightarrow> heal_state \<Rightarrow> heal_state" where
  "heal_step env (OpSetEnvelope e) s = put_envelope env e s"
| "heal_step env (OpSetAction a) s = on_heal_store (set_action a) s"
| "heal_step env (OpSetStats i e m) s = on_heal_store (set_promotion_stats i e m) s"
| "heal_step env (OpKillSwitch ws b actor reason) s = toggle_kill_switch env ws b actor reason s"
| "heal_step env (OpPromote q) s = snd (promote_action env q s)"
| "heal_step env (OpDetect i) s = snd (detect env i s)"
| "heal_step env (OpPropose i) s = snd (propose_fix env i s)"
| "heal_step env (OpReview i verb reason) s = snd (review_suggestion i verb reason s)"
| "heal_step env (OpTrigger i) s = snd (trigger_start env i s)"
| "heal_step env (OpAnswer k answer) s = resume_trigger env k answer s"

end
