(* ===== verification/Healing_Flow.thy ===== *)
theory Healing_Flow
  imports Healing
begin

text \<open>
  What the healing engine guarantees in every reachable state: when workflows run, what the rate limit
  counts, how levels are granted, and which proposed fixes are put before a person.
\<close>

section \<open>Frames\<close>

lemma on_heal_store_simps [frame_simps]:
  "hs_store (on_heal_store f s) = f (hs_store s)" "hs_events (on_heal_store f s) = hs_events s"
  "hs_calls (on_heal_store f s) = hs_calls s" "hs_cards (on_heal_store f s) = hs_cards s"
  "hs_waiting (on_heal_store f s) = hs_waiting s" "hs_draws (on_heal_store f s) = hs_draws s"
  by (simp_all add: on_heal_store_def)

lemma emit_heal_simps [frame_simps]:
  "hs_store (emit_heal env t w y u d s) = hs_store s" "hs_calls (emit_heal env t w y u d s) = hs_calls s"
  "hs_cards (emit_heal env t w y u d s) = hs_cards s" "hs_waiting (emit_heal env t w y u d s) = hs_waiting s"
  "hs_draws (emit_heal env t w y u d s) = Suc (hs_draws s)"
  by (simp_all add: emit_heal_def Let_def)

lemmas emit_defs =
  emit_triggered_def emit_level_decided_def emit_executed_def emit_rolled_back_def emit_escalated_def

lemma saves_frame [frame_simps]:
  "hp_buckets (save_decision d st) = hp_buckets st" "hp_buckets (save_detection dt st) = hp_buckets st"
  "hp_buckets (save_suggestion g st) = hp_buckets st" "hp_actions (save_decision d st) = hp_actions st"
  "hp_actions (save_detection dt st) = hp_actions st" "hp_actions (save_suggestion g st) = hp_actions st"
  "hp_suggestions (save_decision d st) = hp_suggestions st"
  "hp_suggestions (save_detection dt st) = hp_suggestions st"
  "hp_buckets (set_envelope now e st) = hp_buckets st" "hp_actions (set_envelope now e st) = hp_actions st"
  "hp_suggestions (set_envelope now e st) = hp_suggestions st"
  "hp_buckets (set_action a st) = hp_buckets st" "hp_suggestions (set_action a st) = hp_suggestions st"
  "hp_buckets (set_kill_switch ws b st) = hp_buckets st" "hp_actions (set_kill_switch ws b st) = hp_actions st"
  "hp_suggestions (set_kill_switch ws b st) = hp_suggestions st"
  "hp_buckets (set_promotion_stats i en m st) = hp_buckets st"
  "hp_actions (set_promotion_stats i en m st) = hp_actions st"
  "hp_suggestions (set_promotion_stats i en m st) = hp_suggestions st"
  by (simp_all add: save_decision_def save_detection_def save_suggestion_def set_envelope_def set_action_def
      set_kill_switch_def set_promotion_stats_def Let_def)

lemma create_card_simps [frame_simps]:
  "hs_store (snd (create_card env p s)) = hs_store s" "hs_calls (snd (create_card env p s)) = hs_calls s"
  "hs_waiting (snd (create_card env p s)) = hs_waiting s" "hs_cards (snd (create_card env p s)) = hs_cards s @ [p]"
  "hs_draws (snd (create_card env p s)) = Suc (hs_draws s)"
  by (simp_all add: create_card_def)

lemma log_call_simps [frame_simps]:
  "hs_store (log_call c s) = hs_store s" "hs_cards (log_call c s) = hs_cards s"
  "hs_waiting (log_call c s) = hs_waiting s" "hs_calls (log_call c s) = hs_calls s @ [c]"
  "hs_draws (log_call c s) = Suc (hs_draws s)"
  by (simp_all add: log_call_def)

text \<open>\<open>quiet s t\<close>: from \<open>s\<close> to \<open>t\<close> the engine at most saved decisions, detections and suggestions,
  announced, asked and drew; it called nothing and left the waiting triggers alone.\<close>

definition silent :: "heal_state \<Rightarrow> heal_state \<Rightarrow> bool" where
  "silent s t \<longleftrightarrow>
     hs_waiting t = hs_waiting s \<and> hs_draws s \<le> hs_draws t \<and> set (hs_cards s) \<subseteq> set (hs_cards t) \<and>
     hp_buckets (hs_store t) = hp_buckets (hs_store s) \<and> hp_actions (hs_store t) = hp_actions (hs_store s)"

lemma silent_refl [simp, intro]: "silent s s"
  by (simp add: silent_def)

lemma silent_trans: "silent s t \<Longrightarrow> silent t u \<Longrightarrow> silent s u"
  by (auto simp: silent_def)

lemma silent_emit: "silent s (emit_heal env t w y u d s)"
  by (simp add: silent_def frame_simps)

lemma detect_frame:
  "silent s (snd (detect env i s)) \<and> hs_calls (snd (detect env i s)) = hs_calls s \<and>
   hp_suggestions (hs_store (snd (detect env i s))) = hp_suggestions (hs_store s)"
  by (auto simp: detect_def silent_def Let_def frame_simps)

lemma silent_ops:
  "silent s u \<Longrightarrow> silent s (on_heal_store (save_suggestion g) u)"
  "silent s u \<Longrightarrow> silent s (emit_heal env t w y v d u)"
  "silent s u \<Longrightarrow> silent s (snd (create_card env p u))"
  "hs_draws s \<le> n \<Longrightarrow> silent s (s\<lparr>hs_draws := n\<rparr>)"
  by (auto simp: silent_def frame_simps)

lemma propose_fix_frame:
  "silent s (snd (propose_fix env i s)) \<and> hs_calls (snd (propose_fix env i s)) = hs_calls s"
proof (cases "safety_eval (synthesise_fix (he_uuid env (hs_draws s)) i
      (if px_diff_type i = [] then ''code'' else px_diff_type i)) (px_protected_paths i)
      (if px_size_budget i \<le> 0 then 200 else px_size_budget i)")
  case None
  then show ?thesis by (simp add: propose_fix_def Let_def split_beta frame_simps silent_ops)
next
  case (Some r)
  then show ?thesis by (simp add: propose_fix_def Let_def frame_simps silent_ops)
qed

lemma run_and_report_silent: "silent s (snd (run_and_report env i a d s))"
  by (auto simp: run_and_report_def execute_workflow_def silent_def emit_defs Let_def frame_simps split: sum.splits)

lemma roll_back_silent: "silent s (snd (roll_back env i a r d s))"
  by (auto simp: roll_back_def silent_def emit_defs Let_def frame_simps split: sum.splits)

lemma run_l5_silent: "silent s (snd (run_l5 env i a d s))"
proof -
  have "silent s (log_call c' (log_call c s))" for c c' by (simp add: silent_def frame_simps)
  from silent_trans [OF this roll_back_silent] show ?thesis
    by (auto simp: run_l5_def execute_workflow_def emit_defs Let_def frame_simps silent_def split: sum.splits)
qed

lemma close_trigger_silent: "silent s (snd r) \<Longrightarrow> silent s (snd (close_trigger r))"
  by (simp add: close_trigger_def split_beta silent_def frame_simps)

lemma close_trigger_calls [simp]: "hs_calls (snd (close_trigger r)) = hs_calls (snd r)"
  by (cases r) (simp add: close_trigger_def frame_simps)

lemma after_approval_silent: "silent s (snd (after_approval env i a answer d s))"
  by (auto simp: after_approval_def run_and_report_silent split: sum.splits)

lemma notify_silent: "silent s (snd (notify_l1 env i a d s))"
  by (simp add: notify_l1_def detect_frame)

lemma suggest_silent: "silent s (snd (suggest_l2 env i a d s))"
  by (simp add: suggest_l2_def propose_fix_frame)

text \<open>The payload of the card a trigger at level 3 waits for.\<close>

definition approval_payload :: "incident_input \<Rightarrow> heal_action \<Rightarrow> obj" where
  "approval_payload i a =
     [(''incident_id'', VString (ii_incident_id i)), (''action'', VString (ac_id a)),
      (''workflow'', VString (ac_workflow_ref a))]"

text \<open>Running a level: what changes besides saved decisions and announcements.\<close>

lemma run_level_frame:
  "(silent s (snd (run_level env i a d s)) \<or>
    hd_level d = LevelL3 \<and> \<not> ii_synthetic i \<and>
    (\<exists>c t. silent s t \<and> approval_payload i a \<in> set (hs_cards t) \<and>
       snd (run_level env i a d s) =
         t\<lparr>hs_waiting := hs_waiting s @ [(i, a, d\<lparr>hd_approval_id := c, hd_outcome := HealWaitingApproval\<rparr>)]\<rparr>)) \<and>
   (hs_calls (snd (run_level env i a d s)) \<noteq> hs_calls s \<longrightarrow>
      hd_level d = LevelL4 \<or> hd_level d = LevelL5 \<and> ac_reversible a)"
proof (cases "hd_level d")
  case LevelL1
  then show ?thesis using detect_frame
    by (auto simp: run_level_def notify_silent notify_l1_def intro: close_trigger_silent)
next
  case LevelL2
  then show ?thesis using propose_fix_frame
    by (auto simp: run_level_def suggest_silent suggest_l2_def intro: close_trigger_silent)
next
  case LevelL3
  show ?thesis
  proof (cases "ii_synthetic i")
    case True
    with LevelL3 show ?thesis
      by (auto simp: run_level_def ask_approval_def close_trigger_def silent_def emit_defs Let_def frame_simps)
  next
    case False
    obtain c eo t where t: "create_card env (approval_payload i a) s = ((c, eo), t)"
      by (metis surj_pair)
    then have silent: "silent s t" "approval_payload i a \<in> set (hs_cards t)" "hs_calls t = hs_calls s"
      "hs_waiting t = hs_waiting s"
      using create_card_simps [of env "approval_payload i a" s] by (auto simp: silent_def)
    show ?thesis
    proof (cases eo)
      case None
      with LevelL3 False t have "snd (run_level env i a d s) =
          t\<lparr>hs_waiting := hs_waiting s @ [(i, a, d\<lparr>hd_approval_id := c, hd_outcome := HealWaitingApproval\<rparr>)]\<rparr>"
        by (simp add: run_level_def ask_approval_def approval_payload_def [symmetric] silent(4))
      with LevelL3 False silent show ?thesis by auto
    next
      case (Some e)
      with LevelL3 False t silent show ?thesis
        by (auto simp: run_level_def ask_approval_def approval_payload_def [symmetric] intro!: close_trigger_silent)
    qed
  qed
next
  case LevelL4
  then show ?thesis by (auto simp: run_level_def run_l4_def run_and_report_silent intro: close_trigger_silent)
next
  case LevelL5
  then have "silent s (snd (run_level env i a d s))"
    by (auto simp: run_level_def run_l5_silent intro: close_trigger_silent)
  moreover have "hs_calls (snd (run_level env i a d s)) = hs_calls s" if "\<not> ac_reversible a"
    using LevelL5 that by (simp add: run_level_def run_l5_def)
  ultimately show ?thesis using LevelL5 by auto
next
  case (LevelOther l)
  then show ?thesis by (auto simp: run_level_def intro: close_trigger_silent)
qed


section \<open>When workflows run\<close>

text \<open>The decision a trigger reaches before any level runs.\<close>

definition capped :: "heal_env \<Rightarrow> incident_input \<Rightarrow> heal_action \<Rightarrow> envelope \<Rightarrow> heal_state \<Rightarrow> healing_decision" where
  "capped env i a e s =
     cap_by_action a (ii_environment i) (cap_by_envelope e (fresh_decision env (Suc (hs_draws s)) i a e))"

text \<open>The action and the envelope of a trigger that is not refused and not suppressed.\<close>

definition admitted :: "heal_env \<Rightarrow> incident_input \<Rightarrow> heal_state \<Rightarrow> heal_action \<Rightarrow> envelope \<Rightarrow> bool" where
  "admitted env i s a e \<longleftrightarrow>
     ii_incident_id i \<noteq> [] \<and> pick_action (hs_store s) (ii_suggested_actions i) = Some a \<and>
     get_envelope (he_pick env (hs_draws s)) (ii_capability i) (ii_environment i) (ii_criticality i) (hs_store s) = Some e \<and>
     \<not> kill_switch (ii_workspace_id i) (hs_store s)"

text \<open>How many triggers of the envelope the last hour has seen, with the one at hand.\<close>

definition recent_triggers :: "heal_env \<Rightarrow> envelope \<Rightarrow> heal_state \<Rightarrow> int" where
  "recent_triggers env e s =
     int (length (filter (\<lambda>t. t > he_now env (hs_draws s + 3) - hour_ns) (list_at (hp_buckets (hs_store s)) (en_id e)))) + 1"

definition over_limit :: "heal_env \<Rightarrow> envelope \<Rightarrow> heal_state \<Rightarrow> bool" where
  "over_limit env e s \<longleftrightarrow> en_max_actions_per_hour e > 0 \<and> recent_triggers env e s > en_max_actions_per_hour e"

definition counted :: "heal_env \<Rightarrow> envelope \<Rightarrow> heal_state \<Rightarrow> heal_state" where
  "counted env e s = snd (rate_limit env e (s\<lparr>hs_draws := hs_draws s + 3\<rparr>))"

lemma counted_frame:
  "hs_calls (counted env e s) = hs_calls s \<and> hs_waiting (counted env e s) = hs_waiting s \<and>
   hs_cards (counted env e s) = hs_cards s \<and> hs_draws s \<le> hs_draws (counted env e s) \<and>
   hp_actions (hs_store (counted env e s)) = hp_actions (hs_store s) \<and>
   list_at (hp_buckets (hs_store (counted env e s))) x =
     (if en_max_actions_per_hour e > 0 \<and> x = en_id e
      then filter (\<lambda>t. t > he_now env (hs_draws s + 3) - hour_ns) (list_at (hp_buckets (hs_store s)) x) @
             [he_now env (hs_draws s + 3)]
      else list_at (hp_buckets (hs_store s)) x)"
  by (simp add: counted_def rate_limit_def track_invocation_def Let_def list_at_update)

lemma limit_alt: "fst (rate_limit env e (s\<lparr>hs_draws := hs_draws s + 3\<rparr>)) = over_limit env e s"
  by (simp add: rate_limit_def track_invocation_def over_limit_def recent_triggers_def Let_def)
    linarith

text \<open>What a trigger does, by cases.\<close>

lemma trigger_start_cases:
  obtains (refused) "silent s (snd (trigger_start env i s))" "hs_calls (snd (trigger_start env i s)) = hs_calls s"
      "\<And>a e. \<not> admitted env i s a e"
  | (blocked) a e where "admitted env i s a e" "over_limit env e s"
      "silent (counted env e s) (snd (trigger_start env i s))"
      "hs_calls (snd (trigger_start env i s)) = hs_calls s"
  | (runs) a e t where "admitted env i s a e" "\<not> over_limit env e s" "silent (counted env e s) t"
      "hs_calls t = hs_calls s" "snd (trigger_start env i s) = snd (run_level env i a (capped env i a e s) t)"
proof -
  have stopped: "silent u (snd (decide_stopped env i e b d u))" "hs_calls (snd (decide_stopped env i e b d u)) = hs_calls u" for u e b d
    by (auto simp: decide_stopped_def emit_defs close_trigger_def silent_def frame_simps)
  consider "ii_incident_id i = [] \<or> pick_action (hs_store s) (ii_suggested_actions i) = None \<or>
      get_envelope (he_pick env (hs_draws s)) (ii_capability i) (ii_environment i) (ii_criticality i) (hs_store s) = None"
    | a e where "ii_incident_id i \<noteq> []" "pick_action (hs_store s) (ii_suggested_actions i) = Some a"
      "get_envelope (he_pick env (hs_draws s)) (ii_capability i) (ii_environment i) (ii_criticality i) (hs_store s) = Some e"
    by fastforce
  then show thesis
  proof cases
    case 1
    then show thesis
      by (intro refused) (auto simp: trigger_start_def admitted_def silent_def split: option.splits)
  next
    case (2 a e)
    then have start: "trigger_start env i s = decide_trigger env i a e (s\<lparr>hs_draws := Suc (hs_draws s)\<rparr>)"
      by (simp add: trigger_start_def)
    show thesis
    proof (cases "kill_switch (ii_workspace_id i) (hs_store s)")
      case True
      have "silent s (s\<lparr>hs_draws := Suc (Suc (Suc (hs_draws s)))\<rparr>)" by (simp add: silent_def)
      from silent_trans [OF this stopped(1)] stopped(2) True start 2 show thesis
        by (intro refused) (auto simp: decide_trigger_def admitted_def Let_def)
    next
      case False
      with 2 have ad: "admitted env i s a e" by (simp add: admitted_def)
      obtain b u where bu: "rate_limit env e (s\<lparr>hs_draws := hs_draws s + 3\<rparr>) = (b, u)" by fastforce
      then have b: "b = over_limit env e s" and u: "u = counted env e s"
        using limit_alt [of env e s] by (simp_all add: counted_def)
      have u_calls: "hs_calls u = hs_calls s" using counted_frame [of env e s] by (simp add: u)
      have bu': "rate_limit env e (s\<lparr>hs_draws := Suc (Suc (Suc (hs_draws s)))\<rparr>) = (b, u)"
        using bu by (simp add: eval_nat_numeral)
      let ?d = "capped env i a e s"
      show thesis
      proof (cases b)
        case True
        with start False bu' have "trigger_start env i s = decide_stopped env i e False
            (?d\<lparr>hd_outcome := HealBlockedByLimits, hd_reason := ''rate_limit''\<rparr>) u"
          by (simp add: decide_trigger_def Let_def capped_def)
        with True ad b u u_calls stopped show thesis by (intro blocked) auto
      next
        case nb: False
        let ?t = "emit_level_decided env i ?d (hd_reason ?d) (emit_triggered env i ?d e False u)"
        have "trigger_start env i s = run_level env i a ?d ?t"
          using nb start False bu' by (simp add: decide_trigger_def Let_def capped_def)
        moreover have "silent u ?t" "hs_calls ?t = hs_calls s"
          using u_calls by (simp_all add: silent_def emit_defs frame_simps)
        ultimately show thesis using ad nb b u by (intro runs [of a e ?t]) auto
      qed
    qed
  qed
qed

lemma fold_highest:
  "fold (\<lambda>l best. if level_rank l > level_rank best then l else best) ls b \<in> insert b (set ls)"
  by (rule fold_keeps) auto

lemma highest_allowed_in: "highest_allowed ls = LevelL1 \<or> highest_allowed ls \<in> set ls"
  using fold_highest [of ls LevelL1] by (auto simp: highest_allowed_def)

lemma level_allowed_iff: "level_allowed ls l \<longleftrightarrow> l \<in> set ls"
  by (auto simp: level_allowed_def list_ex_iff)

lemma capped_level:
  "hd_level (capped env i a e s) = LevelL1 \<or>
   hd_level (capped env i a e s) \<in> set (if list_at (ac_allowed_levels a) (ii_environment i) = []
     then en_allowed_levels e else list_at (ac_allowed_levels a) (ii_environment i))"
  using highest_allowed_in [of "en_allowed_levels e"] highest_allowed_in [of "list_at (ac_allowed_levels a) (ii_environment i)"]
  by (auto simp: capped_def cap_by_action_def cap_by_envelope_def level_allowed_iff Let_def)

text \<open>What every operation keeps: actions are filed under their identifiers, and a trigger that waits
  is at level 3, is no exercise, and has a card that asks for its approval.\<close>

definition heal_ok :: "heal_state \<Rightarrow> bool" where
  "heal_ok s \<longleftrightarrow>
     (\<forall>x a. get_action x (hs_store s) = Some a \<longrightarrow> ac_id a = x) \<and>
     (\<forall>(i, a, d) \<in> set (hs_waiting s).
        hd_level d = LevelL3 \<and> \<not> ii_synthetic i \<and> approval_payload i a \<in> set (hs_cards s))"

lemma heal_ok_new: "heal_ok new_heal_state"
  by (simp add: heal_ok_def new_heal_state_def new_heal_store_def get_action_def)

lemma heal_ok_silent: "heal_ok s \<Longrightarrow> silent s t \<Longrightarrow> heal_ok t"
  by (fastforce simp: heal_ok_def silent_def get_action_def)

lemma heal_ok_counted: "heal_ok s \<Longrightarrow> heal_ok (counted env e s)"
  using counted_frame [of env e s "[]"] by (simp add: heal_ok_def get_action_def)

lemma heal_ok_actions:
  assumes "heal_ok s" "hs_waiting t = hs_waiting s" "hs_cards t = hs_cards s"
    "\<And>x a. get_action x (hs_store t) = Some a \<Longrightarrow> ac_id a = x"
  shows "heal_ok t"
  using assms by (simp add: heal_ok_def)

lemma get_action_set: "get_action x (set_action a st) = (if x = ac_id a then Some a else get_action x st)"
  by (simp add: get_action_def set_action_def store_simps)

lemma promotion_checkD:
  assumes "promotion_check q st = Inr a"
  shows "get_action (pq_action_id q) st = Some a" "pq_platform_admin_ok q" "pq_security_ok q"
    "pq_target_level q \<in> {LevelL4, LevelL5}"
    "float_95 \<le> pm_eval_pass_rate (get_promotion_stats (pq_action_id q) (pq_environment q) st)"
    "20 \<le> pm_successful_runs (get_promotion_stats (pq_action_id q) (pq_environment q) st)"
    "30 \<le> pm_days_since_postmortem (get_promotion_stats (pq_action_id q) (pq_environment q) st)"
  using assms by (auto simp: promotion_check_def Let_def split: if_splits option.splits)

lemma review_silent:
  "silent s (snd (review_suggestion i verb reason s)) \<and> hs_calls (snd (review_suggestion i verb reason s)) = hs_calls s"
  by (auto simp: review_suggestion_def silent_def frame_simps split: option.splits)

text \<open>The answer to a wait: the trigger leaves the list, the rest is silent.\<close>

lemma resume_cases:
  assumes "k < length (hs_waiting s)" "hs_waiting s ! k = (i, a, d)"
  obtains t where "t = s\<lparr>hs_waiting := take k (hs_waiting s) @ drop (Suc k) (hs_waiting s)\<rparr>"
    "silent t (resume_trigger env k answer s)"
    "answer \<noteq> Inr True \<Longrightarrow> hs_calls (resume_trigger env k answer s) = hs_calls s"
proof -
  let ?t = "s\<lparr>hs_waiting := take k (hs_waiting s) @ drop (Suc k) (hs_waiting s)\<rparr>"
  have "resume_trigger env k answer s = snd (close_trigger (after_approval env i a answer d ?t))"
    using assms by (simp add: resume_trigger_def)
  moreover have "silent ?t (snd (close_trigger (after_approval env i a answer d ?t)))"
    by (rule close_trigger_silent) (rule after_approval_silent)
  moreover have "hs_calls (snd (after_approval env i a answer d ?t)) = hs_calls s" if "answer \<noteq> Inr True"
    using that by (auto simp: after_approval_def split: sum.splits)
  ultimately show thesis using that [of ?t] by simp
qed

lemma resume_none: "\<not> k < length (hs_waiting s) \<Longrightarrow> resume_trigger env k answer s = s"
  by (simp add: resume_trigger_def)

lemma resume_frame:
  "hp_buckets (hs_store (resume_trigger env k answer s)) = hp_buckets (hs_store s) \<and>
   hs_draws s \<le> hs_draws (resume_trigger env k answer s) \<and>
   hp_actions (hs_store (resume_trigger env k answer s)) = hp_actions (hs_store s)"
proof (cases "k < length (hs_waiting s)")
  case True
  obtain i a d where w: "hs_waiting s ! k = (i, a, d)" using prod_cases3 by blast
  obtain t where "t = s\<lparr>hs_waiting := take k (hs_waiting s) @ drop (Suc k) (hs_waiting s)\<rparr>"
    "silent t (resume_trigger env k answer s)" using resume_cases [OF True w] by metis
  then show ?thesis by (simp add: silent_def)
qed (simp add: resume_none)

lemma heal_ok_resume: "heal_ok s \<Longrightarrow> heal_ok (resume_trigger env k answer s)"
proof (cases "k < length (hs_waiting s)")
  case True
  assume ok: "heal_ok s"
  obtain i a d where w: "hs_waiting s ! k = (i, a, d)" using prod_cases3 by blast
  obtain t where t: "t = s\<lparr>hs_waiting := take k (hs_waiting s) @ drop (Suc k) (hs_waiting s)\<rparr>"
    "silent t (resume_trigger env k answer s)" using resume_cases [OF True w] by metis
  have "heal_ok t" using ok by (auto simp: heal_ok_def t(1) dest: in_set_takeD in_set_dropD)
  with t(2) show ?thesis by (rule heal_ok_silent [rotated])
qed (simp add: resume_none)

lemma heal_ok_trigger: "heal_ok s \<Longrightarrow> heal_ok (snd (trigger_start env i s))"
proof -
  assume ok: "heal_ok s"
  show ?thesis
  proof (cases env i s rule: trigger_start_cases)
    case refused
    then show ?thesis using ok heal_ok_silent by blast
  next
    case (blocked a e)
    then show ?thesis using ok heal_ok_counted heal_ok_silent by blast
  next
    case (runs a e t)
    have t: "heal_ok t" using runs(3) ok heal_ok_counted heal_ok_silent by blast
    let ?d = "capped env i a e s"
    consider "silent t (snd (run_level env i a ?d t))"
      | c u where "hd_level ?d = LevelL3" "\<not> ii_synthetic i" "silent t u" "approval_payload i a \<in> set (hs_cards u)"
        "snd (run_level env i a ?d t) =
           u\<lparr>hs_waiting := hs_waiting t @ [(i, a, ?d\<lparr>hd_approval_id := c, hd_outcome := HealWaitingApproval\<rparr>)]\<rparr>"
      using run_level_frame [of t env i a ?d] by blast
    then show ?thesis
    proof cases
      case 1
      then show ?thesis using heal_ok_silent t runs(5) by metis
    next
      case (2 c u)
      have "heal_ok u" using t 2(3) by (rule heal_ok_silent)
      moreover have "hs_waiting u = hs_waiting t" using 2(3) by (simp add: silent_def)
      ultimately show ?thesis using 2 runs(5) by (simp add: heal_ok_def get_action_def)
    qed
  qed
qed

lemma heal_step_ok: "heal_ok s \<Longrightarrow> heal_ok (heal_step env op s)"
proof -
  assume ok: "heal_ok s"
  have same: "heal_ok t" if "hs_waiting t = hs_waiting s" "hs_cards t = hs_cards s"
    "hp_actions (hs_store t) = hp_actions (hs_store s)" for t
    using ok that by (simp add: heal_ok_def get_action_def)
  show ?thesis
  proof (cases op)
    case (OpSetEnvelope e)
    then show ?thesis by (intro same) (simp_all add: put_envelope_def Let_def frame_simps)
  next
    case (OpSetAction a)
    then show ?thesis using ok
      by (intro heal_ok_actions [OF ok]) (auto simp: frame_simps get_action_set heal_ok_def split: if_splits)
  next
    case (OpSetStats x en m)
    then show ?thesis by (intro same) (simp_all add: frame_simps)
  next
    case (OpKillSwitch ws b actor reason)
    then show ?thesis by (intro same) (simp_all add: toggle_kill_switch_def frame_simps)
  next
    case (OpPromote q)
    show ?thesis
    proof (cases "promotion_check q (hs_store s)")
      case (Inr a)
      then have "ac_id a = pq_action_id q" using ok promotion_checkD(1) by (fastforce simp: heal_ok_def)
      with OpPromote Inr ok show ?thesis
        by (intro heal_ok_actions [OF ok])
          (auto simp: promote_action_def frame_simps get_action_set heal_ok_def Let_def split: if_splits)
    qed (use OpPromote ok in \<open>simp add: promote_action_def\<close>)
  next
    case (OpDetect i)
    then show ?thesis using ok detect_frame heal_ok_silent by fastforce
  next
    case (OpPropose i)
    then show ?thesis using ok propose_fix_frame heal_ok_silent by fastforce
  next
    case (OpReview i verb reason)
    then show ?thesis using ok review_silent heal_ok_silent by fastforce
  next
    case (OpTrigger i)
    then show ?thesis using ok heal_ok_trigger by simp
  next
    case (OpAnswer k answer)
    then show ?thesis using ok heal_ok_resume by simp
  qed
qed

interpretation engine: op_machine "heal_step env" heal_ok
  by unfold_locales (rule heal_step_ok)

text \<open>The operations that neither start nor resume a trigger.\<close>

lemma plain_step:
  assumes "\<And>i. op \<noteq> OpTrigger i" "\<And>k answer. op \<noteq> OpAnswer k answer"
  shows "hp_buckets (hs_store (heal_step env op s)) = hp_buckets (hs_store s) \<and>
    hs_draws s \<le> hs_draws (heal_step env op s) \<and> hs_calls (heal_step env op s) = hs_calls s"
proof (cases op)
  case (OpSetEnvelope e)
  then show ?thesis by (simp add: put_envelope_def Let_def frame_simps)
next
  case (OpKillSwitch ws b actor reason)
  then show ?thesis by (simp add: toggle_kill_switch_def frame_simps)
next
  case (OpPromote q)
  then show ?thesis by (cases "promotion_check q (hs_store s)") (simp_all add: promote_action_def Let_def frame_simps)
next
  case (OpDetect i)
  then show ?thesis using detect_frame [of s env i] by (simp add: silent_def)
next
  case (OpPropose i)
  then show ?thesis using propose_fix_frame [of s env i] by (simp add: silent_def)
next
  case (OpReview i verb reason)
  then show ?thesis using review_silent [of s i verb reason] by (simp add: silent_def)
qed (use assms in \<open>simp_all add: frame_simps\<close>)

lemma run_level_buckets:
  "hp_buckets (hs_store (snd (run_level env i a d t))) = hp_buckets (hs_store t) \<and>
   hp_actions (hs_store (snd (run_level env i a d t))) = hp_actions (hs_store t) \<and>
   hs_draws t \<le> hs_draws (snd (run_level env i a d t))"
proof -
  consider "silent t (snd (run_level env i a d t))"
    | u w where "silent t u" "snd (run_level env i a d t) = u\<lparr>hs_waiting := w\<rparr>"
    using run_level_frame [of t env i a d] by blast
  then show ?thesis by cases (auto simp: silent_def)
qed

lemma trigger_actions: "hp_actions (hs_store (snd (trigger_start env i s))) = hp_actions (hs_store s)"
proof (cases env i s rule: trigger_start_cases)
  case refused
  then show ?thesis by (simp add: silent_def)
next
  case (blocked a e)
  then show ?thesis using counted_frame [of env e s] by (simp add: silent_def)
next
  case (runs a e t)
  then show ?thesis using counted_frame [of env e s] run_level_buckets [of env i a "capped env i a e s" t]
    by (simp add: silent_def)
qed

text \<open>C37: in every reachable state an operation makes the engine run a workflow only in two ways. A
  trigger does, if no kill switch is thrown, the rate limit leaves room and the level is L4, or L5 for a
  reversible action, and is one the action allows in the environment (or the envelope, when the action
  names none). Or the approval of a waiting trigger does, which is at level 3, is no exercise and asked
  for the approval.\<close>

theorem workflows_run_only_when_allowed:
  assumes "s = fold (heal_step env) ops new_heal_state"
    and "hs_calls (heal_step env op s) \<noteq> hs_calls s"
  shows "(\<exists>i a e. op = OpTrigger i \<and> admitted env i s a e \<and> \<not> over_limit env e s \<and>
      (hd_level (capped env i a e s) = LevelL4 \<or> hd_level (capped env i a e s) = LevelL5 \<and> ac_reversible a) \<and>
      hd_level (capped env i a e s) \<in> set (if list_at (ac_allowed_levels a) (ii_environment i) = []
        then en_allowed_levels e else list_at (ac_allowed_levels a) (ii_environment i))) \<or>
    (\<exists>k i a d. op = OpAnswer k (Inr True) \<and> k < length (hs_waiting s) \<and> hs_waiting s ! k = (i, a, d) \<and>
      hd_level d = LevelL3 \<and> \<not> ii_synthetic i \<and> approval_payload i a \<in> set (hs_cards s))"
proof -
  have ok: "heal_ok s" unfolding assms(1) by (rule engine.run_inv) (rule heal_ok_new)
  show ?thesis
  proof (cases op)
    case (OpTrigger i)
    with assms(2) have calls: "hs_calls (snd (trigger_start env i s)) \<noteq> hs_calls s" by simp
    show ?thesis
    proof (cases env i s rule: trigger_start_cases)
      case (runs a e t)
      with calls run_level_frame [of t env i a "capped env i a e s"]
      have "hd_level (capped env i a e s) = LevelL4 \<or> hd_level (capped env i a e s) = LevelL5 \<and> ac_reversible a"
        by auto
      moreover from this capped_level [of env i a e s]
      have "hd_level (capped env i a e s) \<in> set (if list_at (ac_allowed_levels a) (ii_environment i) = []
          then en_allowed_levels e else list_at (ac_allowed_levels a) (ii_environment i))"
        by (elim disjE) auto
      ultimately show ?thesis using runs(1,2) OpTrigger by blast
    qed (use calls in auto)
  next
    case (OpAnswer k answer)
    with assms(2) have k: "k < length (hs_waiting s)" by (cases "k < length (hs_waiting s)") (simp_all add: resume_none)
    obtain i a d where w: "hs_waiting s ! k = (i, a, d)" using prod_cases3 by blast
    from resume_cases [OF k w, of env answer] have "answer = Inr True" using assms(2) OpAnswer by auto
    moreover have "(i, a, d) \<in> set (hs_waiting s)" using nth_mem [OF k] w by simp
    ultimately show ?thesis using OpAnswer k w ok by (fastforce simp: heal_ok_def)
  qed (use assms(2) plain_step [of op env s] in auto)
qed

section \<open>What the rate limit counts\<close>

text \<open>Whether an operation is a trigger that reaches the limit of the envelope \<open>x\<close>, and the times of
  those along a run.\<close>

definition reaches_limit :: "heal_env \<Rightarrow> string \<Rightarrow> heal_op \<Rightarrow> heal_state \<Rightarrow> bool" where
  "reaches_limit env x op s \<longleftrightarrow>
     (\<exists>i a e. op = OpTrigger i \<and> admitted env i s a e \<and> en_max_actions_per_hour e > 0 \<and> en_id e = x)"

fun trigger_times :: "heal_env \<Rightarrow> string \<Rightarrow> heal_op list \<Rightarrow> heal_state \<Rightarrow> gotime list" where
  "trigger_times env x [] s = []"
| "trigger_times env x (op # ops) s =
     (if reaches_limit env x op s then [he_now env (hs_draws s + 3)] else []) @
     trigger_times env x ops (heal_step env op s)"

lemma trigger_times_snoc:
  "trigger_times env x (ops @ [op]) s =
     trigger_times env x ops s @
     (let t = fold (heal_step env) ops s in if reaches_limit env x op t then [he_now env (hs_draws t + 3)] else [])"
  by (induction ops arbitrary: s) (simp_all add: Let_def)

lemma admitted_unique: "admitted env i s a e \<Longrightarrow> admitted env i s a' e' \<Longrightarrow> a' = a \<and> e' = e"
  by (simp add: admitted_def)

lemma reaches_limit_other: "(\<And>i. op \<noteq> OpTrigger i) \<Longrightarrow> \<not> reaches_limit env x op s"
  by (simp add: reaches_limit_def)

lemma reaches_iff:
  assumes "admitted env i s a e"
  shows "reaches_limit env x (OpTrigger i) s \<longleftrightarrow> en_max_actions_per_hour e > 0 \<and> en_id e = x"
  using assms admitted_unique [OF assms] unfolding reaches_limit_def by blast

lemma bucket_step:
  "list_at (hp_buckets (hs_store (heal_step env op s))) x =
     (if reaches_limit env x op s
      then filter (\<lambda>t. t > he_now env (hs_draws s + 3) - hour_ns) (list_at (hp_buckets (hs_store s)) x) @
             [he_now env (hs_draws s + 3)]
      else list_at (hp_buckets (hs_store s)) x)"
proof (cases op)
  case (OpTrigger i)
  have eff: ?thesis if "admitted env i s a e" "silent (counted env e s) t"
    "hp_buckets (hs_store (snd (trigger_start env i s))) = hp_buckets (hs_store t)" for a e t
    using OpTrigger that counted_frame [of env e s x] reaches_iff [OF that(1), of x]
    by (simp add: silent_def eq_commute)
  show ?thesis
  proof (cases env i s rule: trigger_start_cases)
    case refused
    then show ?thesis using OpTrigger by (auto simp: reaches_limit_def silent_def)
  next
    case (blocked a e)
    from eff [OF blocked(1,3)] show ?thesis by simp
  next
    case (runs a e t)
    from eff [OF runs(1,3)] runs(5) run_level_buckets [of env i a _ t] show ?thesis by simp
  qed
next
  case (OpAnswer k answer)
  then show ?thesis using resume_frame [of env k answer s] by (simp add: reaches_limit_other)
qed (use plain_step [of op env s] in \<open>simp_all add: reaches_limit_other\<close>)

lemma draws_step:
  "hs_draws s \<le> hs_draws (heal_step env op s) \<and>
   (reaches_limit env x op s \<longrightarrow> hs_draws s + 3 \<le> hs_draws (heal_step env op s))"
proof (cases op)
  case (OpTrigger i)
  have count: "hs_draws (counted env e s) = hs_draws s + (if en_max_actions_per_hour e > 0 then 4 else 3)" for e
    by (simp add: counted_def rate_limit_def Let_def split: prod.splits)
  show ?thesis
  proof (cases env i s rule: trigger_start_cases)
    case refused
    then show ?thesis using OpTrigger by (auto simp: reaches_limit_def silent_def)
  next
    case (blocked a e)
    then show ?thesis using OpTrigger count [of e] by (auto simp: silent_def split: if_splits)
  next
    case (runs a e t)
    then show ?thesis using OpTrigger count [of e] run_level_buckets [of env i a "capped env i a e s" t]
      by (auto simp: silent_def split: if_splits)
  qed
next
  case (OpAnswer k answer)
  then show ?thesis using resume_frame [of env k answer s] by (simp add: reaches_limit_other)
qed (use plain_step [of op env s] in \<open>simp_all add: reaches_limit_other\<close>)

lemma bucket_counts:
  assumes "mono (he_now env)" "he_now env (hs_draws (fold (heal_step env) ops new_heal_state)) \<le> now"
  shows "filter (\<lambda>t. t > now - hour_ns) (list_at (hp_buckets (hs_store (fold (heal_step env) ops new_heal_state))) x) =
    filter (\<lambda>t. t > now - hour_ns) (trigger_times env x ops new_heal_state)"
  using assms(2)
proof (induction ops rule: rev_induct)
  case Nil
  then show ?case by (simp add: new_heal_state_def new_heal_store_def)
next
  case (snoc op ops)
  let ?s = "fold (heal_step env) ops new_heal_state"
  have mono: "a \<le> b \<Longrightarrow> he_now env a \<le> he_now env b" for a b using assms(1) by (rule monoD)
  have "he_now env (hs_draws ?s) \<le> now"
    using snoc.prems mono [of "hs_draws ?s"] draws_step [of ?s env op x] by fastforce
  note IH = snoc.IH [OF this]
  show ?case
  proof (cases "reaches_limit env x op ?s")
    case True
    then have "he_now env (hs_draws ?s + 3) \<le> now"
      using snoc.prems mono [of "hs_draws ?s + 3"] draws_step [of ?s env op x] by fastforce
    then have "filter (\<lambda>t. t > now - hour_ns) (filter (\<lambda>t. t > he_now env (hs_draws ?s + 3) - hour_ns) B) =
        filter (\<lambda>t. t > now - hour_ns) B" for B :: "int list"
      by (auto simp: filter_filter intro: filter_cong)
    with IH True show ?thesis by (simp add: bucket_step trigger_times_snoc Let_def)
  next
    case False
    with IH show ?thesis by (simp add: bucket_step trigger_times_snoc Let_def)
  qed
qed

lemma run_level_outcome:
  "fst (run_level env i a d s) = Decided d' \<Longrightarrow> hd_outcome d' \<noteq> HealBlockedByLimits"
  by (cases "hd_level d")
    (auto simp: run_level_def close_trigger_def notify_l1_def suggest_l2_def run_l4_def run_l5_def roll_back_def
      run_and_report_def ask_approval_def Let_def split: sum.splits prod.splits option.splits if_splits bool.splits)

lemma admitted_blocked:
  assumes "admitted env i s a e"
  shows "(\<exists>d. fst (trigger_start env i s) = Decided d \<and> hd_outcome d = HealBlockedByLimits) \<longleftrightarrow> over_limit env e s"
proof -
  obtain b u where bu: "rate_limit env e (s\<lparr>hs_draws := Suc (Suc (Suc (hs_draws s)))\<rparr>) = (b, u)" by fastforce
  have b: "b = over_limit env e s" using limit_alt [of env e s] bu by (simp add: eval_nat_numeral)
  have start: "trigger_start env i s = decide_trigger env i a e (s\<lparr>hs_draws := Suc (hs_draws s)\<rparr>)"
    "\<not> kill_switch (ii_workspace_id i) (hs_store s)"
    using assms by (simp_all add: admitted_def trigger_start_def)
  show ?thesis
  proof (cases b)
    case True
    with start bu b show ?thesis by (simp add: decide_trigger_def decide_stopped_def close_trigger_def Let_def)
  next
    case False
    with start bu b show ?thesis using run_level_outcome by (auto simp: decide_trigger_def Let_def)
  qed
qed

text \<open>C38: on a monotone clock the rate limit is exact: a trigger that reaches the limit of its envelope is
  answered blocked exactly when at least as many triggers as the envelope allows per hour have reached
  that limit within the last hour, the blocked ones included.\<close>

theorem rate_limit_exact:
  assumes "mono (he_now env)"
    and "s = fold (heal_step env) ops new_heal_state"
    and "admitted env i s a e" and "en_max_actions_per_hour e > 0"
  shows "(\<exists>d. fst (trigger_start env i s) = Decided d \<and> hd_outcome d = HealBlockedByLimits) \<longleftrightarrow>
    en_max_actions_per_hour e \<le> int (length (filter (\<lambda>t. t > he_now env (hs_draws s + 3) - hour_ns)
      (trigger_times env (en_id e) ops new_heal_state)))"
proof -
  have "he_now env (hs_draws s) \<le> he_now env (hs_draws s + 3)" using assms(1) by (rule monoD) simp
  from bucket_counts [OF assms(1), of ops, folded assms(2), OF this]
  show ?thesis using assms(4) by (simp add: admitted_blocked [OF assms(3)] over_limit_def recent_triggers_def)
qed

section \<open>How levels are granted\<close>

text \<open>C39: in every reachable state the record of an action changes only when it is set anew or when it is
  promoted; a promotion needs both approvals, a pass rate of at least 95 percent, 20 successful runs and
  30 days without a postmortem, and adds exactly the requested level, L4 or L5, in the requested
  environment.\<close>

theorem levels_granted_by_promotion:
  assumes "s = fold (heal_step env) ops new_heal_state"
    and "get_action x (hs_store (heal_step env op s)) \<noteq> get_action x (hs_store s)"
  shows "(\<exists>a. op = OpSetAction a \<and> ac_id a = x) \<or>
    (\<exists>q a m. op = OpPromote q \<and> pq_action_id q = x \<and> get_action x (hs_store s) = Some a \<and>
      m = get_promotion_stats x (pq_environment q) (hs_store s) \<and> pq_platform_admin_ok q \<and> pq_security_ok q \<and>
      pq_target_level q \<in> {LevelL4, LevelL5} \<and> float_95 \<le> pm_eval_pass_rate m \<and>
      20 \<le> pm_successful_runs m \<and> 30 \<le> pm_days_since_postmortem m \<and>
      get_action x (hs_store (heal_step env op s)) =
        Some (a\<lparr>ac_allowed_levels := AList.update (pq_environment q)
          (list_at (ac_allowed_levels a) (pq_environment q) @ [pq_target_level q]) (ac_allowed_levels a)\<rparr>))"
proof -
  have ok: "heal_ok s" unfolding assms(1) by (rule engine.run_inv) (rule heal_ok_new)
  have quiet: "get_action x (hs_store t) = get_action x (hs_store s)" if "silent s t" for t
    using that by (simp add: silent_def get_action_def)
  show ?thesis
  proof (cases op)
    case (OpSetEnvelope e)
    with assms(2) show ?thesis by (simp add: put_envelope_def Let_def frame_simps get_action_def)
  next
    case (OpSetAction a)
    with assms(2) show ?thesis by (simp add: frame_simps get_action_set split: if_splits)
  next
    case (OpSetStats i en m)
    with assms(2) show ?thesis by (simp add: frame_simps get_action_def)
  next
    case (OpKillSwitch ws b actor reason)
    with assms(2) show ?thesis by (simp add: toggle_kill_switch_def frame_simps get_action_def)
  next
    case (OpPromote q)
    show ?thesis
    proof (cases "promotion_check q (hs_store s)")
      case (Inl e)
      with OpPromote assms(2) show ?thesis by (simp add: promote_action_def)
    next
      case (Inr a)
      note check = promotion_checkD [OF Inr]
      have "ac_id a = pq_action_id q" using ok check(1) by (simp add: heal_ok_def)
      with assms(2) OpPromote Inr check show ?thesis
        by (simp add: promote_action_def Let_def frame_simps get_action_set append_level_def split: if_splits)
    qed
  next
    case (OpDetect i)
    with assms(2) quiet detect_frame show ?thesis by (metis heal_step.simps(6))
  next
    case (OpPropose i)
    with assms(2) quiet propose_fix_frame show ?thesis by (metis heal_step.simps(7))
  next
    case (OpReview i verb reason)
    with assms(2) quiet review_silent show ?thesis by (metis heal_step.simps(8))
  next
    case (OpTrigger i)
    with assms(2) trigger_actions show ?thesis by (simp add: get_action_def)
  next
    case (OpAnswer k answer)
    with assms(2) resume_frame show ?thesis by (simp add: get_action_def)
  qed
qed

section \<open>Proposed fixes\<close>

text \<open>The three criteria, without their order and their messages.\<close>

definition safe_fix :: "string list \<Rightarrow> int \<Rightarrow> file_diff list \<Rightarrow> bool" where
  "safe_fix paths budget ds \<longleftrightarrow>
     total_lines ds \<le> budget \<and>
     (\<forall>d \<in> set ds. (\<forall>pp \<in> set paths. \<not> contains_str (fx_path d) pp) \<and>
        (\<forall>pat \<in> set secret_patterns. \<not> contains_str (to_lower (fx_before d @ [CHR 0x0A] @ fx_after d)) pat))"

lemma protected_violation_None:
  "protected_violation paths ds = None \<longleftrightarrow> (\<forall>d \<in> set ds. \<forall>pp \<in> set paths. \<not> contains_str (fx_path d) pp)"
  by (auto simp: protected_violation_def find_None_iff)

lemma secret_violation_None:
  "secret_violation ds = None \<longleftrightarrow>
     (\<forall>d \<in> set ds. \<forall>pat \<in> set secret_patterns. \<not> contains_str (to_lower (fx_before d @ [CHR 0x0A] @ fx_after d)) pat)"
  by (simp add: secret_violation_def find_None_iff) fast

lemma safety_eval_None: "safety_eval fx paths budget = None \<longleftrightarrow> safe_fix paths budget (pf_file_diffs fx)"
  using protected_violation_None [of paths "pf_file_diffs fx"] secret_violation_None [of "pf_file_diffs fx"]
  by (auto simp: safety_eval_def safe_fix_def Let_def split: option.splits)

lemma wrap_total:
  assumes "\<forall>d \<in> set ds. fx_lines_changed d = 2" "0 \<le> t" "t + 2 * int (length ds) < 2 ^ 63"
  shows "fold (\<lambda>d t. wrap64 (t + fx_lines_changed d)) ds t = t + 2 * int (length ds)"
  using assms
proof (induction ds arbitrary: t)
  case (Cons d ds)
  then have "fx_lines_changed d = 2" "0 \<le> t" "t + 2 < 2 ^ 63" by simp_all
  then have "wrap64 (t + fx_lines_changed d) = t + 2" by (simp add: wrap64_id)
  with Cons.IH [of "t + 2"] Cons.prems show ?case by simp
qed simp

lemma synthesised_lines:
  assumes "length (hy_affected_files (px_top_hypothesis i)) < 2 ^ 61"
  shows "total_lines (pf_file_diffs (synthesise_fix fresh i ty)) =
    (if hy_affected_files (px_top_hypothesis i) = [] then 1 else 2 * int (length (hy_affected_files (px_top_hypothesis i))))"
proof -
  have "int (length (hy_affected_files (px_top_hypothesis i))) < int (2 ^ 61)"
    using assms by (simp only: of_nat_less_iff)
  then have "2 * int (length (hy_affected_files (px_top_hypothesis i))) < 2 ^ 63" by simp
  then show ?thesis
    using wrap_total [of "map (patch_file (hy_description (px_top_hypothesis i))) (hy_affected_files (px_top_hypothesis i))" 0]
    by (simp add: total_lines_def synthesise_fix_def Let_def patch_file_def wrap64_id)
qed

text \<open>C40: a proposed fix is stored as pending, and a person is asked to approve it, exactly when it changes
  no more lines than the budget, none of its paths contains an entry of the protected paths as a literal
  substring, and none of its texts contains a secret pattern; every other fix is stored as rejected and
  nobody is asked. The protected paths are not expanded as globs, as the comment of \<open>SafetyEval\<close> says and
  against the scenario of the specification: an entry with a star protects only paths that contain the
  star (\<open>globs_protect_nothing\<close>), so \<open>security/**\<close> lets a fix to \<open>security/x.go\<close> through
  (\<open>glob_protected_fix_presented\<close>).\<close>

theorem fixes_presented_are_safe:
  assumes "px_app_id i \<noteq> []" and "length (hy_affected_files (px_top_hypothesis i)) < 2 ^ 61"
    and "files = hy_affected_files (px_top_hypothesis i)"
    and "changed = (if files = [] then 1 else 2 * int (length files))"
    and "ds = pf_file_diffs (synthesise_fix (he_uuid env (hs_draws s)) i ty)"
    and "safe \<longleftrightarrow> changed \<le> (if px_size_budget i \<le> 0 then 200 else px_size_budget i) \<and>
      (\<forall>d \<in> set ds. (\<forall>pp \<in> set (px_protected_paths i). \<not> contains_str (fx_path d) pp) \<and>
        (\<forall>pat \<in> set secret_patterns. \<not> contains_str (to_lower (fx_before d @ [CHR 0x0A] @ fx_after d)) pat))"
  shows "\<exists>g t. propose_fix env i s = (Inr g, t) \<and> get_suggestion (sg_id g) (hs_store t) = Some g \<and>
    sg_safety_passed g = safe \<and> sg_status g = (if safe then ''pending'' else ''rejected'') \<and>
    (if safe then \<exists>card. hs_cards t = hs_cards s @ [card] \<and> map_of card ''suggestion_id'' = Some (VString (sg_id g))
     else hs_cards t = hs_cards s)"
proof -
  have diffs: "pf_file_diffs (synthesise_fix fresh i ty') = ds" for fresh ty'
    by (simp add: assms(5) synthesise_fix_def Let_def)
  have "safety_eval (synthesise_fix fresh i ty') (px_protected_paths i)
      (if px_size_budget i \<le> 0 then 200 else px_size_budget i) = None \<longleftrightarrow> safe" for fresh ty'
    using synthesised_lines [OF assms(2), of fresh ty']
    unfolding safety_eval_None safe_fix_def diffs assms(3,4,6) by simp
  note safe = this [of "he_uuid env (hs_draws s)" "if px_diff_type i = [] then ''code'' else px_diff_type i"]
  note defs = propose_fix_def Let_def create_card_def frame_simps save_suggestion_def get_suggestion_def store_simps
  show ?thesis
  proof (cases "safety_eval (synthesise_fix (he_uuid env (hs_draws s)) i
      (if px_diff_type i = [] then ''code'' else px_diff_type i)) (px_protected_paths i)
      (if px_size_budget i \<le> 0 then 200 else px_size_budget i)")
    case None
    with safe have "safe" by simp
    with None assms(1) show ?thesis by (simp add: defs)
  next
    case (Some r)
    with safe have "\<not> safe" by simp
    with Some assms(1) show ?thesis by (simp add: defs)
  qed
qed

section \<open>Examples\<close>

definition demo_heal_env :: heal_env where
  "demo_heal_env = \<lparr>he_uuid = show_nat, he_now = int, he_pick = (\<lambda>n. 0), he_execute = (\<lambda>n r p. Inr ''run''),
     he_verify = (\<lambda>n r. Inr True), he_rollback = (\<lambda>n r p. Inr ''rb''), he_create = (\<lambda>n p. (''card'', None))\<rparr>"

definition restart_pod :: "heal_level list \<Rightarrow> heal_action" where
  "restart_pod ls = \<lparr>ac_id = ''restart'', ac_risk = ''low'', ac_reversible = True, ac_blast_radius = ''pod'',
     ac_allowed_levels = [(''prod'', ls)], ac_workflow_ref = ''wf-restart'', ac_runbook_url = [],
     ac_eval_suite_id = [], ac_parameters = []\<rparr>"

definition api_envelope :: "heal_level \<Rightarrow> envelope" where
  "api_envelope l = \<lparr>en_id = [], en_tenant_id = [], en_workspace_id = [], en_capability = ''api'',
     en_asset_pattern = [], en_environment = ''prod'', en_criticality = ''high'', en_default_level = l,
     en_allowed_levels = [l], en_time_windows = [], en_max_actions_per_hour = 1, en_kill_switch = False,
     en_updated_at = 0\<rparr>"

definition outage :: incident_input where
  "outage = \<lparr>ii_incident_id = ''inc-1'', ii_app_id = [], ii_tenant_id = ''acme'', ii_workspace_id = ''ws'',
     ii_service = ''api'', ii_environment = ''prod'', ii_capability = ''api'', ii_criticality = ''high'',
     ii_synthetic = False, ii_signature_hash = [], ii_suggested_actions = [''restart'']\<rparr>"

definition demo_setup :: "heal_op list" where
  "demo_setup = [OpSetAction (restart_pod [LevelL4]), OpSetEnvelope (api_envelope LevelL4)]"

lemma demo_monotone: "mono (he_now demo_heal_env)"
  by (simp add: demo_heal_env_def mono_def)

definition demo_ready :: heal_state where
  "demo_ready = fold (heal_step demo_heal_env) demo_setup new_heal_state"

lemma demo_executes: "hs_calls (heal_step demo_heal_env (OpTrigger outage) demo_ready) \<noteq> hs_calls demo_ready"
  unfolding demo_ready_def by code_simp

theorem workflows_run_only_when_allowed_witness:
  "\<exists>a e. admitted demo_heal_env outage demo_ready a e \<and> \<not> over_limit demo_heal_env e demo_ready"
  using workflows_run_only_when_allowed [OF demo_ready_def demo_executes] by auto

lemma demo_action: "pick_action (hs_store demo_ready) (ii_suggested_actions outage) \<noteq> None"
  unfolding demo_ready_def by code_simp

lemma demo_envelope:
  "map_option (\<lambda>e. (en_max_actions_per_hour e, en_id e)) (get_envelope 0 ''api'' ''prod'' ''high'' (hs_store demo_ready)) =
   Some (1, ''api/prod/high'')"
  unfolding demo_ready_def by code_simp

lemma demo_not_killed: "\<not> kill_switch ''ws'' (hs_store demo_ready)"
  unfolding demo_ready_def by code_simp

theorem rate_limit_exact_witness:
  "\<not> (\<exists>d. fst (trigger_start demo_heal_env outage demo_ready) = Decided d \<and> hd_outcome d = HealBlockedByLimits)"
proof -
  from demo_action demo_envelope demo_not_killed obtain a e where "admitted demo_heal_env outage demo_ready a e"
    "en_max_actions_per_hour e = 1"
    by (auto simp: admitted_def outage_def demo_heal_env_def)
  then show ?thesis
    using rate_limit_exact [OF demo_monotone demo_ready_def, of outage a e]
    by (simp add: demo_setup_def reaches_limit_def)
qed

definition proven :: promotion_metrics where
  "proven = \<lparr>pm_eval_pass_rate = 1, pm_successful_runs = 20, pm_days_since_postmortem = 30\<rparr>"

definition to_l5 :: promotion_request where
  "to_l5 = \<lparr>pq_action_id = ''restart'', pq_environment = ''prod'', pq_target_level = LevelL5,
     pq_requested_by = ''alice'', pq_platform_admin_ok = True, pq_security_ok = True\<rparr>"

lemma demo_promoted:
  "get_action ''restart'' (hs_store (heal_step demo_heal_env (OpPromote to_l5)
     (fold (heal_step demo_heal_env) (demo_setup @ [OpSetStats ''restart'' ''prod'' proven]) new_heal_state))) \<noteq>
   get_action ''restart'' (hs_store
     (fold (heal_step demo_heal_env) (demo_setup @ [OpSetStats ''restart'' ''prod'' proven]) new_heal_state))"
  by code_simp

theorem levels_granted_by_promotion_witness:
  "get_action ''restart'' (hs_store (heal_step demo_heal_env (OpPromote to_l5)
     (fold (heal_step demo_heal_env) (demo_setup @ [OpSetStats ''restart'' ''prod'' proven]) new_heal_state))) =
   Some (restart_pod [LevelL4, LevelL5])"
  using levels_granted_by_promotion [OF refl demo_promoted]
  by (auto simp: to_l5_def restart_pod_def demo_setup_def get_action_def set_action_def frame_simps put_envelope_def
      Let_def set_promotion_stats_def new_heal_state_def new_heal_store_def list_at_def set_envelope_def)

definition leaky :: propose_input where
  "leaky = \<lparr>px_app_id = ''app'', px_tenant_id = [], px_workspace_id = [], px_correlation_id = [],
     px_top_hypothesis = \<lparr>hy_id = ''h'', hy_description = ''set TOKEN=abc'', hy_confidence = 1, hy_evidence = [],
       hy_affected_files = [''main.go'']\<rparr>,
     px_diff_type = [], px_protected_paths = [], px_size_budget = 0\<rparr>"

lemma leaky_flagged:
  "\<not> (\<forall>d \<in> set (pf_file_diffs (synthesise_fix (he_uuid demo_heal_env (hs_draws new_heal_state)) leaky ''code'')).
     \<forall>pat \<in> set secret_patterns. \<not> contains_str (to_lower (fx_before d @ [CHR 0x0A] @ fx_after d)) pat)"
  by code_simp

theorem fixes_presented_are_safe_witness:
  "\<exists>g t. propose_fix demo_heal_env leaky new_heal_state = (Inr g, t) \<and> sg_status g = ''rejected'' \<and> hs_cards t = []"
  using fixes_presented_are_safe [where i = leaky and env = demo_heal_env and s = new_heal_state and ty = "''code''" and safe = False,
      OF _ _ refl refl refl] leaky_flagged
  by (auto simp: leaky_def new_heal_state_def)

section \<open>What the engine does not stop\<close>

text \<open>The levels of the action replace those of the envelope instead of being intersected with them: an
  envelope that allows L1 only runs a workflow at L5 when the action allows nothing but L5.\<close>

lemma action_levels_override_envelope:
  "en_allowed_levels (api_envelope LevelL1) = [LevelL1] \<and>
   hd_level (capped env outage (restart_pod [LevelL5]) (api_envelope LevelL1) s) = LevelL5"
  by (simp add: capped_def cap_by_action_def cap_by_envelope_def fresh_decision_def api_envelope_def restart_pod_def
      outage_def level_allowed_def highest_allowed_def list_at_def Let_def)

text \<open>The kill switch does not reach a trigger that already waits.\<close>

lemma approval_beats_kill_switch:
  "case hs_calls (fold (heal_step demo_heal_env)
     [OpSetAction (restart_pod [LevelL3]), OpSetEnvelope (api_envelope LevelL3), OpTrigger outage,
      OpKillSwitch [] True ''bob'' ''stop'', OpAnswer 0 (Inr True)] new_heal_state) of
     [CallExecute w p] \<Rightarrow> w = ''wf-restart'' | _ \<Rightarrow> False"
  by code_simp

text \<open>Protected paths are compared as they are written. A pattern such as \<open>security/**\<close> matches no
  ordinary path, and a fix below that directory is presented.\<close>

lemma contains_str_chars: "contains_str s sub \<Longrightarrow> set sub \<subseteq> set s"
proof (induction s)
  case (Cons c s)
  then consider t where "c # s = sub @ t" | "contains_str s sub" by (auto dest: has_prefixD)
  then show ?case
  proof cases
    case 1
    then have "set (c # s) = set sub \<union> set t" by simp
    then show ?thesis by blast
  qed (use Cons.IH in auto)
qed simp

lemma globs_protect_nothing:
  "CHR ''*'' \<in> set pp \<Longrightarrow> CHR ''*'' \<notin> set path \<Longrightarrow> \<not> contains_str path pp"
  using contains_str_chars [of path pp] by blast

definition guarded :: propose_input where
  "guarded = leaky\<lparr>px_top_hypothesis := (px_top_hypothesis leaky)\<lparr>hy_description := ''null check'',
     hy_affected_files := [''security/x.go'']\<rparr>, px_protected_paths := [''security/**'']\<rparr>"

lemma glob_protected_fix_presented:
  "map_option (\<lambda>g. (sg_safety_passed g, sg_status g)) (get_suggestion ''sug-4'' (hs_store
     (fold (heal_step demo_heal_env) [OpPropose guarded] new_heal_state))) = Some (True, ''pending'')"
  by code_simp

text \<open>A fix that was refused as unsafe can still be approved.\<close>

lemma unsafe_fix_approved:
  "map_option (\<lambda>g. (sg_safety_passed g, sg_status g)) (get_suggestion ''sug-4'' (hs_store
     (fold (heal_step demo_heal_env) [OpPropose leaky, OpReview ''sug-4'' ''approve'' []] new_heal_state))) =
   Some (False, ''approved'')"
  by code_simp

end
