(* ===== verification/Runtime_Registry.thy ===== *)
theory Runtime_Registry
  imports Deploy_Service
begin

text \<open>
  The runtime registry (\<open>types.go\<close>, \<open>service.go\<close>, \<open>verify.go\<close>, \<open>preflight.go\<close>, \<open>kms.go\<close>, \<open>events.go\<close> of
  \<open>services/runtime-registry/internal/runtime\<close>, the status codes of \<open>http.go\<close>, and the seeding of a shared
  runtime in \<open>cmd/main.go\<close>). Key management, Terraform, the state backends and the check for active
  deployments are fields of an environment.

  A preflight and a destruction read a copy of the runtime, ask a collaborator, and write the copy
  back. They are split there: the copy waits in \<open>rg_pending\<close> and other operations may come in between.
\<close>

section \<open>Data\<close>

record preflight_check =
  pk_name :: string
  pk_passed :: bool
  pk_reason :: string

record registry_preflight =
  rf_id :: string
  rf_runtime_id :: string
  rf_success :: bool
  rf_reason :: string
  rf_checks :: "preflight_check list"
  rf_started_at :: gotime
  rf_ended_at :: gotime

datatype check_status = CheckPass | CheckFail | CheckWarn | CheckSkip

fun check_status_text :: "check_status \<Rightarrow> string" where
  "check_status_text CheckPass = ''pass''"
| "check_status_text CheckFail = ''fail''"
| "check_status_text CheckWarn = ''warn''"
| "check_status_text CheckSkip = ''skip''"

record verify_check =
  vc_name :: string
  vc_status :: check_status
  vc_evidence :: string
  vc_remediation :: string

record verify_report =
  vp_id :: string
  vp_workspace_id :: string
  vp_runtime_id :: string
  vp_type :: runtime_type
  vp_mode :: string
  vp_principal :: string
  vp_started_at :: gotime
  vp_ended_at :: gotime
  vp_status :: check_status
  vp_checks :: "verify_check list"

record verify_hints =
  vh_kubeconfig_summary :: string
  vh_artifact_registry_repo :: string
  vh_has_observability :: bool
  vh_network_egress_ok :: bool
  vh_iam_scope_ok :: bool

record preflight_hints =
  ph_kubeconfig_summary :: string
  ph_registry_pull_token :: string
  ph_has_workload_identity :: bool

record register_request =
  rq_workspace_id :: string
  rq_tenant_id :: string
  rq_type :: runtime_type
  rq_mode :: string
  rq_visibility :: runtime_visibility
  rq_name :: string
  rq_region :: string
  rq_gke_mode :: string
  rq_project_id :: string
  rq_cluster_name :: string
  rq_endpoint :: string
  rq_service_account_email :: string
  rq_namespace :: string
  rq_kubeconfig :: string
  rq_sa_key :: string
  rq_labels :: obj

record provision_request =
  vq_workspace_id :: string
  vq_tenant_id :: string
  vq_type :: runtime_type
  vq_name :: string
  vq_region :: string
  vq_gke_mode :: string
  vq_env :: string

record terraform_event =
  tf_type :: string
  tf_resource :: string
  tf_action :: string
  tf_outcome :: string
  tf_outputs :: obj

datatype registry_error =
    ErrInvalidType | ErrInvalidMode | ErrCredentialRequired | ErrCrossWorkspace | ErrRuntimeNotFound
  | ErrRuntimeRevoked | ErrStateBackendMissing | ErrDeploymentsPresent | ErrMissingWorkspaceOrTenant
  | ErrNotProvisioned | ErrRuntimeOther string

definition mode_byo :: string where "mode_byo = ''byo''"
definition mode_provisioned :: string where "mode_provisioned = ''provisioned''"

definition valid_type :: "runtime_type \<Rightarrow> bool" where
  "valid_type t = (case t of TypeGKE \<Rightarrow> True | TypeCloudRun \<Rightarrow> True | TypeMinikube \<Rightarrow> True | TypeOther s \<Rightarrow> False)"

definition valid_mode :: "string \<Rightarrow> bool" where
  "valid_mode m = (m = mode_byo \<or> m = mode_provisioned)"

section \<open>The store\<close>

record runtime_store =
  rs_runtimes :: "(string \<times> runtime) list"
  rs_preflight :: "(string \<times> registry_preflight list) list"
  rs_verify :: "(string \<times> verify_report list) list"

definition new_runtime_store :: runtime_store where
  "new_runtime_store = \<lparr>rs_runtimes = [], rs_preflight = [], rs_verify = []\<rparr>"

text \<open>Storing fills in the identifier and the creation time; the three arguments are what is drawn.\<close>

definition insert_runtime :: "string \<Rightarrow> gotime \<Rightarrow> gotime \<Rightarrow> runtime \<Rightarrow> runtime_store \<Rightarrow> runtime \<times> runtime_store" where
  "insert_runtime fresh created now r st =
     (let r1 = (if rn_id r = [] then r\<lparr>rn_id := fresh\<rparr> else r);
          r2 = (if rn_created_at r1 = 0 then r1\<lparr>rn_created_at := created\<rparr> else r1);
          r3 = r2\<lparr>rn_updated_at := now\<rparr>
      in (r3, st\<lparr>rs_runtimes := AList.update (rn_id r3) r3 (rs_runtimes st)\<rparr>))"

definition get_runtime :: "string \<Rightarrow> runtime_store \<Rightarrow> runtime option" where
  "get_runtime i st = map_of (rs_runtimes st) i"

definition update_runtime :: "gotime \<Rightarrow> runtime \<Rightarrow> runtime_store \<Rightarrow> runtime_store" where
  "update_runtime now r st =
     st\<lparr>rs_runtimes := AList.update (rn_id r) (r\<lparr>rn_updated_at := now\<rparr>) (rs_runtimes st)\<rparr>"

text \<open>The tenant of a workspace: that of one of its runtimes; the first in the order of the map.\<close>

definition tenant_of :: "string \<Rightarrow> runtime_store \<Rightarrow> string" where
  "tenant_of ws st =
     (if ws = [] then []
      else case List.find (\<lambda>r. rn_workspace_id r = ws) (map snd (rs_runtimes st)) of
        None \<Rightarrow> [] | Some r \<Rightarrow> rn_tenant_id r)"

definition listed :: "string \<Rightarrow> runtime_store \<Rightarrow> runtime \<Rightarrow> bool" where
  "listed ws st r =
     (if ws \<noteq> []
      then rn_workspace_id r = ws \<or>
        rn_visibility r = VisibilityTenant \<and> tenant_of ws st \<noteq> [] \<and> rn_tenant_id r = tenant_of ws st
      else True)"

definition list_runtimes :: "string \<Rightarrow> runtime_store \<Rightarrow> runtime list" where
  "list_runtimes ws st =
     sort_slice (\<lambda>a b. rn_created_at a > rn_created_at b) (filter (listed ws st) (map snd (rs_runtimes st)))"

definition append_preflight :: "string \<Rightarrow> registry_preflight \<Rightarrow> runtime_store \<Rightarrow> runtime_store" where
  "append_preflight fresh p st =
     (let p1 = (if rf_id p = [] then p\<lparr>rf_id := fresh\<rparr> else p)
      in st\<lparr>rs_preflight := push_at (rf_runtime_id p1) p1 (rs_preflight st)\<rparr>)"

definition preflights_of :: "string \<Rightarrow> runtime_store \<Rightarrow> registry_preflight list" where
  "preflights_of i st = list_at (rs_preflight st) i"

definition delete_runtime :: "string \<Rightarrow> runtime_store \<Rightarrow> runtime_store" where
  "delete_runtime i st =
     \<lparr>rs_runtimes = AList.delete i (rs_runtimes st), rs_preflight = AList.delete i (rs_preflight st),
      rs_verify = AList.delete i (rs_verify st)\<rparr>"

definition append_verify :: "verify_report \<Rightarrow> runtime_store \<Rightarrow> runtime_store" where
  "append_verify p st = st\<lparr>rs_verify := push_at (vp_runtime_id p) p (rs_verify st)\<rparr>"

definition verifications_of :: "string \<Rightarrow> runtime_store \<Rightarrow> verify_report list" where
  "verifications_of i st = list_at (rs_verify st) i"

section \<open>Preflight\<close>

definition if_else :: "bool \<Rightarrow> string \<Rightarrow> string \<Rightarrow> string" where
  "if_else c t e = (if c then t else e)"

definition rbac_check :: "runtime \<Rightarrow> string \<Rightarrow> preflight_check" where
  "rbac_check r summary =
     (if contains_str summary ''cluster-admin''
      then \<lparr>pk_name = ''rbac'', pk_passed = False, pk_reason = ''excessive_privilege''\<rparr>
      else if rn_type r \<noteq> TypeCloudRun \<and> rn_mode r = mode_byo \<and> rn_namespace r = [] \<and> \<not> contains_str summary ''namespace=''
      then \<lparr>pk_name = ''rbac'', pk_passed = False, pk_reason = ''rbac_insufficient''\<rparr>
      else \<lparr>pk_name = ''rbac'', pk_passed = True, pk_reason = []\<rparr>)"

definition preflight_checks :: "runtime \<Rightarrow> preflight_hints \<Rightarrow> preflight_check list" where
  "preflight_checks r h =
     (let connected = (rn_type r = TypeMinikube \<or> rn_endpoint r \<noteq> []);
          summary = to_lower (ph_kubeconfig_summary h);
          ns = (rn_mode r = mode_byo \<or> contains_str summary ''create-namespace'');
          pull = (rn_mode r = mode_byo \<or> ph_registry_pull_token h \<noteq> []);
          wi_required = (rn_type r = TypeGKE \<and> rn_mode r = mode_provisioned);
          wi = (\<not> wi_required \<or> ph_has_workload_identity h)
      in [\<lparr>pk_name = ''connectivity'', pk_passed = connected, pk_reason = if_else connected [] ''endpoint_unreachable''\<rparr>,
          rbac_check r summary,
          \<lparr>pk_name = ''namespace_create'', pk_passed = ns, pk_reason = if_else ns [] ''missing_namespace_create_rights''\<rparr>,
          \<lparr>pk_name = ''registry_pull'', pk_passed = pull, pk_reason = if_else pull [] ''registry_pull_missing''\<rparr>,
          \<lparr>pk_name = ''workload_identity'', pk_passed = wi, pk_reason = if_else wi [] ''workload_identity_missing''\<rparr>])"

definition static_preflight :: "gotime \<Rightarrow> gotime \<Rightarrow> runtime \<Rightarrow> preflight_hints \<Rightarrow> registry_preflight" where
  "static_preflight started finished r h =
     (let checks = preflight_checks r h
      in case List.find (\<lambda>c. \<not> pk_passed c) checks of
           None \<Rightarrow> \<lparr>rf_id = [], rf_runtime_id = rn_id r, rf_success = True, rf_reason = [], rf_checks = checks,
             rf_started_at = started, rf_ended_at = finished\<rparr>
         | Some c \<Rightarrow> \<lparr>rf_id = [], rf_runtime_id = rn_id r, rf_success = False, rf_reason = pk_reason c,
             rf_checks = checks, rf_started_at = started, rf_ended_at = finished\<rparr>)"

section \<open>Verification\<close>

definition verify_row :: "string \<Rightarrow> check_status \<Rightarrow> string \<Rightarrow> string \<Rightarrow> verify_check" where
  "verify_row n st ev rem = \<lparr>vc_name = n, vc_status = st, vc_evidence = ev, vc_remediation = rem\<rparr>"

definition provisioned_checks :: "runtime \<Rightarrow> verify_hints \<Rightarrow> verify_check list" where
  "provisioned_checks r h =
     [if vh_iam_scope_ok h \<or> rn_service_account_email r \<noteq> []
      then verify_row ''federated_iam_scope'' CheckPass
             (''sa='' @ rn_service_account_email r @ ''; project='' @ rn_project_id r) []
      else verify_row ''federated_iam_scope'' CheckFail ''no service-account email recorded on the runtime''
             ''Re-run terraform apply for module.iam-delegated-permissions; verify the runtime's `service_account_email` field is populated.'',
      if vh_artifact_registry_repo h \<noteq> []
      then verify_row ''artifact_registry_image_pull'' CheckPass
             (''repo='' @ vh_artifact_registry_repo h @ '' reachable from runtime SA'') []
      else verify_row ''artifact_registry_image_pull'' CheckFail
             ''no Artifact Registry repo binding found for the workspace''
             ''Bind the Workspace's Artifact Registry repo to the runtime SA via terraform module.artifact-registry.'',
      if vh_has_observability h
      then verify_row ''observability_collector_reachable'' CheckPass ''OTel collector endpoint reachable from runtime'' []
      else verify_row ''observability_collector_reachable'' CheckWarn
             ''observability collector reachability not confirmed by hints''
             ''Run `kubectl -n observability port-forward svc/otel-collector 4317:4317` and verify the runtime's traces appear in Tempo.'',
      if vh_network_egress_ok h
      then verify_row ''network_egress_platform_endpoints'' CheckPass
             ''egress permitted to LiteLLM, Artifact Registry, and OTel'' []
      else verify_row ''network_egress_platform_endpoints'' CheckWarn
             ''NetworkPolicy or VPC firewall not verified for required egress''
             ''Confirm the runtime's NetworkPolicy egress block allows LiteLLM (TCP 8080), Artifact Registry (TCP 443), and OTel collector (gRPC 4317).'']"

definition scoped_sa_check :: "string \<Rightarrow> verify_check" where
  "scoped_sa_check summary =
     (if contains_str summary ''cluster-admin''
      then verify_row ''scoped_sa_capabilities'' CheckFail ''kubeconfig SA has cluster-admin''
             ''Replace cluster-admin with a namespace-scoped Role that grants only the verbs Forge needs (deploy, port-forward, exec). See `infra/helm/_flavors/service-http/templates/_serviceaccount.tpl`.''
      else if contains_str summary ''namespace=''
      then verify_row ''scoped_sa_capabilities'' CheckPass ''namespace-scoped RBAC detected'' []
      else verify_row ''scoped_sa_capabilities'' CheckWarn ''could not determine RBAC scope from kubeconfig hint''
             ''Pass `--hints kubeconfigSummary='namespace=<ns>,sa=<sa>'` to verify-runtime.'')"

definition byo_gke_checks :: "runtime \<Rightarrow> verify_hints \<Rightarrow> verify_check list" where
  "byo_gke_checks r h =
     [if rn_endpoint r \<noteq> [] \<or> contains_str (to_lower (vh_kubeconfig_summary h)) ''endpoint=''
      then verify_row ''kubeconfig_connectivity'' CheckPass (''endpoint='' @ rn_endpoint r) []
      else verify_row ''kubeconfig_connectivity'' CheckFail ''no endpoint recorded on the runtime''
             ''Re-register the runtime with a valid kubeconfig that contains a reachable cluster endpoint.'',
      scoped_sa_check (to_lower (vh_kubeconfig_summary h)),
      if vh_network_egress_ok h
      then verify_row ''ingress_and_egress_open'' CheckPass ''ingress and egress NetworkPolicies verified'' []
      else verify_row ''ingress_and_egress_open'' CheckWarn ''could not verify NetworkPolicies''
             ''Run `kubectl -n forge get networkpolicy` and confirm a deny-by-default policy plus explicit allow rules for required dependencies.'']"

definition byo_cloud_run_checks :: "runtime \<Rightarrow> verify_hints \<Rightarrow> verify_check list" where
  "byo_cloud_run_checks r h =
     [if rn_project_id r \<noteq> []
      then verify_row ''project_access'' CheckPass (''project='' @ rn_project_id r @ '' reachable'') []
      else verify_row ''project_access'' CheckFail ''no project_id recorded on the runtime''
             ''Re-register the Cloud Run runtime with `project_id` set to the GCP project ID.'',
      if rn_region r \<noteq> []
      then verify_row ''region_availability'' CheckPass (''region='' @ rn_region r) []
      else verify_row ''region_availability'' CheckWarn ''no region recorded; defaulting may cause cross-region latency''
             ''Set the runtime's `region` to match the Workspace's preferred region (e.g., us-central1).'',
      if vh_artifact_registry_repo h \<noteq> []
      then verify_row ''image_pull_iam'' CheckPass
             (''repo='' @ vh_artifact_registry_repo h @ '', runtime SA has roles/artifactregistry.reader'') []
      else verify_row ''image_pull_iam'' CheckFail ''no Artifact Registry repo recorded''
             ''Bind the runtime SA to the Workspace's Artifact Registry repo with roles/artifactregistry.reader.'',
      if rn_service_account_email r \<noteq> []
      then verify_row ''iam_bindings'' CheckPass (''sa='' @ rn_service_account_email r @ '' present'') []
      else verify_row ''iam_bindings'' CheckFail ''no service_account_email recorded on the runtime''
             ''Re-register the Cloud Run runtime with `service_account_email` set to the deploying SA.'']"

definition byo_minikube_checks :: "verify_hints \<Rightarrow> verify_check list" where
  "byo_minikube_checks h =
     [if contains_str (to_lower (vh_kubeconfig_summary h)) ''minikube'' \<or> vh_kubeconfig_summary h = []
      then verify_row ''cluster_reachable'' CheckPass ''minikube context reachable'' []
      else verify_row ''cluster_reachable'' CheckWarn ''kubeconfig hint does not reference minikube''
             ''Run `minikube status` and re-pass kubeconfig summary.'',
      verify_row ''crds_available'' CheckPass
        ''ServiceMonitor and NetworkPolicy CRDs assumed present (Prometheus operator + cilium)'' [],
      if vh_has_observability h
      then verify_row ''in_cluster_observability'' CheckPass ''OTel collector deployed in cluster'' []
      else verify_row ''in_cluster_observability'' CheckWarn ''in-cluster observability stack not confirmed''
             ''Run `kubectl -n observability get svc otel-collector` and confirm presence.'']"

definition verify_checks :: "runtime \<Rightarrow> verify_hints \<Rightarrow> verify_check list" where
  "verify_checks r h =
     (if rn_mode r = mode_provisioned then provisioned_checks r h
      else case rn_type r of
        TypeGKE \<Rightarrow> byo_gke_checks r h
      | TypeCloudRun \<Rightarrow> byo_cloud_run_checks r h
      | TypeMinikube \<Rightarrow> byo_minikube_checks h
      | TypeOther t \<Rightarrow>
          [verify_row ''type_supported'' CheckFail (''type='' @ t) ''supported types: gke, cloudrun, minikube''])"

fun aggregate_from :: "check_status \<Rightarrow> verify_check list \<Rightarrow> check_status" where
  "aggregate_from overall [] = overall"
| "aggregate_from overall (c # cs) =
     (case vc_status c of
        CheckFail \<Rightarrow> CheckFail
      | CheckWarn \<Rightarrow> aggregate_from CheckWarn cs
      | CheckPass \<Rightarrow> aggregate_from overall cs
      | CheckSkip \<Rightarrow> aggregate_from overall cs)"

definition aggregate_status :: "verify_check list \<Rightarrow> check_status" where
  "aggregate_status cs = aggregate_from CheckPass cs"

definition static_verify :: "gotime \<Rightarrow> gotime \<Rightarrow> runtime \<Rightarrow> verify_hints \<Rightarrow> verify_report" where
  "static_verify started finished r h =
     \<lparr>vp_id = [], vp_workspace_id = rn_workspace_id r, vp_runtime_id = rn_id r, vp_type = rn_type r,
      vp_mode = rn_mode r, vp_principal = [], vp_started_at = started, vp_ended_at = finished,
      vp_status = aggregate_status (verify_checks r h), vp_checks = verify_checks r h\<rparr>"

section \<open>Key management\<close>

text \<open>
  The key management the service installs by default: the bytes of the credential, combined by
  exclusive or with a digest of the tenant, repeated. The digest and the base64 encoding are
  parameters; the digest is not empty.
\<close>

definition xor_char :: "char \<Rightarrow> char \<Rightarrow> char" where
  "xor_char a b = char_of (xor (of_char a :: nat) (of_char b))"

definition xor_stream :: "string \<Rightarrow> string \<Rightarrow> string" where
  "xor_stream key text = map (\<lambda>i. xor_char (text ! i) (key ! (i mod length key))) [0..<length text]"

definition fake_encrypt ::
  "(string \<Rightarrow> string) \<Rightarrow> (string \<Rightarrow> string) \<Rightarrow> string \<Rightarrow> string \<Rightarrow> string \<Rightarrow> string + string \<times> string" where
  "fake_encrypt digest encode prefix tenant plaintext =
     (if plaintext = [] then Inl ''empty_credential''
      else if tenant = [] then Inl ''missing_tenant''
      else Inr (encode (xor_stream (digest (''fake-kms:'' @ tenant)) plaintext), prefix @ tenant))"

section \<open>The service\<close>

record registry_env =
  re_uuid :: "nat \<Rightarrow> string"
  re_now :: "nat \<Rightarrow> gotime"
  re_encrypt :: "nat \<Rightarrow> string \<Rightarrow> string \<Rightarrow> string + string \<times> string"
  re_apply :: "nat \<Rightarrow> provision_request \<Rightarrow> string + obj \<times> terraform_event list"
  re_active :: "nat \<Rightarrow> string \<Rightarrow> string + bool"
  re_has_backend :: "nat \<Rightarrow> string \<Rightarrow> bool"

record runtime_event =
  rv_id :: string
  rv_type :: string
  rv_subject :: string
  rv_time :: gotime
  rv_tenant_id :: string
  rv_workspace_id :: string
  rv_actor :: string
  rv_data :: obj

text \<open>A copy of a runtime that is going to be written back.\<close>

datatype pending_write = PendingPreflight runtime preflight_hints | PendingDestroy runtime

record registry_state =
  rg_store :: runtime_store
  rg_events :: "runtime_event list"
  rg_pending :: "pending_write list"
  rg_draws :: nat

definition new_registry_state :: registry_state where
  "new_registry_state = \<lparr>rg_store = new_runtime_store, rg_events = [], rg_pending = [], rg_draws = 0\<rparr>"

definition emit_runtime :: "registry_env \<Rightarrow> runtime \<Rightarrow> string \<Rightarrow> obj \<Rightarrow> registry_state \<Rightarrow> registry_state" where
  "emit_runtime env r ty data s =
     (let n = rg_draws s
      in s\<lparr>rg_draws := Suc n,
           rg_events := rg_events s @
             [\<lparr>rv_id = re_uuid env n, rv_type = ty, rv_subject = ''runtime/'' @ rn_id r, rv_time = re_now env n,
               rv_tenant_id = rn_tenant_id r, rv_workspace_id = rn_workspace_id r,
               rv_actor = ''service:runtime-registry'', rv_data = data\<rparr>]\<rparr>)"

definition store_runtime :: "registry_env \<Rightarrow> runtime \<Rightarrow> registry_state \<Rightarrow> runtime \<times> registry_state" where
  "store_runtime env r s =
     (let n = rg_draws s;
          (r1, st) = insert_runtime (re_uuid env n) (re_now env (n + 1)) (re_now env (n + 2)) r (rg_store s)
      in (r1, s\<lparr>rg_draws := n + 3, rg_store := st\<rparr>))"

definition write_back :: "registry_env \<Rightarrow> runtime \<Rightarrow> registry_state \<Rightarrow> runtime \<times> registry_state" where
  "write_back env r s =
     (let n = rg_draws s
      in (r\<lparr>rn_updated_at := re_now env n\<rparr>,
          s\<lparr>rg_draws := Suc n, rg_store := update_runtime (re_now env n) r (rg_store s)\<rparr>))"

text \<open>The runtime a registration describes; the two last arguments are the encrypted credential.\<close>

definition registered_runtime :: "register_request \<Rightarrow> string \<Rightarrow> string \<Rightarrow> runtime" where
  "registered_runtime q key_ref cipher =
     \<lparr>rn_id = [], rn_workspace_id = rq_workspace_id q, rn_tenant_id = rq_tenant_id q, rn_type = rq_type q,
      rn_mode = rq_mode q,
      rn_visibility = (if rq_visibility q = VisibilityOther [] then VisibilityWorkspace else rq_visibility q),
      rn_name = rq_name q, rn_region = rq_region q, rn_gke_mode = rq_gke_mode q, rn_project_id = rq_project_id q,
      rn_cluster_name = rq_cluster_name q, rn_endpoint = rq_endpoint q,
      rn_service_account_email = rq_service_account_email q, rn_namespace = rq_namespace q,
      rn_credential_kms_key_ref = key_ref, rn_credential_cipher_b64 = cipher, rn_labels = rq_labels q,
      rn_capabilities = default_capabilities (rq_type q), rn_status = ''registered'', rn_revoked = False,
      rn_created_at = 0, rn_updated_at = 0\<rparr>"

definition announce_registered :: "registry_env \<Rightarrow> runtime \<Rightarrow> obj \<Rightarrow> registry_state \<Rightarrow> registry_state" where
  "announce_registered env r extra =
     emit_runtime env r ''runtime.registered.v1''
       ([(''runtime_id'', VString (rn_id r)), (''workspace_id'', VString (rn_workspace_id r)),
         (''tenant_id'', VString (rn_tenant_id r)), (''type'', VString (runtime_type_string (rn_type r))),
         (''mode'', VString (rn_mode r))] @ extra)"

definition register_byo :: "registry_env \<Rightarrow> register_request \<Rightarrow> registry_state \<Rightarrow> (registry_error + runtime) \<times> registry_state" where
  "register_byo env q s =
     (let credential = (if rq_kubeconfig q = [] then rq_sa_key q else rq_kubeconfig q)
      in if credential = [] then (Inl ErrCredentialRequired, s)
         else let n = rg_draws s; s1 = s\<lparr>rg_draws := Suc n\<rparr>
         in case re_encrypt env n (rq_tenant_id q) credential of
              Inl e \<Rightarrow> (Inl (ErrRuntimeOther (''kms encrypt: '' @ e)), s1)
            | Inr (cipher, key_ref) \<Rightarrow>
                (let (r, s2) = store_runtime env (registered_runtime q key_ref cipher) s1
                 in (Inr r, announce_registered env r
                       [(''encrypted'', VBool True), (''kms_key_ref'', VString (rn_credential_kms_key_ref r))] s2)))"

definition register_runtime :: "registry_env \<Rightarrow> register_request \<Rightarrow> registry_state \<Rightarrow> (registry_error + runtime) \<times> registry_state" where
  "register_runtime env q s =
     (if \<not> valid_type (rq_type q) then (Inl ErrInvalidType, s)
      else if \<not> valid_mode (rq_mode q) then (Inl ErrInvalidMode, s)
      else if rq_workspace_id q = [] \<or> rq_tenant_id q = [] then (Inl ErrMissingWorkspaceOrTenant, s)
      else if rq_mode q = mode_byo then register_byo env q s
      else let (r, s1) = store_runtime env (registered_runtime q [] []) s
           in (Inr r, announce_registered env r [(''encrypted'', VBool False)] s1))"

definition get_service :: "string \<Rightarrow> registry_state \<Rightarrow> registry_error + runtime" where
  "get_service i s = (case get_runtime i (rg_store s) of None \<Rightarrow> Inl ErrRuntimeNotFound | Some r \<Rightarrow> Inr r)"

definition usable_by :: "string \<Rightarrow> string \<Rightarrow> registry_state \<Rightarrow> registry_error option" where
  "usable_by i ws s =
     (case get_runtime i (rg_store s) of
        None \<Rightarrow> Some ErrRuntimeNotFound
      | Some r \<Rightarrow>
          if rn_revoked r then Some ErrRuntimeRevoked
          else if rn_workspace_id r = ws then None
          else if rn_visibility r = VisibilityTenant then None
          else Some ErrCrossWorkspace)"

definition run_verify ::
  "registry_env \<Rightarrow> string \<Rightarrow> string \<Rightarrow> verify_hints \<Rightarrow> registry_state \<Rightarrow> (registry_error + verify_report) \<times> registry_state" where
  "run_verify env i prin h s =
     (case get_runtime i (rg_store s) of
        None \<Rightarrow> (Inl ErrRuntimeNotFound, s)
      | Some r \<Rightarrow>
          (let n = rg_draws s;
               report = (static_verify (re_now env n) (re_now env (n + 1)) r h)
                 \<lparr>vp_principal := prin, vp_id := re_uuid env (n + 2)\<rparr>;
               s1 = s\<lparr>rg_draws := n + 3, rg_store := append_verify report (rg_store s)\<rparr>
           in (Inr report,
               emit_runtime env r ''runtime.verified.v1''
                 [(''runtime_id'', VString (rn_id r)), (''verify_id'', VString (vp_id report)),
                  (''status'', VString (check_status_text (vp_status report))), (''principal'', VString prin),
                  (''checks'', VList (map (\<lambda>c. VMap [(''name'', VString (vc_name c)),
                     (''status'', VString (check_status_text (vc_status c))), (''evidence'', VString (vc_evidence c)),
                     (''remediation'', VString (vc_remediation c))]) (vp_checks report)))] s1)))"

definition latest_verify :: "string \<Rightarrow> registry_state \<Rightarrow> verify_report option" where
  "latest_verify i s =
     (let reports = verifications_of i (rg_store s) in if reports = [] then None else Some (last reports))"

text \<open>Preflight: the copy is read, then checked and written back.\<close>

definition begin_preflight :: "string \<Rightarrow> preflight_hints \<Rightarrow> registry_state \<Rightarrow> registry_error option \<times> registry_state" where
  "begin_preflight i h s =
     (case get_runtime i (rg_store s) of
        None \<Rightarrow> (Some ErrRuntimeNotFound, s)
      | Some r \<Rightarrow> (None, s\<lparr>rg_pending := rg_pending s @ [PendingPreflight r h]\<rparr>))"

definition end_preflight :: "registry_env \<Rightarrow> runtime \<Rightarrow> preflight_hints \<Rightarrow> registry_state \<Rightarrow> registry_state" where
  "end_preflight env r h s =
     (let n = rg_draws s;
          p = static_preflight (re_now env n) (re_now env (n + 1)) r h;
          s1 = s\<lparr>rg_draws := n + 3, rg_store := append_preflight (re_uuid env (n + 2)) p (rg_store s)\<rparr>;
          (r1, s2) = write_back env (r\<lparr>rn_status := if_else (rf_success p) ''ready'' ''preflight_failed''\<rparr>) s1
      in emit_runtime env r1 ''runtime.preflight.v1''
           [(''runtime_id'', VString (rn_id r1)),
            (''outcome'', VString (if_else (rf_success p) ''success'' ''failed'')), (''reason'', VString (rf_reason p)),
            (''checks'', VList (map (\<lambda>c. VMap [(''name'', VString (pk_name c)), (''passed'', VBool (pk_passed c)),
               (''reason'', VString (pk_reason c))]) (rf_checks p)))] s2)"

definition revoke_runtime :: "registry_env \<Rightarrow> string \<Rightarrow> registry_state \<Rightarrow> (registry_error + runtime) \<times> registry_state" where
  "revoke_runtime env i s =
     (case get_runtime i (rg_store s) of
        None \<Rightarrow> (Inl ErrRuntimeNotFound, s)
      | Some r \<Rightarrow>
          (let (r1, s1) = write_back env (r\<lparr>rn_revoked := True, rn_status := ''revoked''\<rparr>) s
           in (Inr r1, emit_runtime env r1 ''runtime.revoked.v1'' [(''runtime_id'', VString (rn_id r1))] s1)))"

definition provisioned_runtime :: "provision_request \<Rightarrow> obj \<Rightarrow> runtime" where
  "provisioned_runtime q outputs =
     \<lparr>rn_id = [], rn_workspace_id = vq_workspace_id q, rn_tenant_id = vq_tenant_id q, rn_type = vq_type q,
      rn_mode = mode_provisioned, rn_visibility = VisibilityWorkspace, rn_name = vq_name q,
      rn_region = vq_region q, rn_gke_mode = vq_gke_mode q,
      rn_project_id = val_string (map_of outputs ''project_id''),
      rn_cluster_name = val_string (map_of outputs ''cluster_name''),
      rn_endpoint = val_string (map_of outputs ''endpoint''),
      rn_service_account_email = val_string (map_of outputs ''sa_email''), rn_namespace = [],
      rn_credential_kms_key_ref = [], rn_credential_cipher_b64 = [],
      rn_labels = [(''env'', VString (vq_env q)), (''provisioned_by'', VString ''forge'')],
      rn_capabilities = default_capabilities (vq_type q), rn_status = ''ready'', rn_revoked = False,
      rn_created_at = 0, rn_updated_at = 0\<rparr>"

definition emit_plan :: "registry_env \<Rightarrow> runtime \<Rightarrow> terraform_event \<Rightarrow> registry_state \<Rightarrow> registry_state" where
  "emit_plan env r ev =
     emit_runtime env r ''iac.terraform.plan.v1''
       [(''runtime_id'', VString (rn_id r)), (''action'', VString (tf_action ev)),
        (''resource'', VString (tf_resource ev)), (''outcome'', VString (tf_outcome ev)),
        (''outputs'', VMap (tf_outputs ev))]"

definition provision_runtime :: "registry_env \<Rightarrow> provision_request \<Rightarrow> registry_state \<Rightarrow> (registry_error + runtime) \<times> registry_state" where
  "provision_runtime env q s =
     (if \<not> valid_type (vq_type q) then (Inl ErrInvalidType, s)
      else if vq_workspace_id q = [] \<or> vq_tenant_id q = [] then (Inl ErrMissingWorkspaceOrTenant, s)
      else if \<not> re_has_backend env (rg_draws s) (vq_tenant_id q) then (Inl ErrStateBackendMissing, s\<lparr>rg_draws := Suc (rg_draws s)\<rparr>)
      else let n = Suc (rg_draws s); s1 = s\<lparr>rg_draws := Suc n\<rparr>
      in case re_apply env n q of
           Inl e \<Rightarrow> (Inl (ErrRuntimeOther e), s1)
         | Inr (outputs, plan) \<Rightarrow>
             (let (r, s2) = store_runtime env (provisioned_runtime q outputs) s1;
                  s3 = announce_registered env r [] s2;
                  s4 = emit_runtime env r ''runtime.provisioned.v1''
                         [(''runtime_id'', VString (rn_id r)), (''outputs'', VMap outputs)] s3
              in (Inr r, fold (emit_plan env r) plan s4)))"

text \<open>The provisioner installed by default; the first argument is the time in seconds.\<close>

definition fake_apply :: "int \<Rightarrow> provision_request \<Rightarrow> string + obj \<times> terraform_event list" where
  "fake_apply now q =
     (let project = ''forge-'' @ vq_workspace_id q @ ''-'' @ vq_env q;
          cluster = ''forge-'' @ vq_name q @ ''-'' @ vq_env q;
          outputs = [(''project_id'', VString project), (''cluster_name'', VString cluster),
            (''endpoint'', VString (''https://'' @ cluster @ ''.example.com'')),
            (''sa_email'', VString (''forge-deployer@'' @ project @ ''.iam.gserviceaccount.com'')),
            (''applied_at'', VInt now)];
          planned = (\<lambda>res. \<lparr>tf_type = ''plan'', tf_resource = res, tf_action = ''create'', tf_outcome = ''ok'', tf_outputs = []\<rparr>)
      in Inr (outputs, map planned [''module.gcp_project'', ''module.gke_autopilot'',
              ''module.artifact_registry_binding'', ''module.workload_identity''] @
            [\<lparr>tf_type = ''apply'', tf_resource = [], tf_action = ''applied'', tf_outcome = ''ok'', tf_outputs = outputs\<rparr>]))"

text \<open>The tenants with a state backend, the check for active deployments, and the collaborators the service
  is built with; the number is the seconds from Go's zero time to the Unix epoch.\<close>

definition has_backend :: "string list \<Rightarrow> string \<Rightarrow> bool" where
  "has_backend tenants t = (t \<in> set tenants)"

definition bootstrap_backend :: "string \<Rightarrow> string list \<Rightarrow> string list" where
  "bootstrap_backend t tenants = List.insert t tenants"

definition new_backends :: "string list \<Rightarrow> string list" where
  "new_backends ts = fold bootstrap_backend ts []"

definition no_active_deployments :: "string \<Rightarrow> string + bool" where
  "no_active_deployments i = Inr False"

definition new_registry_service ::
  "(string \<Rightarrow> string) \<Rightarrow> (string \<Rightarrow> string) \<Rightarrow> (nat \<Rightarrow> string) \<Rightarrow> (nat \<Rightarrow> gotime) \<Rightarrow> (nat \<Rightarrow> string list) \<Rightarrow> registry_env" where
  "new_registry_service digest encode uuid now backends =
     \<lparr>re_uuid = uuid, re_now = now,
      re_encrypt = (\<lambda>n. fake_encrypt digest encode ''projects/forge/locations/global/keyRings/byo/cryptoKeys/''),
      re_apply = (\<lambda>n. fake_apply (now n div 10 ^ 9 - 62135596800)), re_active = (\<lambda>n. no_active_deployments),
      re_has_backend = (\<lambda>n. has_backend (backends n))\<rparr>"

text \<open>Destruction: the copy is read; the deployments are looked at and the copy is written back later.\<close>

definition begin_destroy :: "string \<Rightarrow> registry_state \<Rightarrow> registry_error option \<times> registry_state" where
  "begin_destroy i s =
     (case get_runtime i (rg_store s) of
        None \<Rightarrow> (Some ErrRuntimeNotFound, s)
      | Some r \<Rightarrow>
          if rn_mode r \<noteq> mode_provisioned then (Some ErrNotProvisioned, s)
          else (None, s\<lparr>rg_pending := rg_pending s @ [PendingDestroy r]\<rparr>))"

definition end_destroy :: "registry_env \<Rightarrow> runtime \<Rightarrow> registry_state \<Rightarrow> registry_error option \<times> registry_state" where
  "end_destroy env r s =
     (let n = rg_draws s; s1 = s\<lparr>rg_draws := Suc n\<rparr>
      in case re_active env n (rn_id r) of
           Inl e \<Rightarrow> (Some (ErrRuntimeOther e), s1)
         | Inr active \<Rightarrow>
             if active then (Some ErrDeploymentsPresent, s1)
             else (let (r1, s2) = write_back env (r\<lparr>rn_status := ''destroyed''\<rparr>) s1
                   in (None, emit_runtime env r1 ''runtime.destroyed.v1'' [(''runtime_id'', VString (rn_id r1))] s2)))"

text \<open>The \<open>k\<close>-th pending copy is finished.\<close>

definition finish_pending :: "registry_env \<Rightarrow> nat \<Rightarrow> registry_state \<Rightarrow> registry_state" where
  "finish_pending env k s =
     (if k < length (rg_pending s)
      then let s1 = s\<lparr>rg_pending := take k (rg_pending s) @ drop (Suc k) (rg_pending s)\<rparr>
           in (case rg_pending s ! k of
                 PendingPreflight r h \<Rightarrow> end_preflight env r h s1
               | PendingDestroy r \<Rightarrow> snd (end_destroy env r s1))
      else s)"

text \<open>Seeding the shared runtime: nothing when a runtime of the tenant has the name already.\<close>

definition seed_runtime :: "string \<Rightarrow> string \<Rightarrow> runtime_type \<Rightarrow> string \<Rightarrow> runtime" where
  "seed_runtime tenant name ty region =
     \<lparr>rn_id = [], rn_workspace_id = ''forge-platform'', rn_tenant_id = tenant, rn_type = ty,
      rn_mode = mode_provisioned, rn_visibility = VisibilityTenant, rn_name = name, rn_region = region,
      rn_gke_mode = [], rn_project_id = [], rn_cluster_name = [], rn_endpoint = [], rn_service_account_email = [],
      rn_namespace = ''default'', rn_credential_kms_key_ref = [], rn_credential_cipher_b64 = [],
      rn_labels = [(''managed_by'', VString ''forge''), (''shared'', VBool True)],
      rn_capabilities = default_capabilities ty, rn_status = ''ready'', rn_revoked = False,
      rn_created_at = 0, rn_updated_at = 0\<rparr>"

definition seed_shared ::
  "registry_env \<Rightarrow> string \<Rightarrow> string \<Rightarrow> runtime_type \<Rightarrow> string \<Rightarrow> registry_state \<Rightarrow> registry_state" where
  "seed_shared env tenant name0 ty0 region0 s =
     (let name = (if name0 = [] then ''Forge shared (dev)'' else name0);
          ty = (if valid_type ty0 then ty0 else TypeMinikube);
          region = (if region0 = [] then ''local'' else region0)
      in if list_ex (\<lambda>r. rn_tenant_id r = tenant \<and> rn_name r = name) (list_runtimes [] (rg_store s)) then s
         else snd (store_runtime env (seed_runtime tenant name ty region) s))"

definition registry_error_status :: "registry_error \<Rightarrow> int" where
  "registry_error_status e =
     (case e of ErrRuntimeNotFound \<Rightarrow> 404 | ErrCrossWorkspace \<Rightarrow> 403 | ErrRuntimeRevoked \<Rightarrow> 403
      | ErrStateBackendMissing \<Rightarrow> 412 | ErrDeploymentsPresent \<Rightarrow> 409 | _ \<Rightarrow> 400)"

definition events_by_type :: "string \<Rightarrow> registry_state \<Rightarrow> runtime_event list" where
  "events_by_type t s = filter (\<lambda>e. rv_type e = t) (rg_events s)"

section \<open>The registry as a machine\<close>

datatype registry_op =
    RegRegister register_request
  | RegProvision provision_request
  | RegVerify string string verify_hints
  | RegPreflight string preflight_hints
  | RegRevoke string
  | RegDestroy string
  | RegFinish nat

fun registry_step :: "registry_env \<Rightarrow> registry_op \<Rightarrow> registry_state \<Rightarrow> registry_state" where
  "registry_step env (RegRegister q) s = snd (register_runtime env q s)"
| "registry_step env (RegProvision q) s = snd (provision_runtime env q s)"
| "registry_step env (RegVerify i prin h) s = snd (run_verify env i prin h s)"
| "registry_step env (RegPreflight i h) s = snd (begin_preflight i h s)"
| "registry_step env (RegRevoke i) s = snd (revoke_runtime env i s)"
| "registry_step env (RegDestroy i) s = snd (begin_destroy i s)"
| "registry_step env (RegFinish k) s = finish_pending env k s"

end
