(* ===== verification/Runtime_Flow.thy ===== *)
theory Runtime_Flow
  imports Runtime_Registry
begin

text \<open>
  What the runtime registry guarantees: runtimes are filed under identifiers that were drawn, a revoked
  runtime stays revoked unless an older copy of it is still to be written back, credentials reach the
  registry through key management only, and a preflight reports exactly the stated conditions.
\<close>

section \<open>What the operations leave alone\<close>

lemma get_runtime_insert [store_simps]:
  "get_runtime i (snd (insert_runtime fresh created now r st)) =
     (if i = rn_id (fst (insert_runtime fresh created now r st)) then Some (fst (insert_runtime fresh created now r st))
      else get_runtime i st)"
  by (simp add: insert_runtime_def get_runtime_def Let_def update_conv')

lemma insert_runtime_id: "rn_id (fst (insert_runtime fresh created now r st)) = (if rn_id r = [] then fresh else rn_id r)"
  by (simp add: insert_runtime_def Let_def)

lemma get_runtime_update [store_simps]:
  "get_runtime i (update_runtime now r st) = (if i = rn_id r then Some (r\<lparr>rn_updated_at := now\<rparr>) else get_runtime i st)"
  by (simp add: update_runtime_def get_runtime_def update_conv')

lemma get_runtime_appends [frame_simps]:
  "get_runtime i (append_preflight fresh p st) = get_runtime i st"
  "get_runtime i (append_verify v st) = get_runtime i st"
  by (simp_all add: append_preflight_def append_verify_def get_runtime_def Let_def)

lemma emit_runtime_frame [frame_simps]:
  "rg_store (emit_runtime env r ty data s) = rg_store s"
  "rg_pending (emit_runtime env r ty data s) = rg_pending s"
  "rg_draws (emit_runtime env r ty data s) = Suc (rg_draws s)"
  by (simp_all add: emit_runtime_def Let_def)

lemma announce_registered_frame [frame_simps]:
  "rg_store (announce_registered env r extra s) = rg_store s"
  "rg_pending (announce_registered env r extra s) = rg_pending s"
  "rg_draws (announce_registered env r extra s) = Suc (rg_draws s)"
  by (simp_all add: announce_registered_def frame_simps)

lemma emit_plans_frame [frame_simps]:
  "rg_store (fold (emit_plan env r) plan s) = rg_store s"
  "rg_pending (fold (emit_plan env r) plan s) = rg_pending s"
  "rg_draws s \<le> rg_draws (fold (emit_plan env r) plan s)"
proof (induction plan arbitrary: s)
  case (Cons ev plan)
  { case 1 with Cons show ?case by (simp add: emit_plan_def frame_simps) }
  { case 2 with Cons show ?case by (simp add: emit_plan_def frame_simps) }
  { case 3 with Cons(3) [of "emit_plan env r ev s"] show ?case by (simp add: emit_plan_def frame_simps) }
qed simp_all

text \<open>The two ways the store changes: a runtime is stored under a fresh identifier, or a copy is written back.\<close>

definition stored_fresh :: "registry_env \<Rightarrow> registry_state \<Rightarrow> registry_state \<Rightarrow> bool" where
  "stored_fresh env s t \<longleftrightarrow> rg_pending t = rg_pending s \<and> rg_draws s \<le> rg_draws t \<and>
     ((\<forall>i. get_runtime i (rg_store t) = get_runtime i (rg_store s)) \<or>
      (\<exists>n r. rg_draws s \<le> n \<and> n < rg_draws t \<and> rn_id r = re_uuid env n \<and> \<not> rn_revoked r \<and>
        (\<forall>i. get_runtime i (rg_store t) = (if i = re_uuid env n then Some r else get_runtime i (rg_store s)))))"

definition written_back :: "registry_state \<Rightarrow> runtime \<Rightarrow> registry_state \<Rightarrow> bool" where
  "written_back s r t \<longleftrightarrow> rg_pending t = rg_pending s \<and> rg_draws s \<le> rg_draws t \<and>
     ((\<forall>i. get_runtime i (rg_store t) = get_runtime i (rg_store s)) \<or>
      (\<exists>r'. rn_id r' = rn_id r \<and> rn_revoked r' = rn_revoked r \<and>
        (\<forall>i. get_runtime i (rg_store t) = (if i = rn_id r then Some r' else get_runtime i (rg_store s)))))"

lemma stored_fresh_same:
  "rg_pending t = rg_pending s \<Longrightarrow> rg_draws s \<le> rg_draws t \<Longrightarrow>
   (\<And>i. get_runtime i (rg_store t) = get_runtime i (rg_store s)) \<Longrightarrow> stored_fresh env s t"
  by (simp add: stored_fresh_def)

lemma store_runtime_fresh:
  assumes "rn_id r = []" and "\<not> rn_revoked r" and "rg_store t = rg_store (snd (store_runtime env r s))"
    and "rg_pending t = rg_pending s" and "rg_draws (snd (store_runtime env r s)) \<le> rg_draws t"
  shows "stored_fresh env s t"
proof -
  define r' where "r' = fst (insert_runtime (re_uuid env (rg_draws s)) (re_now env (rg_draws s + 1)) (re_now env (rg_draws s + 2)) r (rg_store s))"
  have "rn_id r' = re_uuid env (rg_draws s)" using assms(1) by (simp add: r'_def insert_runtime_id)
  moreover have "\<not> rn_revoked r'" using assms(2) by (simp add: r'_def insert_runtime_def Let_def)
  moreover have "get_runtime i (rg_store t) = (if i = rn_id r' then Some r' else get_runtime i (rg_store s))" for i
    by (simp add: assms(3) store_runtime_def Let_def split_beta store_simps r'_def)
  moreover have "rg_draws s < rg_draws t" using assms(5) by (simp add: store_runtime_def Let_def split_beta)
  ultimately show ?thesis using assms(4) unfolding stored_fresh_def by (metis nat_less_le order_refl)
qed

lemma store_runtime_frame [frame_simps]:
  "rg_pending (snd (store_runtime env r s)) = rg_pending s"
  "rg_draws (snd (store_runtime env r s)) = rg_draws s + 3"
  by (simp_all add: store_runtime_def Let_def split_beta)

lemma stored_fresh_later:
  assumes "stored_fresh env s1 t" and "rg_store s1 = rg_store s" "rg_pending s1 = rg_pending s" "rg_draws s \<le> rg_draws s1"
  shows "stored_fresh env s t"
  using assms unfolding stored_fresh_def by (metis order_trans)

lemma register_fresh: "stored_fresh env s (snd (register_runtime env q s))"
proof -
  have byo: "stored_fresh env s (snd (register_byo env q s))"
  proof (cases "re_encrypt env (rg_draws s) (rq_tenant_id q) (if rq_kubeconfig q = [] then rq_sa_key q else rq_kubeconfig q)")
    case (Inl e)
    then show ?thesis by (auto simp: register_byo_def Let_def intro!: stored_fresh_same)
  next
    case (Inr ck)
    obtain cipher ref where ck: "ck = (cipher, ref)" by fastforce
    define s1 where "s1 = s\<lparr>rg_draws := Suc (rg_draws s)\<rparr>"
    have "stored_fresh env s1 (snd (register_byo env q s))" if "(if rq_kubeconfig q = [] then rq_sa_key q else rq_kubeconfig q) \<noteq> []"
      using Inr that ck by (intro store_runtime_fresh [of "registered_runtime q ref cipher"])
        (simp_all add: register_byo_def Let_def split_beta frame_simps registered_runtime_def s1_def)
    note later = this [THEN stored_fresh_later [of env s1 _ s]]
    show ?thesis
    proof (cases "(if rq_kubeconfig q = [] then rq_sa_key q else rq_kubeconfig q) = []")
      case True
      then show ?thesis by (intro stored_fresh_same) (simp_all add: register_byo_def)
    next
      case False
      from later [OF this] show ?thesis by (simp add: s1_def)
    qed
  qed
  have plain: "stored_fresh env s (announce_registered env r extra (snd (store_runtime env (registered_runtime q [] []) s)))" for r extra
    by (rule store_runtime_fresh [of "registered_runtime q [] []"]) (simp_all add: frame_simps registered_runtime_def)
  show ?thesis
    using byo plain by (simp add: register_runtime_def Let_def split_beta stored_fresh_same)
qed

lemma provision_fresh: "stored_fresh env s (snd (provision_runtime env q s))"
proof (cases "valid_type (vq_type q) \<and> vq_workspace_id q \<noteq> [] \<and> vq_tenant_id q \<noteq> [] \<and> re_has_backend env (rg_draws s) (vq_tenant_id q)")
  case False
  then show ?thesis by (auto simp: provision_runtime_def intro!: stored_fresh_same)
next
  case True
  define s1 where "s1 = s\<lparr>rg_draws := Suc (Suc (rg_draws s))\<rparr>"
  show ?thesis
  proof (cases "re_apply env (Suc (rg_draws s)) q")
    case (Inl e)
    with True show ?thesis by (auto simp: provision_runtime_def Let_def intro!: stored_fresh_same)
  next
    case (Inr op)
    obtain outputs plan where op: "op = (outputs, plan)" by fastforce
    let ?t = "snd (provision_runtime env q s)"
    have t: "rg_store ?t = rg_store (snd (store_runtime env (provisioned_runtime q outputs) s1))"
      "rg_pending ?t = rg_pending s1" "rg_draws (snd (store_runtime env (provisioned_runtime q outputs) s1)) \<le> rg_draws ?t"
      using True Inr op
      by (simp_all add: provision_runtime_def Let_def split_beta frame_simps s1_def)
        (rule order_trans [OF _ emit_plans_frame(3)], simp add: frame_simps)
    have "stored_fresh env s1 ?t" by (rule store_runtime_fresh [OF _ _ t]) (simp_all add: provisioned_runtime_def)
    then show ?thesis by (rule stored_fresh_later) (simp_all add: s1_def)
  qed
qed

lemma write_back_frame:
  "rg_pending (snd (write_back env r s)) = rg_pending s"
  "rg_draws (snd (write_back env r s)) = Suc (rg_draws s)"
  "rg_store (snd (write_back env r s)) = update_runtime (re_now env (rg_draws s)) r (rg_store s)"
  "fst (write_back env r s) = r\<lparr>rn_updated_at := re_now env (rg_draws s)\<rparr>"
  by (simp_all add: write_back_def Let_def)

lemma written_backI:
  assumes "rg_pending t = rg_pending s" "rg_draws s \<le> rg_draws t" "rg_store t = update_runtime now r' st"
    and "\<And>i. get_runtime i st = get_runtime i (rg_store s)" "rn_id r' = rn_id r" "rn_revoked r' = rn_revoked r"
  shows "written_back s r t"
  using assms unfolding written_back_def
  by (intro conjI disjI2 exI [of _ "r'\<lparr>rn_updated_at := now\<rparr>"]) (simp_all add: store_simps)

lemma end_preflight_back: "written_back s r (end_preflight env r h s)"
  by (rule written_backI [where now = "re_now env (rg_draws s + 3)"
        and r' = "r\<lparr>rn_status := if_else (rf_success (static_preflight (re_now env (rg_draws s)) (re_now env (rg_draws s + 1)) r h))
          ''ready'' ''preflight_failed''\<rparr>"
        and st = "append_preflight (re_uuid env (rg_draws s + 2))
          (static_preflight (re_now env (rg_draws s)) (re_now env (rg_draws s + 1)) r h) (rg_store s)"])
    (simp_all add: end_preflight_def Let_def split_beta frame_simps write_back_frame)

lemma end_destroy_back: "written_back s r (snd (end_destroy env r s))"
proof (cases "re_active env (rg_draws s) (rn_id r) = Inr False")
  case True
  then show ?thesis
    by (intro written_backI [where now = "re_now env (rg_draws s + 1)" and r' = "r\<lparr>rn_status := ''destroyed''\<rparr>" and st = "rg_store s"])
      (simp_all add: end_destroy_def Let_def split_beta frame_simps write_back_frame)
next
  case False
  then show ?thesis by (auto simp: end_destroy_def Let_def written_back_def split: sum.split)
qed

lemma revoke_back:
  assumes "get_runtime i (rg_store s) = Some r"
  shows "written_back s (r\<lparr>rn_revoked := True\<rparr>) (snd (revoke_runtime env i s))"
  using assms
  by (intro written_backI [where now = "re_now env (rg_draws s)" and r' = "r\<lparr>rn_revoked := True, rn_status := ''revoked''\<rparr>"
        and st = "rg_store s"])
    (simp_all add: revoke_runtime_def Let_def split_beta frame_simps write_back_frame)

lemma run_verify_fresh: "stored_fresh env s (snd (run_verify env i prin h s))"
  by (rule stored_fresh_same) (auto simp: run_verify_def Let_def frame_simps split: option.split)

section \<open>Reachable registries\<close>

fun pending_copy :: "pending_write \<Rightarrow> runtime" where
  "pending_copy (PendingPreflight r h) = r"
| "pending_copy (PendingDestroy r) = r"

definition drawn :: "registry_env \<Rightarrow> registry_state \<Rightarrow> string \<Rightarrow> bool" where
  "drawn env s i \<longleftrightarrow> (\<exists>n < rg_draws s. i = re_uuid env n)"

lemma drawn_later: "drawn env s i \<Longrightarrow> rg_draws s \<le> rg_draws t \<Longrightarrow> drawn env t i"
  by (auto simp: drawn_def intro: less_le_trans)

text \<open>Stored runtimes, and copies of them, are filed under identifiers that were drawn.\<close>

definition registry_ok :: "registry_env \<Rightarrow> registry_state \<Rightarrow> bool" where
  "registry_ok env s \<longleftrightarrow>
     (\<forall>i r. get_runtime i (rg_store s) = Some r \<longrightarrow> rn_id r = i \<and> drawn env s i) \<and>
     (\<forall>p \<in> set (rg_pending s). drawn env s (rn_id (pending_copy p)))"

text \<open>How one operation changes a runtime and the copies.\<close>

lemma finish_cases:
  obtains (out) "\<not> k < length (rg_pending s)" "finish_pending env k s = s"
  | (written) p s1 where "p \<in> set (rg_pending s)" "set (rg_pending s1) \<subseteq> set (rg_pending s)"
      "rg_store s1 = rg_store s" "rg_draws s1 = rg_draws s" "written_back s1 (pending_copy p) (finish_pending env k s)"
proof (cases "k < length (rg_pending s)")
  case False
  then show ?thesis by (intro out) (simp_all add: finish_pending_def)
next
  case True
  let ?s1 = "s\<lparr>rg_pending := take k (rg_pending s) @ drop (Suc k) (rg_pending s)\<rparr>"
  have sub: "set (rg_pending ?s1) \<subseteq> set (rg_pending s)"
    using set_take_subset set_drop_subset by fastforce
  have "written_back ?s1 (pending_copy (rg_pending s ! k)) (finish_pending env k s)"
    using True by (cases "rg_pending s ! k") (simp_all add: finish_pending_def end_preflight_back end_destroy_back)
  with True sub show ?thesis by (intro written [of "rg_pending s ! k" ?s1]) simp_all
qed

lemma registry_step_cases:
  obtains (fresh) "stored_fresh env s (registry_step env op s)"
  | (copied) i p where "get_runtime i (rg_store s) = Some (pending_copy p)"
      "registry_step env op s = s\<lparr>rg_pending := rg_pending s @ [p]\<rparr>"
  | (revoked) i r where "op = RegRevoke i" "get_runtime i (rg_store s) = Some r"
      "written_back s (r\<lparr>rn_revoked := True\<rparr>) (registry_step env op s)"
  | (written) k p s1 where "op = RegFinish k" "p \<in> set (rg_pending s)" "set (rg_pending s1) \<subseteq> set (rg_pending s)"
      "rg_store s1 = rg_store s" "rg_draws s1 = rg_draws s" "written_back s1 (pending_copy p) (registry_step env op s)"
proof -
  have same: "stored_fresh env s s" by (rule stored_fresh_same) simp_all
  show thesis
  proof (cases op)
    case (RegRegister q)
    then show ?thesis using register_fresh fresh by simp
  next
    case (RegProvision q)
    then show ?thesis using provision_fresh fresh by simp
  next
    case (RegVerify i prin h)
    then show ?thesis using run_verify_fresh fresh by simp
  next
    case (RegPreflight i h)
    then show ?thesis using same fresh copied [of i "PendingPreflight _ h"]
      by (cases "get_runtime i (rg_store s)") (simp_all add: begin_preflight_def)
  next
    case (RegRevoke i)
    then show ?thesis using same fresh revoked revoke_back
      by (cases "get_runtime i (rg_store s)") (simp_all add: revoke_runtime_def)
  next
    case (RegDestroy i)
    show ?thesis
    proof (cases "get_runtime i (rg_store s)")
      case None
      with RegDestroy same show ?thesis by (intro fresh) (simp add: begin_destroy_def)
    next
      case (Some r)
      show ?thesis
      proof (cases "rn_mode r = mode_provisioned")
        case True
        with RegDestroy Some show ?thesis by (intro copied [of i "PendingDestroy r"]) (simp_all add: begin_destroy_def)
      next
        case False
        with RegDestroy Some same show ?thesis by (intro fresh) (simp add: begin_destroy_def)
      qed
    qed
  next
    case (RegFinish k)
    then show ?thesis using same fresh written [of k]
      by (cases rule: finish_cases [where k = k and s = s and env = env]) auto
  qed
qed

lemma registry_ok_new: "registry_ok env new_registry_state"
  by (simp add: registry_ok_def new_registry_state_def new_runtime_store_def get_runtime_def)

lemma registry_ok_back:
  assumes ok: "registry_ok env s" and "written_back s r t" and "drawn env s (rn_id r)"
  shows "registry_ok env t"
proof -
  note parts = assms(2) [unfolded written_back_def]
  have later: "drawn env s i \<Longrightarrow> drawn env t i" for i using parts by (blast intro: drawn_later)
  show ?thesis
  proof (cases "\<forall>i. get_runtime i (rg_store t) = get_runtime i (rg_store s)")
    case True
    with ok parts later show ?thesis by (simp add: registry_ok_def)
  next
    case False
    with parts obtain r' where "rn_id r' = rn_id r"
      "\<And>i. get_runtime i (rg_store t) = (if i = rn_id r then Some r' else get_runtime i (rg_store s))" by blast
    then show ?thesis using ok parts later assms(3) by (simp add: registry_ok_def)
  qed
qed

lemma registry_ok_fresh:
  assumes ok: "registry_ok env s" and "stored_fresh env s t"
  shows "registry_ok env t"
proof -
  note parts = assms(2) [unfolded stored_fresh_def]
  have later: "drawn env s i \<Longrightarrow> drawn env t i" for i using parts by (blast intro: drawn_later)
  show ?thesis
  proof (cases "\<forall>i. get_runtime i (rg_store t) = get_runtime i (rg_store s)")
    case True
    with ok parts later show ?thesis by (simp add: registry_ok_def)
  next
    case False
    with parts obtain n r where n: "n < rg_draws t" "rn_id r = re_uuid env n"
      "\<And>i. get_runtime i (rg_store t) = (if i = re_uuid env n then Some r else get_runtime i (rg_store s))" by blast
    then have "drawn env t (re_uuid env n)" by (auto simp: drawn_def)
    then show ?thesis using n ok parts later by (simp add: registry_ok_def)
  qed
qed

lemma registry_step_ok:
  assumes ok: "registry_ok env s"
  shows "registry_ok env (registry_step env op s)"
proof (cases rule: registry_step_cases [where env = env and s = s and op = op])
  case fresh
  with ok show ?thesis by (rule registry_ok_fresh)
next
  case (copied i p)
  with ok have "drawn env s (rn_id (pending_copy p))" by (simp add: registry_ok_def)
  then show ?thesis using ok copied(2) by (simp add: registry_ok_def drawn_def)
next
  case (revoked i r)
  with ok show ?thesis by (intro registry_ok_back [OF ok revoked(3)]) (simp add: registry_ok_def)
next
  case (written k p s1)
  have ok1: "registry_ok env s1" using ok written(3,4,5) by (auto simp: registry_ok_def drawn_def)
  have "drawn env s1 (rn_id (pending_copy p))" using ok written(2,5) by (simp add: registry_ok_def drawn_def)
  then show ?thesis by (rule registry_ok_back [OF ok1 written(6)])
qed

interpretation runtimes: op_machine "registry_step env" "registry_ok env"
  by unfold_locales (rule registry_step_ok)

section \<open>Revocation\<close>

definition revoked_for_good :: "string \<Rightarrow> registry_state \<Rightarrow> bool" where
  "revoked_for_good i s \<longleftrightarrow> (\<exists>r. get_runtime i (rg_store s) = Some r \<and> rn_revoked r) \<and>
     (\<forall>p \<in> set (rg_pending s). rn_id (pending_copy p) = i \<longrightarrow> rn_revoked (pending_copy p))"

lemma revoked_back:
  assumes "revoked_for_good i s" and "written_back s r t" and "rn_id r = i \<Longrightarrow> rn_revoked r"
  shows "revoked_for_good i t"
proof (cases "\<forall>i. get_runtime i (rg_store t) = get_runtime i (rg_store s)")
  case True
  with assms show ?thesis by (simp add: revoked_for_good_def written_back_def)
next
  case False
  with assms(2) obtain r' where "rn_revoked r' = rn_revoked r"
    "\<And>i. get_runtime i (rg_store t) = (if i = rn_id r then Some r' else get_runtime i (rg_store s))"
    "rg_pending t = rg_pending s" unfolding written_back_def by blast
  then show ?thesis using assms(1,3) by (auto simp: revoked_for_good_def)
qed

lemma revoked_fresh:
  assumes "inj (re_uuid env)" "registry_ok env s" and "revoked_for_good i s" and "stored_fresh env s t"
  shows "revoked_for_good i t"
proof (cases "\<forall>i. get_runtime i (rg_store t) = get_runtime i (rg_store s)")
  case True
  with assms show ?thesis by (simp add: revoked_for_good_def stored_fresh_def)
next
  case False
  with assms(4) obtain n r where n: "rg_draws s \<le> n"
    "\<And>i. get_runtime i (rg_store t) = (if i = re_uuid env n then Some r else get_runtime i (rg_store s))"
    "rg_pending t = rg_pending s" unfolding stored_fresh_def by blast
  have "drawn env s i" using assms(2,3) by (auto simp: registry_ok_def revoked_for_good_def)
  then have "i \<noteq> re_uuid env n" using n(1) assms(1) by (auto simp: drawn_def dest: injD)
  then show ?thesis using assms(3) n by (simp add: revoked_for_good_def)
qed

lemma revoked_step:
  assumes inj: "inj (re_uuid env)" and ok: "registry_ok env s" and rev: "revoked_for_good i s"
  shows "revoked_for_good i (registry_step env op s)"
proof (cases rule: registry_step_cases [where env = env and s = s and op = op])
  case fresh
  show ?thesis by (rule revoked_fresh [OF inj ok rev fresh])
next
  case (copied j p)
  have "rn_id (pending_copy p) = i \<Longrightarrow> rn_revoked (pending_copy p)"
    using ok rev copied(1) by (auto simp: registry_ok_def revoked_for_good_def)
  then show ?thesis using rev copied(2) by (auto simp: revoked_for_good_def)
next
  case (revoked j r)
  then show ?thesis by (intro revoked_back [OF rev revoked(3)]) simp
next
  case (written k p s1)
  have "revoked_for_good i s1" using rev written(3,4) by (auto simp: revoked_for_good_def)
  then show ?thesis by (rule revoked_back [OF _ written(6)]) (use rev written(2) in \<open>simp add: revoked_for_good_def\<close>)
qed

lemma revoked_run:
  assumes "inj (re_uuid env)" "registry_ok env s" "revoked_for_good i s"
  shows "revoked_for_good i (fold (registry_step env) ops s)"
  using assms(2,3) by (induction ops arbitrary: s) (simp_all add: registry_step_ok revoked_step [OF assms(1)])

lemma revoked_refused: "revoked_for_good i s \<Longrightarrow> usable_by i ws s = Some ErrRuntimeRevoked"
  by (auto simp: usable_by_def revoked_for_good_def)

lemma revoked_now:
  assumes "registry_ok env s" "get_runtime i (rg_store s) = Some r"
    and "\<forall>p \<in> set (rg_pending s). rn_id (pending_copy p) \<noteq> i"
  shows "revoked_for_good i (snd (revoke_runtime env i s))"
proof -
  have "rn_id r = i" using assms(1,2) by (simp add: registry_ok_def)
  with assms(2,3) show ?thesis
    by (simp add: revoke_runtime_def Let_def split_beta frame_simps write_back_frame store_simps revoked_for_good_def)
qed

text \<open>C36: revoking a known runtime, at any time when no preflight or destruction of it is under way, is
  final: whatever registrations, provisions, verifications, preflights, revocations and destructions
  follow, in any order and interleaved, every workspace that asks to use the runtime is answered that it
  is revoked. The condition is needed: a preflight that began before writes the unrevoked copy back
  (\<open>revocation_lost\<close>).\<close>

theorem revoked_runtime_stays_refused:
  assumes "inj (re_uuid env)" and "s = fold (registry_step env) ops new_registry_state"
    and "get_runtime i (rg_store s) \<noteq> None"
    and "\<forall>p \<in> set (rg_pending s). rn_id (pending_copy p) \<noteq> i"
  shows "usable_by i ws (fold (registry_step env) (RegRevoke i # later) s) = Some ErrRuntimeRevoked"
proof -
  have ok: "registry_ok env s" unfolding assms(2) by (rule runtimes.run_inv) (rule registry_ok_new)
  moreover obtain r where "get_runtime i (rg_store s) = Some r" using assms(3) by auto
  ultimately have "revoked_for_good i (snd (revoke_runtime env i s))" using assms(4) by (rule revoked_now)
  moreover have "registry_ok env (snd (revoke_runtime env i s))"
    using registry_step_ok [OF ok, of "RegRevoke i"] by simp
  ultimately have "revoked_for_good i (fold (registry_step env) (RegRevoke i # later) s)"
    by (simp add: revoked_run [OF assms(1)])
  then show ?thesis by (rule revoked_refused)
qed

section \<open>Credentials\<close>

definition credential_of :: "register_request \<Rightarrow> string" where
  "credential_of q = (if rq_kubeconfig q = [] then rq_sa_key q else rq_kubeconfig q)"

text \<open>the credential of a registration reaches the registry through key management only: two
  registrations that differ in nothing but their credentials, and for which key management answers the
  same, get the same answer and leave the same state, events included.\<close>

theorem credentials_only_through_kms:
  assumes "credential_of q \<noteq> []" and "credential_of (q\<lparr>rq_kubeconfig := k, rq_sa_key := a\<rparr>) \<noteq> []"
    and "\<And>n. re_encrypt env n (rq_tenant_id q) (credential_of (q\<lparr>rq_kubeconfig := k, rq_sa_key := a\<rparr>)) =
      re_encrypt env n (rq_tenant_id q) (credential_of q)"
  shows "register_runtime env (q\<lparr>rq_kubeconfig := k, rq_sa_key := a\<rparr>) s = register_runtime env q s"
proof -
  have plain: "registered_runtime (q\<lparr>rq_kubeconfig := k, rq_sa_key := a\<rparr>) = registered_runtime q"
    by (intro ext) (simp add: registered_runtime_def)
  have byo: "register_byo env (q\<lparr>rq_kubeconfig := k, rq_sa_key := a\<rparr>) s = register_byo env q s"
    using assms unfolding register_byo_def credential_of_def plain by simp
  show ?thesis unfolding register_runtime_def byo plain by simp
qed

section \<open>Preflight\<close>

lemma static_preflight_ids:
  "rf_id (static_preflight a b r h) = []" "rf_runtime_id (static_preflight a b r h) = rn_id r"
  by (simp_all add: static_preflight_def Let_def split: option.split)

lemma rbac_check_passed:
  "pk_passed (rbac_check r summary) \<longleftrightarrow> \<not> contains_str summary ''cluster-admin'' \<and>
     (rn_type r = TypeCloudRun \<or> rn_mode r \<noteq> mode_byo \<or> rn_namespace r \<noteq> [] \<or> contains_str summary ''namespace='')"
  by (simp add: rbac_check_def)

lemma preflight_passes:
  "List.find (\<lambda>c. \<not> pk_passed c) (preflight_checks r h) = None \<longleftrightarrow>
     (rn_type r = TypeMinikube \<or> rn_endpoint r \<noteq> []) \<and> pk_passed (rbac_check r (to_lower (ph_kubeconfig_summary h))) \<and>
     (rn_mode r = mode_byo \<or> contains_str (to_lower (ph_kubeconfig_summary h)) ''create-namespace'') \<and>
     (rn_mode r = mode_byo \<or> ph_registry_pull_token h \<noteq> []) \<and>
     (rn_type r \<noteq> TypeGKE \<or> rn_mode r \<noteq> mode_provisioned \<or> ph_has_workload_identity h)"
  unfolding preflight_checks_def Let_def by simp

lemma first_reason:
  "(case List.find P cs of None \<Rightarrow> [] | Some c \<Rightarrow> pk_reason c) =
   (case map pk_reason (filter P cs) of [] \<Rightarrow> [] | x # _ \<Rightarrow> x)"
  by (induction cs) simp_all

text \<open>a preflight that nothing comes between sets the status of a runtime to ready exactly when its
  endpoint is known (Minikube needs none), its role is neither cluster-admin nor, outside Cloud Run, an
  own cluster without a namespace, and a provisioned runtime may create namespaces, pull from the
  registry and, on GKE, use workload identity; the reason recorded is that of the first failed check.\<close>

theorem preflight_ready_iff:
  assumes "get_runtime i (rg_store s) = Some r" and "rn_id r = i" and "rg_pending s = []"
    and "summary = to_lower (ph_kubeconfig_summary h)"
    and "own = (rn_mode r = mode_byo)"
    and "t = registry_step env (RegFinish 0) (registry_step env (RegPreflight i h) s)"
  shows "\<exists>r' p. get_runtime i (rg_store t) = Some r' \<and> preflights_of i (rg_store t) = preflights_of i (rg_store s) @ [p] \<and>
    rn_status r' = (if rf_success p then ''ready'' else ''preflight_failed'') \<and>
    rf_success p = ((rn_type r = TypeMinikube \<or> rn_endpoint r \<noteq> []) \<and> \<not> contains_str summary ''cluster-admin'' \<and>
      (rn_type r = TypeCloudRun \<or> \<not> own \<or> rn_namespace r \<noteq> [] \<or> contains_str summary ''namespace='') \<and>
      (own \<or> contains_str summary ''create-namespace'') \<and> (own \<or> ph_registry_pull_token h \<noteq> []) \<and>
      (rn_type r \<noteq> TypeGKE \<or> rn_mode r \<noteq> mode_provisioned \<or> ph_has_workload_identity h)) \<and>
    rf_reason p = (case map pk_reason (filter (\<lambda>c. \<not> pk_passed c) (rf_checks p)) of [] \<Rightarrow> [] | x # _ \<Rightarrow> x)"
proof -
  let ?p = "static_preflight (re_now env (rg_draws s)) (re_now env (rg_draws s + 1)) r h"
  define p where "p = ?p\<lparr>rf_id := re_uuid env (rg_draws s + 2)\<rparr>"
  have same: "s\<lparr>rg_pending := []\<rparr> = s" using assms(3) by (cases s) simp
  have t: "t = end_preflight env r h s"
    using assms(1,3) by (simp add: assms(6) begin_preflight_def finish_pending_def same)
  have p: "rf_runtime_id p = i" "rf_success p = rf_success ?p" "rf_reason p = rf_reason ?p" "rf_checks p = preflight_checks r h"
    using assms(2) by (simp_all add: p_def static_preflight_def Let_def split: option.split)
  have "preflights_of i (rg_store t) = preflights_of i (rg_store s) @ [p]"
    using assms(2) by (simp add: t end_preflight_def Let_def split_beta frame_simps write_back_frame update_runtime_def
      append_preflight_def static_preflight_ids p_def preflights_of_def list_at_push)
  moreover obtain r' where "get_runtime i (rg_store t) = Some r'"
      "rn_status r' = (if rf_success p then ''ready'' else ''preflight_failed'')"
    using assms(2) by (simp add: t end_preflight_def Let_def split_beta frame_simps write_back_frame store_simps p(2) if_else_def)
  moreover have "rf_success p = (List.find (\<lambda>c. \<not> pk_passed c) (preflight_checks r h) = None)"
    by (simp add: p(2) static_preflight_def Let_def split: option.split)
  note this [unfolded preflight_passes rbac_check_passed]
  moreover have "rf_reason p = (case List.find (\<lambda>c. \<not> pk_passed c) (rf_checks p) of None \<Rightarrow> [] | Some c \<Rightarrow> pk_reason c)"
    by (simp add: p(3,4) static_preflight_def Let_def split: option.split)
  note this [unfolded first_reason]
  ultimately show ?thesis unfolding assms(4,5) by blast
qed

section \<open>Verification, key management and seeding\<close>

lemma aggregate_from_alt:
  "aggregate_from o0 cs =
     (if CheckFail \<in> vc_status ` set cs then CheckFail else if CheckWarn \<in> vc_status ` set cs then CheckWarn else o0)"
  by (induction cs arbitrary: o0) (auto split: check_status.split)

lemma aggregate_status_alt:
  "aggregate_status cs =
     (if CheckFail \<in> vc_status ` set cs then CheckFail
      else if CheckWarn \<in> vc_status ` set cs then CheckWarn else CheckPass)"
  by (simp add: aggregate_status_def aggregate_from_alt)

lemma latest_verify_run:
  "run_verify env i prin h s = (Inr v, t) \<Longrightarrow> registry_ok env s \<Longrightarrow> latest_verify i t = Some v"
  by (auto simp: run_verify_def latest_verify_def Let_def verifications_of_def frame_simps append_verify_def
      list_at_push static_verify_def registry_ok_def split: option.splits)

text \<open>A runtime the default provisioner provides has an endpoint and a service account, so its preflight and
  its verification depend on the hints alone.\<close>

lemma fake_provisioned:
  assumes "fake_apply now q = Inr (outputs, plan)"
  shows "rn_endpoint (provisioned_runtime q outputs) \<noteq> []"
    and "rn_service_account_email (provisioned_runtime q outputs) \<noteq> []"
  using assms by (auto simp: fake_apply_def Let_def provisioned_runtime_def val_string_def)

text \<open>With the collaborators installed by default a tenant provisions once its backend was bootstrapped, and
  not before.\<close>

lemma backends_step:
  "has_backend (bootstrap_backend t ts) u \<longleftrightarrow> u = t \<or> has_backend ts u"
  by (simp add: has_backend_def bootstrap_backend_def)

lemma has_backend_new: "has_backend (new_backends ts) u \<longleftrightarrow> u \<in> set ts"
proof -
  have "has_backend (fold bootstrap_backend ts bs) u \<longleftrightarrow> u \<in> set ts \<or> has_backend bs u" for bs
    by (induction ts arbitrary: bs) (auto simp: backends_step)
  then show ?thesis by (simp add: new_backends_def has_backend_def)
qed

lemma provision_needs_backend:
  assumes "valid_type (vq_type q)" "vq_workspace_id q \<noteq> []" "vq_tenant_id q \<noteq> []"
  shows "(\<exists>r. fst (provision_runtime (new_registry_service digest encode uuid now backends) q s) = Inr r) \<longleftrightarrow>
    has_backend (backends (rg_draws s)) (vq_tenant_id q)"
  using assms by (simp add: provision_runtime_def new_registry_service_def fake_apply_def Let_def split_beta)

text \<open>The default key management is its own inverse: whoever knows the tenant reads the credential.\<close>

lemma xor_char_twice: "xor_char (xor_char c k) k = c"
proof -
  have small: "take_bit 8 (of_char x :: nat) = of_char x" for x by (simp add: take_bit_eq_mod)
  have "xor (of_char c :: nat) (of_char k) mod 256 = take_bit 8 (xor (of_char c) (of_char k))"
    by (simp add: take_bit_eq_mod)
  also have "\<dots> = xor (of_char c) (of_char k)" by (simp add: take_bit_xor small)
  finally show ?thesis by (simp add: xor_char_def xor.assoc)
qed

lemma xor_stream_twice: "xor_stream key (xor_stream key text) = text"
  by (rule nth_equalityI) (simp_all add: xor_stream_def xor_char_twice)

lemma seed_shared_once: "seed_shared env tenant name ty region (seed_shared env tenant name ty region s) =
    seed_shared env tenant name ty region s"
proof -
  define nm where "nm = (if name = [] then ''Forge shared (dev)'' else name)"
  define r0 where "r0 = seed_runtime tenant nm (if valid_type ty then ty else TypeMinikube) (if region = [] then ''local'' else region)"
  define there where "there (u :: registry_state) \<longleftrightarrow> list_ex (\<lambda>r. rn_tenant_id r = tenant \<and> rn_name r = nm) (list_runtimes [] (rg_store u))" for u
  have alt: "seed_shared env tenant name ty region u = (if there u then u else snd (store_runtime env r0 u))" for u
    by (simp add: seed_shared_def Let_def there_def nm_def r0_def)
  have seen: "there u \<longleftrightarrow> (\<exists>r \<in> snd ` set (rs_runtimes (rg_store u)). rn_tenant_id r = tenant \<and> rn_name r = nm)" for u
    by (simp add: there_def list_runtimes_def listed_def list_ex_iff)
  have "there (snd (store_runtime env r0 u))" for u
  proof -
    let ?r = "fst (insert_runtime (re_uuid env (rg_draws u)) (re_now env (rg_draws u + 1)) (re_now env (rg_draws u + 2)) r0 (rg_store u))"
    have "get_runtime (rn_id ?r) (rg_store (snd (store_runtime env r0 u))) = Some ?r"
      by (simp add: store_runtime_def Let_def split_beta store_simps)
    then have "(rn_id ?r, ?r) \<in> set (rs_runtimes (rg_store (snd (store_runtime env r0 u))))"
      by (simp add: get_runtime_def map_of_SomeD)
    moreover have "rn_tenant_id ?r = tenant" "rn_name ?r = nm"
      by (simp_all add: insert_runtime_def Let_def r0_def seed_runtime_def)
    ultimately show ?thesis unfolding seen by force
  qed
  then show ?thesis by (simp add: alt)
qed

section \<open>Examples\<close>

definition demo_registry_env :: registry_env where
  "demo_registry_env =
     \<lparr>re_uuid = (\<lambda>n. replicate n CHR ''u''), re_now = int, re_encrypt = (\<lambda>n t c. Inr (''cipher'', ''key'')),
      re_apply = (\<lambda>n q. Inr ([], [])), re_active = (\<lambda>n i. Inr False), re_has_backend = (\<lambda>n t. True)\<rparr>"

lemma demo_registry_inj: "inj (re_uuid demo_registry_env)"
  by (auto simp: inj_def demo_registry_env_def dest: arg_cong [where f = length])

definition demo_register :: register_request where
  "demo_register =
     \<lparr>rq_workspace_id = ''ws'', rq_tenant_id = ''t'', rq_type = TypeGKE, rq_mode = mode_byo,
      rq_visibility = VisibilityTenant, rq_name = ''own'', rq_region = [], rq_gke_mode = [], rq_project_id = [],
      rq_cluster_name = [], rq_endpoint = ''https://k8s'', rq_service_account_email = [], rq_namespace = ''apps'',
      rq_kubeconfig = ''secret'', rq_sa_key = [], rq_labels = []\<rparr>"

definition demo_provision :: provision_request where
  "demo_provision =
     \<lparr>vq_workspace_id = ''ws'', vq_tenant_id = ''t'', vq_type = TypeMinikube, vq_name = ''shared'', vq_region = [],
      vq_gke_mode = [], vq_env = ''dev''\<rparr>"

text \<open>The identifier of the runtime \<open>demo_register\<close> stores in the empty registry.\<close>

definition demo_rid :: string where "demo_rid = ''u''"

definition demo_hints :: preflight_hints where
  "demo_hints = \<lparr>ph_kubeconfig_summary = [], ph_registry_pull_token = [], ph_has_workload_identity = False\<rparr>"

definition demo_registered :: registry_state where
  "demo_registered = fold (registry_step demo_registry_env) [RegRegister demo_register] new_registry_state"

lemma demo_registered_facts:
  "map_option rn_id (get_runtime demo_rid (rg_store demo_registered)) = Some demo_rid" "rg_pending demo_registered = []"
  "map_option rn_endpoint (get_runtime demo_rid (rg_store demo_registered)) = Some ''https://k8s''"
  by code_simp+

theorem revoked_runtime_stays_refused_witness:
  "usable_by demo_rid ''ws'' (fold (registry_step demo_registry_env)
     [RegRevoke demo_rid, RegPreflight demo_rid demo_hints, RegFinish 0] demo_registered) = Some ErrRuntimeRevoked"
  using demo_registered_facts(1,2)
  by (intro revoked_runtime_stays_refused [OF demo_registry_inj demo_registered_def]) auto

theorem credentials_only_through_kms_witness:
  "register_runtime demo_registry_env (demo_register\<lparr>rq_kubeconfig := ''other'', rq_sa_key := ''x''\<rparr>) new_registry_state =
   register_runtime demo_registry_env demo_register new_registry_state"
  by (rule credentials_only_through_kms) (simp_all add: credential_of_def demo_register_def demo_registry_env_def)

theorem preflight_ready_iff_witness:
  "\<exists>p. preflights_of demo_rid (rg_store (registry_step demo_registry_env (RegFinish 0)
     (registry_step demo_registry_env (RegPreflight demo_rid demo_hints) demo_registered))) = [p]"
proof -
  obtain r where "get_runtime demo_rid (rg_store demo_registered) = Some r" "rn_id r = demo_rid"
    using demo_registered_facts(1) by auto
  from preflight_ready_iff [OF this demo_registered_facts(2) refl refl refl, where env = demo_registry_env and h = demo_hints]
  have "\<exists>p. preflights_of demo_rid (rg_store (registry_step demo_registry_env (RegFinish 0)
     (registry_step demo_registry_env (RegPreflight demo_rid demo_hints) demo_registered))) =
       preflights_of demo_rid (rg_store demo_registered) @ [p]" by blast
  moreover have "preflights_of demo_rid (rg_store demo_registered) = []" by code_simp
  ultimately show ?thesis by simp
qed

text \<open>The exception is real: a preflight that began before the revocation writes its unrevoked copy back.\<close>

lemma revocation_lost:
  "usable_by demo_rid ''elsewhere'' (fold (registry_step demo_registry_env)
     [RegRegister demo_register, RegPreflight demo_rid demo_hints, RegRevoke demo_rid, RegFinish 0] new_registry_state) = None"
  by code_simp

text \<open>A destroyed runtime is still usable, since only the revocation is looked at.\<close>

definition demo_pid :: string where "demo_pid = ''uu''"

lemma destroyed_still_usable:
  "usable_by demo_pid ''ws'' (fold (registry_step demo_registry_env)
     [RegProvision demo_provision, RegDestroy demo_pid, RegFinish 0] new_registry_state) = None"
  "map_option rn_status (get_runtime demo_pid (rg_store (fold (registry_step demo_registry_env)
     [RegProvision demo_provision, RegDestroy demo_pid, RegFinish 0] new_registry_state))) = Some ''destroyed''"
  by code_simp+

text \<open>And a preflight after it makes a destroyed runtime ready again.\<close>

lemma destroyed_ready_again:
  "map_option rn_status (get_runtime demo_pid (rg_store (fold (registry_step demo_registry_env)
     [RegProvision demo_provision, RegDestroy demo_pid, RegFinish 0,
      RegPreflight demo_pid (demo_hints\<lparr>ph_kubeconfig_summary := ''create-namespace'', ph_registry_pull_token := ''t''\<rparr>),
      RegFinish 0] new_registry_state))) = Some ''ready''"
  by code_simp

text \<open>A tenant-visible runtime is usable by every workspace, those of other tenants included.\<close>

lemma visible_to_every_tenant:
  "get_runtime i (rg_store s) = Some r \<Longrightarrow> rn_visibility r = VisibilityTenant \<Longrightarrow> \<not> rn_revoked r \<Longrightarrow> usable_by i ws s = None"
  by (simp add: usable_by_def)

end
