(* ===== verification/Spec2Isabelle.thy ===== *)
theory Spec2Isabelle
  imports Semver Workflow_Diff Workflow_Catalog Workflow_Registry Workflow_Concurrency Workflow_Run
    Deploy_Flow Sdlc_Flow Policy_Engine Trigger_Router Deploy_Gate App_Flow Healing_Flow Runtime_Flow
begin

text \<open>
  Forge, an engineering platform of Go services (\<open>services/\<close>) over shared packages (\<open>pkg/\<close>): this
  library models the logic the services carry themselves and proves what makes it correct. Paths
  below are relative to the root of the repository.

  \<^bold>\<open>The parts and how they interact.\<close> People and agents write workflows. The DSL package parses
  them, the linter checks them, and the workflow registry publishes them as immutable semantic
  versions; the workflow runtime executes a published workflow step by step under a concurrency
  policy per trigger. A delivery is driven by the SDLC orchestrator, which moves an initiative
  through the phases of a plan, and ends in the deploy orchestrator, which checks policies and image
  signatures and applies manifests through a connector; both consult the policy engine, whose
  overrides let a person relax a rule for a limited time. The trigger router
  indexes the triggers of published workflows and starts executions of the runtime when a webhook, a
  timer, a bus event, a mail or a person fires one. The application service keeps the applications deliveries
  belong to, with the design system and the delivery targets of each (which no service passes on to a delivery). The healing
  engine decides at which of five levels an incident is answered, from a notification to a workflow that
  runs by itself, within envelopes, rate limits and approvals. The runtime
  registry keeps the clusters workspaces bring or have provisioned, checks them, and says who may use one.

  \<^bold>\<open>Theories and sources.\<close>

  \<^item> \<^verbatim>\<open>Fabric_Prelude\<close>: the functions of Go's standard library the code calls (strings, decimal
    printing, 64-bit wrap-around, UTC calendar, stable sorting), objects, maps of lists, the hint
    collections, and the interfaces: \<open>keyed_store\<close> (a map of values under their keys),
    \<open>op_machine\<close> (operations that keep an invariant), \<open>monotone_machine\<close> (and move up a preorder),
    \<open>simulation\<close> (and implement an abstract step relation), \<open>three_way\<close> (comparison functions).
    Each is interpreted by the components that provide it.
  \<^item> \<^verbatim>\<open>Workflow_AST\<close>: \<^verbatim>\<open>pkg/workflow/ast/ast.go\<close> and \<^verbatim>\<open>ref.go\<close>, the data of workflows and the parser and
    printer of registry references.
  \<^item> \<^verbatim>\<open>Workflow_DSL\<close>: \<^verbatim>\<open>pkg/workflow/dsl/parse.go\<close>, \<^verbatim>\<open>pkg/workflow/schema/schema.go\<close>.
  \<^item> \<^verbatim>\<open>Workflow_Lint\<close>: \<^verbatim>\<open>pkg/workflow/lint/lint.go\<close>, all checks; the cycle search is proved equivalent
    to acyclicity, and a clean result to a list of guarantees.
  \<^item> \<^verbatim>\<open>Semver\<close>, \<^verbatim>\<open>Workflow_Diff\<close>, \<^verbatim>\<open>Workflow_Catalog\<close>, \<^verbatim>\<open>Workflow_Registry\<close>: \<^verbatim>\<open>semver.go\<close>, \<^verbatim>\<open>diff.go\<close>,
    \<^verbatim>\<open>migrate_catalog.go\<close>, \<^verbatim>\<open>service.go\<close> and \<^verbatim>\<open>seed.go\<close> of
    \<^verbatim>\<open>services/workflow-registry/internal/registry\<close>. The state is the record \<open>registry\<close>; its
    operations are a machine whose stored versions only grow.
  \<^item> \<^verbatim>\<open>Workflow_Concurrency\<close>, \<^verbatim>\<open>Workflow_Runtime\<close>, \<^verbatim>\<open>Workflow_Run\<close>: \<^verbatim>\<open>concurrency.go\<close>, \<^verbatim>\<open>inmemory.go\<close>, \<^verbatim>\<open>types.go\<close> and
    \<^verbatim>\<open>hitl.go\<close> of \<^verbatim>\<open>services/workflow-runtime/internal/runtime\<close>. The lane tracker is a step relation
    with interleaved executions; a run of the engine is sequential, its step executors are
    parameters, and what its waits see is an explicit list.
  \<^item> \<^verbatim>\<open>Deploy_Connectors\<close>: \<^verbatim>\<open>pkg/runtimes\<close>, \<^verbatim>\<open>pkg/deployers\<close> (the three connectors over a log of the
    commands they run) and \<^verbatim>\<open>pkg/cosign\<close>.
  \<^item> \<^verbatim>\<open>Deploy_Policy\<close>, \<^verbatim>\<open>Deploy_Store\<close>, \<^verbatim>\<open>Deploy_Service\<close>, \<^verbatim>\<open>Deploy_Flow\<close>: \<^verbatim>\<open>policy.go\<close>, \<^verbatim>\<open>types.go\<close>,
    \<^verbatim>\<open>service.go\<close>, \<^verbatim>\<open>events.go\<close> and \<^verbatim>\<open>runtime_provider.go\<close> of
    \<^verbatim>\<open>services/deploy-orchestrator/internal/deploy\<close>. The store is a heap of deployments, since the
    code shares pointers; the service is a machine over it that is simulated by the store's own
    operations.
  \<^item> \<^verbatim>\<open>Sdlc\<close>, \<^verbatim>\<open>Sdlc_Flow\<close>: \<^verbatim>\<open>types.go\<close>, \<^verbatim>\<open>gates.go\<close>, \<^verbatim>\<open>store.go\<close>, \<^verbatim>\<open>service.go\<close> and \<^verbatim>\<open>events.go\<close> of
    \<^verbatim>\<open>services/sdlc-orchestrator/internal/sdlc\<close>. Seen through one initiative, every operation of the
    service is exactly one move of an abstract machine that walks a plan.
  \<^item> \<^verbatim>\<open>Policy_Engine\<close>: \<^verbatim>\<open>internal/policy/policy.go\<close>, \<^verbatim>\<open>internal/policy/sdlc.go\<close> and
    \<^verbatim>\<open>internal/override/override.go\<close> of \<^verbatim>\<open>services/policy-engine\<close>.
  \<^item> \<^verbatim>\<open>Trigger_Router\<close>: \<^verbatim>\<open>services/trigger-router/internal/trigger\<close>. The registry refines a map; the
    retry loop is compared with the first definite answer; cron and bus refreshes are two
    interpretations of one interface, \<open>resync\<close>.
  \<^item> \<^verbatim>\<open>App_Store\<close>, \<^verbatim>\<open>App_Service\<close>, \<^verbatim>\<open>App_Design\<close>, \<^verbatim>\<open>App_Invariants\<close>, \<^verbatim>\<open>App_Flow\<close>: \<^verbatim>\<open>types.go\<close>,
    \<^verbatim>\<open>service.go\<close>, \<^verbatim>\<open>authz.go\<close>, \<^verbatim>\<open>events.go\<close>, \<^verbatim>\<open>bootstrap.go\<close>, \<^verbatim>\<open>design_system.go\<close>,
    \<^verbatim>\<open>design_system_service.go\<close> and the status codes and webhook of \<^verbatim>\<open>http.go\<close> of
    \<^verbatim>\<open>services/application/internal/application\<close>, and \<^verbatim>\<open>internal/migration/migration.go\<close>. The maps of
    targets live in a heap, since applications share them. What every closure given to the store's
    update must keep is the interface \<open>app_change\<close>, with one interpretation per operation.
  \<^item> \<^verbatim>\<open>Deploy_Gate\<close>: the client of the policy engine in \<^verbatim>\<open>policy.go\<close> of the deploy orchestrator and the
    evaluation endpoint in \<^verbatim>\<open>services/policy-engine/cmd/server/main.go\<close>.
  \<^item> \<^verbatim>\<open>Healing\<close>, \<^verbatim>\<open>Healing_Flow\<close>: \<^verbatim>\<open>types.go\<close>, \<^verbatim>\<open>service.go\<close>, \<^verbatim>\<open>l1l2.go\<close>,
    \<^verbatim>\<open>events.go\<close> and the handlers of \<^verbatim>\<open>http.go\<close> that change state, of
    \<^verbatim>\<open>services/healing-engine/internal/engine\<close>. A trigger that waits for an approval is kept in a list
    until it is answered, so other operations can come between.
  \<^item> \<^verbatim>\<open>Runtime_Registry\<close>, \<^verbatim>\<open>Runtime_Flow\<close>: \<^verbatim>\<open>types.go\<close>, \<^verbatim>\<open>service.go\<close>,
    \<^verbatim>\<open>verify.go\<close>, \<^verbatim>\<open>preflight.go\<close>, \<^verbatim>\<open>kms.go\<close>, \<^verbatim>\<open>events.go\<close> and the status codes of \<^verbatim>\<open>http.go\<close> of
    \<^verbatim>\<open>services/runtime-registry/internal/runtime\<close>, and the seeding in its \<^verbatim>\<open>cmd/main.go\<close>. A preflight or a
    destruction holds a copy of a runtime and writes it back later; what comes between is modelled.
  \<^item> This theory: what holds across services, from the publication of a workflow to the subscription of
    its triggers on the event bus.

  \<^bold>\<open>Conventions.\<close> A Go struct is a record, a string type with named constants a datatype with a
  constructor for every other string, a map an association list read through \<^const>\<open>map_of\<close>, an
  error a constructor of an error type or its text, a nil pointer \<open>None\<close>; nil and empty slices are
  told apart where the code compares them (\<open>reflect.DeepEqual\<close> in the diff of workflows, by flags of
  the records) and nowhere else. Case mapping is that of ASCII letters. Integers that may overflow are
  wrapped by \<^const>\<open>wrap64\<close>. Operations under a lock are atomic. Identifiers and clocks are functions of the number of draws, collaborators of a
  service fields of an environment record; uniqueness of identifiers is the injectivity of that
  function and appears as a hypothesis where it is used. Events and logs are lists.

  \<^bold>\<open>Lemma groups.\<close> Each component has frame lemmas (what an operation leaves alone), one invariant
  lemma per operation, and an interpretation of the machine locales, from which the properties
  about all reachable states follow. Functional properties compare an operation with an independent
  description (least next version, cyclic freeze windows, most restrictive decision, the plan after
  a phase). Theorems named as witnesses apply a property at a concrete input.

  \<^bold>\<open>Fuel and bounds.\<close> The depth-first search of the linter runs with as much fuel as there are
  steps, which is proved to be enough. The loop of the engine over pending steps and the loop of the
  plan over skipped phases end by a measure. The retry loops count down from the policy's maximum.
  Paging through deployments takes at most one page per stored deployment.

  \<^bold>\<open>Not modelled.\<close> HTTP handlers, JSON and YAML codecs, event envelopes beyond what is listed,
  metrics as text, SQL and Redis statements (asset registry, control plane, gateways), the CEL
  evaluator, process start-up and the user interface; they are parameters where the modelled code
  depends on them. Real time and goroutine scheduling below the granularity of an operation are not
  modelled either.
\<close>
section \<open>Workflows and their triggers\<close>

text \<open>The trigger router repeats the catalogue of event topics that the linter checks against.\<close>

lemma known_topics_parity: "default_known_topics = known_event_topics"
  by (simp add: default_known_topics_def known_event_topics_def)

lemma ingested:
  assumes "t \<in> set (sp_triggers (wf_spec w))"
  shows "\<exists>n. trigger_subscription tenant ws w (now n) t \<in> set (ingest_subs now tenant ws w)"
proof -
  from assms obtain n where n: "n < length (sp_triggers (wf_spec w))" "t = sp_triggers (wf_spec w) ! n"
    by (auto simp: in_set_conv_nth)
  then have "(n, t) \<in> set (zip [0..<length (sp_triggers (wf_spec w))] (sp_triggers (wf_spec w)))"
    by (auto simp: in_set_conv_nth)
  then show ?thesis unfolding ingest_subs_def Let_def by (intro exI [of _ n]) force
qed

lemma ingest_distinct:
  assumes "distinct (map tr_id (sp_triggers (wf_spec w)))"
  shows "distinct (map sub_key (ingest_subs now tenant ws w))"
proof -
  have "map sub_key (ingest_subs now tenant ws w) =
      map (\<lambda>t. (md_id (wf_metadata w), tr_id t, md_version (wf_metadata w))) (sp_triggers (wf_spec w))"
    by (rule nth_equalityI) (simp_all add: ingest_subs_def Let_def sub_key_def trigger_subscription_def)
  also have "\<dots> = map (\<lambda>i. (md_id (wf_metadata w), i, md_version (wf_metadata w))) (map tr_id (sp_triggers (wf_spec w)))"
    by simp
  also have "distinct \<dots>" using assms by (subst distinct_map) (auto simp: inj_on_def)
  finally show ?thesis .
qed

lemma desired_complete:
  assumes "reg_ok reg" "map_of (sr_subs reg) k = Some s"
  shows "map_of (desired_subs (su_type s) reg) k = Some s"
proof -
  have s: "s \<in> set (by_type (su_type s) reg)" using assms by (rule by_type_complete)
  have key: "sub_key s = k" using reg_ok_lookup [OF assms] by simp
  have all: "\<exists>j. map_of (sr_subs reg) j = Some u" if "u \<in> set (by_type (su_type s) reg)" for u
    using by_type_registered that by blast
  have "map_of (desired_subs (su_type s) reg) k \<noteq> None"
  proof -
    have "s \<in> set us \<or> map_of m k \<noteq> None \<Longrightarrow> map_of (fold (\<lambda>s m. AList.update (sub_key s) s m) us m) k \<noteq> None" for us m
      by (induction us arbitrary: m) (auto simp: store_simps key)
    then show ?thesis using s by (simp add: desired_subs_def)
  qed
  then obtain u where u: "map_of (desired_subs (su_type s) reg) k = Some u" by auto
  from desired_subs_lookup [OF this] obtain j where "map_of (sr_subs reg) j = Some u" "sub_key u = k"
    using all by blast
  with reg_ok_lookup [OF assms(1) this(1)] assms(2) u show ?thesis by auto
qed

text \<open>C35: every event bus trigger of a workflow the linter accepts gets its bus subscription. Suppose the
  triggers of the workflow have distinct identifiers, the trigger names a topic, and the bus accepts
  subscriptions. Once the publication has reached the trigger router and the router has refreshed, then, if
  the key of the trigger had no entry before, it has one that was subscribed to the topic of the
  trigger and fires for the published workflow, version and tenant; an entry the key had before is kept as
  it is, even if its topic differs.\<close>

theorem published_bus_triggers_subscribed:
  assumes "lint_clean w" and "distinct (map tr_id (sp_triggers (wf_spec w)))"
    and "t \<in> set (sp_triggers (wf_spec w))" and "tr_type t = TriggerEventBus"
    and "val_string (map_of (tr_config t) ''topic'') \<noteq> []"
    and "\<And>topic n. \<exists>h. tn_subscribe env topic n = Inr h"
    and "reg = fold sub_step (ops @ [RegIngest now tenant ws w]) new_sub_registry"
    and "sc' = bus_refresh env default_known_topics reg sc"
    and "k = (md_id (wf_metadata w), tr_id t, md_version (wf_metadata w))"
  shows "case map_of (sc_entries sc) k of
      Some e \<Rightarrow> map_of (sc_entries sc') k = Some e
    | None \<Rightarrow> \<exists>h s n. map_of (sc_entries sc') k = Some (h, s) \<and>
        tn_subscribe env (val_string (map_of (tr_config t) ''topic'')) n = Inr h \<and>
        su_config s = tr_config t \<and> su_tenant_id s = tenant \<and> su_workspace_id s = ws \<and>
        su_workflow_id s = md_id (wf_metadata w) \<and> su_version s = md_version (wf_metadata w) \<and> su_trigger_id s = tr_id t"
proof -
  let ?before = "fold sub_step ops new_sub_registry"
  let ?subs = "ingest_subs now tenant ws w"
  obtain n where n: "trigger_subscription tenant ws w (now n) t \<in> set ?subs" using ingested [OF assms(3)] by blast
  let ?s = "trigger_subscription tenant ws w (now n) t"
  have key: "sub_key ?s = k" by (simp add: sub_key_def trigger_subscription_def assms(9))
  have ok: "reg_ok reg" unfolding assms(7) by (rule reg.run_inv) (rule reg_ok_new)
  have "map_of (rev (map (\<lambda>s. (sub_key s, s)) ?subs)) k = Some ?s"
    using n key ingest_distinct [OF assms(2), of now tenant ws]
    by (intro map_of_is_SomeI) (auto simp: rev_map [symmetric] o_def intro: rev_image_eqI)
  then have "map_of (sr_subs reg) k = Some ?s"
    by (simp add: assms(7) ingest_workflow_def Let_def puts_lookup)
  from desired_complete [OF ok this]
  have des: "map_of (desired_subs TriggerEventBus reg) k = Some ?s"
    by (simp add: trigger_subscription_def assms(4))
  have "check_trigger t = []"
  proof (rule ccontr)
    assume "check_trigger t \<noteq> []"
    then obtain f where f: "f \<in> set (check_trigger t)" by (cases "check_trigger t") auto
    then have "is_error f" by (auto simp: check_trigger_def Let_def split: if_splits)
    moreover have "f \<in> set (lint (Some w))" using f assms(3) by (auto simp: lint_def check_triggers_def Let_def)
    ultimately show False using assms(1) by (auto simp: lint_clean_def result_errors_def filter_empty_conv)
  qed
  then have topic: "sub_topic ?s \<noteq> [] \<and> sub_topic ?s \<in> set default_known_topics"
    using assms(4,5) by (auto simp: check_trigger_def sub_topic_def trigger_subscription_def known_topics_parity Let_def split: if_splits)
  show ?thesis
  proof (cases "map_of (sc_entries sc) k")
    case (Some e)
    then show ?thesis using des bus.resynced_kept [of _ k sc e] by (simp add: assms(8) bus_refresh_resynced)
  next
    case None
    have "\<exists>h n. map_of (sc_entries sc') k = Some (h, ?s) \<and> tn_subscribe env (sub_topic ?s) n = Inr h"
      unfolding assms(8) bus_refresh_resynced
      using assms(6) by (intro bus.resynced_complete [OF des desired_subs_distinct topic _ None])
    then show ?thesis using None by (auto simp: trigger_subscription_def sub_topic_def)
  qed
qed

text \<open>A workflow with one trigger on a catalogued topic, and no steps.\<close>

definition incident_workflow :: workflow where
  "incident_workflow = one_trigger TriggerEventBus [(''topic'', VString ''incident.opened.v1'')]"

lemma incident_workflow_clean: "lint_clean incident_workflow"
  unfolding lint_clean_def incident_workflow_def by code_simp

theorem published_bus_triggers_subscribed_witness:
  "\<exists>h s. map_of (sc_entries (bus_refresh quiet_env default_known_topics
      (fold sub_step [RegIngest (\<lambda>n. 1) ''acme'' ''ws'' incident_workflow] new_sub_registry) new_schedule))
    (''wf'', ''t'', ''1.0.0'') = Some (h, s) \<and> su_tenant_id s = ''acme''"
proof -
  let ?t = "hd (sp_triggers (wf_spec incident_workflow))"
  have w: "distinct (map tr_id (sp_triggers (wf_spec incident_workflow)))"
    "?t \<in> set (sp_triggers (wf_spec incident_workflow))" "tr_type ?t = TriggerEventBus"
    "val_string (map_of (tr_config ?t) ''topic'') \<noteq> []" "tr_id ?t = ''t''"
    "md_id (wf_metadata incident_workflow) = ''wf''" "md_version (wf_metadata incident_workflow) = ''1.0.0''"
    by (simp_all add: incident_workflow_def one_trigger_def zero_defs val_string_def)
  have bus: "\<exists>h. tn_subscribe quiet_env topic n = Inr h" for topic n by (simp add: quiet_env_def)
  have "sc_entries new_schedule = []" by (simp add: new_schedule_def)
  with published_bus_triggers_subscribed [OF incident_workflow_clean w(1-4) bus, where ops = "[]",
      OF refl refl refl, of "\<lambda>n. 1" "''acme''" "''ws''" new_schedule]
  show ?thesis by (auto simp: w(5-7))
qed


end
